(* ===== verification/Blip_Strings.thy ===== *)
theory Blip_Strings
  imports Blip_Prelude
begin

text \<open>
  The part of Go's \<open>strings\<close> and \<open>strconv\<close> packages the program uses, over strings as
  byte lists. \<open>ToLower\<close>, \<open>ToUpper\<close> and \<open>TrimSpace\<close> are given on ASCII, which is what
  DNS names in presentation form, configuration keys and list files hold; the Unicode case
  and space tables are not modelled.

  The second half is the vocabulary of domain names: a name's ancestors (what follows each
  of its dots), and the coverage predicate every matcher of the program computes.
\<close>

subsection \<open>Prefixes, suffixes and trimming\<close>

definition HasPrefix :: "string \<Rightarrow> string \<Rightarrow> bool" where
  "HasPrefix s p \<longleftrightarrow> take (length p) s = p"

definition HasSuffix :: "string \<Rightarrow> string \<Rightarrow> bool" where
  "HasSuffix s p \<longleftrightarrow> length p \<le> length s \<and> drop (length s - length p) s = p"

definition TrimPrefix :: "string \<Rightarrow> string \<Rightarrow> string" where
  "TrimPrefix s p = (if HasPrefix s p then drop (length p) s else s)"

definition TrimSuffix :: "string \<Rightarrow> string \<Rightarrow> string" where
  "TrimSuffix s p = (if HasSuffix s p then take (length s - length p) s else s)"

text \<open>\<open>strings.CutSuffix\<close>: what precedes the suffix, and whether it was there.\<close>

definition CutSuffix :: "string \<Rightarrow> string \<Rightarrow> string option" where
  "CutSuffix s p = (if HasSuffix s p then Some (take (length s - length p) s) else None)"

definition TrimLeft :: "string \<Rightarrow> string \<Rightarrow> string" where
  "TrimLeft s cutset = dropWhile (\<lambda>c. c \<in> set cutset) s"

definition TrimRight :: "string \<Rightarrow> string \<Rightarrow> string" where
  "TrimRight s cutset = rev (dropWhile (\<lambda>c. c \<in> set cutset) (rev s))"

definition Trim :: "string \<Rightarrow> string \<Rightarrow> string" where
  "Trim s cutset = TrimRight (TrimLeft s cutset) cutset"

text \<open>Tab, newline, vertical tab, form feed, carriage return, space.\<close>

definition asciiSpaces :: string where
  "asciiSpaces = map char_of [9, 10, 11, 12, 13, 32 :: nat]"

definition TrimSpace :: "string \<Rightarrow> string" where
  "TrimSpace s = Trim s asciiSpaces"

definition lowerChar :: "char \<Rightarrow> char" where
  "lowerChar c =
     (let n = (of_char c :: nat) in if 65 \<le> n \<and> n \<le> 90 then char_of (n + 32) else c)"

definition upperChar :: "char \<Rightarrow> char" where
  "upperChar c =
     (let n = (of_char c :: nat) in if 97 \<le> n \<and> n \<le> 122 then char_of (n - 32) else c)"

definition ToLower :: "string \<Rightarrow> string" where
  "ToLower s = map lowerChar s"

definition ToUpper :: "string \<Rightarrow> string" where
  "ToUpper s = map upperChar s"

subsection \<open>Searching and splitting\<close>

text \<open>\<open>strings.IndexByte\<close> and \<open>strings.IndexAny\<close>: the first index, \<open>None\<close> for \<open>-1\<close>.\<close>

fun IndexP :: "(char \<Rightarrow> bool) \<Rightarrow> string \<Rightarrow> nat option" where
  "IndexP P [] = None"
| "IndexP P (c # cs) = (if P c then Some 0 else map_option Suc (IndexP P cs))"

definition IndexByte :: "string \<Rightarrow> char \<Rightarrow> nat option" where
  "IndexByte s c = IndexP (\<lambda>x. x = c) s"

definition IndexAny :: "string \<Rightarrow> string \<Rightarrow> nat option" where
  "IndexAny s chars = IndexP (\<lambda>x. x \<in> set chars) s"

definition LastIndexByte :: "string \<Rightarrow> char \<Rightarrow> nat option" where
  "LastIndexByte s c = map_option (\<lambda>i. length s - 1 - i) (IndexByte (rev s) c)"

text \<open>\<open>strings.Index\<close> of a substring.\<close>

fun Index :: "string \<Rightarrow> string \<Rightarrow> nat option" where
  "Index [] sub = (if sub = [] then Some 0 else None)"
| "Index (c # cs) sub =
     (if HasPrefix (c # cs) sub then Some 0 else map_option Suc (Index cs sub))"

definition Contains :: "string \<Rightarrow> string \<Rightarrow> bool" where
  "Contains s sub \<longleftrightarrow> Index s sub \<noteq> None"

definition ContainsAny :: "string \<Rightarrow> string \<Rightarrow> bool" where
  "ContainsAny s chars \<longleftrightarrow> (\<exists>c \<in> set s. c \<in> set chars)"

text \<open>\<open>strings.Split\<close> with a one-byte separator: always at least one piece.\<close>

fun Split :: "string \<Rightarrow> char \<Rightarrow> string list" where
  "Split [] sep = [[]]"
| "Split (c # cs) sep =
     (if c = sep then [] # Split cs sep
      else (case Split cs sep of [] \<Rightarrow> [[c]] | p # ps \<Rightarrow> (c # p) # ps))"

fun Join :: "string list \<Rightarrow> string \<Rightarrow> string" where
  "Join [] sep = []"
| "Join [p] sep = p"
| "Join (p # ps) sep = p @ sep @ Join ps sep"

text \<open>\<open>strings.FieldsFunc\<close>: the maximal runs of bytes that are no separators.\<close>

fun FieldsFunc_aux :: "(char \<Rightarrow> bool) \<Rightarrow> string \<Rightarrow> string \<Rightarrow> string list" where
  "FieldsFunc_aux P [] acc = (if acc = [] then [] else [rev acc])"
| "FieldsFunc_aux P (c # cs) acc =
     (if P c then (if acc = [] then FieldsFunc_aux P cs [] else rev acc # FieldsFunc_aux P cs [])
      else FieldsFunc_aux P cs (c # acc))"

definition FieldsFunc :: "string \<Rightarrow> (char \<Rightarrow> bool) \<Rightarrow> string list" where
  "FieldsFunc s P = FieldsFunc_aux P s []"

definition Fields :: "string \<Rightarrow> string list" where
  "Fields s = FieldsFunc s (\<lambda>c. c \<in> set asciiSpaces)"

subsection \<open>Numbers\<close>

definition isDigit :: "char \<Rightarrow> bool" where
  "isDigit c \<longleftrightarrow> (let n = (of_char c :: nat) in 48 \<le> n \<and> n \<le> 57)"

definition digitVal :: "char \<Rightarrow> nat" where
  "digitVal c = of_char c - 48"

definition digitChar :: "nat \<Rightarrow> char" where
  "digitChar d = char_of (48 + d)"

definition decVal :: "string \<Rightarrow> nat" where
  "decVal s = foldl (\<lambda>acc c. 10 * acc + digitVal c) 0 s"

text \<open>
  \<open>strconv.Atoi\<close> on a 64-bit platform: an optional sign, then decimal digits, within the
  range of \<open>int64\<close>.
\<close>

definition Atoi :: "string \<Rightarrow> int option" where
  "Atoi s =
     (let neg = HasPrefix s ''-'';
          ds = (if HasPrefix s ''-'' \<or> HasPrefix s ''+'' then drop 1 s else s)
      in if ds = [] \<or> \<not> list_all isDigit ds then None
         else let v = (if neg then - int (decVal ds) else int (decVal ds))
              in if - (2 ^ 63) \<le> v \<and> v < 2 ^ 63 then Some v else None)"

fun ItoaNat :: "nat \<Rightarrow> string" where
  "ItoaNat n = (if n < 10 then [digitChar n] else ItoaNat (n div 10) @ [digitChar (n mod 10)])"

declare ItoaNat.simps [simp del]

definition Itoa :: "int \<Rightarrow> string" where
  "Itoa i = (if i < 0 then ''-'' @ ItoaNat (nat (- i)) else ItoaNat (nat i))"

subsection \<open>Lemmas on prefixes, suffixes and case\<close>

lemma HasPrefix_iff: "HasPrefix s p \<longleftrightarrow> (\<exists>t. s = p @ t)"
  unfolding HasPrefix_def by (metis append_eq_conv_conj append_take_drop_id)

lemma HasPrefix_append [simp]: "HasPrefix (p @ t) p"
  by (auto simp: HasPrefix_iff)

lemma HasSuffix_iff: "HasSuffix s p \<longleftrightarrow> (\<exists>t. s = t @ p)"
proof
  assume "HasSuffix s p"
  then have "s = take (length s - length p) s @ p"
    by (metis HasSuffix_def append_take_drop_id)
  then show "\<exists>t. s = t @ p" ..
qed (auto simp: HasSuffix_def)

lemma HasSuffix_append [simp]: "HasSuffix (t @ p) p"
  by (auto simp: HasSuffix_iff)

lemma HasSuffix_single: "HasSuffix s [c] \<longleftrightarrow> s \<noteq> [] \<and> last s = c"
  by (cases s rule: rev_cases) (auto simp: HasSuffix_iff)

lemma TrimPrefix_append [simp]: "TrimPrefix (p @ t) p = t"
  by (simp add: TrimPrefix_def)

lemma TrimSuffix_append [simp]: "TrimSuffix (t @ p) p = t"
  by (simp add: TrimSuffix_def)

lemma TrimSuffix_noop: "\<not> HasSuffix s p \<Longrightarrow> TrimSuffix s p = s"
  by (simp add: TrimSuffix_def)

lemma CutSuffix_Some: "CutSuffix s p = Some t \<longleftrightarrow> s = t @ p"
  by (auto simp: CutSuffix_def HasSuffix_iff)

lemma TrimSuffix_dot:
  "TrimSuffix s [c] = (if s \<noteq> [] \<and> last s = c then butlast s else s)"
  by (auto simp: TrimSuffix_def HasSuffix_single butlast_conv_take)

lemma lowerChar_idem [simp]: "lowerChar (lowerChar c) = lowerChar c"
  by (auto simp: lowerChar_def Let_def)

lemma lowerChar_keeps:
  assumes "(of_char d :: nat) < 65 \<or> 122 < (of_char d :: nat)"
  shows "lowerChar c = d \<longleftrightarrow> c = d"
  using assms by (auto simp: lowerChar_def Let_def)

lemma lowerChar_dot [simp]: "lowerChar c = CHR ''.'' \<longleftrightarrow> c = CHR ''.''"
  by (rule lowerChar_keeps) simp

lemma lowerChar_star [simp]: "lowerChar c = CHR ''*'' \<longleftrightarrow> c = CHR ''*''"
  by (rule lowerChar_keeps) simp

lemma ToLower_simps [simp]:
  "ToLower [] = []"
  "ToLower (c # cs) = lowerChar c # ToLower cs"
  "ToLower (xs @ ys) = ToLower xs @ ToLower ys"
  by (simp_all add: ToLower_def)

lemma ToLower_empty_iff [simp]: "ToLower s = [] \<longleftrightarrow> s = []"
  by (simp add: ToLower_def)

lemma ToLower_idem [simp]: "ToLower (ToLower s) = ToLower s"
  by (induction s) auto

lemma length_ToLower [simp]: "length (ToLower s) = length s"
  by (simp add: ToLower_def)

lemma last_ToLower: "s \<noteq> [] \<Longrightarrow> last (ToLower s) = lowerChar (last s)"
  by (simp add: ToLower_def last_map)

lemma butlast_ToLower: "butlast (ToLower s) = ToLower (butlast s)"
  by (simp add: ToLower_def map_butlast)

lemma TrimSuffix_ToLower: "TrimSuffix (ToLower s) ''.'' = ToLower (TrimSuffix s ''.'')"
  by (auto simp: TrimSuffix_dot last_ToLower butlast_ToLower)

subsection \<open>Lemmas on searching and splitting\<close>

lemma IndexP_None: "IndexP P s = None \<longleftrightarrow> (\<forall>c \<in> set s. \<not> P c)"
  by (induction s) auto

lemma IndexP_Some:
  "IndexP P s = Some i \<longleftrightarrow> i < length s \<and> P (s ! i) \<and> (\<forall>j < i. \<not> P (s ! j))"
proof (induction s arbitrary: i)
  case (Cons c cs)
  show ?case
    by (cases i) (auto simp: Cons.IH less_Suc_eq_0_disj)
qed simp

lemma IndexP_append: "\<forall>c \<in> set s. \<not> P c \<Longrightarrow> P x \<Longrightarrow> IndexP P (s @ x # t) = Some (length s)"
  by (induction s) auto

lemma IndexByte_None: "IndexByte s c = None \<longleftrightarrow> c \<notin> set s"
  by (auto simp: IndexByte_def IndexP_None)

lemma IndexByte_split:
  "IndexByte s c = Some i \<Longrightarrow> s = take i s @ c # drop (Suc i) s \<and> c \<notin> set (take i s)"
  by (auto simp: IndexByte_def IndexP_Some id_take_nth_drop [symmetric] in_set_conv_nth)

lemma Split_nonempty [simp]: "Split s sep \<noteq> []"
  by (induction s) (auto split: list.splits)

lemma Join_Cons: "ps \<noteq> [] \<Longrightarrow> Join (p # ps) sep = p @ sep @ Join ps sep"
  by (cases ps) auto

lemma Join_Split [simp]: "Join (Split s sep) [sep] = s"
proof (induction s)
  case (Cons c cs)
  obtain p ps where ps: "Split cs sep = p # ps"
    by (cases "Split cs sep") auto
  with Cons.IH show ?case
    by (cases ps) auto
qed simp

lemma Split_no_sep: "p \<in> set (Split s sep) \<Longrightarrow> sep \<notin> set p"
proof (induction s arbitrary: p)
  case (Cons c cs)
  then show ?case
    by (cases "Split cs sep") (auto split: if_splits)
qed simp

lemma Split_append_sep: "Split (p @ sep # t) sep = Split p sep @ Split t sep"
  by (induction p) (auto split: list.splits)

lemma Split_no_sep_id: "sep \<notin> set p \<Longrightarrow> Split p sep = [p]"
  by (induction p) auto

lemma Split_Join:
  assumes "ps \<noteq> []" and "\<And>p. p \<in> set ps \<Longrightarrow> sep \<notin> set p"
  shows "Split (Join ps [sep]) sep = ps"
  using assms
proof (induction ps)
  case (Cons p ps)
  then show ?case
    by (cases ps) (auto simp: Split_no_sep_id Split_append_sep)
qed simp

subsection \<open>Lemmas on numbers\<close>

lemma digitChar_props [simp]:
  assumes "d < 10"
  shows "isDigit (digitChar d)" and "digitVal (digitChar d) = d"
  using assms by (auto simp: isDigit_def digitChar_def digitVal_def)

lemma ItoaNat_digits: "list_all isDigit (ItoaNat n) \<and> ItoaNat n \<noteq> []"
proof (induction n rule: ItoaNat.induct)
  case (1 n)
  then show ?case by (subst (1 2) ItoaNat.simps) auto
qed

lemma ItoaNat_small: "n < 10 \<Longrightarrow> ItoaNat n = [digitChar n]"
  by (simp add: ItoaNat.simps)

lemma ItoaNat_step: "10 \<le> n \<Longrightarrow> ItoaNat n = ItoaNat (n div 10) @ [digitChar (n mod 10)]"
  by (subst ItoaNat.simps) simp

lemma decVal_snoc: "decVal (s @ [c]) = 10 * decVal s + digitVal c"
  by (simp add: decVal_def)

lemma decVal_digit: "n < 10 \<Longrightarrow> decVal [digitChar n] = n"
  by (simp add: decVal_def)

lemma decVal_ItoaNat [simp]: "decVal (ItoaNat n) = n"
proof (induction n rule: ItoaNat.induct)
  case (1 n)
  show ?case
  proof (cases "n < 10")
    case True
    then show ?thesis by (subst ItoaNat.simps) (simp add: decVal_digit)
  next
    case False
    with 1 show ?thesis by (subst ItoaNat.simps) (simp add: decVal_snoc)
  qed
qed

lemma ItoaNat_not_sign: "\<not> HasPrefix (ItoaNat n) ''-''" "\<not> HasPrefix (ItoaNat n) ''+''"
proof -
  have "isDigit (hd (ItoaNat n))"
    using ItoaNat_digits [of n] by (cases "ItoaNat n") auto
  then show "\<not> HasPrefix (ItoaNat n) ''-''" "\<not> HasPrefix (ItoaNat n) ''+''"
    using ItoaNat_digits [of n] by (cases "ItoaNat n"; force simp: HasPrefix_def isDigit_def)+
qed

lemma Atoi_Itoa: "- (2 ^ 63) \<le> i \<Longrightarrow> i < 2 ^ 63 \<Longrightarrow> Atoi (Itoa i) = Some i"
proof (cases "i < 0")
  case True
  moreover assume "- (2 ^ 63) \<le> i" "i < 2 ^ 63"
  moreover have "HasPrefix (''-'' @ ItoaNat (nat (- i))) ''-''" by (rule HasPrefix_append)
  ultimately show ?thesis
    using ItoaNat_digits [of "nat (- i)"] by (simp add: Atoi_def Itoa_def Let_def)
next
  case False
  moreover assume "- (2 ^ 63) \<le> i" "i < 2 ^ 63"
  ultimately show ?thesis
    using ItoaNat_digits [of "nat i"] ItoaNat_not_sign [of "nat i"]
    by (simp add: Atoi_def Itoa_def Let_def)
qed

lemma Itoa_nat_digits: "0 \<le> i \<Longrightarrow> c \<in> set (Itoa i) \<Longrightarrow> isDigit c"
  using ItoaNat_digits [of "nat i"] by (auto simp: Itoa_def list_all_iff)

lemma decVal_Itoa: "0 \<le> i \<Longrightarrow> decVal (Itoa i) = nat i"
  by (simp add: Itoa_def)

lemma Itoa_inj_nonneg: "0 \<le> i \<Longrightarrow> 0 \<le> j \<Longrightarrow> Itoa i = Itoa j \<Longrightarrow> i = j"
  by (metis decVal_Itoa nat_0_le)

subsection \<open>Domain names: ancestors and coverage\<close>

text \<open>
  The remainder after each dot of a name, outermost first: for \<open>a.b.c\<close> these are
  \<open>b.c\<close> and \<open>c\<close>. The program never builds this list; its matchers walk it.
\<close>

fun ancestors :: "string \<Rightarrow> string list" where
  "ancestors [] = []"
| "ancestors (c # cs) = (if c = CHR ''.'' then cs # ancestors cs else ancestors cs)"

lemma ancestors_iff: "a \<in> set (ancestors h) \<longleftrightarrow> (\<exists>l. h = l @ ''.'' @ a)"
proof (induction h)
  case (Cons c cs)
  have "(\<exists>l. c # cs = l @ ''.'' @ a) \<longleftrightarrow> (c = CHR ''.'' \<and> cs = a) \<or> (\<exists>l. cs = l @ ''.'' @ a)"
    by (auto simp: Cons_eq_append_conv)
  with Cons.IH show ?case by auto
qed simp

lemma ancestors_trans:
  "a \<in> set (ancestors h) \<Longrightarrow> b \<in> set (ancestors a) \<Longrightarrow> b \<in> set (ancestors h)"
  by (auto simp: ancestors_iff)

lemma ancestors_length: "a \<in> set (ancestors h) \<Longrightarrow> length a < length h"
  by (auto simp: ancestors_iff)

text \<open>
  What a set of names covers: \<open>roots\<close> match themselves and everything below them,
  \<open>subs\<close> (the roots of \<open>*.root\<close> entries) match strictly below only.
\<close>

definition covered :: "string set \<Rightarrow> string set \<Rightarrow> string \<Rightarrow> bool" where
  "covered roots subs h \<longleftrightarrow>
     h \<in> roots \<or> (\<exists>a \<in> set (ancestors h). a \<in> roots \<or> a \<in> subs)"

lemma covered_below:
  "covered roots subs h \<Longrightarrow> h \<in> set (ancestors h') \<Longrightarrow> covered roots subs h'"
  by (auto simp: covered_def intro: ancestors_trans)

lemma covered_mono:
  "covered roots subs h \<Longrightarrow> roots \<subseteq> roots' \<Longrightarrow> subs \<subseteq> subs' \<Longrightarrow> covered roots' subs' h"
  by (auto simp: covered_def)

text \<open>
  The contract of a name matcher, which the per-client filter, the global blocklist and
  its allowlist each implement with a loop of their own: on every non-empty name the
  loop decides coverage by the sets it holds.
\<close>

locale name_matcher =
  fixes hit :: "'m \<Rightarrow> string \<Rightarrow> bool"
    and roots :: "'m \<Rightarrow> string set"
    and subs :: "'m \<Rightarrow> string set"
  assumes hit_covered: "h \<noteq> [] \<Longrightarrow> hit m h \<longleftrightarrow> covered (roots m) (subs m) h"
begin

lemma hit_subdomain: "h \<noteq> [] \<Longrightarrow> hit m h \<Longrightarrow> hit m (l @ ''.'' @ h)"
  by (auto simp: hit_covered ancestors_iff elim!: covered_below)

lemma root_hits: "h \<noteq> [] \<Longrightarrow> h \<in> roots m \<Longrightarrow> hit m h \<and> hit m (l @ ''.'' @ h)"
  by (auto simp: hit_covered covered_def ancestors_iff)

lemma wildcard_not_apex:
  "h \<noteq> [] \<Longrightarrow> roots m = {} \<Longrightarrow> subs m = {h} \<Longrightarrow> \<not> hit m h \<and> hit m (l @ ''.'' @ h)"
  by (auto simp: hit_covered covered_def ancestors_iff)

lemma hit_mono:
  "roots m \<subseteq> roots m' \<Longrightarrow> subs m \<subseteq> subs m' \<Longrightarrow> h \<noteq> [] \<Longrightarrow> hit m h \<Longrightarrow> hit m' h"
  by (auto simp: hit_covered elim: covered_mono)

end

end
