(* ===== verification/Blip_Net.thy ===== *)
theory Blip_Net
  imports Blip_Strings
begin

text \<open>
  The part of Go's \<open>net\<close> package the program uses: \<open>net.IP\<close> as a byte slice (\<open>[]\<close> is
  \<open>nil\<close>), the address classes, CIDR masks and containment, and the text forms
  (\<open>ParseIP\<close>, \<open>ParseCIDR\<close>, \<open>IP.String\<close>, \<open>SplitHostPort\<close>, \<open>JoinHostPort\<close>).
\<close>

unbundle bit_operations_syntax

subsection \<open>Addresses\<close>

type_synonym IP = "u8 list"

definition v4InV6Prefix :: IP where
  "v4InV6Prefix = replicate 10 0 @ [255, 255]"

definition IPv4 :: "u8 \<Rightarrow> u8 \<Rightarrow> u8 \<Rightarrow> u8 \<Rightarrow> IP" where
  "IPv4 a b c d = v4InV6Prefix @ [a, b, c, d]"

definition IPv4zero :: IP where "IPv4zero = IPv4 0 0 0 0"
definition IPv4bcast :: IP where "IPv4bcast = IPv4 255 255 255 255"
definition IPv6zero :: IP where "IPv6zero = replicate 16 0"
definition IPv6loopback :: IP where "IPv6loopback = replicate 15 0 @ [1]"

definition To4 :: "IP \<Rightarrow> IP" where
  "To4 ip =
     (if length ip = 4 then ip
      else if length ip = 16 \<and> take 12 ip = v4InV6Prefix then drop 12 ip
      else [])"

definition To16 :: "IP \<Rightarrow> IP" where
  "To16 ip = (if length ip = 4 then v4InV6Prefix @ ip else if length ip = 16 then ip else [])"

definition IP_Equal :: "IP \<Rightarrow> IP \<Rightarrow> bool" where
  "IP_Equal ip x \<longleftrightarrow>
     (if length ip = length x then ip = x
      else if length ip = 4 \<and> length x = 16 then take 12 x = v4InV6Prefix \<and> ip = drop 12 x
      else if length ip = 16 \<and> length x = 4 then take 12 ip = v4InV6Prefix \<and> drop 12 ip = x
      else False)"

definition IsUnspecified :: "IP \<Rightarrow> bool" where
  "IsUnspecified ip \<longleftrightarrow> IP_Equal ip IPv4zero \<or> IP_Equal ip IPv6zero"

definition IsLoopback :: "IP \<Rightarrow> bool" where
  "IsLoopback ip \<longleftrightarrow>
     (case To4 ip of [] \<Rightarrow> IP_Equal ip IPv6loopback | b # _ \<Rightarrow> b = 127)"

definition IsPrivate :: "IP \<Rightarrow> bool" where
  "IsPrivate ip \<longleftrightarrow>
     (if To4 ip \<noteq> [] then
        To4 ip ! 0 = 10
        \<or> (To4 ip ! 0 = 172 \<and> To4 ip ! 1 AND 0xf0 = 16)
        \<or> (To4 ip ! 0 = 192 \<and> To4 ip ! 1 = 168)
      else length ip = 16 \<and> ip ! 0 AND 0xfe = 0xfc)"

definition IsMulticast :: "IP \<Rightarrow> bool" where
  "IsMulticast ip \<longleftrightarrow>
     (if To4 ip \<noteq> [] then To4 ip ! 0 AND 0xf0 = 0xe0 else length ip = 16 \<and> ip ! 0 = 0xff)"

definition IsLinkLocalMulticast :: "IP \<Rightarrow> bool" where
  "IsLinkLocalMulticast ip \<longleftrightarrow>
     (if To4 ip \<noteq> [] then To4 ip ! 0 = 224 \<and> To4 ip ! 1 = 0 \<and> To4 ip ! 2 = 0
      else length ip = 16 \<and> ip ! 0 = 0xff \<and> ip ! 1 AND 0x0f = 0x02)"

definition IsLinkLocalUnicast :: "IP \<Rightarrow> bool" where
  "IsLinkLocalUnicast ip \<longleftrightarrow>
     (if To4 ip \<noteq> [] then To4 ip ! 0 = 169 \<and> To4 ip ! 1 = 254
      else length ip = 16 \<and> ip ! 0 = 0xfe \<and> ip ! 1 AND 0xc0 = 0x80)"

definition IsGlobalUnicast :: "IP \<Rightarrow> bool" where
  "IsGlobalUnicast ip \<longleftrightarrow>
     (length ip = 4 \<or> length ip = 16)
     \<and> \<not> IP_Equal ip IPv4bcast \<and> \<not> IsUnspecified ip \<and> \<not> IsLoopback ip
     \<and> \<not> IsMulticast ip \<and> \<not> IsLinkLocalUnicast ip"

subsection \<open>Networks\<close>

record IPNet =
  net_IP :: IP
  net_Mask :: "u8 list"

definition maskByte :: "nat \<Rightarrow> u8" where
  "maskByte n = (if 8 \<le> n then 255 else NOT (drop_bit n 255))"

definition CIDRMask :: "nat \<Rightarrow> nat \<Rightarrow> u8 list" where
  "CIDRMask ones bits =
     (if (bits = 32 \<or> bits = 128) \<and> ones \<le> bits
      then map (\<lambda>i. maskByte (ones - 8 * i)) [0..<bits div 8] else [])"

definition IP_Mask :: "IP \<Rightarrow> u8 list \<Rightarrow> IP" where
  "IP_Mask ip msk =
     (let msk' = (if length msk = 16 \<and> length ip = 4 \<and> take 12 msk = replicate 12 255
                   then drop 12 msk else msk);
          ip' = (if length msk' = 4 \<and> length ip = 16 \<and> take 12 ip = v4InV6Prefix
                 then drop 12 ip else ip)
      in if length ip' \<noteq> length msk' then [] else map2 (AND) ip' msk')"

definition networkNumberAndMask :: "IPNet \<Rightarrow> IP \<times> u8 list" where
  "networkNumberAndMask n =
     (let ip = (if To4 (net_IP n) \<noteq> [] then To4 (net_IP n) else net_IP n); m = net_Mask n
      in if length ip \<noteq> 4 \<and> length ip \<noteq> 16 then ([], [])
         else if length m = 4 then (if length ip \<noteq> 4 then ([], []) else (ip, m))
         else if length m = 16 then (ip, if length ip = 4 then drop 12 m else m)
         else ([], []))"

definition IPNet_Contains :: "IPNet \<Rightarrow> IP \<Rightarrow> bool" where
  "IPNet_Contains n ip \<longleftrightarrow>
     (let (nn, m) = networkNumberAndMask n;
          x = (if To4 ip \<noteq> [] then To4 ip else ip)
      in length x = length nn \<and> map2 (AND) nn m = map2 (AND) x m)"

text \<open>\<open>IPMask.Size\<close>: the number of leading ones, 0 for a msk that is not ones then zeros.\<close>

fun leadingOnes :: "nat \<Rightarrow> u8 \<Rightarrow> nat \<times> u8" where
  "leadingOnes 0 v = (0, v)"
| "leadingOnes (Suc k) v =
     (if v AND 0x80 \<noteq> 0 then (let (n, w) = leadingOnes k (push_bit 1 v) in (Suc n, w)) else (0, v))"

fun simpleMaskLength :: "u8 list \<Rightarrow> nat option" where
  "simpleMaskLength [] = Some 0"
| "simpleMaskLength (v # vs) =
     (if v = 0xff then map_option (\<lambda>n. 8 + n) (simpleMaskLength vs)
      else (let (n, w) = leadingOnes 8 v
            in if w \<noteq> 0 \<or> \<not> list_all (\<lambda>b. b = 0) vs then None else Some n))"

definition Mask_ones :: "u8 list \<Rightarrow> nat" where
  "Mask_ones m = (case simpleMaskLength m of None \<Rightarrow> 0 | Some n \<Rightarrow> n)"

subsection \<open>Parsing addresses\<close>

text \<open>
  Dotted decimal: four fields of one to three digits, no leading zero, at most 255. The
  flag says that the previous byte was a dot or that there is none.
\<close>

fun parseIPv4Fields :: "string \<Rightarrow> bool \<Rightarrow> nat \<Rightarrow> nat \<Rightarrow> u8 list \<Rightarrow> u8 list option" where
  "parseIPv4Fields [] prevDot val digLen fs =
     (if length fs < 3 then None else Some (fs @ [of_nat val]))"
| "parseIPv4Fields (c # cs) prevDot val digLen fs =
     (if isDigit c then
        (if digLen = 1 \<and> val = 0 then None
         else let v = val * 10 + digitVal c
              in if 255 < v then None else parseIPv4Fields cs False v (Suc digLen) fs)
      else if c = CHR ''.'' then
        (if prevDot \<or> cs = [] then None
         else if length fs = 3 then None
         else parseIPv4Fields cs True 0 0 (fs @ [of_nat val]))
      else None)"

definition parseIPv4 :: "string \<Rightarrow> u8 list option" where
  "parseIPv4 s = parseIPv4Fields s True 0 0 []"

definition hexVal :: "char \<Rightarrow> nat option" where
  "hexVal c =
     (let n = (of_char c :: nat)
      in if 48 \<le> n \<and> n \<le> 57 then Some (n - 48)
         else if 97 \<le> n \<and> n \<le> 102 then Some (n - 87)
         else if 65 \<le> n \<and> n \<le> 70 then Some (n - 55)
         else None)"

definition isHex :: "char \<Rightarrow> bool" where
  "isHex c \<longleftrightarrow> hexVal c \<noteq> None"

definition hexGroup :: "string \<Rightarrow> nat" where
  "hexGroup ds = foldl (\<lambda>acc c. 16 * acc + the (hexVal c)) 0 ds"

definition finishIPv6 :: "string \<Rightarrow> u8 list \<Rightarrow> nat option \<Rightarrow> u8 list option" where
  "finishIPv6 s ip ell =
     (if s \<noteq> [] then None
      else if length ip < 16
        then (case ell of None \<Rightarrow> None
              | Some e \<Rightarrow> Some (take e ip @ replicate (16 - length ip) 0 @ drop e ip))
      else if ell \<noteq> None then None else Some ip)"

text \<open>
  The group loop: a run of one to four hex digits, then the end, an embedded IPv4
  address, a colon, or a double colon (at most one, at the recorded position).
\<close>

function (sequential) parseIPv6Groups :: "string \<Rightarrow> u8 list \<Rightarrow> nat option \<Rightarrow> u8 list option" where
  "parseIPv6Groups s ip ell =
     (if 16 \<le> length ip then finishIPv6 s ip ell
      else
        let ds = takeWhile isHex s; rest = dropWhile isHex s in
        if ds = [] \<or> 4 < length ds then None
        else if rest \<noteq> [] \<and> hd rest = CHR ''.'' then
          (if ell = None \<and> length ip \<noteq> 12 then None
           else if 16 < length ip + 4 then None
           else (case parseIPv4 s of None \<Rightarrow> None | Some v4 \<Rightarrow> finishIPv6 [] (ip @ v4) ell))
        else
          let ip' = ip @ [of_nat (hexGroup ds div 256), of_nat (hexGroup ds)] in
          if rest = [] then finishIPv6 [] ip' ell
          else if hd rest \<noteq> CHR '':'' \<or> tl rest = [] then None
          else if hd (tl rest) = CHR '':'' then
            (if ell \<noteq> None then None
             else if tl (tl rest) = [] then finishIPv6 [] ip' (Some (length ip'))
             else parseIPv6Groups (tl (tl rest)) ip' (Some (length ip')))
          else parseIPv6Groups (tl rest) ip' ell)"
  by pat_completeness auto
termination
proof (relation "measure (\<lambda>(s, ip, ell). length s)", goal_cases)
  case prems: (2 s ip ell ds rest ip')
  have "length rest \<le> length s" and "rest \<noteq> []"
    using prems by (simp_all only: length_dropWhile_le not_False_eq_True)
  then show ?case by (cases rest) auto
next
  case prems: (3 s ip ell ds rest ip')
  have "length rest \<le> length s" and "rest \<noteq> []"
    using prems by (simp_all only: length_dropWhile_le not_False_eq_True)
  then show ?case by (cases rest) auto
qed simp

declare parseIPv6Groups.simps [simp del]

definition parseIPv6 :: "string \<Rightarrow> u8 list option" where
  "parseIPv6 s =
     (if HasPrefix s ''::''
      then (if length s = 2 then Some IPv6zero else parseIPv6Groups (drop 2 s) [] (Some 0))
      else parseIPv6Groups s [] None)"

text \<open>
  \<open>netip.ParseAddr\<close> without a zone: 4 bytes for IPv4, 16 for IPv6. A percent sign
  introduces a zone, which both callers refuse.
\<close>

definition parseAddr :: "string \<Rightarrow> u8 list option" where
  "parseAddr s =
     (if CHR ''%'' \<in> set s then None
      else case IndexAny s ''.:'' of
        None \<Rightarrow> None
      | Some i \<Rightarrow> if s ! i = CHR ''.'' then parseIPv4 s else parseIPv6 s)"

definition ParseIP :: "string \<Rightarrow> IP" where
  "ParseIP s = (case parseAddr s of None \<Rightarrow> [] | Some a \<Rightarrow> To16 a)"

definition ParseCIDR :: "string \<Rightarrow> (IP \<times> IPNet) option" where
  "ParseCIDR s =
     (case IndexByte s (CHR ''/'') of
        None \<Rightarrow> None
      | Some i \<Rightarrow>
          let addr = take i s; msk = drop (Suc i) s in
          (case parseAddr addr of
             None \<Rightarrow> None
           | Some a \<Rightarrow>
               if msk = [] \<or> \<not> list_all isDigit msk \<or> 8 * length a < decVal msk then None
               else let m = CIDRMask (decVal msk) (8 * length a)
                    in Some (To16 a, \<lparr>net_IP = IP_Mask (To16 a) m, net_Mask = m\<rparr>)))"

subsection \<open>Printing addresses\<close>

fun joinBytes :: "u8 list \<Rightarrow> string" where
  "joinBytes bs = Join (map (\<lambda>b. ItoaNat (unat b)) bs) ''.''"

definition hexDigit :: "nat \<Rightarrow> char" where
  "hexDigit n = (if n < 10 then char_of (48 + n) else char_of (87 + n))"

fun hexString :: "nat \<Rightarrow> string" where
  "hexString n = (if n < 16 then [hexDigit n] else hexString (n div 16) @ [hexDigit (n mod 16)])"

declare hexString.simps [simp del]

fun groupsOf :: "u8 list \<Rightarrow> nat list" where
  "groupsOf (a # b # bs) = (unat a * 256 + unat b) # groupsOf bs"
| "groupsOf _ = []"

text \<open>The longest run of at least two zero groups, the first of several: (start, end).\<close>

definition zeroRun :: "nat list \<Rightarrow> nat \<Rightarrow> nat" where
  "zeroRun gs i = length (takeWhile (\<lambda>g. g = 0) (drop i gs))"

definition bestRun :: "nat list \<Rightarrow> nat \<times> nat" where
  "bestRun gs =
     fold (\<lambda>i (st, len). let l = zeroRun gs i in if 2 \<le> l \<and> len < l then (i, l) else (st, len))
       [0..<length gs] (0, 0)"

definition ip6String :: "u8 list \<Rightarrow> string" where
  "ip6String b =
     (let gs = groupsOf b; (st, len) = bestRun gs
      in if len = 0 then Join (map hexString gs) '':''
         else Join (map hexString (take st gs)) '':'' @ ''::'' @ Join (map hexString (drop (st + len) gs)) '':'')"

definition IP_String :: "IP \<Rightarrow> string" where
  "IP_String ip =
     (if ip = [] then ''<nil>''
      else if length ip \<noteq> 4 \<and> length ip \<noteq> 16
        then ''?'' @ concat (map (\<lambda>b. [hexDigit (unat b div 16), hexDigit (unat b mod 16)]) ip)
      else if To4 ip \<noteq> [] then joinBytes (To4 ip)
      else ip6String ip)"

subsection \<open>Host and port\<close>

definition SplitHostPort :: "string \<Rightarrow> (string \<times> string) option" where
  "SplitHostPort hostport =
     (case LastIndexByte hostport (CHR '':'') of
        None \<Rightarrow> None
      | Some i \<Rightarrow>
          if hostport ! 0 = CHR ''['' then
            (case IndexByte hostport (CHR '']'') of
               None \<Rightarrow> None
             | Some e \<Rightarrow>
                 if e + 1 \<noteq> i then None
                 else if CHR ''['' \<in> set (drop 1 hostport) \<or> CHR '']'' \<in> set (drop (e + 1) hostport)
                   then None
                 else Some (drop 1 (take e hostport), drop (i + 1) hostport))
          else if CHR '':'' \<in> set (take i hostport) then None
          else if CHR ''['' \<in> set hostport \<or> CHR '']'' \<in> set hostport then None
          else Some (take i hostport, drop (i + 1) hostport))"

definition JoinHostPort :: "string \<Rightarrow> string \<Rightarrow> string" where
  "JoinHostPort host port =
     (if CHR '':'' \<in> set host then ''['' @ host @ '']:'' @ port else host @ '':'' @ port)"

end
