(* ===== verification/Blip_Msg.thy ===== *)
theory Blip_Msg
  imports Blip_Net
begin

text \<open>
  DNS messages as the vendored \<open>github.com/miekg/dns\<close> package represents them: the
  header, the question and the record sections of \<open>dns.Msg\<close>, the record types the program
  builds or renders itself (every other type is kept as \<open>OtherRR\<close> with the text the library
  prints for it), and the few helpers the program calls. Wire encoding, EDNS and the
  length fields of the wire format are not modelled. Messages are values, so \<open>Msg.Copy\<close> is
  the identity.
\<close>

subsection \<open>Constants\<close>

abbreviation (input) TypeA :: u16 where "TypeA \<equiv> 1"
abbreviation (input) TypeCNAME :: u16 where "TypeCNAME \<equiv> 5"
abbreviation (input) TypePTR :: u16 where "TypePTR \<equiv> 12"
abbreviation (input) TypeAAAA :: u16 where "TypeAAAA \<equiv> 28"
abbreviation (input) ClassINET :: u16 where "ClassINET \<equiv> 1"
abbreviation (input) ClassCHAOS :: u16 where "ClassCHAOS \<equiv> 3"
abbreviation (input) RcodeSuccess :: int where "RcodeSuccess \<equiv> 0"
abbreviation (input) RcodeFormatError :: int where "RcodeFormatError \<equiv> 1"
abbreviation (input) RcodeServerFailure :: int where "RcodeServerFailure \<equiv> 2"
abbreviation (input) RcodeNameError :: int where "RcodeNameError \<equiv> 3"
abbreviation (input) RcodeRefused :: int where "RcodeRefused \<equiv> 5"

text \<open>\<open>dns.TypeToString\<close>, the package's table of type mnemonics.\<close>

definition TypeToString :: "(u16 \<times> string) list" where
  "TypeToString = [
    (1, ''A''), (28, ''AAAA''), (18, ''AFSDB''), (260, ''AMTRELAY''), (255, ''ANY''),
    (42, ''APL''), (34, ''ATMA''), (258, ''AVC''), (252, ''AXFR''), (257, ''CAA''),
    (60, ''CDNSKEY''), (59, ''CDS''), (37, ''CERT''), (5, ''CNAME''), (62, ''CSYNC''),
    (49, ''DHCID''), (32769, ''DLV''), (39, ''DNAME''), (48, ''DNSKEY''), (43, ''DS''),
    (31, ''EID''), (108, ''EUI48''), (109, ''EUI64''), (102, ''GID''), (27, ''GPOS''),
    (13, ''HINFO''), (55, ''HIP''), (65, ''HTTPS''), (45, ''IPSECKEY''), (20, ''ISDN''),
    (251, ''IXFR''), (25, ''KEY''), (36, ''KX''), (105, ''L32''), (106, ''L64''), (29, ''LOC''),
    (107, ''LP''), (254, ''MAILA''), (253, ''MAILB''), (7, ''MB''), (3, ''MD''), (4, ''MF''),
    (8, ''MG''), (14, ''MINFO''), (9, ''MR''), (15, ''MX''), (35, ''NAPTR''), (104, ''NID''),
    (32, ''NIMLOC''), (56, ''NINFO''), (2, ''NS''), (47, ''NSEC''), (50, ''NSEC3''),
    (51, ''NSEC3PARAM''), (10, ''NULL''), (128, ''NXNAME''), (30, ''NXT''), (0, ''None''),
    (61, ''OPENPGPKEY''), (41, ''OPT''), (12, ''PTR''), (26, ''PX''), (57, ''RKEY''),
    (17, ''RP''), (46, ''RRSIG''), (21, ''RT''), (65535, ''Reserved''), (24, ''SIG''),
    (53, ''SMIMEA''), (6, ''SOA''), (99, ''SPF''), (33, ''SRV''), (44, ''SSHFP''),
    (64, ''SVCB''), (32768, ''TA''), (58, ''TALINK''), (249, ''TKEY''), (52, ''TLSA''),
    (250, ''TSIG''), (16, ''TXT''), (101, ''UID''), (100, ''UINFO''), (103, ''UNSPEC''),
    (256, ''URI''), (19, ''X25''), (63, ''ZONEMD''), (23, ''NSAP-PTR'')]"

text \<open>A Go map read with a missing key yields the zero value, here the empty string.\<close>

definition typeString :: "u16 \<Rightarrow> string" where
  "typeString t = (case map_of TypeToString t of None \<Rightarrow> [] | Some s \<Rightarrow> s)"

text \<open>\<open>dns.StringToType\<close> is the table reversed.\<close>

definition StringToType :: "string \<Rightarrow> u16 option" where
  "StringToType s = map_of (map (\<lambda>(t, n). (n, t)) TypeToString) s"

subsection \<open>Messages\<close>

record RR_Header =
  hdr_Name :: string
  hdr_Rrtype :: u16
  hdr_Class :: u16
  hdr_Ttl :: u32

datatype rdata =
    A IP
  | AAAA IP
  | CNAME string
  | PTR string
  | TXT "string list"
  | MX u16 string  \<comment> \<open>preference, exchange\<close>
  | SRV u16 u16 u16 string  \<comment> \<open>priority, weight, port, target\<close>
  | OtherRR string  \<comment> \<open>any other type, as \<open>rr.String()\<close> renders it\<close>

record RR =
  rr_Hdr :: RR_Header
  rr_Data :: rdata

record Question =
  q_Name :: string
  q_Qtype :: u16
  q_Qclass :: u16

record Msg =
  m_Id :: u16
  m_Response :: bool
  m_Opcode :: int
  m_Authoritative :: bool
  m_Truncated :: bool
  m_RecursionDesired :: bool
  m_RecursionAvailable :: bool
  m_Zero :: bool
  m_AuthenticatedData :: bool
  m_CheckingDisabled :: bool
  m_Rcode :: int
  m_Question :: "Question list"
  m_Answer :: "RR list"
  m_Ns :: "RR list"
  m_Extra :: "RR list"

text \<open>\<open>new(dns.Msg)\<close>.\<close>

definition emptyMsg :: Msg where
  "emptyMsg =
     \<lparr>m_Id = 0, m_Response = False, m_Opcode = 0, m_Authoritative = False, m_Truncated = False,
      m_RecursionDesired = False, m_RecursionAvailable = False, m_Zero = False,
      m_AuthenticatedData = False, m_CheckingDisabled = False, m_Rcode = 0,
      m_Question = [], m_Answer = [], m_Ns = [], m_Extra = []\<rparr>"

definition SetReply :: "Msg \<Rightarrow> Msg \<Rightarrow> Msg" where
  "SetReply m request =
     (let m1 = m\<lparr>m_Id := m_Id request, m_Response := True, m_Opcode := m_Opcode request\<rparr>;
          m2 = (if m_Opcode m1 = 0
                then m1\<lparr>m_RecursionDesired := m_RecursionDesired request,
                        m_CheckingDisabled := m_CheckingDisabled request\<rparr>
                else m1);
          m3 = m2\<lparr>m_Rcode := RcodeSuccess\<rparr>
      in case m_Question request of [] \<Rightarrow> m3 | q # _ \<Rightarrow> m3\<lparr>m_Question := [q]\<rparr>)"

definition IsFqdn :: "string \<Rightarrow> bool" where
  "IsFqdn s \<longleftrightarrow>
     (if s = [] \<or> last s \<noteq> CHR ''.'' then False
      else let t = butlast s; bs = length (takeWhile (\<lambda>c. c = char_of (92 :: nat)) (rev t))
           in if t = [] \<or> bs = 0 then True else even bs)"

definition Fqdn :: "string \<Rightarrow> string" where
  "Fqdn s = (if IsFqdn s then s else s @ ''.'')"

definition mkRR :: "string \<Rightarrow> u16 \<Rightarrow> u32 \<Rightarrow> rdata \<Rightarrow> RR" where
  "mkRR name t ttl d =
     \<lparr>rr_Hdr = \<lparr>hdr_Name = name, hdr_Rrtype = t, hdr_Class = ClassINET, hdr_Ttl = ttl\<rparr>, rr_Data = d\<rparr>"

abbreviation rr_Ttl :: "RR \<Rightarrow> u32" where
  "rr_Ttl rr \<equiv> hdr_Ttl (rr_Hdr rr)"

definition set_rr_Ttl :: "u32 \<Rightarrow> RR \<Rightarrow> RR" where
  "set_rr_Ttl ttl rr = rr\<lparr>rr_Hdr := (rr_Hdr rr)\<lparr>hdr_Ttl := ttl\<rparr>\<rparr>"

subsection \<open>Lemmas\<close>

lemma SetReply_simps [simp]:
  "m_Id (SetReply m r) = m_Id r"
  "m_Response (SetReply m r)"
  "m_Rcode (SetReply m r) = RcodeSuccess"
  "m_Answer (SetReply m r) = m_Answer m"
  "m_Ns (SetReply m r) = m_Ns m"
  "m_Authoritative (SetReply m r) = m_Authoritative m"
  by (auto simp: SetReply_def Let_def split: list.splits)

lemma SetReply_Question:
  "m_Question (SetReply emptyMsg r) = take 1 (m_Question r)"
  by (auto simp: SetReply_def Let_def emptyMsg_def split: list.splits)

lemma rr_Ttl_set [simp]: "rr_Ttl (set_rr_Ttl ttl rr) = ttl"
  and rr_Data_set [simp]: "rr_Data (set_rr_Ttl ttl rr) = rr_Data rr"
  by (simp_all add: set_rr_Ttl_def)

lemma emptyMsg_simps [simp]:
  "m_Answer emptyMsg = []" "m_Ns emptyMsg = []" "m_Authoritative emptyMsg = False"
  by (simp_all add: emptyMsg_def)

lemma mkRR_simps [simp]:
  "rr_Ttl (mkRR n t ttl d) = ttl" "rr_Data (mkRR n t ttl d) = d"
  "hdr_Name (rr_Hdr (mkRR n t ttl d)) = n" "hdr_Rrtype (rr_Hdr (mkRR n t ttl d)) = t"
  "hdr_Class (rr_Hdr (mkRR n t ttl d)) = ClassINET"
  by (simp_all add: mkRR_def)

text \<open>The supported record mnemonics are distinct rows of the table.\<close>

lemma StringToType_rows:
  "StringToType ''A'' = Some TypeA" "StringToType ''AAAA'' = Some TypeAAAA"
  "StringToType ''CNAME'' = Some TypeCNAME"
  by code_simp+

end
