(* ===== verification/Blip_Blocklist.thy ===== *)
theory Blip_Blocklist
  imports Blip_Msg
begin

text \<open>
  The global blocklist (\<open>src/internal/blocklist/blocklist.go\<close>): the block and allow sets
  with their incrementally kept count and checksum, the lookup that walks a host's
  ancestors, the parser for AdBlock and hosts-format lines, the source loader with its
  guard against private destinations, and the on-disk snapshot.

  A Go set that is only probed is a HOL set; where the code ranges over one, the operation
  takes the enumeration as a list, and the results are shown not to depend on its order.
  \<open>url.Parse\<close> and the HTTP client are parameters.
\<close>

subsection \<open>Names and hashes\<close>

fun dotScan :: "string \<Rightarrow> bool \<Rightarrow> nat \<Rightarrow> (bool \<times> nat) option" where
  "dotScan [] prevDot dots = Some (prevDot, dots)"
| "dotScan (c # cs) prevDot dots =
     (if c = CHR ''.'' then (if prevDot then None else dotScan cs True (Suc dots))
      else dotScan cs False dots)"

definition normalizeDomain :: "string \<Rightarrow> string" where
  "normalizeDomain s0 =
     (let s1 = TrimSpace s0
      in if s1 = [] then []
         else let s = TrimSuffix (ToLower s1) ''.''
              in case dotScan s True 0 of
                   None \<Rightarrow> []
                 | Some (prevDot, dots) \<Rightarrow> if prevDot \<or> dots < 1 then [] else s)"

text \<open>FNV-1a on 32 bits, widened.\<close>

definition fnvStep :: "u32 \<Rightarrow> char \<Rightarrow> u32" where
  "fnvStep h c = xor h (of_nat (of_char c)) * 16777619"

definition hashString :: "string \<Rightarrow> u64" where
  "hashString s = ucast (foldl fnvStep 2166136261 s)"

subsection \<open>The lists\<close>

record Blocklist =
  bl_exact :: "string set"
  bl_wild :: "string set"
  bl_blockSum :: u64
  bl_allowSum :: u64
  bl_count :: int
  bl_allowExact :: "string set"
  bl_allowWild :: "string set"

definition New :: Blocklist where
  "New = \<lparr>bl_exact = {}, bl_wild = {}, bl_blockSum = 0, bl_allowSum = 0, bl_count = 0,
          bl_allowExact = {}, bl_allowWild = {}\<rparr>"

text \<open>The updated pair of sets, and the canonical form to hash (\<open>[]\<close> for none).\<close>

definition addEntry :: "string \<Rightarrow> string set \<times> string set \<Rightarrow> (string set \<times> string set) \<times> string" where
  "addEntry d0 sets =
     (case sets of (exact, wild) \<Rightarrow>
        let d = TrimSpace d0 in
        if d = [] then (sets, [])
        else if HasPrefix d ''*.'' then
          (let root = normalizeDomain (drop 2 d) in
           if root = [] then (sets, [])
           else if root \<in> wild then (sets, [])
           else ((exact, insert root wild), ''*.'' @ root))
        else
          let h = normalizeDomain d in
          if h = [] then (sets, [])
          else if h \<in> exact then (sets, [])
          else ((insert h exact, wild), h))"

definition bulkStep ::
  "(string \<Rightarrow> string) \<Rightarrow> string \<Rightarrow> (string set \<times> string set) \<times> u64 \<Rightarrow> (string set \<times> string set) \<times> u64" where
  "bulkStep tag d acc =
     (case acc of (sets, sm) \<Rightarrow>
        (case addEntry d sets of (sets', k) \<Rightarrow>
           (sets', if k \<noteq> [] then sm + hashString (tag k) else sm)))"

definition Blocklist_swap :: "string set \<Rightarrow> string set \<Rightarrow> u64 \<Rightarrow> Blocklist \<Rightarrow> Blocklist" where
  "Blocklist_swap exact wild sm b =
     b\<lparr>bl_exact := exact, bl_wild := wild, bl_count := int (card exact) + int (card wild),
       bl_blockSum := sm\<rparr>"

definition Blocklist_FromDomainsMap :: "string list \<Rightarrow> Blocklist \<Rightarrow> Blocklist" where
  "Blocklist_FromDomainsMap enum b =
     (case fold (bulkStep (\<lambda>k. k)) enum (({}, {}), 0) of
        ((exact, wild), sm) \<Rightarrow> Blocklist_swap exact wild sm b)"

definition Blocklist_FromDomains :: "string list \<Rightarrow> Blocklist \<Rightarrow> Blocklist" where
  "Blocklist_FromDomains list b = Blocklist_FromDomainsMap (remdups list) b"

definition Blocklist_Add :: "string \<Rightarrow> Blocklist \<Rightarrow> Blocklist" where
  "Blocklist_Add domain b =
     (let d = normalizeDomain domain
      in if d \<noteq> [] \<and> d \<notin> bl_exact b
         then b\<lparr>bl_exact := insert d (bl_exact b), bl_blockSum := bl_blockSum b + hashString d,
                bl_count := bl_count b + 1\<rparr>
         else b)"

definition Blocklist_Remove :: "string \<Rightarrow> Blocklist \<Rightarrow> Blocklist" where
  "Blocklist_Remove domain b =
     (let d = normalizeDomain domain
      in if d \<noteq> [] \<and> d \<in> bl_exact b
         then b\<lparr>bl_exact := bl_exact b - {d}, bl_blockSum := bl_blockSum b - hashString d,
                bl_count := bl_count b - 1\<rparr>
         else b)"

definition Blocklist_SetAllowed :: "string list \<Rightarrow> Blocklist \<Rightarrow> Blocklist" where
  "Blocklist_SetAllowed list b =
     (case fold (bulkStep (\<lambda>k. ''allow:'' @ k)) list (({}, {}), 0) of
        ((exact, wild), sm) \<Rightarrow>
          b\<lparr>bl_allowExact := exact, bl_allowWild := wild, bl_allowSum := sm\<rparr>)"

definition Blocklist_AddAllowed :: "string \<Rightarrow> Blocklist \<Rightarrow> Blocklist" where
  "Blocklist_AddAllowed domain b =
     (let d = normalizeDomain domain
      in if d \<noteq> [] \<and> d \<notin> bl_allowExact b
         then b\<lparr>bl_allowExact := insert d (bl_allowExact b),
                bl_allowSum := bl_allowSum b + hashString (''allow:'' @ d)\<rparr>
         else b)"

definition Blocklist_RemoveAllowed :: "string \<Rightarrow> Blocklist \<Rightarrow> Blocklist" where
  "Blocklist_RemoveAllowed domain b =
     (let d = normalizeDomain domain
      in if d \<noteq> [] \<and> d \<in> bl_allowExact b
         then b\<lparr>bl_allowExact := bl_allowExact b - {d},
                bl_allowSum := bl_allowSum b - hashString (''allow:'' @ d)\<rparr>
         else b)"

text \<open>
  \<open>List\<close> and \<open>Allowed\<close> range over the two sets; \<open>es\<close> and \<open>ws\<close> are the orders in which
  the iteration yields them.
\<close>

definition enumerates :: "string list \<Rightarrow> string set \<Rightarrow> bool" where
  "enumerates xs S \<longleftrightarrow> distinct xs \<and> set xs = S"

definition Blocklist_List :: "string list \<Rightarrow> string list \<Rightarrow> string list" where
  "Blocklist_List es ws = es @ map (\<lambda>r. ''*.'' @ r) ws"

definition Blocklist_Count :: "Blocklist \<Rightarrow> int" where
  "Blocklist_Count b = bl_count b"

definition Blocklist_Checksum :: "Blocklist \<Rightarrow> u64" where
  "Blocklist_Checksum b = bl_blockSum b + bl_allowSum b"

text \<open>The two walks: cut the name after its first dot until there is none.\<close>

function allowWalk :: "string set \<Rightarrow> string set \<Rightarrow> string \<Rightarrow> bool" where
  "allowWalk exact wild a =
     (case IndexByte a (CHR ''.'') of
        None \<Rightarrow> False
      | Some i \<Rightarrow>
          let a' = drop (Suc i) a in
          if a' \<in> wild then True else if a' \<in> exact then True else allowWalk exact wild a')"
  by pat_completeness auto
termination
  by (relation "measure (\<lambda>(e, w, a). length a)") (auto simp: IndexByte_def IndexP_Some)

declare allowWalk.simps [simp del]

definition allowMatchLocked :: "string set \<Rightarrow> string set \<Rightarrow> string \<Rightarrow> bool" where
  "allowMatchLocked exact wild h = (if h \<in> exact then True else allowWalk exact wild h)"

function blockWalk :: "Blocklist \<Rightarrow> string \<Rightarrow> string \<Rightarrow> bool" where
  "blockWalk b h a =
     (if a \<in> bl_exact b then True
      else if a \<noteq> h \<and> a \<in> bl_wild b then True
      else case IndexByte a (CHR ''.'') of
             None \<Rightarrow> False
           | Some i \<Rightarrow> blockWalk b h (drop (Suc i) a))"
  by pat_completeness auto
termination
  by (relation "measure (\<lambda>(b, h, a). length a)") (auto simp: IndexByte_def IndexP_Some)

declare blockWalk.simps [simp del]

definition Blocklist_IsBlocked :: "Blocklist \<Rightarrow> string \<Rightarrow> bool" where
  "Blocklist_IsBlocked b host =
     (if host = [] then False
      else let h = ToLower (TrimSuffix host ''.'') in
           if h = [] then False
           else if allowMatchLocked (bl_allowExact b) (bl_allowWild b) h then False
           else blockWalk b h h)"

subsection \<open>List lines\<close>

text \<open>
  What \<open>url.Parse\<close> yields of a URL; the function itself is a parameter \<open>parseURL\<close>,
  \<open>None\<close> standing for its error.
\<close>

record URL =
  u_Scheme :: string
  u_Host :: string
  u_Hostname :: string

definition spaceTab :: string where
  "spaceTab = [CHR '' '', char_of (9 :: nat)]"

definition isHostsIP :: "string \<Rightarrow> bool" where
  "isHostsIP line =
     (if line = [] then False
      else
        let ip = (case IndexAny line spaceTab of None \<Rightarrow> line | Some i \<Rightarrow> take i line) in
        if ip \<in> {''0.0.0.0'', ''127.0.0.1'', ''::'', ''::1'', ''255.255.255.255'', ''localhost''} then True
        else if isDigit (hd line) \<or> hd line = CHR '':'' then ParseIP ip \<noteq> []
        else False)"

definition cutAt :: "nat option \<Rightarrow> string \<Rightarrow> string" where
  "cutAt idx line = (case idx of None \<Rightarrow> line | Some i \<Rightarrow> TrimRight (take i line) spaceTab)"

text \<open>The set a line is added to is kept as its list of members; the flag is the return value.\<close>

definition addNorm :: "string \<Rightarrow> string list \<Rightarrow> string list \<times> bool" where
  "addNorm s merged =
     (let h = normalizeDomain s in if h \<noteq> [] then (List.insert h merged, True) else (merged, False))"

definition parseLine :: "(string \<Rightarrow> URL option) \<Rightarrow> string \<Rightarrow> string list \<Rightarrow> string list \<times> bool" where
  "parseLine parseURL line0 merged =
     (let l0 = TrimSpace line0 in
      if l0 = [] then (merged, False)
      else if hd l0 = CHR ''!'' \<or> hd l0 = CHR ''#'' then (merged, False)
      else if isHostsIP l0 then
        (case Fields l0 of
           _ # f1 # _ \<Rightarrow> addNorm (TrimSuffix f1 ''.'') merged
         | _ \<Rightarrow> (merged, False))
      else
        let l1 = cutAt (IndexAny l0 ''!#'') l0 in
        if l1 = [] then (merged, False)
        else
          let l2 = cutAt (IndexByte l1 (CHR ''$'')) l1 in
          if l2 = [] then (merged, False)
          else
            let hasDoublePipe = HasPrefix l2 ''||'';
                l3 = TrimLeft l2 ''|'';
                l4 = (case IndexByte l3 (CHR ''^'') of None \<Rightarrow> l3 | Some i \<Rightarrow> take i l3);
                l5 = TrimSpace l4
            in if l5 = [] then (merged, False)
               else if Contains l5 ''://'' then
                 (case parseURL l5 of
                    Some u \<Rightarrow> if u_Hostname u \<noteq> [] then addNorm (u_Hostname u) merged else (merged, False)
                  | None \<Rightarrow> (merged, False))
               else if hasDoublePipe then addNorm l5 merged
               else if HasPrefix l5 ''*.'' then
                 (let root = normalizeDomain (drop 2 l5)
                  in if root \<noteq> [] then (List.insert (''*.'' @ root) merged, True) else (merged, False))
               else addNorm l5 merged)"

subsection \<open>Fetching sources\<close>

definition maxSourceBytes :: nat where "maxSourceBytes = 268435456"

definition maxLineLen :: nat where "maxLineLen = 65536"

definition ssrfEnabled :: bool where "ssrfEnabled = True"

definition cgnatNet :: IPNet where
  "cgnatNet = \<lparr>net_IP = [100, 64, 0, 0], net_Mask = [255, 192, 0, 0]\<rparr>"

definition isPrivateIP :: "IP \<Rightarrow> bool" where
  "isPrivateIP ip =
     (if ip = [] then True else \<not> IsGlobalUnicast ip \<or> IsPrivate ip \<or> IPNet_Contains cgnatNet ip)"

datatype BlError = URLError string | UnsupportedScheme string | MissingHost | PrivateTarget
  | NoPublicAddress | NetworkError string | StatusError int | LineTooLong | ContextError string
  | NoSources | NoDomains | CorruptCache

text \<open>
  The guarded dialer: every address the name resolves to is skipped when it is private,
  else dialled; the first connection wins. The second component lists what was dialled.
\<close>

fun dialPublic :: "(string \<Rightarrow> 'c option) \<Rightarrow> string \<Rightarrow> string list \<Rightarrow> (BlError, 'c) result \<times> string list" where
  "dialPublic dial port [] = (Inl NoPublicAddress, [])"
| "dialPublic dial port (ip # ips) =
     (if isPrivateIP (ParseIP ip) then dialPublic dial port ips
      else case dial (JoinHostPort ip port) of
             Some c \<Rightarrow> (Inr c, [JoinHostPort ip port])
           | None \<Rightarrow> (case dialPublic dial port ips of (r, ds) \<Rightarrow> (r, JoinHostPort ip port # ds)))"

definition safeDialContext ::
  "(string \<Rightarrow> (string, string list) result) \<Rightarrow> (string \<Rightarrow> 'c option) \<Rightarrow> string
   \<Rightarrow> (BlError, 'c) result \<times> string list" where
  "safeDialContext lookupHost dial addr =
     (if \<not> ssrfEnabled then
        (case dial addr of None \<Rightarrow> (Inl (NetworkError addr), [addr]) | Some c \<Rightarrow> (Inr c, [addr]))
      else case SplitHostPort addr of
        None \<Rightarrow> (Inl (NetworkError addr), [])
      | Some (host, port) \<Rightarrow>
          (case lookupHost host of
             Inl e \<Rightarrow> (Inl (NetworkError e), [])
           | Inr ips \<Rightarrow> dialPublic dial port ips))"

definition validateSourceURL :: "(string \<Rightarrow> URL option) \<Rightarrow> string \<Rightarrow> BlError option" where
  "validateSourceURL parseURL rawURL =
     (case parseURL rawURL of
        None \<Rightarrow> Some (URLError rawURL)
      | Some u \<Rightarrow>
          if u_Scheme u \<noteq> ''http'' \<and> u_Scheme u \<noteq> ''https'' then Some (UnsupportedScheme (u_Scheme u))
          else if u_Host u = [] then Some MissingHost
          else if ssrfEnabled
            \<and> (let h = TrimPrefix (u_Hostname u) ''['' in ParseIP h \<noteq> [] \<and> isPrivateIP (ParseIP h))
            then Some PrivateTarget
          else None)"

record Validators =
  v_ETag :: string
  v_LastModified :: string

record FetchResult =
  fr_Domains :: "string list"
  fr_Validators :: Validators
  fr_NotModified :: bool

record Request =
  rq_URL :: string
  rq_IfNoneMatch :: string
  rq_IfModifiedSince :: string

record Response =
  rs_StatusCode :: int
  rs_ETag :: string
  rs_LastModified :: string
  rs_Body :: string

text \<open>
  \<open>bufio.Scanner\<close> with its default split: lines without their newline and one carriage
  return, no final empty line; a line that does not fit the buffer stops the scan.
\<close>

definition scanLines :: "string \<Rightarrow> string list" where
  "scanLines body =
     (let ls = Split body (char_of (10 :: nat))
      in if last ls = [] then butlast ls else ls)"

definition dropCR :: "string \<Rightarrow> string" where
  "dropCR l = (if l \<noteq> [] \<and> last l = char_of (13 :: nat) then butlast l else l)"

text \<open>\<open>ctxErr i\<close> is what the \<open>i\<close>-th look at the context reports.\<close>

fun scanSource ::
  "(string \<Rightarrow> URL option) \<Rightarrow> (nat \<Rightarrow> string option) \<Rightarrow> nat \<Rightarrow> string list \<Rightarrow> string list
   \<Rightarrow> (BlError, string list) result" where
  "scanSource parseURL ctxErr i [] st =
     (case ctxErr i of Some e \<Rightarrow> Inl (ContextError e) | None \<Rightarrow> Inr st)"
| "scanSource parseURL ctxErr i (l # ls) st =
     (if maxLineLen \<le> length l then Inl LineTooLong
      else
        let st' = fst (parseLine parseURL (dropCR l) st)
        in case ctxErr i of
             Some e \<Rightarrow> Inl (ContextError e)
           | None \<Rightarrow> scanSource parseURL ctxErr (Suc i) ls st')"

definition FetchSource ::
  "(string \<Rightarrow> URL option) \<Rightarrow> (Request \<Rightarrow> (string, Response) result) \<Rightarrow> (nat \<Rightarrow> string option)
   \<Rightarrow> string \<Rightarrow> Validators \<Rightarrow> (BlError, FetchResult) result" where
  "FetchSource parseURL do ctxErr rawURL v =
     (case validateSourceURL parseURL rawURL of
        Some e \<Rightarrow> Inl e
      | None \<Rightarrow>
          (case do \<lparr>rq_URL = rawURL, rq_IfNoneMatch = v_ETag v, rq_IfModifiedSince = v_LastModified v\<rparr> of
             Inl e \<Rightarrow> Inl (NetworkError e)
           | Inr resp \<Rightarrow>
               let val = \<lparr>v_ETag = rs_ETag resp, v_LastModified = rs_LastModified resp\<rparr> in
               if rs_StatusCode resp = 304
                 then Inr \<lparr>fr_Domains = [], fr_Validators = val, fr_NotModified = True\<rparr>
               else if rs_StatusCode resp \<noteq> 200 then Inl (StatusError (rs_StatusCode resp))
               else
                 (case scanSource parseURL ctxErr 0 (scanLines (take maxSourceBytes (rs_Body resp))) [] of
                    Inl e \<Rightarrow> Inl e
                  | Inr ds \<Rightarrow> Inr \<lparr>fr_Domains = ds, fr_Validators = val, fr_NotModified = False\<rparr>)))"

record Progress =
  pg_URL :: string
  pg_Domains :: nat
  pg_SourceDone :: nat
  pg_SourceTotal :: nat

record SourceResult =
  sr_URL :: string
  sr_Domains :: nat
  sr_Err :: "BlError option"

record LoadResult =
  lr_Domains :: nat
  lr_Sources :: nat
  lr_Failed :: nat
  lr_Errors :: "(string \<times> BlError) option list"
  lr_PerSource :: "SourceResult list"

text \<open>
  The goroutine of one source: it gets a slot, or gives up because the context ended first
  (\<open>slot\<close>, decided by the scheduler); its result is stored at the source's own index.
\<close>

definition fetchSlot ::
  "(string \<Rightarrow> (BlError, FetchResult) result) \<Rightarrow> string option \<Rightarrow> string
   \<Rightarrow> (BlError, string list) result" where
  "fetchSlot fetch slot u =
     (case slot of
        Some e \<Rightarrow> Inl (ContextError e)
      | None \<Rightarrow>
          (case fetch u of
             Inl e \<Rightarrow> Inl e
           | Inr fr \<Rightarrow> if fr_NotModified fr then Inr [] else Inr (fr_Domains fr)))"

definition mergeOne ::
  "string \<Rightarrow> (BlError, string list) result \<Rightarrow> string list \<times> LoadResult \<Rightarrow> string list \<times> LoadResult" where
  "mergeOne u r acc =
     (case acc of (merged, res) \<Rightarrow>
        (case r of
           Inl e \<Rightarrow>
             (merged,
              res\<lparr>lr_Failed := lr_Failed res + 1, lr_Errors := lr_Errors res @ [Some (u, e)],
                  lr_PerSource := lr_PerSource res @ [\<lparr>sr_URL = u, sr_Domains = 0, sr_Err = Some e\<rparr>]\<rparr>)
         | Inr st \<Rightarrow>
             (fold List.insert st merged,
              res\<lparr>lr_Errors := lr_Errors res @ [None],
                  lr_PerSource := lr_PerSource res @ [\<lparr>sr_URL = u, sr_Domains = length st, sr_Err = None\<rparr>]\<rparr>)))"

fun mergeLoop ::
  "(nat \<Rightarrow> string option) \<Rightarrow> nat \<Rightarrow> nat \<Rightarrow> (string \<times> (BlError, string list) result) list
   \<Rightarrow> string list \<times> LoadResult \<Rightarrow> (BlError, string list \<times> LoadResult) result \<times> Progress list" where
  "mergeLoop ctxErr tot i [] acc = (Inr acc, [])"
| "mergeLoop ctxErr tot i ((u, r) # rs) acc =
     (let acc' = mergeOne u r acc;
          pg = \<lparr>pg_URL = u, pg_Domains = length (fst acc'), pg_SourceDone = i + 1, pg_SourceTotal = tot\<rparr>
      in case ctxErr i of
           Some e \<Rightarrow> (Inl (ContextError e), [pg])
         | None \<Rightarrow> (case mergeLoop ctxErr tot (i + 1) rs acc' of (x, ps) \<Rightarrow> (x, pg # ps)))"

text \<open>The new list, the result or error with the result when there is one, and the progress.\<close>

definition Blocklist_LoadFromURLs ::
  "(string \<Rightarrow> bool) \<Rightarrow> (nat \<Rightarrow> string \<Rightarrow> (BlError, FetchResult) result) \<Rightarrow> (nat \<Rightarrow> string option)
   \<Rightarrow> (nat \<Rightarrow> string option) \<Rightarrow> string list \<Rightarrow> Blocklist
   \<Rightarrow> Blocklist \<times> LoadResult option \<times> BlError option \<times> Progress list" where
  "Blocklist_LoadFromURLs validURI fetch slot ctxErr urls b =
     (if urls = [] then (b, None, Some NoSources, [])
      else case find (\<lambda>u. \<not> validURI u) urls of
        Some u \<Rightarrow> (b, None, Some (URLError u), [])
      | None \<Rightarrow>
          let results = map (\<lambda>(i, u). (u, fetchSlot (fetch i) (slot i) u)) (enumerate 0 urls);
              res0 = \<lparr>lr_Domains = 0, lr_Sources = length urls, lr_Failed = 0, lr_Errors = [], lr_PerSource = []\<rparr>
          in case mergeLoop ctxErr (length urls) 0 results ([], res0) of
               (Inl e, ps) \<Rightarrow> (b, None, Some e, ps)
             | (Inr (merged, res), ps) \<Rightarrow>
                 if merged = [] then (b, Some res, Some NoDomains, ps)
                 else (Blocklist_FromDomainsMap merged b, Some (res\<lparr>lr_Domains := length merged\<rparr>), None, ps))"

subsection \<open>The snapshot file\<close>

record cacheFile =
  cf_Domains :: "string list"
  cf_Allowed :: "string list"

text \<open>
  A file as its JSON content: the snapshot object, the legacy bare array of domains, or
  neither. \<open>LoadCache\<close> returns no list and no error when there is no file.
\<close>

datatype cacheContent = CacheObject cacheFile | CacheArray "string list" | CacheCorrupt

definition SaveCache :: "string list \<Rightarrow> string list \<Rightarrow> string list \<Rightarrow> string list \<Rightarrow> cacheContent" where
  "SaveCache es ws aes aws =
     CacheObject \<lparr>cf_Domains = Blocklist_List es ws, cf_Allowed = Blocklist_List aes aws\<rparr>"

definition LoadCache :: "cacheContent option \<Rightarrow> (BlError, Blocklist option) result" where
  "LoadCache file =
     (case file of
        None \<Rightarrow> Inr None
      | Some CacheCorrupt \<Rightarrow> Inl CorruptCache
      | Some (CacheArray ds) \<Rightarrow>
          Inr (Some (Blocklist_SetAllowed [] (Blocklist_FromDomains ds New)))
      | Some (CacheObject cf) \<Rightarrow>
          Inr (Some (Blocklist_SetAllowed (cf_Allowed cf) (Blocklist_FromDomains (cf_Domains cf) New))))"

subsection \<open>Walks decide coverage\<close>

lemma ancestors_cut:
  "ancestors a = (case IndexByte a (CHR ''.'') of None \<Rightarrow> []
     | Some i \<Rightarrow> drop (Suc i) a # ancestors (drop (Suc i) a))"
proof (induction a)
  case (Cons c cs)
  then show ?case by (auto simp: IndexByte_def split: option.splits)
qed (simp add: IndexByte_def)

lemma allowWalk_iff:
  "allowWalk e w a \<longleftrightarrow> (\<exists>x \<in> set (ancestors a). x \<in> e \<or> x \<in> w)"
proof (induction e w a rule: allowWalk.induct)
  case (1 e w a)
  show ?case
    by (subst allowWalk.simps, subst ancestors_cut) (auto simp: Let_def 1 split: option.splits)
qed

lemma blockWalk_iff:
  "blockWalk b h a \<longleftrightarrow> a \<in> bl_exact b \<or> (a \<noteq> h \<and> a \<in> bl_wild b)
     \<or> (\<exists>x \<in> set (ancestors a). x \<in> bl_exact b \<or> (x \<noteq> h \<and> x \<in> bl_wild b))"
proof (induction a rule: length_induct)
  case (1 a)
  have "IndexByte a (CHR ''.'') = Some i \<Longrightarrow> length (drop (Suc i) a) < length a" for i
    by (auto simp: IndexByte_def IndexP_Some)
  with 1 show ?case
    by (subst blockWalk.simps, subst ancestors_cut) (auto split: option.splits)
qed

lemma ancestors_irrefl: "h \<notin> set (ancestors h)"
  using ancestors_length by blast

lemma allowMatch_covered: "allowMatchLocked e w h \<longleftrightarrow> covered e w h"
  by (auto simp: allowMatchLocked_def allowWalk_iff covered_def)

lemma blockWalk_covered: "blockWalk b h h \<longleftrightarrow> covered (bl_exact b) (bl_wild b) h"
  using ancestors_irrefl [of h] by (auto simp: blockWalk_iff covered_def)

interpretation block_set: name_matcher "\<lambda>b h. blockWalk b h h" bl_exact bl_wild
  by unfold_locales (rule blockWalk_covered)

interpretation allow_set: name_matcher "\<lambda>b. allowMatchLocked (bl_allowExact b) (bl_allowWild b)"
  bl_allowExact bl_allowWild
  by unfold_locales (rule allowMatch_covered)

subsection \<open>Count and checksum\<close>

text \<open>What the checksum stands for: the hash of every entry, summed over the sets.\<close>

definition setSum :: "(string \<Rightarrow> string) \<Rightarrow> string set \<Rightarrow> string set \<Rightarrow> u64" where
  "setSum tag exact wild =
     (\<Sum>d \<in> exact. hashString (tag d)) + (\<Sum>r \<in> wild. hashString (tag (''*.'' @ r)))"

definition Blocklist_inv :: "Blocklist \<Rightarrow> bool" where
  "Blocklist_inv b \<longleftrightarrow>
     finite (bl_exact b) \<and> finite (bl_wild b) \<and> finite (bl_allowExact b) \<and> finite (bl_allowWild b)
     \<and> bl_count b = int (card (bl_exact b)) + int (card (bl_wild b))
     \<and> bl_blockSum b = setSum (\<lambda>k. k) (bl_exact b) (bl_wild b)
     \<and> bl_allowSum b = setSum (\<lambda>k. ''allow:'' @ k) (bl_allowExact b) (bl_allowWild b)"

definition bulk_ok :: "(string \<Rightarrow> string) \<Rightarrow> (string set \<times> string set) \<times> u64 \<Rightarrow> bool" where
  "bulk_ok tag acc \<longleftrightarrow>
     (case acc of ((e, w), t) \<Rightarrow> finite e \<and> finite w \<and> t = setSum tag e w)"

lemma bulkStep_ok: "bulk_ok tag acc \<Longrightarrow> bulk_ok tag (bulkStep tag d acc)"
  by (auto simp: bulk_ok_def bulkStep_def addEntry_def Let_def setSum_def split: prod.splits if_splits)

interpretation bulk: invariant_steps "bulkStep tag" "bulk_ok tag" for tag
  by unfold_locales (rule bulkStep_ok)

lemma bulk_fold_ok:
  assumes "fold (bulkStep tag) ds (({}, {}), 0) = ((e, w), t)"
  shows "finite e" "finite w" "t = setSum tag e w"
  using bulk.run_inv [of tag "(({}, {}), 0)" ds] assms by (simp_all add: bulk_ok_def setSum_def)

text \<open>The sets a bulk load builds, read off the input.\<close>

definition entryExact :: "string \<Rightarrow> string set" where
  "entryExact d0 = (let d = TrimSpace d0 in if HasPrefix d ''*.'' then {} else {normalizeDomain d} - {[]})"

definition entryWild :: "string \<Rightarrow> string set" where
  "entryWild d0 = (let d = TrimSpace d0 in if HasPrefix d ''*.'' then {normalizeDomain (drop 2 d)} - {[]} else {})"

lemma normalizeDomain_Nil [simp]: "normalizeDomain [] = []"
  by code_simp

lemma addEntry_sets:
  "fst (addEntry d (e, w)) = (e \<union> entryExact d, w \<union> entryWild d)"
  by (auto simp: addEntry_def entryExact_def entryWild_def Let_def HasPrefix_def)

lemma bulk_fold_sets:
  "fst (fold (bulkStep tag) ds ((e, w), t)) = (e \<union> \<Union> (entryExact ` set ds), w \<union> \<Union> (entryWild ` set ds))"
proof (induction ds arbitrary: e w t)
  case (Cons d ds)
  obtain e' w' k where a: "addEntry d (e, w) = ((e', w'), k)" by (metis surj_pair)
  then have "e' = e \<union> entryExact d" "w' = w \<union> entryWild d" using addEntry_sets [of d e w] by auto
  with a Cons.IH [of e' w'] show ?case by (auto simp: bulkStep_def)
qed simp

lemma FromDomainsMap_fields:
  "bl_exact (Blocklist_FromDomainsMap ds b) = \<Union> (entryExact ` set ds)"
  "bl_wild (Blocklist_FromDomainsMap ds b) = \<Union> (entryWild ` set ds)"
  "bl_allowExact (Blocklist_FromDomainsMap ds b) = bl_allowExact b"
  "bl_allowWild (Blocklist_FromDomainsMap ds b) = bl_allowWild b"
  using bulk_fold_sets [of "\<lambda>k. k" ds "{}" "{}" 0]
  by (auto simp: Blocklist_FromDomainsMap_def Blocklist_swap_def split: prod.splits)

lemma SetAllowed_fields:
  "bl_allowExact (Blocklist_SetAllowed ds b) = \<Union> (entryExact ` set ds)"
  "bl_allowWild (Blocklist_SetAllowed ds b) = \<Union> (entryWild ` set ds)"
  "bl_exact (Blocklist_SetAllowed ds b) = bl_exact b"
  "bl_wild (Blocklist_SetAllowed ds b) = bl_wild b"
  using bulk_fold_sets [of "\<lambda>k. ''allow:'' @ k" ds "{}" "{}" 0]
  by (auto simp: Blocklist_SetAllowed_def split: prod.splits)

lemma New_inv [blip_inv]: "Blocklist_inv New"
  by (simp add: New_def Blocklist_inv_def setSum_def)

lemma FromDomainsMap_inv [blip_inv]:
  "Blocklist_inv b \<Longrightarrow> Blocklist_inv (Blocklist_FromDomainsMap ds b)"
  by (auto simp: Blocklist_FromDomainsMap_def Blocklist_swap_def Blocklist_inv_def
      dest: bulk_fold_ok split: prod.splits)

lemma SetAllowed_inv [blip_inv]:
  "Blocklist_inv b \<Longrightarrow> Blocklist_inv (Blocklist_SetAllowed ds b)"
  by (auto simp: Blocklist_SetAllowed_def Blocklist_inv_def dest: bulk_fold_ok split: prod.splits)

lemma Add_inv [blip_inv]: "Blocklist_inv b \<Longrightarrow> Blocklist_inv (Blocklist_Add d b)"
  by (auto simp: Blocklist_Add_def Blocklist_inv_def setSum_def Let_def)

lemma AddAllowed_inv [blip_inv]: "Blocklist_inv b \<Longrightarrow> Blocklist_inv (Blocklist_AddAllowed d b)"
  by (auto simp: Blocklist_AddAllowed_def Blocklist_inv_def setSum_def Let_def)

lemma card_remove_int: "finite S \<Longrightarrow> x \<in> S \<Longrightarrow> int (card (S - {x})) = int (card S) - 1"
  by (metis add_diff_cancel_left' card.remove of_nat_Suc)

lemma Remove_inv [blip_inv]: "Blocklist_inv b \<Longrightarrow> Blocklist_inv (Blocklist_Remove d b)"
  by (auto simp: Blocklist_Remove_def Blocklist_inv_def setSum_def Let_def sum_diff1 card_remove_int
      simp del: card_Diff_insert)

lemma RemoveAllowed_inv [blip_inv]: "Blocklist_inv b \<Longrightarrow> Blocklist_inv (Blocklist_RemoveAllowed d b)"
  by (auto simp: Blocklist_RemoveAllowed_def Blocklist_inv_def setSum_def Let_def sum_diff1)

datatype bl_op = BlFromDomains "string list" | BlAdd string | BlRemove string
  | BlSetAllowed "string list" | BlAddAllowed string | BlRemoveAllowed string

fun bl_step :: "bl_op \<Rightarrow> Blocklist \<Rightarrow> Blocklist" where
  "bl_step (BlFromDomains ds) b = Blocklist_FromDomains ds b"
| "bl_step (BlAdd d) b = Blocklist_Add d b"
| "bl_step (BlRemove d) b = Blocklist_Remove d b"
| "bl_step (BlSetAllowed ds) b = Blocklist_SetAllowed ds b"
| "bl_step (BlAddAllowed d) b = Blocklist_AddAllowed d b"
| "bl_step (BlRemoveAllowed d) b = Blocklist_RemoveAllowed d b"

interpretation blocklist: invariant_steps bl_step Blocklist_inv
proof
  fix b e assume "Blocklist_inv b"
  then show "Blocklist_inv (bl_step e b)"
    by (cases e) (simp_all add: blip_inv Blocklist_FromDomains_def)
qed

subsection \<open>Sources\<close>

lemma cgnatNet_parsed: "map_option snd (ParseCIDR ''100.64.0.0/10'') = Some cgnatNet"
  by code_simp

lemma dialPublic_public:
  "a \<in> set (snd (dialPublic dial port ips)) \<Longrightarrow>
     \<exists>ip \<in> set ips. a = JoinHostPort ip port \<and> \<not> isPrivateIP (ParseIP ip)"
  by (induction ips) (auto split: option.splits prod.splits if_splits)

lemma dialPublic_result:
  "fst (dialPublic dial port ips) = Inr c \<Longrightarrow>
     \<exists>ip \<in> set ips. dial (JoinHostPort ip port) = Some c \<and> \<not> isPrivateIP (ParseIP ip)"
  by (induction ips) (auto split: option.splits prod.splits if_splits)

lemma addNorm_distinct: "distinct m \<Longrightarrow> distinct (fst (addNorm s m))"
  by (simp add: addNorm_def Let_def)

lemma parseLine_distinct: "distinct m \<Longrightarrow> distinct (fst (parseLine pu l m))"
  by (auto simp: parseLine_def Let_def addNorm_distinct split: list.splits option.splits)

subsection \<open>Canonical names\<close>

abbreviation spaceFree :: "string \<Rightarrow> bool" where
  "spaceFree s \<equiv> set s \<inter> set asciiSpaces = {}"

lemma dropWhile_none: "\<forall>x \<in> set xs. \<not> P x \<Longrightarrow> dropWhile P xs = xs"
  by (cases xs) auto

lemma TrimSpace_spaceFree: "spaceFree s \<Longrightarrow> TrimSpace s = s"
  by (auto simp: TrimSpace_def Trim_def TrimLeft_def TrimRight_def dropWhile_none disjoint_iff)

lemma dropWhile_hd: "xs \<noteq> [] \<Longrightarrow> \<not> P (hd xs) \<Longrightarrow> dropWhile P xs = xs"
  by (cases xs) auto

lemma TrimSpace_ends:
  "s \<noteq> [] \<Longrightarrow> hd s \<notin> set asciiSpaces \<Longrightarrow> last s \<notin> set asciiSpaces \<Longrightarrow> TrimSpace s = s"
  by (simp add: TrimSpace_def Trim_def TrimLeft_def TrimRight_def dropWhile_hd hd_rev)

lemma lowerChar_space: "lowerChar c \<in> set asciiSpaces \<longleftrightarrow> c \<in> set asciiSpaces"
  by (auto simp: asciiSpaces_def lowerChar_def Let_def)

lemma spaceFree_ToLower: "spaceFree (ToLower s) \<longleftrightarrow> spaceFree s"
  by (auto simp: ToLower_def lowerChar_space disjoint_iff)

lemma dotScan_last: "dotScan s p n = Some (q, k) \<Longrightarrow> s \<noteq> [] \<Longrightarrow> last s = CHR ''.'' \<longleftrightarrow> q"
proof (induction s arbitrary: p n)
  case (Cons c cs)
  then show ?case by (cases "cs = []") (auto split: if_splits)
qed simp

lemma normalizeDomain_shape:
  assumes "normalizeDomain s = d" and "d \<noteq> []"
  shows "d = TrimSuffix (ToLower (TrimSpace s)) ''.''" "last d \<noteq> CHR ''.''"
    "\<exists>k \<ge> 1. dotScan d True 0 = Some (False, k)"
proof -
  from assms obtain k where k: "d = TrimSuffix (ToLower (TrimSpace s)) ''.''"
    "dotScan d True 0 = Some (False, k)" "1 \<le> k"
    by (auto simp: normalizeDomain_def Let_def split: if_splits option.splits)
  then show "d = TrimSuffix (ToLower (TrimSpace s)) ''.''" "last d \<noteq> CHR ''.''"
    "\<exists>k \<ge> 1. dotScan d True 0 = Some (False, k)"
    using dotScan_last [OF k(2) assms(2)] by auto
qed

lemma normalizeDomain_idem:
  assumes "spaceFree s"
  shows "normalizeDomain (normalizeDomain s) = normalizeDomain s \<and> spaceFree (normalizeDomain s)"
proof (cases "normalizeDomain s = []")
  case False
  define d where "d = normalizeDomain s"
  note shape = normalizeDomain_shape [OF d_def [symmetric], folded d_def, OF False [folded d_def]]
  have "d = TrimSuffix (ToLower s) ''.''" using shape(1) assms by (simp add: TrimSpace_spaceFree)
  then have sub: "set d \<subseteq> set (ToLower s)" and low: "ToLower d = d"
    by (auto simp: TrimSuffix_dot butlast_ToLower [symmetric] dest: in_set_butlastD split: if_splits)
  then have sf: "spaceFree d" using assms spaceFree_ToLower [of s] by blast
  moreover have "normalizeDomain d = d"
    using shape(2,3) sf low False
    by (auto simp: normalizeDomain_def TrimSpace_spaceFree TrimSuffix_dot d_def [symmetric] Let_def)
  ultimately show ?thesis by (simp add: d_def)
qed simp

text \<open>A list whose entries survive being written to the snapshot and read back.\<close>

definition canonical :: "string \<Rightarrow> bool" where
  "canonical d \<longleftrightarrow> d \<noteq> [] \<and> normalizeDomain d = d \<and> spaceFree d"

definition Blocklist_canonical :: "Blocklist \<Rightarrow> bool" where
  "Blocklist_canonical b \<longleftrightarrow>
     (\<forall>d \<in> bl_exact b \<union> bl_allowExact b. canonical d \<and> \<not> HasPrefix d ''*.'')
     \<and> (\<forall>r \<in> bl_wild b \<union> bl_allowWild b. canonical r)"

lemma entries_canonical:
  assumes "spaceFree d0"
  shows "x \<in> entryExact d0 \<Longrightarrow> canonical x \<and> \<not> HasPrefix x ''*.''"
    and "x \<in> entryWild d0 \<Longrightarrow> canonical x"
proof -
  have sf: "spaceFree (drop 2 d0)" using assms by (meson disjoint_iff in_set_dropD)
  show "x \<in> entryWild d0 \<Longrightarrow> canonical x"
    using normalizeDomain_idem [OF sf] assms
    by (auto simp: entryWild_def Let_def TrimSpace_spaceFree canonical_def split: if_splits)
  assume x: "x \<in> entryExact d0"
  then have d0: "\<not> HasPrefix d0 ''*.''" and xd: "x = normalizeDomain d0" "x \<noteq> []"
    using assms by (auto simp: entryExact_def Let_def TrimSpace_spaceFree split: if_splits)
  have "x = TrimSuffix (ToLower d0) ''.''"
    using normalizeDomain_shape(1) [OF xd(1) [symmetric] xd(2)] assms by (simp add: TrimSpace_spaceFree)
  then have "prefix x (ToLower d0)"
    by (auto simp: TrimSuffix_dot prefixeq_butlast)
  then have "\<not> HasPrefix x ''*.''"
    using d0 by (cases d0; cases "tl d0") (auto simp: HasPrefix_iff prefix_def)
  then show "canonical x \<and> \<not> HasPrefix x ''*.''"
    using normalizeDomain_idem [OF assms] xd by (auto simp: canonical_def)
qed

lemma canonical_entry:
  assumes "canonical d"
  shows "\<not> HasPrefix d ''*.'' \<Longrightarrow> entryExact d = {d} \<and> entryWild d = {}"
    and "entryExact (''*.'' @ d) = {} \<and> entryWild (''*.'' @ d) = {d}"
proof -
  have "spaceFree ''*.''" by code_simp
  then have "spaceFree (''*.'' @ d)" using assms by (auto simp: canonical_def)
  then have "TrimSpace (''*.'' @ d) = ''*.'' @ d" by (rule TrimSpace_spaceFree)
  then show "entryExact (''*.'' @ d) = {} \<and> entryWild (''*.'' @ d) = {d}"
    using assms HasPrefix_append [of "''*.''" d] by (auto simp: entryExact_def entryWild_def canonical_def)
qed (use assms in \<open>auto simp: entryExact_def entryWild_def canonical_def TrimSpace_spaceFree\<close>)

lemma List_entries:
  assumes "\<forall>d \<in> set es. canonical d \<and> \<not> HasPrefix d ''*.''" and "\<forall>r \<in> set ws. canonical r"
  shows "\<Union> (entryExact ` set (Blocklist_List es ws)) = set es"
    and "\<Union> (entryWild ` set (Blocklist_List es ws)) = set ws"
  using assms canonical_entry by (auto simp: Blocklist_List_def simp del: append_Cons append_Nil)

lemma Blocklist_eqI:
  assumes "Blocklist_inv a" and "Blocklist_inv b" and "bl_exact a = bl_exact b"
    "bl_wild a = bl_wild b" "bl_allowExact a = bl_allowExact b" "bl_allowWild a = bl_allowWild b"
  shows "a = b"
  using assms by (cases a; cases b) (simp add: Blocklist_inv_def)

text \<open>A list rebuilt from its own entries, in whatever order they come out, is the same list.\<close>

lemma relist_same:
  assumes "Blocklist_inv b" and "Blocklist_canonical b"
    and "enumerates es (bl_exact b)" and "enumerates ws (bl_wild b)"
    and "enumerates aes (bl_allowExact b)" and "enumerates aws (bl_allowWild b)"
  shows "Blocklist_SetAllowed (Blocklist_List aes aws) (Blocklist_FromDomains (Blocklist_List es ws) New) = b"
    (is "?r = b")
proof (rule Blocklist_eqI [OF _ assms(1)])
  show "Blocklist_inv ?r" by (simp add: Blocklist_FromDomains_def blip_inv)
qed (use assms(2-6) List_entries [of es ws] List_entries [of aes aws] in
    \<open>simp_all add: SetAllowed_fields FromDomainsMap_fields Blocklist_FromDomains_def
       Blocklist_canonical_def enumerates_def\<close>)

subsection \<open>Line formats\<close>

text \<open>Names made of bytes that none of the list formats gives a meaning to.\<close>

definition plainName :: "string \<Rightarrow> bool" where
  "plainName d \<longleftrightarrow> canonical d \<and> set d \<inter> set ''!#$|^:/*'' = {} \<and> \<not> isHostsIP d"

lemma IndexAny_none: "set s \<inter> set cs = {} \<Longrightarrow> IndexAny s cs = None"
  by (auto simp: IndexAny_def IndexP_None)

lemma cutAt_none:
  "c \<notin> set s \<Longrightarrow> cutAt (IndexByte s c) s = s"
  "set s \<inter> set cs = {} \<Longrightarrow> cutAt (IndexAny s cs) s = s"
  using IndexByte_None [of s c] IndexAny_none [of s cs] by (auto simp: cutAt_def)

lemma Index_none: "hd sub \<notin> set s \<Longrightarrow> sub \<noteq> [] \<Longrightarrow> Index s sub = None"
  by (induction s) (auto simp: HasPrefix_def neq_Nil_conv)

lemma FieldsFunc_word:
  "\<forall>c \<in> set w. \<not> P c \<Longrightarrow> FieldsFunc_aux P (w @ t) acc = FieldsFunc_aux P t (rev w @ acc)"
  by (induction w arbitrary: acc) auto

lemma plain_facts:
  assumes "plainName d"
  shows "TrimSpace d = d" "normalizeDomain d = d" "d \<noteq> []" "\<not> isHostsIP d"
    and "CHR ''!'' \<notin> set d" "CHR ''#'' \<notin> set d" "CHR ''$'' \<notin> set d" "CHR ''|'' \<notin> set d"
      "CHR ''^'' \<notin> set d" "CHR '':'' \<notin> set d" "CHR ''*'' \<notin> set d" "spaceFree d"
  using assms by (auto simp: plainName_def canonical_def TrimSpace_spaceFree)

lemma plain_tail:
  assumes "plainName d"
  shows "\<not> Contains d ''://''" "TrimLeft d ''|'' = d" "IndexByte d (CHR ''^'') = None"
    "\<not> HasPrefix d ''||''" "\<not> HasPrefix d ''*.''" "cutAt (IndexByte d (CHR ''$'')) d = d"
    "cutAt (IndexAny d ''!#'') d = d" "hd d \<noteq> CHR ''!''" "hd d \<noteq> CHR ''#''"
proof -
  note p = plain_facts [OF assms]
  show "hd d \<noteq> CHR ''!''" "hd d \<noteq> CHR ''#''" using p(5,6) hd_in_set [OF p(3)] by metis+
qed (use plain_facts [OF assms] in \<open>auto simp: Contains_def Index_none TrimLeft_def IndexByte_None
      HasPrefix_iff intro!: dropWhile_none cutAt_none\<close>)

lemma parseLine_plain:
  assumes "plainName d"
  shows "parseLine pu d m = (List.insert d m, True)"
  using plain_facts [OF assms] plain_tail [OF assms]
  by (simp add: parseLine_def addNorm_def)

lemma parseLine_hosts:
  assumes "plainName d"
  shows "parseLine pu (''0.0.0.0 '' @ d) m = (List.insert d m, True)"
proof -
  note p = plain_facts [OF assms]
  have sp: "set ''0.0.0.0'' \<inter> set asciiSpaces = {}" "CHR '' '' \<in> set asciiSpaces" by code_simp+
  have "last d \<notin> set asciiSpaces" using p(3,12) by (meson disjoint_iff last_in_set)
  then have trim: "TrimSpace (''0.0.0.0 '' @ d) = ''0.0.0.0 '' @ d"
    using p(3) sp(1) by (intro TrimSpace_ends) auto
  have tab: "spaceTab = [CHR '' '', CHR 0x09]" by code_simp
  have ix: "IndexAny (''0.0.0.0 '' @ d) spaceTab = Some 7" by (simp add: IndexAny_def tab)
  have "Fields (''0.0.0.0'' @ CHR '' '' # d) = [''0.0.0.0'', d]"
    using sp p(3,12) FieldsFunc_word [of d "\<lambda>c. c \<in> set asciiSpaces" "[]" "[]"]
    unfolding Fields_def FieldsFunc_def by (subst FieldsFunc_word) (auto simp: disjoint_iff)
  then have fields: "Fields (''0.0.0.0 '' @ d) = [''0.0.0.0'', d]" by simp
  have nodot: "TrimSuffix d ''.'' = d"
    using normalizeDomain_shape(2) [OF p(2) p(3)] by (simp add: TrimSuffix_dot)
  have hosts: "isHostsIP (''0.0.0.0 '' @ d)" using ix by (simp add: isHostsIP_def Let_def)
  show ?thesis
    using p(2,3) nodot fields unfolding parseLine_def trim Let_def
    by (simp add: hosts [simplified] addNorm_def)
qed

lemma parseLine_abp:
  assumes "plainName d"
  shows "parseLine pu (''||'' @ d @ ''^'') m = (List.insert d m, True)"
proof -
  note p = plain_facts [OF assms]
  have "spaceFree ''||''" "spaceFree ''^''" by code_simp+
  then have trim: "TrimSpace (''||'' @ d @ ''^'') = ''||'' @ d @ ''^''"
    using p(12) by (intro TrimSpace_spaceFree) auto
  have nothost: "\<not> isHostsIP (''||'' @ d @ ''^'')"
    by (auto simp: isHostsIP_def Let_def isDigit_def IndexAny_def spaceTab_def split: option.splits)
  have cut: "cutAt (IndexAny (''||'' @ d @ ''^'') ''!#'') (''||'' @ d @ ''^'') = ''||'' @ d @ ''^''"
    "cutAt (IndexByte (''||'' @ d @ ''^'') (CHR ''$'')) (''||'' @ d @ ''^'') = ''||'' @ d @ ''^''"
    using p(5-7) by (auto intro!: cutAt_none)
  have left: "TrimLeft (''||'' @ d @ ''^'') ''|'' = d @ ''^''"
    using p(3,8) by (cases d) (auto simp: TrimLeft_def)
  have caret: "IndexByte (d @ ''^'') (CHR ''^'') = Some (length d)"
    using p(9) by (auto simp: IndexByte_def intro!: IndexP_append)
  show ?thesis
    unfolding parseLine_def trim Let_def cut left caret
    using nothost p(1-3) plain_tail [OF assms] HasPrefix_append [of "''||''" "d @ ''^''"]
    by (simp add: addNorm_def)
qed

lemma parseLine_wild:
  assumes "plainName d"
  shows "parseLine pu (''*.'' @ d) m = (List.insert (''*.'' @ d) m, True)"
proof -
  note p = plain_facts [OF assms]
  let ?l = "''*.'' @ d"
  have "spaceFree ''*.''" by code_simp
  then have trim: "TrimSpace ?l = ?l" using p(12) by (intro TrimSpace_spaceFree) auto
  have nothost: "\<not> isHostsIP ?l"
    by (auto simp: isHostsIP_def Let_def isDigit_def IndexAny_def spaceTab_def split: option.splits)
  have cut: "cutAt (IndexAny ?l ''!#'') ?l = ?l" "cutAt (IndexByte ?l (CHR ''$'')) ?l = ?l"
    using p(5-7) by (auto intro!: cutAt_none)
  have rest: "TrimLeft ?l ''|'' = ?l" "IndexByte ?l (CHR ''^'') = None" "\<not> Contains ?l ''://''"
    "\<not> HasPrefix ?l ''||''"
    using p(9,10) by (auto simp: TrimLeft_def IndexByte_None Contains_def Index_none HasPrefix_def)
  show ?thesis
    unfolding parseLine_def trim Let_def cut rest
    using nothost p(2,3) rest(3,4) trim HasPrefix_append [of "''*.''" d] by simp
qed

subsection \<open>Loading\<close>

lemma fold_insert_set: "set (fold List.insert st m) = set st \<union> set m"
  by (induction st arbitrary: m) auto

lemma mergeLoop_ok:
  assumes "fst (mergeLoop ctxErr tot i rs (m, res)) = Inr (m', res')"
  shows "set m' = set m \<union> (\<Union>(u, r) \<in> set rs. case r of Inl _ \<Rightarrow> {} | Inr st \<Rightarrow> set st)
    \<and> lr_Failed res' = lr_Failed res + length (filter (\<lambda>(u, r). isl r) rs)
    \<and> lr_Errors res' = lr_Errors res @ map (\<lambda>(u, r). case r of Inl e \<Rightarrow> Some (u, e) | Inr _ \<Rightarrow> None) rs
    \<and> lr_Sources res' = lr_Sources res"
  using assms
proof (induction rs arbitrary: i m res)
  case (Cons p rs)
  obtain u r where p: "p = (u, r)" by force
  obtain m1 res1 where one: "mergeOne u r (m, res) = (m1, res1)" by force
  then have "fst (mergeLoop ctxErr tot (i + 1) rs (m1, res1)) = Inr (m', res')"
    using Cons.prems p by (auto simp: Let_def split: option.splits prod.splits)
  note IH = Cons.IH [OF this]
  show ?case
    using IH one p by (cases r) (auto simp: mergeOne_def fold_insert_set)
qed auto

lemma isPrivate_v4:
  assumes "\<not> isPrivateIP (IPv4 a b c d)"
  shows "a \<noteq> 10 \<and> a \<noteq> 127 \<and> \<not> (a = 192 \<and> b = 168) \<and> \<not> (a = 169 \<and> b = 254)
    \<and> \<not> (a = 172 \<and> and b 0xf0 = 16) \<and> \<not> (a = 100 \<and> and b 0xc0 = 64)"
proof -
  have "To4 (IPv4 a b c d) = [a, b, c, d]" "length (IPv4 a b c d) = 16"
    by (simp_all add: To4_def IPv4_def v4InV6Prefix_def numeral_eq_Suc)
  moreover have "To4 (net_IP cgnatNet) = [100, 64, 0, 0]" by code_simp
  ultimately show ?thesis
    using assms
    by (auto simp: isPrivateIP_def IsGlobalUnicast_def IsPrivate_def IsLoopback_def
        IsLinkLocalUnicast_def IPNet_Contains_def networkNumberAndMask_def cgnatNet_def ac_simps
        split: if_splits)
qed

subsection \<open>Properties\<close>

text \<open>
  C18. The walk computes coverage. After any sequence of updates, a host is blocked exactly
  when its normalized name is covered by the block set and not by the allow set: a plain
  entry covers itself and its subdomains, a \<open>*.root\<close> entry strict subdomains only, and the
  allow set always wins.
\<close>

theorem IsBlocked_iff_covered:
  "Blocklist_IsBlocked b host \<longleftrightarrow>
     ToLower (TrimSuffix host ''.'') \<noteq> []
     \<and> covered (bl_exact b) (bl_wild b) (ToLower (TrimSuffix host ''.''))
     \<and> \<not> covered (bl_allowExact b) (bl_allowWild b) (ToLower (TrimSuffix host ''.''))"
  by (auto simp: Blocklist_IsBlocked_def Let_def allowMatch_covered blockWalk_covered TrimSuffix_def)

text \<open>
  C19. Count and checksum are exact. The counters that every operation updates incrementally
  (with 64-bit wrap-around) equal, after any sequence of operations, the number of entries
  and the sum of the hashes of the sets; so two lists with the same entries have the same
  checksum, however they were built.
\<close>

theorem checksum_exact:
  assumes "b = fold bl_step ops New" and "b' = fold bl_step ops' New"
  shows "Blocklist_Count b = int (card (bl_exact b)) + int (card (bl_wild b))
    \<and> Blocklist_Checksum b =
        setSum (\<lambda>k. k) (bl_exact b) (bl_wild b) + setSum (\<lambda>k. ''allow:'' @ k) (bl_allowExact b) (bl_allowWild b)
    \<and> (bl_exact b = bl_exact b' \<and> bl_wild b = bl_wild b' \<and> bl_allowExact b = bl_allowExact b'
         \<and> bl_allowWild b = bl_allowWild b' \<longrightarrow> b = b')"
proof -
  have "Blocklist_inv b" "Blocklist_inv b'"
    unfolding assms by (rule blocklist.run_inv [OF New_inv])+
  then show ?thesis
    using Blocklist_eqI [of b b']
    by (simp add: Blocklist_Count_def Blocklist_Checksum_def) (simp add: Blocklist_inv_def)
qed

definition sampleOps :: "bl_op list" where
  "sampleOps = [BlAdd ''Ads.example.com.'', BlAdd ''b.net'', BlRemove ''b.net'', BlAddAllowed ''ok.example.com'']"

definition sampleOps2 :: "bl_op list" where
  "sampleOps2 = [BlSetAllowed ['' ok.example.com. ''], BlFromDomains [''ads.example.com'', ''ads.example.com.'']]"

theorem checksum_exact_witness:
  "fold bl_step sampleOps New = fold bl_step sampleOps2 New
   \<and> Blocklist_Count (fold bl_step sampleOps New) = 1"
proof -
  have "bl_exact (fold bl_step sampleOps New) = bl_exact (fold bl_step sampleOps2 New)"
    "bl_wild (fold bl_step sampleOps New) = bl_wild (fold bl_step sampleOps2 New)"
    "bl_allowExact (fold bl_step sampleOps New) = bl_allowExact (fold bl_step sampleOps2 New)"
    "bl_allowWild (fold bl_step sampleOps New) = bl_allowWild (fold bl_step sampleOps2 New)"
    by code_simp+
  moreover have "Blocklist_Count (fold bl_step sampleOps New) = 1" by code_simp
  ultimately show ?thesis using checksum_exact [OF refl refl, of sampleOps sampleOps2] by blast
qed

text \<open>
  The snapshot restores the list. Whatever order the sets are written in, loading what
  \<open>SaveCache\<close> wrote gives back the same sets, count and checksum, for every list whose
  entries are canonical; lists loaded from entries without white space are.
\<close>

theorem cache_roundtrip:
  assumes "b = fold bl_step ops New" and "Blocklist_canonical b"
    and "enumerates es (bl_exact b)" and "enumerates ws (bl_wild b)"
    and "enumerates aes (bl_allowExact b)" and "enumerates aws (bl_allowWild b)"
  shows "LoadCache (Some (SaveCache es ws aes aws)) = Inr (Some b)"
proof -
  have "Blocklist_inv b" unfolding assms(1) by (rule blocklist.run_inv [OF New_inv])
  from relist_same [OF this assms(2-6)]
  show ?thesis by (simp add: LoadCache_def SaveCache_def)
qed

theorem cache_roundtrip_witness:
  "LoadCache (Some (SaveCache [''ads.example.com''] [] [''ok.example.com''] []))
     = Inr (Some (fold bl_step sampleOps2 New))"
  by (rule cache_roundtrip [OF refl]) (unfold Blocklist_canonical_def canonical_def enumerates_def, code_simp+)

text \<open>
  The list formats agree. For a plain domain name, a hosts-file line, an AdBlock
  \<open>||name^\<close> rule and the bare name each add exactly that name, and a \<open>*.name\<close> line exactly
  that wildcard.
\<close>

theorem parseLine_formats:
  assumes "plainName d"
  shows "parseLine pu (''0.0.0.0 '' @ d) m = (List.insert d m, True)
    \<and> parseLine pu (''||'' @ d @ ''^'') m = (List.insert d m, True)
    \<and> parseLine pu d m = (List.insert d m, True)
    \<and> parseLine pu (''*.'' @ d) m = (List.insert (''*.'' @ d) m, True)"
  using parseLine_hosts [OF assms] parseLine_abp [OF assms] parseLine_plain [OF assms]
    parseLine_wild [OF assms] by blast

theorem parseLine_formats_witness:
  "parseLine (\<lambda>_. None) ''||ads.example.com^'' [] = ([''ads.example.com''], True)"
proof -
  have "plainName ''ads.example.com''" unfolding plainName_def canonical_def by code_simp
  from parseLine_formats [OF this, of "\<lambda>_. None" "[]"] show ?thesis by simp
qed

text \<open>
  Sources are never fetched from inside the network. Whatever a source's host name
  resolves to, also when it is re-bound between checks, every address the transport dials
  is publicly routable; for IPv4 that excludes loopback, RFC 1918, link-local (cloud
  metadata) and carrier-grade NAT addresses. A returned connection is to such an address.
\<close>

theorem dial_only_public:
  assumes "a \<in> set (snd (safeDialContext lookupHost dial addr))"
  shows "\<exists>ip port. a = JoinHostPort ip port \<and> \<not> isPrivateIP (ParseIP ip) \<and>
    (\<forall>w x y z. ParseIP ip = IPv4 w x y z \<longrightarrow>
       w \<noteq> 10 \<and> w \<noteq> 127 \<and> \<not> (w = 192 \<and> x = 168) \<and> \<not> (w = 169 \<and> x = 254)
       \<and> \<not> (w = 172 \<and> and x 0xf0 = 16) \<and> \<not> (w = 100 \<and> and x 0xc0 = 64))"
proof -
  from assms obtain port ips where "a \<in> set (snd (dialPublic dial port ips))"
    by (auto simp: safeDialContext_def ssrfEnabled_def split: option.splits sum.splits)
  from dialPublic_public [OF this] obtain ip where
    "a = JoinHostPort ip port" "\<not> isPrivateIP (ParseIP ip)" by blast
  then show ?thesis using isPrivate_v4 by metis
qed

definition rebindLookup :: "string \<Rightarrow> (string, string list) result" where
  "rebindLookup host = Inr [''169.254.169.254'', ''93.184.216.34'']"

theorem dial_only_public_witness:
  "snd (safeDialContext rebindLookup (\<lambda>a. Some a) ''lists.example:443'') = [''93.184.216.34:443'']
   \<and> (\<exists>ip port. ''93.184.216.34:443'' = JoinHostPort ip port \<and> \<not> isPrivateIP (ParseIP ip))"
proof -
  have d: "snd (safeDialContext rebindLookup (\<lambda>a. Some a) ''lists.example:443'') = [''93.184.216.34:443'']"
    by code_simp
  then show ?thesis
    using dial_only_public [of "''93.184.216.34:443''" rebindLookup "\<lambda>a. Some a" "''lists.example:443''"]
    by auto
qed

text \<open>
  Loading is all or nothing, and one failing source never spoils the others. A load
  that reports an error leaves the list as it was; a successful one replaces the block sets
  by the entries of exactly the sources that could be fetched, keeps the allow sets, and
  reports each failed source at its own position.
\<close>

theorem LoadFromURLs_spec:
  "case Blocklist_LoadFromURLs validURI fetch slot ctxErr urls b of
     (b', _, Some e, _) \<Rightarrow> b' = b
   | (b', None, None, _) \<Rightarrow> False
   | (b', Some res, None, _) \<Rightarrow>
       (let rs = map (\<lambda>(i, u). (u, fetchSlot (fetch i) (slot i) u)) (enumerate 0 urls);
            ok = (\<Union>(u, r) \<in> set rs. case r of Inl _ \<Rightarrow> {} | Inr st \<Rightarrow> set st)
        in ok \<noteq> {} \<and> bl_exact b' = \<Union> (entryExact ` ok) \<and> bl_wild b' = \<Union> (entryWild ` ok)
           \<and> bl_allowExact b' = bl_allowExact b \<and> bl_allowWild b' = bl_allowWild b
           \<and> lr_Failed res = length (filter (\<lambda>(u, r). isl r) rs)
           \<and> lr_Errors res = map (\<lambda>(u, r). case r of Inl e \<Rightarrow> Some (u, e) | Inr _ \<Rightarrow> None) rs)"
proof -
  let ?rs = "map (\<lambda>(i, u). (u, fetchSlot (fetch i) (slot i) u)) (enumerate 0 urls)"
  let ?res0 = "\<lparr>lr_Domains = 0, lr_Sources = length urls, lr_Failed = 0, lr_Errors = [], lr_PerSource = []\<rparr>"
  obtain x ps where ml: "mergeLoop ctxErr (length urls) 0 ?rs ([], ?res0) = (x, ps)" by force
  show ?thesis
  proof (cases x)
    case (Inl e)
    then show ?thesis using ml by (auto simp: Blocklist_LoadFromURLs_def Let_def split: option.splits)
  next
    case (Inr p)
    obtain m res where p: "p = (m, res)" by force
    have "set m = (\<Union>(u, r) \<in> set ?rs. case r of Inl _ \<Rightarrow> {} | Inr st \<Rightarrow> set st)
      \<and> lr_Failed res = length (filter (\<lambda>(u, r). isl r) ?rs)
      \<and> lr_Errors res = map (\<lambda>(u, r). case r of Inl e \<Rightarrow> Some (u, e) | Inr _ \<Rightarrow> None) ?rs"
      using mergeLoop_ok [of ctxErr "length urls" 0 ?rs "[]" ?res0 m res] ml Inr p by simp
    then show ?thesis
      using ml Inr p unfolding Blocklist_LoadFromURLs_def Let_def
      by (auto simp: FromDomainsMap_fields split: option.splits simp flip: set_empty)
  qed
qed

end
