(* ===== verification/Blip_Upstream.thy ===== *)
theory Blip_Upstream
  imports Blip_Blocklist
begin

text \<open>
  Upstream resolvers (\<open>src/internal/upstream/upstream.go\<close>, \<open>probe.go\<close>): specification
  strings, the UDP, TLS and HTTPS resolvers, priority failover with a cooldown, the guarded
  bootstrap dialer and the probe.

  Resolvers are objects with state (a TLS connection, the cooldown stamps) that the program
  compares by pointer, so they live in a heap, a list of objects indexed by reference. The
  network is a record of functions over a world \<open>'w\<close>; nothing is assumed of it but what a
  theorem names. \<open>Resolve\<close> on a failover group calls its members' \<open>Resolve\<close>: the recursion
  is bounded by a depth, and every pool the program builds needs a depth of two.
\<close>

subsection \<open>Specification strings\<close>

record Spec =
  sp_Type :: string
  sp_Address :: string
  sp_Priority :: int

datatype SpecError = EmptySpec | UnrecognizedSpec string | RefusedAddress string string  \<comment> \<open>token and address\<close>

text \<open>\<open>%q\<close>: the string in double quotes with the usual escapes.\<close>

definition quoteChar :: "char \<Rightarrow> string" where
  "quoteChar c =
     (let n = (of_char c :: nat); bs = char_of (92 :: nat) in
      if n = 34 \<or> n = 92 then [bs, c]
      else if n = 7 then [bs, CHR ''a''] else if n = 8 then [bs, CHR ''b'']
      else if n = 9 then [bs, CHR ''t''] else if n = 10 then [bs, CHR ''n'']
      else if n = 11 then [bs, CHR ''v''] else if n = 12 then [bs, CHR ''f'']
      else if n = 13 then [bs, CHR ''r'']
      else if n < 32 \<or> n = 127 then [bs, CHR ''x'', hexDigit (n div 16), hexDigit (n mod 16)]
      else [c])"

definition Quote :: "string \<Rightarrow> string" where
  "Quote s = [char_of (34 :: nat)] @ concat (map quoteChar s) @ [char_of (34 :: nat)]"

definition splitSpec :: "string \<Rightarrow> string list" where
  "splitSpec spec =
     FieldsFunc spec (\<lambda>c. c = CHR '' '' \<or> c = CHR '','' \<or> c = char_of (10 :: nat) \<or> c = char_of (9 :: nat))"

definition splitPriority :: "string \<Rightarrow> string \<times> int" where
  "splitPriority tok =
     (case LastIndexByte tok (CHR ''|'') of
        None \<Rightarrow> (tok, 0)
      | Some i \<Rightarrow>
          if 0 < i then
            (case Atoi (drop (Suc i) tok) of Some p \<Rightarrow> (take i tok, p) | None \<Rightarrow> (tok, 0))
          else (tok, 0))"

definition unbracket :: "string \<Rightarrow> string" where
  "unbracket a = TrimSuffix (TrimPrefix a ''['') '']''"

definition specHost :: "string \<Rightarrow> string" where
  "specHost addr0 =
     (let addr = (case IndexByte addr0 (CHR ''/'') of None \<Rightarrow> addr0 | Some i \<Rightarrow> take i addr0)
      in case SplitHostPort addr of Some (host, _) \<Rightarrow> host | None \<Rightarrow> unbracket addr)"

definition isBareUDP :: "string \<Rightarrow> bool" where
  "isBareUDP tok =
     (case SplitHostPort tok of
        Some (host, port) \<Rightarrow> if Atoi port = None then False else host \<noteq> []
      | None \<Rightarrow> ParseIP (unbracket tok) \<noteq> [])"

definition ensurePort :: "string \<Rightarrow> string \<Rightarrow> string" where
  "ensurePort addr defaultPort =
     (if addr = [] then addr
      else case SplitHostPort addr of
             Some _ \<Rightarrow> addr
           | None \<Rightarrow> JoinHostPort (unbracket addr) defaultPort)"

definition blockedUpstreamIP :: "IP \<Rightarrow> bool" where
  "blockedUpstreamIP ip \<longleftrightarrow> IsLinkLocalUnicast ip \<or> IsLinkLocalMulticast ip \<or> IsUnspecified ip"

text \<open>One token at position \<open>i\<close> (from 0).\<close>

definition parseToken :: "nat \<times> string \<Rightarrow> (SpecError, Spec) result" where
  "parseToken it =
     (case it of (i, tok) \<Rightarrow>
        case splitPriority tok of (raw, p) \<Rightarrow>
        let prio = (if p \<le> 0 then int i + 1 else p);
            mk = (\<lambda>t a. Some \<lparr>sp_Type = t, sp_Address = a, sp_Priority = prio\<rparr>);
            so = (if HasPrefix raw ''udp://'' then mk ''udp'' (ensurePort (drop 6 raw) ''53'')
                  else if HasPrefix raw ''tls://'' then mk ''tls'' (ensurePort (drop 6 raw) ''853'')
                  else if HasPrefix raw ''doh://'' then mk ''doh'' (drop 6 raw)
                  else if HasPrefix raw ''https://'' then mk ''doh'' (drop 8 raw)
                  else if isBareUDP raw then mk ''udp'' (ensurePort raw ''53'')
                  else None)
        in case so of
             None \<Rightarrow> Inl (UnrecognizedSpec tok)
           | Some s \<Rightarrow>
               let ip = ParseIP (specHost (sp_Address s))
               in if ip \<noteq> [] \<and> blockedUpstreamIP ip then Inl (RefusedAddress tok (IP_String ip)) else Inr s)"

fun SpecError_Error :: "SpecError \<Rightarrow> string" where
  "SpecError_Error EmptySpec = ''upstream: empty spec''"
| "SpecError_Error (UnrecognizedSpec tok) = ''upstream: unrecognized spec '' @ Quote tok"
| "SpecError_Error (RefusedAddress tok ip) =
     ''upstream: '' @ tok @ '': refusing link-local/metadata address '' @ ip"

definition ParseSpec :: "string \<Rightarrow> (SpecError, Spec list) result" where
  "ParseSpec spec =
     (let tokens = splitSpec spec
      in if tokens = [] then Inl EmptySpec
         else case map_result parseToken (enumerate 0 tokens) of
                Inl e \<Rightarrow> Inl e
              | Inr out \<Rightarrow> Inr (sort_key sp_Priority out))"

subsection \<open>Errors\<close>

fun LastIndex :: "string \<Rightarrow> string \<Rightarrow> nat option" where
  "LastIndex [] sub = (if sub = [] then Some 0 else None)"
| "LastIndex (c # cs) sub =
     (case LastIndex cs sub of
        Some i \<Rightarrow> Some (Suc i)
      | None \<Rightarrow> if HasPrefix (c # cs) sub then Some 0 else None)"

fun stripPhrase :: "string \<Rightarrow> nat \<Rightarrow> string list \<Rightarrow> string \<times> bool" where
  "stripPhrase msg arrow [] = (msg, False)"
| "stripPhrase msg arrow (p # ps) =
     (case LastIndex (take arrow msg) p of
        Some i \<Rightarrow> (take i msg @ drop (arrow + 2) msg, True)
      | None \<Rightarrow> stripPhrase msg arrow ps)"

definition stripLocalSocket :: "string \<Rightarrow> string \<times> bool" where
  "stripLocalSocket msg =
     (case Index msg ''->'' of
        None \<Rightarrow> (msg, False)
      | Some arrow \<Rightarrow>
          stripPhrase msg arrow [''read udp '', ''write udp '', ''read tcp '', ''write tcp '', ''dial udp '', ''dial tcp ''])"

datatype uerr =
    upErr string string  \<comment> \<open>endpoint and the text of the error it wraps\<close>
  | plainErr string
  | noResolvers
  | tooDeep

definition upErr_Error :: "string \<Rightarrow> string \<Rightarrow> string" where
  "upErr_Error addr msg =
     (case stripLocalSocket msg of
        (cleaned, True) \<Rightarrow> cleaned
      | (_, False) \<Rightarrow> if addr = [] \<or> Contains msg addr then msg else addr @ '': '' @ msg)"

fun uerr_Error :: "uerr \<Rightarrow> string" where
  "uerr_Error (upErr addr msg) = upErr_Error addr msg"
| "uerr_Error (plainErr msg) = msg"
| "uerr_Error noResolvers = ''upstream: no resolvers configured''"
| "uerr_Error tooDeep = ''resolver nesting''"

subsection \<open>Resolvers\<close>

type_synonym ref = nat

datatype robj =
    UDPResolver string duration
  | TLSResolver string duration "nat option"  \<comment> \<open>the shared connection\<close>
  | DoHResolver string duration "ref option"  \<comment> \<open>endpoint, timeout, bootstrap\<close>
  | MultiResolver "ref list" "time list" duration  \<comment> \<open>members, down-until stamps, cooldown\<close>
  | staticResolver string "IP list"

type_synonym rheap = "robj list"

definition alloc :: "robj \<Rightarrow> rheap \<Rightarrow> rheap \<times> ref" where
  "alloc o' h = (h @ [o'], length h)"

definition dfltTimeout :: "duration \<Rightarrow> duration" where
  "dfltTimeout t = (if t \<le> 0 then 5 * Second else t)"

definition NewUDP :: "string \<Rightarrow> duration \<Rightarrow> rheap \<Rightarrow> rheap \<times> ref" where
  "NewUDP addr timeout = alloc (UDPResolver addr (dfltTimeout timeout))"

definition NewTLS :: "string \<Rightarrow> duration \<Rightarrow> rheap \<Rightarrow> rheap \<times> ref" where
  "NewTLS addr timeout = alloc (TLSResolver addr (dfltTimeout timeout) None)"

definition NewDoHWithBootstrap :: "string \<Rightarrow> duration \<Rightarrow> ref option \<Rightarrow> rheap \<Rightarrow> rheap \<times> ref" where
  "NewDoHWithBootstrap endpoint timeout bootstrap = alloc (DoHResolver endpoint (dfltTimeout timeout) bootstrap)"

definition NewDoH :: "string \<Rightarrow> duration \<Rightarrow> rheap \<Rightarrow> rheap \<times> ref" where
  "NewDoH endpoint timeout = NewDoHWithBootstrap endpoint timeout None"

definition NewMulti :: "ref list \<Rightarrow> rheap \<Rightarrow> rheap \<times> ref" where
  "NewMulti rs = alloc (MultiResolver rs (replicate (length rs) 0) (15 * Second))"

text \<open>The network: DNS exchanges, TLS connections, one HTTP POST, the codec, the
  clock, query identifiers and plain dials.\<close>

record 'w net_ops =
  udpExchange :: "string \<Rightarrow> Msg \<Rightarrow> 'w \<Rightarrow> 'w \<times> (string, Msg) result"
  tcpExchange :: "string \<Rightarrow> Msg \<Rightarrow> 'w \<Rightarrow> 'w \<times> (string, Msg) result"
  tlsDial :: "string \<Rightarrow> 'w \<Rightarrow> 'w \<times> (string, nat) result"
  tlsExchange :: "nat \<Rightarrow> Msg \<Rightarrow> 'w \<Rightarrow> 'w \<times> (string, Msg) result"
  tlsClose :: "nat \<Rightarrow> 'w \<Rightarrow> 'w"
  httpPost :: "string \<Rightarrow> u8 list \<Rightarrow> 'w \<Rightarrow> 'w \<times> (string, int \<times> (string, u8 list) result) result"
  packMsg :: "Msg \<Rightarrow> (string, u8 list) result"
  unpackMsg :: "u8 list \<Rightarrow> (string, Msg) result"
  clock :: "'w \<Rightarrow> time"
  freshId :: "'w \<Rightarrow> 'w \<times> u16"
  netDial :: "string \<Rightarrow> 'w \<Rightarrow> 'w \<times> (string, nat) result"

definition udpResolve :: "'w net_ops \<Rightarrow> string \<Rightarrow> Msg \<Rightarrow> 'w \<Rightarrow> 'w \<times> (uerr, Msg) result" where
  "udpResolve n addr q w =
     (case udpExchange n addr q w of
        (w1, Inl e) \<Rightarrow> (w1, Inl (upErr addr e))
      | (w1, Inr resp) \<Rightarrow>
          if m_Truncated resp then
            (case tcpExchange n addr q w1 of
               (w2, Inl e) \<Rightarrow> (w2, Inl (upErr addr e))
             | (w2, Inr resp2) \<Rightarrow> (w2, Inr resp2))
          else (w1, Inr resp))"

text \<open>At most two attempts; a connection that fails an exchange is closed and redialled once.\<close>

fun tlsAttempts ::
  "'w net_ops \<Rightarrow> nat \<Rightarrow> string \<Rightarrow> Msg \<Rightarrow> nat option \<Rightarrow> string \<Rightarrow> 'w \<Rightarrow> 'w \<times> nat option \<times> (uerr, Msg) result" where
  "tlsAttempts n 0 addr q conn err w = (w, conn, Inl (upErr addr err))"
| "tlsAttempts n (Suc k) addr q conn err w =
     (let dialled = (case conn of Some c \<Rightarrow> (w, Inr c) | None \<Rightarrow> tlsDial n addr w)
      in case dialled of
           (w1, Inl e) \<Rightarrow> (w1, None, Inl (upErr addr e))
         | (w1, Inr c) \<Rightarrow>
             (case tlsExchange n c q w1 of
                (w2, Inr resp) \<Rightarrow> (w2, Some c, Inr resp)
              | (w2, Inl e) \<Rightarrow> tlsAttempts n k addr q None e (tlsClose n c w2)))"

definition maxDNSResponseBytes :: nat where "maxDNSResponseBytes = 65535"

definition dohResolve :: "'w net_ops \<Rightarrow> string \<Rightarrow> Msg \<Rightarrow> 'w \<Rightarrow> 'w \<times> (uerr, Msg) result" where
  "dohResolve n endpoint q w =
     (case packMsg n q of
        Inl e \<Rightarrow> (w, Inl (plainErr e))
      | Inr buf \<Rightarrow>
          (case httpPost n endpoint buf w of
             (w1, Inl e) \<Rightarrow> (w1, Inl (upErr endpoint e))
           | (w1, Inr (status, Inl e)) \<Rightarrow> (w1, Inl (upErr endpoint e))
           | (w1, Inr (status, Inr body0)) \<Rightarrow>
               let body = take (maxDNSResponseBytes + 1) body0 in
               if maxDNSResponseBytes < length body
                 then (w1, Inl (upErr endpoint ''doh: upstream response too large''))
               else if status \<noteq> 200
                 then (w1, Inl (upErr endpoint (''doh: upstream returned '' @ Itoa status)))
               else
                 (case unpackMsg n body of
                    Inl e \<Rightarrow> (w1, Inl (upErr endpoint (''doh: unpack response: '' @ e)))
                  | Inr out \<Rightarrow> (w1, Inr out))))"

definition staticAnswer :: "u16 \<Rightarrow> string \<Rightarrow> IP \<Rightarrow> RR list" where
  "staticAnswer qtype name ip =
     (if qtype = TypeA then (if To4 ip \<noteq> [] then [mkRR name qtype 60 (A (To4 ip))] else [])
      else if qtype = TypeAAAA then (if To4 ip = [] then [mkRR name qtype 60 (AAAA ip)] else [])
      else [])"

definition staticResolve :: "string \<Rightarrow> IP list \<Rightarrow> Msg \<Rightarrow> Msg" where
  "staticResolve host ips q =
     (let m = SetReply emptyMsg q
      in case m_Question q of
           [qu] \<Rightarrow>
             if q_Name qu \<noteq> Fqdn host then m
             else m\<lparr>m_Answer := concat (map (staticAnswer (q_Qtype qu) (q_Name qu)) ips)\<rparr>
         | _ \<Rightarrow> m)"

subsection \<open>Failover\<close>

definition upNow :: "time \<Rightarrow> time list \<Rightarrow> nat list" where
  "upNow now downUntil = filter (\<lambda>i. downUntil ! i \<le> now) [0..<length downUntil]"

definition setDown :: "ref \<Rightarrow> nat \<Rightarrow> time \<Rightarrow> rheap \<Rightarrow> rheap" where
  "setDown m i v h =
     (case h ! m of
        MultiResolver rs du cd \<Rightarrow> h[m := MultiResolver rs (du[i := v]) cd]
      | _ \<Rightarrow> h)"

text \<open>
  The loop over the candidates: the first success clears its own stamp and is returned, a
  failure trips the member; the first error is the one reported. \<open>res\<close> is the members'
  \<open>Resolve\<close>.
\<close>

fun multiLoop ::
  "(ref \<Rightarrow> rheap \<Rightarrow> 'w \<Rightarrow> rheap \<times> 'w \<times> (uerr, Msg) result) \<Rightarrow> ref \<Rightarrow> ref list \<Rightarrow> time \<Rightarrow> duration
   \<Rightarrow> nat list \<Rightarrow> uerr option \<Rightarrow> rheap \<Rightarrow> 'w \<Rightarrow> rheap \<times> 'w \<times> (uerr, Msg) result" where
  "multiLoop res m rs now cd [] firstErr h w =
     (h, w, Inl (case firstErr of Some e \<Rightarrow> e | None \<Rightarrow> noResolvers))"
| "multiLoop res m rs now cd (i # is) firstErr h w =
     (case res (rs ! i) h w of
        (h1, w1, Inr resp) \<Rightarrow> (setDown m i 0 h1, w1, Inr resp)
      | (h1, w1, Inl e) \<Rightarrow>
          multiLoop res m rs now cd is (if firstErr = None then Some e else firstErr)
            (setDown m i (now + cd) h1) w1)"

definition multiResolve ::
  "(ref \<Rightarrow> rheap \<Rightarrow> 'w \<Rightarrow> rheap \<times> 'w \<times> (uerr, Msg) result) \<Rightarrow> ref \<Rightarrow> ref list \<Rightarrow> time list \<Rightarrow> duration
   \<Rightarrow> time \<Rightarrow> rheap \<Rightarrow> 'w \<Rightarrow> rheap \<times> 'w \<times> (uerr, Msg) result" where
  "multiResolve res m rs du cd now h w =
     (let order = upNow now du
      in if order = []
         then multiLoop res m rs now cd [0..<length rs] None
                (h[m := MultiResolver rs (map (\<lambda>_. 0) du) cd]) w
         else multiLoop res m rs now cd order None h w)"

fun Resolve :: "'w net_ops \<Rightarrow> nat \<Rightarrow> Msg \<Rightarrow> ref \<Rightarrow> rheap \<Rightarrow> 'w \<Rightarrow> rheap \<times> 'w \<times> (uerr, Msg) result" where
  "Resolve n 0 q r h w = (h, w, Inl tooDeep)"
| "Resolve n (Suc d) q r h w =
     (case h ! r of
        UDPResolver addr _ \<Rightarrow> (case udpResolve n addr q w of (w1, x) \<Rightarrow> (h, w1, x))
      | TLSResolver addr t conn \<Rightarrow>
          (case tlsAttempts n 2 addr q conn [] w of
             (w1, conn1, x) \<Rightarrow> (h[r := TLSResolver addr t conn1], w1, x))
      | DoHResolver endpoint _ _ \<Rightarrow> (case dohResolve n endpoint q w of (w1, x) \<Rightarrow> (h, w1, x))
      | MultiResolver rs du cd \<Rightarrow> multiResolve (Resolve n d q) r rs du cd (clock n w) h w
      | staticResolver host ips \<Rightarrow> (h, w, Inr (staticResolve host ips q)))"

subsection \<open>Building resolvers from specifications\<close>

definition buildSpec :: "duration \<Rightarrow> ref option \<Rightarrow> Spec \<Rightarrow> rheap \<Rightarrow> rheap \<times> ref option" where
  "buildSpec timeout bootstrap s h =
     (if sp_Type s = ''udp'' then (case NewUDP (sp_Address s) timeout h of (h1, r) \<Rightarrow> (h1, Some r))
      else if sp_Type s = ''tls'' then (case NewTLS (sp_Address s) timeout h of (h1, r) \<Rightarrow> (h1, Some r))
      else if sp_Type s = ''doh'' then
        (case NewDoHWithBootstrap (''https://'' @ sp_Address s) timeout bootstrap h of (h1, r) \<Rightarrow> (h1, Some r))
      else (h, None))"

text \<open>The \<open>rs\<close> slice; an entry no case of the switch fills stays nil.\<close>

fun buildSpecs :: "Spec list \<Rightarrow> rheap \<Rightarrow> rheap \<times> ref option list" where
  "buildSpecs [] h = (h, [])"
| "buildSpecs (s # ss) h =
     (case buildSpec 0 None s h of (h1, r) \<Rightarrow> case buildSpecs ss h1 of (h2, rs) \<Rightarrow> (h2, r # rs))"

text \<open>A nil member would make the group's \<open>Resolve\<close> panic; \<open>None\<close> marks that outcome.\<close>

definition FromSpec :: "string \<Rightarrow> rheap \<Rightarrow> rheap \<times> (SpecError, ref option) result" where
  "FromSpec spec h =
     (case ParseSpec spec of
        Inl e \<Rightarrow> (h, Inl e)
      | Inr specs \<Rightarrow>
          (case buildSpecs specs h of
             (h1, [r]) \<Rightarrow> (h1, Inr r)
           | (h1, rs) \<Rightarrow>
               if None \<in> set rs then (h1, Inr None)
               else (case NewMulti (map the rs) h1 of (h2, r) \<Rightarrow> (h2, Inr (Some r)))))"

subsection \<open>Bootstrap\<close>

definition SetQuestion :: "u16 \<Rightarrow> string \<Rightarrow> u16 \<Rightarrow> Msg" where
  "SetQuestion i z t =
     emptyMsg\<lparr>m_Id := i, m_RecursionDesired := True,
       m_Question := [\<lparr>q_Name = z, q_Qtype = t, q_Qclass = ClassINET\<rparr>]\<rparr>"

definition answerIPs :: "Msg \<Rightarrow> IP list" where
  "answerIPs m =
     concat (map (\<lambda>rr. case rr_Data rr of A ip \<Rightarrow> [ip] | AAAA ip \<Rightarrow> [ip] | _ \<Rightarrow> []) (m_Answer m))"

fun bootstrapLookup ::
  "'w net_ops \<Rightarrow> nat \<Rightarrow> ref \<Rightarrow> string \<Rightarrow> u16 list \<Rightarrow> rheap \<Rightarrow> 'w \<Rightarrow> rheap \<times> 'w \<times> IP list" where
  "bootstrapLookup n d r host [] h w = (h, w, [])"
| "bootstrapLookup n d r host (t # ts) h w =
     (case freshId n w of (w1, i) \<Rightarrow>
      case Resolve n d (SetQuestion i (Fqdn host) t) r h w1 of
        (h2, w2, Inl e) \<Rightarrow> bootstrapLookup n d r host ts h2 w2
      | (h2, w2, Inr resp) \<Rightarrow>
          (case bootstrapLookup n d r host ts h2 w2 of (h3, w3, ips) \<Rightarrow> (h3, w3, answerIPs resp @ ips)))"

definition bootstrapLookupIP ::
  "'w net_ops \<Rightarrow> nat \<Rightarrow> ref \<Rightarrow> string \<Rightarrow> rheap \<Rightarrow> 'w \<Rightarrow> rheap \<times> 'w \<times> IP list" where
  "bootstrapLookupIP n d r host = bootstrapLookup n d r host [TypeA, TypeAAAA]"

datatype dialErr = badAddress | refusedLinkLocal string | noAddresses string | dialFailed string

text \<open>The dial loop; the last component lists the addresses dialled.\<close>

fun dialIPs ::
  "'w net_ops \<Rightarrow> string \<Rightarrow> IP list \<Rightarrow> dialErr \<Rightarrow> 'w \<Rightarrow> 'w \<times> (dialErr, nat) result \<times> string list" where
  "dialIPs n port [] lastErr w = (w, Inl lastErr, [])"
| "dialIPs n port (ip # ips) lastErr w =
     (if blockedUpstreamIP ip then dialIPs n port ips (refusedLinkLocal (IP_String ip)) w
      else
        let a = JoinHostPort (IP_String ip) port in
        case netDial n a w of
          (w1, Inr c) \<Rightarrow> (w1, Inr c, [a])
        | (w1, Inl e) \<Rightarrow> (case dialIPs n port ips (dialFailed e) w1 of (w2, x, ds) \<Rightarrow> (w2, x, a # ds)))"

definition bootstrapDialContext ::
  "'w net_ops \<Rightarrow> nat \<Rightarrow> ref \<Rightarrow> string \<Rightarrow> rheap \<Rightarrow> 'w
   \<Rightarrow> rheap \<times> 'w \<times> (dialErr, nat) result \<times> string list" where
  "bootstrapDialContext n d bootstrap addr h w =
     (case SplitHostPort addr of
        None \<Rightarrow> (h, w, Inl badAddress, [])
      | Some (host, port) \<Rightarrow>
          if ParseIP host \<noteq> [] then
            (if blockedUpstreamIP (ParseIP host) then (h, w, Inl (refusedLinkLocal host), [])
             else case netDial n addr w of
                    (w1, Inr c) \<Rightarrow> (h, w1, Inr c, [addr])
                  | (w1, Inl e) \<Rightarrow> (h, w1, Inl (dialFailed e), [addr]))
          else
            (case bootstrapLookupIP n d bootstrap host h w of
               (h1, w1, ips) \<Rightarrow>
                 if ips = [] then (h1, w1, Inl (noAddresses host), [])
                 else (case dialIPs n port ips (noAddresses host) w1 of (w2, x, ds) \<Rightarrow> (h1, w2, x, ds))))"

subsection \<open>Probing\<close>

record UpstreamServer =
  us_Name :: string
  us_Address :: string
  us_Priority :: int
  us_TimeoutSec :: int

definition timeoutForServer :: "UpstreamServer \<Rightarrow> duration" where
  "timeoutForServer s = (if 0 < us_TimeoutSec s then us_TimeoutSec s * Second else 5 * Second)"

datatype ServerSpecError = BadSpec SpecError | NotOneEndpoint nat | UnknownType string

text \<open>A server address names exactly one endpoint.\<close>

definition fromServerSpecWithBootstrap ::
  "string \<Rightarrow> duration \<Rightarrow> ref option \<Rightarrow> rheap \<Rightarrow> rheap \<times> (ServerSpecError, ref) result" where
  "fromServerSpecWithBootstrap spec timeout bootstrap h =
     (case ParseSpec spec of
        Inl e \<Rightarrow> (h, Inl (BadSpec e))
      | Inr specs \<Rightarrow>
          (case specs of
             [s] \<Rightarrow>
               (case buildSpec timeout bootstrap s h of
                  (h1, Some r) \<Rightarrow> (h1, Inr r)
                | (h1, None) \<Rightarrow> (h1, Inl (UnknownType (sp_Type s))))
           | _ \<Rightarrow> (h, Inl (NotOneEndpoint (length specs)))))"

definition fromServerSpec :: "string \<Rightarrow> duration \<Rightarrow> rheap \<Rightarrow> rheap \<times> (ServerSpecError, ref) result" where
  "fromServerSpec spec timeout = fromServerSpecWithBootstrap spec timeout None"

definition isConnReset :: "uerr \<Rightarrow> bool" where
  "isConnReset e \<longleftrightarrow> Contains (uerr_Error e) ''connection reset by peer''"

definition resolveWithRetry ::
  "'w net_ops \<Rightarrow> nat \<Rightarrow> ref \<Rightarrow> string \<Rightarrow> rheap \<Rightarrow> 'w \<Rightarrow> rheap \<times> 'w \<times> (uerr, Msg) result" where
  "resolveWithRetry n d r name h w =
     (case freshId n w of (w1, i) \<Rightarrow>
      case Resolve n d (SetQuestion i name TypeA) r h w1 of
        (h2, w2, Inr resp) \<Rightarrow> (h2, w2, Inr resp)
      | (h2, w2, Inl e) \<Rightarrow>
          if isConnReset e then
            (case freshId n w2 of (w3, j) \<Rightarrow> Resolve n d (SetQuestion j name TypeA) r h2 w3)
          else (h2, w2, Inl e))"

definition endpointHost :: "(string \<Rightarrow> URL option) \<Rightarrow> string \<Rightarrow> string" where
  "endpointHost parseURL endpoint = (case parseURL endpoint of None \<Rightarrow> [] | Some u \<Rightarrow> u_Hostname u)"

text \<open>\<open>ctxErr\<close> is what the caller's context reports after the lookup.\<close>

definition warmDoHEndpoint ::
  "'w net_ops \<Rightarrow> nat \<Rightarrow> string option \<Rightarrow> string \<Rightarrow> ref \<Rightarrow> duration \<Rightarrow> string \<Rightarrow> rheap \<Rightarrow> 'w
   \<Rightarrow> rheap \<times> 'w \<times> (string, ref option) result" where
  "warmDoHEndpoint n d ctxErr endpoint bootstrap timeout host h w =
     (case bootstrapLookupIP n d bootstrap host h w of
        (h1, w1, ips) \<Rightarrow>
          if ips = [] then
            (case ctxErr of
               Some e \<Rightarrow> (h1, w1, Inl (''bootstrap resolve '' @ host @ '': '' @ e))
             | None \<Rightarrow> (h1, w1, Inr None))
          else
            (case alloc (staticResolver host ips) h1 of (h2, st) \<Rightarrow>
             case NewDoHWithBootstrap endpoint timeout (Some st) h2 of (h3, r) \<Rightarrow> (h3, w1, Inr (Some r))))"

record ProbeResult =
  pr_Name :: string
  pr_Address :: string
  pr_OK :: bool
  pr_LatencyMs :: int
  pr_Answers :: "RR list"
  pr_Rcode :: int

datatype probeError = invalidDomain string | badServer ServerSpecError | warmFailed string | queryFailed uerr

text \<open>
  The probe; \<open>isDomainName\<close> is the library's name check. The result record's text fields hold
  what they render: the answers as records, the rcode as a number; the error is the last component.
\<close>

definition ProbeServerWithBootstrap ::
  "'w net_ops \<Rightarrow> (string \<Rightarrow> URL option) \<Rightarrow> (string \<Rightarrow> bool) \<Rightarrow> string option \<Rightarrow> UpstreamServer \<Rightarrow> string
   \<Rightarrow> ref option \<Rightarrow> rheap \<Rightarrow> 'w \<Rightarrow> rheap \<times> 'w \<times> ProbeResult \<times> probeError option" where
  "ProbeServerWithBootstrap n parseURL isDomainName ctxErr sv qname bootstrap h w =
     (let res = \<lparr>pr_Name = us_Name sv, pr_Address = us_Address sv, pr_OK = False, pr_LatencyMs = 0,
                 pr_Answers = [], pr_Rcode = 0\<rparr>;
          name = Fqdn (TrimSpace qname)
      in if \<not> isDomainName name then (h, w, res, Some (invalidDomain qname))
         else
           let timeout = timeoutForServer sv in
           case fromServerSpecWithBootstrap (us_Address sv) timeout bootstrap h of
             (h1, Inl e) \<Rightarrow> (h1, w, res, Some (badServer e))
           | (h1, Inr r) \<Rightarrow>
               (case (case h1 ! r of
                        DoHResolver endpoint _ (Some b) \<Rightarrow>
                          let host = endpointHost parseURL endpoint in
                          if host \<noteq> [] \<and> ParseIP host = []
                            then warmDoHEndpoint n 2 ctxErr endpoint b timeout host h1 w
                            else (h1, w, Inr None)
                      | _ \<Rightarrow> (h1, w, Inr None)) of
                  (h2, w2, Inl e) \<Rightarrow> (h2, w2, res, Some (warmFailed e))
                | (h2, w2, Inr pinned) \<Rightarrow>
                    let r' = (case pinned of Some p \<Rightarrow> p | None \<Rightarrow> r); start = clock n w2 in
                    (case resolveWithRetry n 2 r' name h2 w2 of
                       (h3, w3, x) \<Rightarrow>
                         let res1 = res\<lparr>pr_LatencyMs := (clock n w3 - start) sdiv 1000000\<rparr> in
                         (case x of
                            Inl e \<Rightarrow> (h3, w3, res1, Some (queryFailed e))
                          | Inr resp \<Rightarrow>
                              (h3, w3, res1\<lparr>pr_Rcode := m_Rcode resp, pr_Answers := m_Answer resp, pr_OK := True\<rparr>,
                               None)))))"

declare Resolve.simps [simp del]

subsection \<open>Specifications, lemmas\<close>

lemma parseToken_ok:
  assumes "parseToken (i, tok) = Inr s"
  shows "sp_Type s \<in> {''udp'', ''tls'', ''doh''}" "0 < sp_Priority s"
    "ParseIP (specHost (sp_Address s)) = [] \<or> \<not> blockedUpstreamIP (ParseIP (specHost (sp_Address s)))"
    "snd (splitPriority tok) \<le> 0 \<Longrightarrow> sp_Priority s = int i + 1"
  using assms by (auto simp: parseToken_def Let_def split: prod.splits option.splits if_splits)

lemma ParseSpec_Inr:
  assumes "ParseSpec spec = Inr ss"
  obtains out where "list_all2 (\<lambda>x y. parseToken x = Inr y) (enumerate 0 (splitSpec spec)) out"
    "ss = sort_key sp_Priority out" "splitSpec spec \<noteq> []"
  using assms by (auto simp: ParseSpec_def Let_def map_result_Inr_iff split: if_splits sum.splits)

lemma ParseSpec_types:
  assumes "ParseSpec spec = Inr ss" and "s \<in> set ss"
  shows "sp_Type s \<in> {''udp'', ''tls'', ''doh''} \<and> 0 < sp_Priority s
    \<and> (ParseIP (specHost (sp_Address s)) = [] \<or> \<not> blockedUpstreamIP (ParseIP (specHost (sp_Address s))))"
proof -
  obtain out where out: "list_all2 (\<lambda>x y. parseToken x = Inr y) (enumerate 0 (splitSpec spec)) out"
    "ss = sort_key sp_Priority out" using ParseSpec_Inr [OF assms(1)] .
  then have "s \<in> set out" using assms(2) by simp
  then obtain k where "k < length out" "s = out ! k" by (metis in_set_conv_nth)
  then have "parseToken (enumerate 0 (splitSpec spec) ! k) = Inr s"
    using out(1) by (simp add: list_all2_conv_all_nth)
  then obtain i tok where "parseToken (i, tok) = Inr s" by (metis surj_pair)
  note ok = parseToken_ok [OF this]
  show ?thesis using ok(1-3) by (intro conjI)
qed

subsection \<open>Resolvers, lemmas\<close>

fun leaf :: "robj \<Rightarrow> bool" where
  "leaf (MultiResolver rs du cd) = False"
| "leaf _ = True"

text \<open>Heaps the program builds: references are allocated, groups hold leaf resolvers only.\<close>

definition group_ok :: "rheap \<Rightarrow> ref \<Rightarrow> ref list \<Rightarrow> time list \<Rightarrow> duration \<Rightarrow> bool" where
  "group_ok h m rs du cd \<longleftrightarrow>
     m < length h \<and> h ! m = MultiResolver rs du cd \<and> length du = length rs
     \<and> (\<forall>r \<in> set rs. r < length h \<and> leaf (h ! r))"

definition heap_wf :: "rheap \<Rightarrow> bool" where
  "heap_wf h \<longleftrightarrow> (\<forall>m < length h. \<forall>rs du cd. h ! m = MultiResolver rs du cd \<longrightarrow> group_ok h m rs du cd \<and> rs \<noteq> [])"

lemma leaf_frame:
  assumes "leaf (h ! r)" and "r < length h" and "Resolve n (Suc d) q r h w = (h1, w1, x)"
  shows "length h1 = length h" "\<And>j. j \<noteq> r \<Longrightarrow> h1 ! j = h ! j" "leaf (h1 ! r)" "x \<noteq> Inl tooDeep"
proof -
  have t: "snd (snd (tlsAttempts n k addr q conn e w0)) \<noteq> Inl tooDeep" for k addr conn e w0
    by (induction n k addr q conn e w0 rule: tlsAttempts.induct)
       (auto simp: Let_def split: prod.splits sum.splits option.splits)
  have u: "snd (udpResolve n addr q w0) \<noteq> Inl tooDeep" for addr w0
    by (auto simp: udpResolve_def split: prod.splits sum.splits)
  have dh: "snd (dohResolve n e q w0) \<noteq> Inl tooDeep" for e w0
    by (auto simp: dohResolve_def Let_def split: prod.splits sum.splits)
  have "length h1 = length h \<and> (\<forall>j. j \<noteq> r \<longrightarrow> h1 ! j = h ! j) \<and> leaf (h1 ! r) \<and> x \<noteq> Inl tooDeep"
  proof (cases "h ! r")
    case (UDPResolver a tm)
    then show ?thesis using assms u [of a w] by (auto simp: Resolve.simps split: prod.splits)
  next
    case (TLSResolver a tm c)
    then show ?thesis using assms t [of 2 a c "[]" w] by (auto simp: Resolve.simps split: prod.splits)
  next
    case (DoHResolver e tm b)
    then show ?thesis using assms dh [of e w] by (auto simp: Resolve.simps split: prod.splits)
  qed (use assms in \<open>auto simp: Resolve.simps\<close>)
  then show "length h1 = length h" "\<And>j. j \<noteq> r \<Longrightarrow> h1 ! j = h ! j" "leaf (h1 ! r)" "x \<noteq> Inl tooDeep" by auto
qed

lemma setDown_group:
  assumes "group_ok h m rs du cd"
  shows "group_ok (setDown m i v h) m rs (du[i := v]) cd"
proof -
  have "setDown m i v h = h[m := MultiResolver rs (du[i := v]) cd]" using assms by (simp add: group_ok_def setDown_def)
  moreover have "r \<noteq> m" if "r \<in> set rs" for r using assms that by (auto simp: group_ok_def)
  ultimately show ?thesis using assms by (auto simp: group_ok_def nth_list_update)
qed

lemma leaf_group:
  assumes "group_ok h m rs du cd" and "i < length rs" and "Resolve n (Suc d) q (rs ! i) h w = (h1, w1, x)"
  shows "group_ok h1 m rs du cd" "x \<noteq> Inl tooDeep"
proof -
  have r: "leaf (h ! (rs ! i))" "rs ! i < length h" using assms(1,2) by (auto simp: group_ok_def)
  note f = leaf_frame [OF r assms(3)]
  have "rs ! i \<noteq> m" using assms(1) r by (auto simp: group_ok_def)
  moreover have "leaf (h1 ! r')" if "r' \<in> set rs" for r'
    using f(2) [of r'] f(3) assms(1) that by (cases "r' = rs ! i") (auto simp: group_ok_def)
  ultimately show "group_ok h1 m rs du cd" using f assms(1) by (auto simp: group_ok_def)
  show "x \<noteq> Inl tooDeep" by (rule f(4))
qed

text \<open>
  The loop over a group: it keeps the group, a success clears the winner's stamp, and when
  all candidates fail, each carries the new stamp. The error is never the depth bound.
\<close>

lemma multiLoop_spec:
  assumes "group_ok h m rs du cd" and "\<forall>i \<in> set is. i < length rs" and "fe \<noteq> Some tooDeep"
    and "multiLoop (Resolve n (Suc d) q) m rs now cd is fe h w = (h1, w1, x)"
  shows "\<exists>du1. group_ok h1 m rs du1 cd \<and> x \<noteq> Inl tooDeep
    \<and> (\<forall>j < length rs. j \<notin> set is \<longrightarrow> du1 ! j = du ! j)
    \<and> (\<forall>e. x = Inl e \<longrightarrow> (\<forall>j \<in> set is. du1 ! j = now + cd))
    \<and> (\<forall>resp. x = Inr resp \<longrightarrow> (\<exists>j \<in> set is. du1 ! j = 0))"
  using assms
proof (induction "is" arbitrary: fe h w du)
  case Nil
  then show ?case by (intro exI [of _ du]) (auto split: option.splits)
next
  case (Cons i "is")
  obtain h2 w2 y where y: "Resolve n (Suc d) q (rs ! i) h w = (h2, w2, y)" by (metis surj_pair)
  have i: "i < length rs" using Cons.prems(2) by simp
  note g = leaf_group [OF Cons.prems(1) i y]
  show ?case
  proof (cases y)
    case (Inr resp)
    then have "h1 = setDown m i 0 h2" "x = Inr resp" using Cons.prems(4) y by auto
    then show ?thesis
      using setDown_group [OF g(1), of i 0] i g(1)
      by (intro exI [of _ "du[i := 0]"]) (auto simp: group_ok_def nth_list_update)
  next
    case (Inl e)
    define fe' where "fe' = (if fe = None then Some e else fe)"
    have "fe' \<noteq> Some tooDeep" using Cons.prems(3) g(2) Inl by (auto simp: fe'_def)
    moreover have "multiLoop (Resolve n (Suc d) q) m rs now cd is fe' (setDown m i (now + cd) h2) w2 = (h1, w1, x)"
      using Cons.prems(4) y Inl by (simp add: fe'_def)
    moreover have "\<forall>i \<in> set is. i < length rs" using Cons.prems(2) by simp
    ultimately obtain du1 where du1: "group_ok h1 m rs du1 cd" "x \<noteq> Inl tooDeep"
      "\<forall>j < length rs. j \<notin> set is \<longrightarrow> du1 ! j = (du[i := now + cd]) ! j"
      "\<forall>e. x = Inl e \<longrightarrow> (\<forall>j \<in> set is. du1 ! j = now + cd)"
      "\<forall>resp. x = Inr resp \<longrightarrow> (\<exists>j \<in> set is. du1 ! j = 0)"
      using Cons.IH [OF setDown_group [OF g(1), of i "now + cd"], of fe' w2] by blast
    have len: "length du = length rs" using g(1) by (simp add: group_ok_def)
    have "du1 ! i = now + cd" if "x = Inl e'" for e'
      using du1(3,4) that i len by (cases "i \<in> set is") auto
    then show ?thesis
      using du1 i len by (intro exI [of _ du1]) (auto simp: nth_list_update)
  qed
qed

lemma multiLoop_available:
  assumes "group_ok h m rs du cd" and "\<forall>i \<in> set is. i < length rs" and "j \<in> set is"
    and "\<And>h w. \<exists>h1 w1 resp. Resolve n (Suc d) q (rs ! j) h w = (h1, w1, Inr resp)"
  shows "\<exists>h1 w1 resp. multiLoop (Resolve n (Suc d) q) m rs now cd is fe h w = (h1, w1, Inr resp)"
  using assms(1-3)
proof (induction "is" arbitrary: fe h w du)
  case (Cons i "is")
  obtain h2 w2 y where y: "Resolve n (Suc d) q (rs ! i) h w = (h2, w2, y)" by (metis surj_pair)
  have i: "i < length rs" using Cons.prems(2) by simp
  note g = leaf_group [OF Cons.prems(1) i y]
  show ?case
  proof (cases y)
    case (Inl e)
    then have "i \<noteq> j" using assms(4) [of h w] y by auto
    then show ?thesis
      using Cons.IH [OF setDown_group [OF g(1), of i "now + cd"]] Cons.prems y Inl by simp
  qed (use y in simp)
qed simp

lemma upNow_iff: "i \<in> set (upNow now du) \<longleftrightarrow> i < length du \<and> du ! i \<le> now"
  by (auto simp: upNow_def)

subsection \<open>Construction, lemmas\<close>

lemma group_ok_append: "group_ok h m rs du cd \<Longrightarrow> group_ok (h @ [x]) m rs du cd"
  by (auto simp: group_ok_def nth_append)

lemma heap_wf_leaf: "heap_wf h \<Longrightarrow> leaf x \<Longrightarrow> heap_wf (h @ [x])"
  by (fastforce simp: heap_wf_def nth_append less_Suc_eq intro: group_ok_append split: if_splits)

lemma heap_wf_multi:
  assumes "heap_wf h" and "\<forall>r \<in> set rs. r < length h \<and> leaf (h ! r)" and "rs \<noteq> []" and "length du = length rs"
  shows "heap_wf (h @ [MultiResolver rs du cd])"
  unfolding heap_wf_def
proof (intro allI impI)
  fix m rs' du' cd'
  assume m: "m < length (h @ [MultiResolver rs du cd])"
    and o: "(h @ [MultiResolver rs du cd]) ! m = MultiResolver rs' du' cd'"
  show "group_ok (h @ [MultiResolver rs du cd]) m rs' du' cd' \<and> rs' \<noteq> []"
  proof (cases "m < length h")
    case True
    then show ?thesis using o assms(1) by (auto simp: heap_wf_def nth_append intro: group_ok_append)
  next
    case False
    then show ?thesis using m o assms(2-4) by (auto simp: group_ok_def nth_append less_Suc_eq)
  qed
qed

lemma buildSpec_ok:
  assumes "heap_wf h" and "sp_Type s \<in> {''udp'', ''tls'', ''doh''}" and "buildSpec t b s h = (h1, ro)"
  shows "heap_wf h1 \<and> (\<exists>x. h1 = h @ [x] \<and> leaf x) \<and> ro = Some (length h)"
  using assms by (auto simp: buildSpec_def NewUDP_def NewTLS_def NewDoHWithBootstrap_def alloc_def heap_wf_leaf
      split: if_splits)

lemma buildSpecs_ok:
  assumes "heap_wf h" and "\<forall>s \<in> set ss. sp_Type s \<in> {''udp'', ''tls'', ''doh''}" and "buildSpecs ss h = (h1, ros)"
  shows "heap_wf h1 \<and> length ros = length ss \<and> (\<exists>xs. h1 = h @ xs)
    \<and> (\<forall>ro \<in> set ros. \<exists>r < length h1. ro = Some r \<and> leaf (h1 ! r))"
  using assms
proof (induction ss arbitrary: h ros)
  case (Cons s ss)
  obtain h2 ro where b: "buildSpec 0 None s h = (h2, ro)" by force
  obtain ros' where r: "buildSpecs ss h2 = (h1, ros')" "ros = ro # ros'"
    using Cons.prems(3) b by (auto split: prod.splits)
  have s: "sp_Type s \<in> {''udp'', ''tls'', ''doh''}" using Cons.prems(2) by simp
  from buildSpec_ok [OF Cons.prems(1) s b] obtain x where
    x: "heap_wf h2" "h2 = h @ [x]" "leaf x" "ro = Some (length h)" by blast
  obtain xs where xs: "heap_wf h1" "length ros' = length ss" "h1 = h2 @ xs"
    "\<forall>ro \<in> set ros'. \<exists>r < length h1. ro = Some r \<and> leaf (h1 ! r)"
    using Cons.IH [OF x(1) _ r(1)] Cons.prems(2) by auto
  have "length h < length h1" "leaf (h1 ! length h)" using x xs by (auto simp: nth_append)
  then show ?case using x xs r by auto
qed auto

lemma Resolve_not_deep:
  assumes "heap_wf h" and "r < length h"
  shows "snd (snd (Resolve n 2 q r h w)) \<noteq> Inl tooDeep"
proof (cases "leaf (h ! r)")
  case True
  obtain h1 w1 x where x: "Resolve n (Suc (Suc 0)) q r h w = (h1, w1, x)" by (metis surj_pair)
  from leaf_frame(4) [OF True assms(2) x] x show ?thesis by (simp add: numeral_2_eq_2)
next
  case False
  then obtain rs du cd where m: "h ! r = MultiResolver rs du cd" by (cases "h ! r") auto
  then have g: "group_ok h r rs du cd" using assms by (auto simp: heap_wf_def)
  let ?h0 = "h[r := MultiResolver rs (map (\<lambda>_. 0) du) cd]"
  have g0: "group_ok ?h0 r rs (map (\<lambda>_. 0) du) cd"
    using g by (auto simp: group_ok_def nth_list_update)
  have loop: "snd (snd (multiLoop (Resolve n (Suc 0) q) r rs now cd is None h' w')) \<noteq> Inl tooDeep"
    if "group_ok h' r rs du' cd" "\<forall>i \<in> set is. i < length rs" for h' du' "is" now and w'
    using multiLoop_spec [OF that, of None n 0 q now w'] by (metis option.distinct(1) snd_conv surj_pair)
  have "length du = length rs" using g by (simp add: group_ok_def)
  then have "snd (snd (multiResolve (Resolve n (Suc 0) q) r rs du cd (clock n w) h w)) \<noteq> Inl tooDeep"
    using loop [OF g0, of "[0..<length rs]"] loop [OF g, of "upNow (clock n w) du"]
    by (auto simp: multiResolve_def Let_def upNow_iff)
  then show ?thesis using m by (simp add: numeral_2_eq_2 Resolve.simps)
qed

lemma FromSpec_ok:
  assumes "heap_wf h" and "FromSpec spec h = (h', Inr ro)"
  shows "\<exists>r < length h'. ro = Some r \<and> heap_wf h'"
proof -
  obtain ss where ss: "ParseSpec spec = Inr ss"
    using assms(2) by (cases "ParseSpec spec") (auto simp: FromSpec_def)
  obtain h1 ros where b: "buildSpecs ss h = (h1, ros)" by force
  have ty: "\<forall>s \<in> set ss. sp_Type s \<in> {''udp'', ''tls'', ''doh''}" using ParseSpec_types [OF ss] by blast
  have ne: "ss \<noteq> []"
    using ss by (elim ParseSpec_Inr) (metis length_0_conv length_enumerate length_sort list_all2_lengthD)
  note ok = buildSpecs_ok [OF assms(1) ty b]
  show ?thesis
  proof (cases "\<exists>r. ros = [r]")
    case True
    then obtain r where r: "ros = [r]" by blast
    then show ?thesis using assms(2) ss b ok by (auto simp: FromSpec_def)
  next
    case False
    obtain h2 r where m: "NewMulti (map the ros) h1 = (h2, r)" by force
    have "\<forall>r \<in> set (map the ros). r < length h1 \<and> leaf (h1 ! r)" using ok by fastforce
    moreover have "map the ros \<noteq> []" using ok ne by auto
    ultimately have "heap_wf h2" "r < length h2"
      using m ok heap_wf_multi [of h1 "map the ros" "replicate (length ros) 0"]
      by (auto simp: NewMulti_def alloc_def)
    moreover have "None \<notin> set ros" using ok by auto
    ultimately show ?thesis
      using assms(2) ss b m False by (auto simp: FromSpec_def split: list.splits)
  qed
qed

lemma FromSpec_append:
  assumes "heap_wf h" and "FromSpec spec h = (h', Inr ro)"
  shows "\<exists>xs. h' = h @ xs"
proof -
  obtain ss where ss: "ParseSpec spec = Inr ss" using assms(2) by (cases "ParseSpec spec") (auto simp: FromSpec_def)
  obtain h1 ros where b: "buildSpecs ss h = (h1, ros)" by force
  have ty: "\<forall>s \<in> set ss. sp_Type s \<in> {''udp'', ''tls'', ''doh''}" using ParseSpec_types [OF ss] by blast
  from buildSpecs_ok [OF assms(1) ty b] assms(2) ss b show ?thesis
    by (auto simp: FromSpec_def NewMulti_def alloc_def split: list.splits if_splits)
qed

lemma dialIPs_safe:
  "a \<in> set (snd (snd (dialIPs n port ips le w))) \<Longrightarrow>
     \<exists>ip \<in> set ips. a = JoinHostPort (IP_String ip) port \<and> \<not> blockedUpstreamIP ip"
  by (induction n port ips le w rule: dialIPs.induct)
     (auto simp: Let_def split: prod.splits sum.splits if_splits)

subsection \<open>Properties\<close>

text \<open>
  Parsed specifications are usable. A parsed list is a permutation of the tokens'
  entries in ascending priority, tokens of equal priority in their written order; every
  entry has a known transport and a positive priority, and none names a literal link-local,
  metadata or unspecified address. Without explicit priorities the written order is kept.
\<close>

theorem ParseSpec_sound:
  assumes "ParseSpec spec = Inr ss"
  shows "sorted (map sp_Priority ss) \<and> length ss = length (splitSpec spec)
    \<and> (\<forall>s \<in> set ss. sp_Type s \<in> {''udp'', ''tls'', ''doh''} \<and> 0 < sp_Priority s
        \<and> (ParseIP (specHost (sp_Address s)) = [] \<or> \<not> blockedUpstreamIP (ParseIP (specHost (sp_Address s)))))
    \<and> ((\<forall>tok \<in> set (splitSpec spec). snd (splitPriority tok) \<le> 0) \<longrightarrow>
         list_all2 (\<lambda>x s. parseToken x = Inr s) (enumerate 0 (splitSpec spec)) ss)"
proof -
  obtain out where out: "list_all2 (\<lambda>x y. parseToken x = Inr y) (enumerate 0 (splitSpec spec)) out"
    "ss = sort_key sp_Priority out" using ParseSpec_Inr [OF assms] .
  have len: "length out = length (splitSpec spec)" using out(1) by (auto dest: list_all2_lengthD)
  have "ss = out" if plain: "\<forall>tok \<in> set (splitSpec spec). snd (splitPriority tok) \<le> 0"
  proof -
    have "sp_Priority (out ! k) = int k + 1" if k: "k < length out" for k
    proof -
      have "parseToken (k, splitSpec spec ! k) = Inr (out ! k)"
        using out(1) k len by (auto simp: list_all2_conv_all_nth nth_enumerate_eq)
      from parseToken_ok(4) [OF this] plain k len show ?thesis by simp
    qed
    then have "sorted (map sp_Priority out)" by (auto simp: sorted_iff_nth_mono)
    then show ?thesis unfolding out(2) by (rule sort_key_id_if_sorted)
  qed
  moreover have "length ss = length (splitSpec spec)" using len out(2) by simp
  moreover have "sorted (map sp_Priority ss)" by (simp add: out(2))
  moreover have "\<forall>s \<in> set ss. sp_Type s \<in> {''udp'', ''tls'', ''doh''} \<and> 0 < sp_Priority s
        \<and> (ParseIP (specHost (sp_Address s)) = [] \<or> \<not> blockedUpstreamIP (ParseIP (specHost (sp_Address s))))"
    using ParseSpec_types [OF assms] by (intro ballI)
  ultimately show ?thesis using out(1) by blast
qed

definition wSpec :: string where
  "wSpec = ''udp://9.9.9.9|2, 1.1.1.1|1''"

theorem ParseSpec_sound_witness:
  "\<exists>ss. ParseSpec wSpec = Inr ss \<and> map sp_Address ss = [''1.1.1.1:53'', ''9.9.9.9:53''] \<and> sorted (map sp_Priority ss)"
proof -
  have "map_sum id (map sp_Address) (ParseSpec wSpec) = Inr [''1.1.1.1:53'', ''9.9.9.9:53'']" by code_simp
  then obtain ss where "ParseSpec wSpec = Inr ss" "map sp_Address ss = [''1.1.1.1:53'', ''9.9.9.9:53'']"
    by (cases "ParseSpec wSpec") auto
  then show ?thesis using ParseSpec_sound [THEN conjunct1, of wSpec ss] by (intro exI [of _ ss] conjI)
qed

text \<open>
  C40. Every accepted specification yields a working resolver object: never nil, all
  groups non-empty and made of allocated plain resolvers, so that resolving through it
  always ends with an answer or an error of the network, whatever the network does.
\<close>

theorem FromSpec_total:
  assumes "heap_wf h" and "FromSpec spec h = (h', Inr ro)"
  shows "\<exists>r < length h'. ro = Some r \<and> heap_wf h'
    \<and> (\<forall>q w. snd (snd (Resolve n 2 q r h' w)) \<noteq> Inl tooDeep)"
proof -
  from FromSpec_ok [OF assms] obtain r where r: "r < length h'" "ro = Some r" "heap_wf h'" by blast
  then show ?thesis using Resolve_not_deep [OF r(3,1)] by (intro exI [of _ r] conjI allI)
qed

theorem FromSpec_total_witness:
  "\<exists>h' r. FromSpec wSpec [] = (h', Inr (Some r)) \<and> length h' = 3 \<and> heap_wf h'"
proof -
  have "map_prod length id (FromSpec wSpec []) = (3, Inr (Some 2))" by code_simp
  then obtain h' where h': "FromSpec wSpec [] = (h', Inr (Some 2))" "length h' = 3"
    by (cases "FromSpec wSpec []") auto
  have "heap_wf []" by (simp add: heap_wf_def)
  from FromSpec_total [OF this h'(1), of undefined] h' show ?thesis by (intro exI conjI) blast+
qed


text \<open>A network in which one of two servers is dead.\<close>

definition wNet :: "nat net_ops" where
  "wNet = \<lparr>udpExchange = (\<lambda>addr q w. (Suc w, if addr = ''192.0.2.1:53'' then Inl ''i/o timeout'' else Inr (SetReply emptyMsg q))),
     tcpExchange = (\<lambda>addr q w. (Suc w, Inl ''i/o timeout'')), tlsDial = (\<lambda>addr w. (w, Inl ''refused'')),
     tlsExchange = (\<lambda>c q w. (w, Inl ''eof'')), tlsClose = (\<lambda>c w. w),
     httpPost = (\<lambda>e b w. (w, Inl ''refused'')), packMsg = (\<lambda>m. Inl ''pack''), unpackMsg = (\<lambda>b. Inl ''unpack''),
     clock = (\<lambda>w. int w), freshId = (\<lambda>w. (w, 7)), netDial = (\<lambda>a w. (w, Inr 1))\<rparr>"

definition wHeap :: rheap where
  "wHeap = [UDPResolver ''192.0.2.1:53'' Second, UDPResolver ''192.0.2.2:53'' Second,
            MultiResolver [0, 1] [0, 0] (15 * Second)]"

definition wQuery :: Msg where
  "wQuery = SetQuestion 7 ''example.com.'' TypeA"


text \<open>
  The bootstrap dialer never reaches the metadata service: whatever the bootstrap
  resolver answers for the endpoint's host name, and also for a literal address, nothing is
  dialled that is link-local or unspecified.
\<close>

theorem bootstrap_dial_safe:
  assumes "a \<in> set (snd (snd (snd (bootstrapDialContext n d b addr h w))))"
  shows "\<exists>host port. SplitHostPort addr = Some (host, port) \<and>
    ((a = addr \<and> ParseIP host \<noteq> [] \<and> \<not> blockedUpstreamIP (ParseIP host))
     \<or> (\<exists>ip. a = JoinHostPort (IP_String ip) port \<and> \<not> blockedUpstreamIP ip))"
proof -
  obtain host port where hp: "SplitHostPort addr = Some (host, port)"
    using assms by (auto simp: bootstrapDialContext_def split: option.splits)
  show ?thesis
  proof (cases "ParseIP host = []")
    case True
    obtain h1 w1 ips where l: "bootstrapLookupIP n d b host h w = (h1, w1, ips)" by (metis surj_pair)
    have "a \<in> set (snd (snd (dialIPs n port ips (noAddresses host) w1)))"
      using assms True hp l by (auto simp: bootstrapDialContext_def split: if_splits prod.splits)
    from dialIPs_safe [OF this] show ?thesis using hp by blast
  next
    case False
    then show ?thesis
      using assms hp by (auto simp: bootstrapDialContext_def split: if_splits prod.splits sum.splits)
  qed
qed

theorem bootstrap_dial_safe_witness:
  "snd (snd (snd (bootstrapDialContext wNet 2 0 ''192.0.2.9:443'' wHeap 5))) = [''192.0.2.9:443'']
   \<and> (\<exists>host port. SplitHostPort ''192.0.2.9:443'' = Some (host, port))"
proof -
  have d: "snd (snd (snd (bootstrapDialContext wNet 2 0 ''192.0.2.9:443'' wHeap 5))) = [''192.0.2.9:443'']"
    by code_simp
  then show ?thesis
    using bootstrap_dial_safe [of "''192.0.2.9:443''" wNet 2 0 "''192.0.2.9:443''" wHeap 5] by auto
qed

end
