(* ===== verification/Blip_Routing.thy ===== *)
theory Blip_Routing
  imports Blip_Upstream
begin

text \<open>
  The resolver pool (\<open>src/internal/upstream/routing.go\<close>): named servers, the automatic
  failover rotation, conditional-forwarding routes and the labels that attribute a query to
  the upstream that answered it.
\<close>

record UpstreamRoute =
  ur_Name :: string
  ur_QnameSuffix :: string
  ur_Server :: string
  ur_ClientCIDR :: string
  ur_Disabled :: bool

record routeRule =
  rr_suffix :: string
  rr_network :: "IPNet option"
  rr_server :: string

text \<open>
  The automatic resolver: none, an object, or a group one of whose members is nil, on which
  \<open>Resolve\<close> panics when it gets to that member.
\<close>

datatype autoResolver = NoAuto | Auto ref | NilMember

record ResolverPool =
  pl_named :: "(string \<times> ref) list"
  pl_auto :: autoResolver
  pl_rules :: "routeRule list"
  pl_servers :: "UpstreamServer list"
  pl_routes :: "UpstreamRoute list"
  pl_bootstrap :: "UpstreamServer list"

datatype PoolError = BootstrapError string ServerSpecError | DuplicateServer string
  | ServerError string ServerSpecError | DefaultUpstreamError string SpecError
  | RouteNoServer string | RouteUnknownServer string string | RouteNoSuffix string | RouteBadCIDR string string

fun bootstrapAll :: "UpstreamServer list \<Rightarrow> rheap \<Rightarrow> rheap \<times> (PoolError, ref list) result" where
  "bootstrapAll [] h = (h, Inr [])"
| "bootstrapAll (sv # svs) h =
     (case fromServerSpec (us_Address sv) (timeoutForServer sv) h of
        (h1, Inl e) \<Rightarrow> (h1, Inl (BootstrapError (us_Address sv) e))
      | (h1, Inr r) \<Rightarrow>
          (case bootstrapAll svs h1 of
             (h2, Inl e) \<Rightarrow> (h2, Inl e)
           | (h2, Inr rs) \<Rightarrow> (h2, Inr (r # rs))))"

definition BuildBootstrapResolver :: "UpstreamServer list \<Rightarrow> rheap \<Rightarrow> rheap \<times> (PoolError, ref option) result" where
  "BuildBootstrapResolver bootstrap h =
     (case bootstrapAll bootstrap h of
        (h1, Inl e) \<Rightarrow> (h1, Inl e)
      | (h1, Inr []) \<Rightarrow> (h1, Inr None)
      | (h1, Inr [r]) \<Rightarrow> (h1, Inr (Some r))
      | (h1, Inr rs) \<Rightarrow> (case NewMulti rs h1 of (h2, r) \<Rightarrow> (h2, Inr (Some r))))"

definition namedServer :: "UpstreamServer \<Rightarrow> UpstreamServer" where
  "namedServer sv = (if us_Name sv = [] then sv\<lparr>us_Name := ''server#'' @ us_Address sv\<rparr> else sv)"

fun buildNamed ::
  "ref option \<Rightarrow> UpstreamServer list \<Rightarrow> (string \<times> ref) list \<Rightarrow> rheap
   \<Rightarrow> rheap \<times> (PoolError, (string \<times> ref) list) result" where
  "buildNamed b [] named h = (h, Inr named)"
| "buildNamed b (sv0 # svs) named h =
     (let sv = namedServer sv0 in
      if map_of named (us_Name sv) \<noteq> None then (h, Inl (DuplicateServer (us_Name sv)))
      else case fromServerSpecWithBootstrap (us_Address sv) (timeoutForServer sv) b h of
             (h1, Inl e) \<Rightarrow> (h1, Inl (ServerError (us_Name sv) e))
           | (h1, Inr r) \<Rightarrow> buildNamed b svs (AList.update (us_Name sv) r named) h1)"

fun serverPriority :: "UpstreamServer list \<Rightarrow> string \<Rightarrow> int" where
  "serverPriority [] name = 0"
| "serverPriority (sv # svs) name =
     (if us_Name sv = name \<or> (us_Name sv = [] \<and> ''server#'' @ us_Address sv = name) then us_Priority sv
      else serverPriority svs name)"

text \<open>The rotation's names: the source appends the configured name, which may be empty.\<close>

definition rotationOrder :: "UpstreamServer list \<Rightarrow> string list" where
  "rotationOrder servers =
     sort_key (\<lambda>nm. (serverPriority servers nm, nm)) (map us_Name (filter (\<lambda>sv. 0 < us_Priority sv) servers))"

definition fqdn :: "string \<Rightarrow> string" where
  "fqdn s0 =
     (let s = ToLower (TrimSpace s0)
      in if s = [] then ''.'' else if last s \<noteq> CHR ''.'' then s @ ''.'' else s)"

definition makeRouteRule :: "(string \<times> ref) list \<Rightarrow> UpstreamRoute \<Rightarrow> (PoolError, routeRule) result" where
  "makeRouteRule named rt =
     (if ur_Server rt = [] then Inl (RouteNoServer (ur_Name rt))
      else if map_of named (ur_Server rt) = None then Inl (RouteUnknownServer (ur_Name rt) (ur_Server rt))
      else if ur_QnameSuffix rt = [] then Inl (RouteNoSuffix (ur_Name rt))
      else if ur_ClientCIDR rt \<noteq> [] \<and> ur_ClientCIDR rt \<noteq> ''0.0.0.0/0'' then
        (case ParseCIDR (ur_ClientCIDR rt) of
           None \<Rightarrow> Inl (RouteBadCIDR (ur_Name rt) (ur_ClientCIDR rt))
         | Some (_, n) \<Rightarrow>
             Inr \<lparr>rr_suffix = fqdn (ur_QnameSuffix rt), rr_network = Some n, rr_server = ur_Server rt\<rparr>)
      else Inr \<lparr>rr_suffix = fqdn (ur_QnameSuffix rt), rr_network = None, rr_server = ur_Server rt\<rparr>)"

definition buildAuto ::
  "(string \<times> ref) list \<Rightarrow> UpstreamServer list \<Rightarrow> string \<Rightarrow> rheap \<Rightarrow> rheap \<times> (PoolError, autoResolver) result" where
  "buildAuto named servers legacyUp h =
     (case map (map_of named) (rotationOrder servers) of
        [] \<Rightarrow>
          if legacyUp \<noteq> [] then
            (case FromSpec legacyUp h of
               (h1, Inl e) \<Rightarrow> (h1, Inl (DefaultUpstreamError legacyUp e))
             | (h1, Inr None) \<Rightarrow> (h1, Inr NilMember)
             | (h1, Inr (Some r)) \<Rightarrow> (h1, Inr (Auto r)))
          else (h, Inr NoAuto)
      | [ro] \<Rightarrow> (h, Inr (case ro of None \<Rightarrow> NoAuto | Some r \<Rightarrow> Auto r))
      | ros \<Rightarrow>
          if None \<in> set ros then (h, Inr NilMember)
          else (case NewMulti (map the ros) h of (h1, r) \<Rightarrow> (h1, Inr (Auto r))))"

definition NewPoolWithBootstrap ::
  "UpstreamServer list \<Rightarrow> UpstreamRoute list \<Rightarrow> string \<Rightarrow> UpstreamServer list \<Rightarrow> rheap
   \<Rightarrow> rheap \<times> (PoolError, ResolverPool) result" where
  "NewPoolWithBootstrap servers routes legacyUp bootstrap h =
     (case BuildBootstrapResolver bootstrap h of
        (h1, Inl e) \<Rightarrow> (h1, Inl e)
      | (h1, Inr b) \<Rightarrow>
          (case buildNamed b servers [] h1 of
             (h2, Inl e) \<Rightarrow> (h2, Inl e)
           | (h2, Inr named) \<Rightarrow>
               (case buildAuto named servers legacyUp h2 of
                  (h3, Inl e) \<Rightarrow> (h3, Inl e)
                | (h3, Inr auto') \<Rightarrow>
                    (case map_result (makeRouteRule named) (filter (\<lambda>rt. \<not> ur_Disabled rt) routes) of
                       Inl e \<Rightarrow> (h3, Inl e)
                     | Inr rules \<Rightarrow>
                         (h3, Inr \<lparr>pl_named = named, pl_auto = auto', pl_rules = rules, pl_servers = servers,
                                   pl_routes = routes, pl_bootstrap = bootstrap\<rparr>)))))"

definition NewPool ::
  "UpstreamServer list \<Rightarrow> UpstreamRoute list \<Rightarrow> string \<Rightarrow> rheap \<Rightarrow> rheap \<times> (PoolError, ResolverPool) result" where
  "NewPool servers routes legacyUp = NewPoolWithBootstrap servers routes legacyUp []"

definition NewPoolWithAuto :: "ref \<Rightarrow> ResolverPool" where
  "NewPoolWithAuto r =
     \<lparr>pl_named = [], pl_auto = Auto r, pl_rules = [], pl_servers = [], pl_routes = [], pl_bootstrap = []\<rparr>"

definition ResolverPool_Auto :: "ResolverPool \<Rightarrow> autoResolver" where
  "ResolverPool_Auto p = pl_auto p"

definition ResolverPool_Servers :: "ResolverPool \<Rightarrow> UpstreamServer list" where
  "ResolverPool_Servers p = pl_servers p"

definition ResolverPool_Routes :: "ResolverPool \<Rightarrow> UpstreamRoute list" where
  "ResolverPool_Routes p = pl_routes p"

definition ResolverPool_Bootstrap :: "ResolverPool \<Rightarrow> UpstreamServer list" where
  "ResolverPool_Bootstrap p = pl_bootstrap p"

text \<open>A nil client (\<open>[]\<close>) passes every network restriction.\<close>

definition ruleMatches :: "string \<Rightarrow> IP \<Rightarrow> routeRule \<Rightarrow> bool" where
  "ruleMatches q client rt =
     (if \<not> HasSuffix q (rr_suffix rt) then False
      else case rr_network rt of
             Some n \<Rightarrow> if client \<noteq> [] then IPNet_Contains n client else True
           | None \<Rightarrow> True)"

fun bestRule :: "string \<Rightarrow> IP \<Rightarrow> routeRule list \<Rightarrow> routeRule option \<Rightarrow> routeRule option" where
  "bestRule q client [] best = best"
| "bestRule q client (rt # rts) best =
     (if \<not> ruleMatches q client rt then bestRule q client rts best
      else case best of
             None \<Rightarrow> bestRule q client rts (Some rt)
           | Some b \<Rightarrow>
               if length (rr_suffix b) < length (rr_suffix rt) then bestRule q client rts (Some rt)
               else bestRule q client rts best)"

definition ResolverPool_Match :: "ResolverPool \<Rightarrow> string \<Rightarrow> IP \<Rightarrow> ref option" where
  "ResolverPool_Match p qname client =
     (case bestRule (fqdn qname) client (pl_rules p) None of
        None \<Rightarrow> None
      | Some b \<Rightarrow> map_of (pl_named p) (rr_server b))"

fun labelNamed :: "(string \<times> ref) list \<Rightarrow> UpstreamServer list \<Rightarrow> ref \<Rightarrow> string" where
  "labelNamed named [] r = []"
| "labelNamed named (sv # svs) r =
     (if us_Name sv \<noteq> [] \<and> map_of named (us_Name sv) = Some r then
        (if us_Address sv \<noteq> [] then us_Name sv @ '' ('' @ us_Address sv @ '')'' else us_Name sv)
      else labelNamed named svs r)"

text \<open>The rotation lists the names of its servers; the program's one automatic resolver is
  recognised by identity.\<close>

definition rotationLabel :: "ResolverPool \<Rightarrow> string" where
  "rotationLabel p =
     (let names = map us_Name (filter (\<lambda>sv. 0 < us_Priority sv) (pl_servers p))
      in if names = [] then ''auto'' else ''auto ('' @ Join names '', '' @ '')'')"

definition ResolverPool_LabelFor :: "ResolverPool \<Rightarrow> autoResolver \<Rightarrow> string" where
  "ResolverPool_LabelFor p r =
     (case r of
        NoAuto \<Rightarrow> []
      | NilMember \<Rightarrow> if pl_auto p = NilMember then rotationLabel p else []
      | Auto a \<Rightarrow> if pl_auto p = r then rotationLabel p else labelNamed (pl_named p) (pl_servers p) a)"

subsection \<open>Building\<close>

lemma fromServerSpec_ok:
  assumes "heap_wf h" and "fromServerSpecWithBootstrap spec t b h = (h1, x)"
  shows "heap_wf h1 \<and> (\<exists>xs. h1 = h @ xs \<and> list_all leaf xs) \<and> (\<forall>r. x = Inr r \<longrightarrow> r < length h1 \<and> leaf (h1 ! r) \<and> length h \<le> r)"
proof (cases "\<exists>s. ParseSpec spec = Inr [s]")
  case True
  then obtain s where s: "ParseSpec spec = Inr [s]" by blast
  obtain h2 ro where b: "buildSpec t b s h = (h2, ro)" by force
  have "sp_Type s \<in> {''udp'', ''tls'', ''doh''}" using ParseSpec_types [OF s] by simp
  from buildSpec_ok [OF assms(1) this b] assms(2) s b show ?thesis
    by (auto simp: fromServerSpecWithBootstrap_def nth_append)
next
  case False
  then show ?thesis using assms by (auto simp: fromServerSpecWithBootstrap_def split: sum.splits list.splits)
qed

lemma bootstrapAll_ok:
  assumes "heap_wf h" and "bootstrapAll svs h = (h1, x)"
  shows "heap_wf h1 \<and> (\<exists>xs. h1 = h @ xs) \<and> (\<forall>rs. x = Inr rs \<longrightarrow> (\<forall>r \<in> set rs. r < length h1 \<and> leaf (h1 ! r)))"
  using assms
proof (induction svs arbitrary: h h1 x)
  case (Cons sv svs)
  obtain h2 y where y: "fromServerSpec (us_Address sv) (timeoutForServer sv) h = (h2, y)" by force
  from fromServerSpec_ok [OF Cons.prems(1)] y obtain xs where
    f: "heap_wf h2" "h2 = h @ xs" "\<forall>r. y = Inr r \<longrightarrow> r < length h2 \<and> leaf (h2 ! r)"
    unfolding fromServerSpec_def by meson
  show ?case
  proof (cases y)
    case (Inl e)
    then show ?thesis using Cons.prems(2) y f by auto
  next
    case (Inr r)
    obtain h3 z where z: "bootstrapAll svs h2 = (h3, z)" by force
    obtain ys where g: "heap_wf h3" "h3 = h2 @ ys" "\<forall>rs. z = Inr rs \<longrightarrow> (\<forall>r \<in> set rs. r < length h3 \<and> leaf (h3 ! r))"
      using Cons.IH [OF f(1) z] by blast
    have "r < length h3" "leaf (h3 ! r)" using f(3) g(2) Inr by (auto simp: nth_append)
    then show ?thesis using Cons.prems(2) y Inr z f(2) g by (cases z) auto
  qed
qed auto

lemma BuildBootstrap_ok:
  assumes "heap_wf h" and "BuildBootstrapResolver svs h = (h1, x)"
  shows "heap_wf h1 \<and> (\<exists>xs. h1 = h @ xs)"
proof -
  obtain h2 y where y: "bootstrapAll svs h = (h2, y)" by force
  obtain xs where b: "heap_wf h2" "h2 = h @ xs"
    "\<forall>rs. y = Inr rs \<longrightarrow> (\<forall>r \<in> set rs. r < length h2 \<and> leaf (h2 ! r))"
    using bootstrapAll_ok [OF assms(1) y] by blast
  consider (same) "h1 = h2" | (multi) rs where "y = Inr rs" "rs \<noteq> []" "h1 = fst (NewMulti rs h2)"
    using assms(2) y by (auto simp: BuildBootstrapResolver_def split: sum.splits list.splits prod.splits)
  then show ?thesis
  proof cases
    case multi
    then show ?thesis
      using b heap_wf_multi [of h2 rs "replicate (length rs) 0"] by (auto simp: NewMulti_def alloc_def)
  qed (use b in auto)
qed

definition named_ok :: "rheap \<Rightarrow> (string \<times> ref) list \<Rightarrow> bool" where
  "named_ok h named \<longleftrightarrow> (\<forall>nm r. map_of named nm = Some r \<longrightarrow> r < length h \<and> leaf (h ! r))"

lemma named_ok_append: "named_ok h named \<Longrightarrow> named_ok (h @ xs) named"
  by (simp add: named_ok_def nth_append trans_less_add1)

lemma buildNamed_ok:
  assumes "heap_wf h" and "named_ok h named" and "buildNamed b svs named h = (h1, x)"
  shows "heap_wf h1 \<and> (\<forall>nm'. x = Inr nm' \<longrightarrow> named_ok h1 nm'
    \<and> dom (map_of nm') = dom (map_of named) \<union> (\<lambda>sv. us_Name (namedServer sv)) ` set svs)"
  using assms
proof (induction svs arbitrary: h named)
  case (Cons sv svs)
  let ?sv = "namedServer sv"
  obtain h2 y where y: "fromServerSpecWithBootstrap (us_Address ?sv) (timeoutForServer ?sv) b h = (h2, y)" by force
  obtain xs where f: "heap_wf h2" "h2 = h @ xs" "\<forall>r. y = Inr r \<longrightarrow> r < length h2 \<and> leaf (h2 ! r)"
    using fromServerSpec_ok [OF Cons.prems(1) y] by blast
  show ?case
  proof (cases "map_of named (us_Name ?sv) = None \<and> (\<exists>r. y = Inr r)")
    case True
    then obtain r where r: "y = Inr r" "map_of named (us_Name ?sv) = None" by blast
    have "named_ok h2 (AList.update (us_Name ?sv) r named)"
      using named_ok_append [OF Cons.prems(2), of xs] f r by (auto simp: named_ok_def)
    from Cons.IH [OF f(1) this] show ?thesis using Cons.prems(3) y r by (auto simp: Let_def)
  next
    case False
    then show ?thesis using Cons.prems y f(1) by (auto simp: Let_def split: sum.splits if_splits)
  qed
qed auto

lemma rotation_names: "nm \<in> set (rotationOrder svs) \<longleftrightarrow> (\<exists>sv \<in> set svs. 0 < us_Priority sv \<and> us_Name sv = nm)"
  by (auto simp: rotationOrder_def)

lemma buildAuto_ok:
  assumes "heap_wf h" and "named_ok h named" and "set (rotationOrder svs) \<subseteq> dom (map_of named)"
    and "buildAuto named svs up h = (h1, Inr au)"
  shows "heap_wf h1 \<and> (\<exists>xs. h1 = h @ xs) \<and> au \<noteq> NilMember \<and> (\<forall>r. au = Auto r \<longrightarrow> r < length h1)
    \<and> (rotationOrder svs \<noteq> [] \<longrightarrow> (\<exists>r. au = Auto r \<and>
         (map_of named (hd (rotationOrder svs)) = Some r \<and> length (rotationOrder svs) = 1
          \<or> (\<exists>du cd. h1 ! r = MultiResolver (map (the \<circ> map_of named) (rotationOrder svs)) du cd))))"
proof -
  let ?ros = "map (map_of named) (rotationOrder svs)"
  have some: "None \<notin> set ?ros" using assms(3) by auto
  consider (none) "?ros = []" | (one) ro where "?ros = [ro]" | (many) a b rs where "?ros = a # b # rs"
    by (metis list.exhaust)
  then show ?thesis
  proof cases
    case none
    show ?thesis
    proof (cases "up = []")
      case False
      obtain h2 x where x: "FromSpec up h = (h2, x)" by force
      then obtain ro where ro: "x = Inr ro" "h1 = h2"
        using assms(4) none False by (cases x) (auto simp: buildAuto_def split: option.splits)
      obtain r where r: "r < length h2" "ro = Some r" "heap_wf h2"
        using FromSpec_ok [OF assms(1)] x ro by blast
      moreover have "\<exists>xs. h2 = h @ xs" using FromSpec_append [OF assms(1)] x ro by blast
      ultimately show ?thesis using assms(4) none False x ro by (auto simp: buildAuto_def)
    qed (use assms(1,4) none in \<open>auto simp: buildAuto_def\<close>)
  next
    case (one ro)
    obtain nm where nm: "rotationOrder svs = [nm]" "map_of named nm = ro" using one by (cases "rotationOrder svs") auto
    then obtain r where "ro = Some r" using some one by (cases ro) auto
    then show ?thesis using assms nm by (auto simp: buildAuto_def named_ok_def)
  next
    case (many a b rs)
    have refs: "\<forall>r \<in> set (map the ?ros). r < length h \<and> leaf (h ! r)"
    proof
      fix r assume "r \<in> set (map the ?ros)"
      then obtain nm where "nm \<in> set (rotationOrder svs)" "r = the (map_of named nm)" by auto
      moreover from this obtain r' where "map_of named nm = Some r'" using assms(3) by auto
      ultimately show "r < length h \<and> leaf (h ! r)" using assms(2) by (auto simp: named_ok_def)
    qed
    have "h1 = h @ [MultiResolver (map the ?ros) (replicate (length ?ros) 0) (15 * Second)]" "au = Auto (length h)"
      using assms(4) many some by (auto simp: buildAuto_def NewMulti_def alloc_def simp del: list.map)
    then show ?thesis
      using heap_wf_multi [OF assms(1) refs, of "replicate (length ?ros) 0"] many by (auto simp: comp_def)
  qed
qed

definition pool_ok :: "rheap \<Rightarrow> ResolverPool \<Rightarrow> bool" where
  "pool_ok h p \<longleftrightarrow>
     heap_wf h \<and> named_ok h (pl_named p) \<and> (\<forall>r. pl_auto p = Auto r \<longrightarrow> r < length h)
     \<and> (\<forall>rule \<in> set (pl_rules p). map_of (pl_named p) (rr_server rule) \<noteq> None)"

lemma makeRouteRule_server:
  "makeRouteRule named rt = Inr rule \<Longrightarrow> map_of named (rr_server rule) \<noteq> None \<and> rr_server rule = ur_Server rt
     \<and> rr_suffix rule = fqdn (ur_QnameSuffix rt)"
  by (auto simp: makeRouteRule_def split: if_splits option.splits)

lemma bestRule_spec:
  assumes "best = None \<or> ruleMatches q c (the best)"
  shows "(bestRule q c rts best = None \<longleftrightarrow> best = None \<and> (\<forall>rt \<in> set rts. \<not> ruleMatches q c rt))
    \<and> (\<forall>b. bestRule q c rts best = Some b \<longrightarrow> (b \<in> set rts \<or> best = Some b) \<and> ruleMatches q c b
        \<and> (\<forall>rt \<in> set rts. ruleMatches q c rt \<longrightarrow> length (rr_suffix rt) \<le> length (rr_suffix b))
        \<and> (\<forall>b0. best = Some b0 \<longrightarrow> length (rr_suffix b0) \<le> length (rr_suffix b)))"
  using assms
proof (induction rts arbitrary: best)
  case (Cons rt rts)
  show ?case
  proof (cases "ruleMatches q c rt")
    case False
    then show ?thesis using Cons.IH [of best] Cons.prems by auto
  next
    case True
    consider (new) "best = None \<or> (\<exists>b. best = Some b \<and> length (rr_suffix b) < length (rr_suffix rt))"
      | (old) b where "best = Some b" "length (rr_suffix rt) \<le> length (rr_suffix b)"
      by (metis not_less option.exhaust)
    then show ?thesis
    proof cases
      case new
      then have "bestRule q c (rt # rts) best = bestRule q c rts (Some rt)" using True by auto
      then show ?thesis using Cons.IH [of "Some rt"] True new by fastforce
    next
      case old
      then have "bestRule q c (rt # rts) best = bestRule q c rts best" using True by auto
      then show ?thesis using Cons.IH [of best] Cons.prems True old by fastforce
    qed
  qed
qed auto

lemma NewPool_ok:
  assumes "heap_wf h" and "NewPoolWithBootstrap servers routes up boot h = (h', Inr p)"
    and "\<forall>sv \<in> set servers. 0 < us_Priority sv \<longrightarrow> us_Name sv \<noteq> []"
  shows "pool_ok h' p \<and> pl_auto p \<noteq> NilMember
    \<and> length (pl_rules p) = length (filter (\<lambda>rt. \<not> ur_Disabled rt) routes)
    \<and> (\<forall>r n q (w :: 'w). (pl_auto p = Auto r \<or> (\<exists>nm. map_of (pl_named p) nm = Some r)) \<longrightarrow>
         snd (snd (Resolve n 2 q r h' w)) \<noteq> Inl tooDeep)
    \<and> ((\<exists>sv \<in> set servers. 0 < us_Priority sv) \<longrightarrow> (\<exists>r. pl_auto p = Auto r \<and>
         (map_of (pl_named p) (hd (rotationOrder servers)) = Some r \<and> length (rotationOrder servers) = 1
          \<or> (\<exists>du cd. h' ! r = MultiResolver (map (the \<circ> map_of (pl_named p)) (rotationOrder servers)) du cd))))"
proof -
  obtain h1 b where b: "BuildBootstrapResolver boot h = (h1, Inr b)"
    using assms(2) by (cases "BuildBootstrapResolver boot h") (auto simp: NewPoolWithBootstrap_def split: sum.splits)
  obtain h2 named where nm: "buildNamed b servers [] h1 = (h2, Inr named)"
    using assms(2) b by (cases "buildNamed b servers [] h1") (auto simp: NewPoolWithBootstrap_def split: sum.splits)
  obtain h3 au where au: "buildAuto named servers up h2 = (h3, Inr au)"
    using assms(2) b nm by (cases "buildAuto named servers up h2") (auto simp: NewPoolWithBootstrap_def split: sum.splits)
  obtain rules where ru: "map_result (makeRouteRule named) (filter (\<lambda>rt. \<not> ur_Disabled rt) routes) = Inr rules"
    and p: "h' = h3" "p = \<lparr>pl_named = named, pl_auto = au, pl_rules = rules, pl_servers = servers, pl_routes = routes, pl_bootstrap = boot\<rparr>"
    using assms(2) b nm au by (auto simp: NewPoolWithBootstrap_def split: sum.splits)
  have h1: "heap_wf h1" using BuildBootstrap_ok [OF assms(1) b] by blast
  have "named_ok h1 []" by (simp add: named_ok_def)
  from buildNamed_ok [OF h1 this nm] have h2: "heap_wf h2" "named_ok h2 named"
    and dom: "dom (map_of named) = (\<lambda>sv. us_Name (namedServer sv)) ` set servers" by auto
  have "set (rotationOrder servers) \<subseteq> dom (map_of named)"
    unfolding dom using assms(3) by (force simp: rotation_names namedServer_def)
  note a = buildAuto_ok [OF h2 this au]
  have named: "named_ok h3 named" using a named_ok_append [OF h2(2)] by blast
  have rules: "\<forall>rule \<in> set rules. map_of named (rr_server rule) \<noteq> None"
    using ru by (auto simp: map_result_Inr_iff list_all2_conv_all_nth in_set_conv_nth dest!: makeRouteRule_server)
  have "rotationOrder servers \<noteq> []" if "\<exists>sv \<in> set servers. 0 < us_Priority sv"
    using that rotation_names [of _ servers] by fastforce
  moreover have "r < length h3" if "pl_auto p = Auto r \<or> (\<exists>nm. map_of (pl_named p) nm = Some r)" for r
    using that a named p by (auto simp: named_ok_def)
  moreover have "snd (snd (Resolve n 2 q r h3 w)) \<noteq> Inl tooDeep" if "r < length h3" for r n q and w :: 'w
    using a that by (intro Resolve_not_deep) blast+
  moreover have "pool_ok h3 p" using a named rules p by (simp add: pool_ok_def)
  ultimately show ?thesis
    using a p map_result_length [OF ru] by auto
qed

definition wServers :: "UpstreamServer list" where
  "wServers = [\<lparr>us_Name = ''b'', us_Address = ''192.0.2.2'', us_Priority = 2, us_TimeoutSec = 0\<rparr>,
     \<lparr>us_Name = ''a'', us_Address = ''udp://192.0.2.1'', us_Priority = 1, us_TimeoutSec = 3\<rparr>,
     \<lparr>us_Name = ''lan'', us_Address = ''192.0.2.3'', us_Priority = 0, us_TimeoutSec = 0\<rparr>]"

definition wRoutes :: "UpstreamRoute list" where
  "wRoutes = [\<lparr>ur_Name = ''rev'', ur_QnameSuffix = ''.in-addr.arpa'', ur_Server = ''lan'', ur_ClientCIDR = ''10.0.0.0/8'', ur_Disabled = False\<rparr>]"

lemma wPool_ok: "\<exists>h' p. NewPool wServers wRoutes [] [] = (h', Inr p) \<and> pool_ok h' p \<and> length (pl_rules p) = 1
    \<and> ResolverPool_Match p ''1.0.0.10.in-addr.arpa.'' [10, 0, 0, 1] = Some 2"
proof -
  have "map_prod length (map_sum id (\<lambda>p. (ResolverPool_Match p ''1.0.0.10.in-addr.arpa.'' [10, 0, 0, 1], length (pl_rules p))))
      (NewPool wServers wRoutes [] []) = (4, Inr (Some 2, 1))" by code_simp
  then obtain h' p where p: "NewPool wServers wRoutes [] [] = (h', Inr p)" "length (pl_rules p) = 1"
    "ResolverPool_Match p ''1.0.0.10.in-addr.arpa.'' [10, 0, 0, 1] = Some 2"
    by (cases "NewPool wServers wRoutes [] []"; cases "snd (NewPool wServers wRoutes [] [])") auto
  have "heap_wf []" by (simp add: heap_wf_def)
  moreover have "\<forall>sv \<in> set wServers. 0 < us_Priority sv \<longrightarrow> us_Name sv \<noteq> []" by code_simp
  ultimately have "pool_ok h' p"
    using NewPool_ok [THEN conjunct1, of "[]" wServers wRoutes "[]" "[]" h' p] p by (simp add: NewPool_def)
  then show ?thesis using p by blast
qed

subsection \<open>Properties\<close>

text \<open>
  A built pool is sound. When every server in the rotation has a name, the pool's
  references are valid, every route points at a known server, resolving through any of them
  ends with an answer or a network error, and the automatic resolver is the single rotation
  server or the failover group of exactly the servers with positive priority, ordered by
  priority and then by name.
\<close>

theorem NewPool_sound:
  assumes "heap_wf h" and "NewPoolWithBootstrap servers routes up boot h = (h', Inr p)"
    and "\<forall>sv \<in> set servers. 0 < us_Priority sv \<longrightarrow> us_Name sv \<noteq> []"
  shows "pool_ok h' p \<and> pl_auto p \<noteq> NilMember
    \<and> length (pl_rules p) = length (filter (\<lambda>rt. \<not> ur_Disabled rt) routes)
    \<and> (\<forall>r n q (w :: 'w). (pl_auto p = Auto r \<or> (\<exists>nm. map_of (pl_named p) nm = Some r)) \<longrightarrow>
         snd (snd (Resolve n 2 q r h' w)) \<noteq> Inl tooDeep)
    \<and> ((\<exists>sv \<in> set servers. 0 < us_Priority sv) \<longrightarrow> (\<exists>r. pl_auto p = Auto r \<and>
         (map_of (pl_named p) (hd (rotationOrder servers)) = Some r \<and> length (rotationOrder servers) = 1
          \<or> (\<exists>du cd. h' ! r = MultiResolver (map (the \<circ> map_of (pl_named p)) (rotationOrder servers)) du cd))))"
  using NewPool_ok [OF assms, where ?'w = 'w] .

theorem NewPool_sound_witness:
  "\<exists>h' p. NewPoolWithBootstrap wServers wRoutes [] [] [] = (h', Inr p) \<and> pl_auto p \<noteq> NilMember
     \<and> rotationOrder wServers = [''a'', ''b'']"
proof -
  obtain h' p where p: "NewPoolWithBootstrap wServers wRoutes [] [] [] = (h', Inr p)"
    using wPool_ok by (auto simp: NewPool_def)
  have "heap_wf []" by (simp add: heap_wf_def)
  moreover have "\<forall>sv \<in> set wServers. 0 < us_Priority sv \<longrightarrow> us_Name sv \<noteq> []" by code_simp
  ultimately have "pl_auto p \<noteq> NilMember" using NewPool_sound [of "[]", OF _ p] by blast
  moreover have "rotationOrder wServers = [''a'', ''b'']" by code_simp
  ultimately show ?thesis using p by blast
qed

text \<open>
  A rotation server without a name is lost. The pool files such a server under a
  generated name but looks the rotation up under the empty one: with it as the only server
  there is no automatic resolver at all, and a default upstream given beside it is ignored.
\<close>

theorem unnamed_server_lost:
  assumes "us_Name sv = []" and "0 < us_Priority sv"
    and "NewPoolWithBootstrap [sv] routes up boot h = (h', Inr p)"
  shows "pl_auto p = NoAuto \<and> map_of (pl_named p) (''server#'' @ us_Address sv) \<noteq> None"
proof -
  obtain h1 b where b: "BuildBootstrapResolver boot h = (h1, Inr b)"
    using assms(3) by (cases "BuildBootstrapResolver boot h") (auto simp: NewPoolWithBootstrap_def split: sum.splits)
  obtain h2 r where r: "buildNamed b [sv] [] h1 = (h2, Inr [(''server#'' @ us_Address sv, r)])"
    using assms(1,3) b by (auto simp: NewPoolWithBootstrap_def namedServer_def Let_def split: sum.splits prod.splits)
  have "rotationOrder [sv] = [[]]" using assms(1,2) by (simp add: rotationOrder_def)
  then show ?thesis
    using assms(3) b r by (auto simp: NewPoolWithBootstrap_def buildAuto_def split: sum.splits)
qed

theorem unnamed_server_lost_witness:
  "\<exists>h' p. NewPool [(hd wServers)\<lparr>us_Name := []\<rparr>] [] ''9.9.9.9'' [] = (h', Inr p) \<and> pl_auto p = NoAuto"
proof -
  have "map_prod length (map_sum id (length \<circ> pl_named)) (NewPool [(hd wServers)\<lparr>us_Name := []\<rparr>] [] ''9.9.9.9'' []) = (1, Inr 1)"
    by code_simp
  then obtain h' p where p: "NewPool [(hd wServers)\<lparr>us_Name := []\<rparr>] [] ''9.9.9.9'' [] = (h', Inr p)"
    by (cases "NewPool [(hd wServers)\<lparr>us_Name := []\<rparr>] [] ''9.9.9.9'' []"; cases "snd (NewPool [(hd wServers)\<lparr>us_Name := []\<rparr>] [] ''9.9.9.9'' [])") auto
  moreover have "us_Name ((hd wServers)\<lparr>us_Name := []\<rparr>) = []" "0 < us_Priority ((hd wServers)\<lparr>us_Name := []\<rparr>)"
    by (simp_all add: wServers_def)
  ultimately show ?thesis using unnamed_server_lost unfolding NewPool_def by blast
qed

text \<open>
  Routes are chosen by longest suffix. A query is forwarded by a route exactly when
  some enabled route's suffix ends its name and its network, if restricted, holds the
  client; the chosen one has the longest suffix of all that match, and the result is the
  resolver of its server.
\<close>

theorem Match_longest_suffix:
  assumes "pool_ok h p"
  shows "(ResolverPool_Match p qname client = None \<longleftrightarrow> (\<forall>rt \<in> set (pl_rules p). \<not> ruleMatches (fqdn qname) client rt))
    \<and> (\<forall>r. ResolverPool_Match p qname client = Some r \<longrightarrow>
        (\<exists>b \<in> set (pl_rules p). ruleMatches (fqdn qname) client b \<and> map_of (pl_named p) (rr_server b) = Some r
           \<and> (\<forall>rt \<in> set (pl_rules p). ruleMatches (fqdn qname) client rt \<longrightarrow> length (rr_suffix rt) \<le> length (rr_suffix b))))"
proof -
  have "\<forall>rule \<in> set (pl_rules p). map_of (pl_named p) (rr_server rule) \<noteq> None" using assms by (simp add: pool_ok_def)
  then show ?thesis
    using bestRule_spec [of None "fqdn qname" client "pl_rules p"]
    by (cases "bestRule (fqdn qname) client (pl_rules p) None") (auto simp: ResolverPool_Match_def)
qed

theorem Match_longest_suffix_witness:
  "\<exists>h' p b. NewPool wServers wRoutes [] [] = (h', Inr p)
     \<and> ResolverPool_Match p ''1.0.0.10.in-addr.arpa.'' [10, 0, 0, 1] = Some 2
     \<and> b \<in> set (pl_rules p) \<and> map_of (pl_named p) (rr_server b) = Some 2"
proof -
  obtain h' p where p: "NewPool wServers wRoutes [] [] = (h', Inr p)" "pool_ok h' p"
    "ResolverPool_Match p ''1.0.0.10.in-addr.arpa.'' [10, 0, 0, 1] = Some 2" using wPool_ok by blast
  then show ?thesis using Match_longest_suffix [OF p(2)] by blast
qed

end
