(* ===== verification/Blip_Events.thy ===== *)
theory Blip_Events
  imports Blip_Routing
begin

text \<open>
  Metrics and the live event stream of an instance (\<open>src/internal/control/stats.go\<close>, the
  event types of \<open>types.go\<close>, and \<open>HasWatchers\<close>, \<open>Notify\<close> and \<open>handleWatch\<close> of
  \<open>server.go\<close>): five counters that wrap at 64 bits, and a set of watcher channels with a
  buffer of 4096 events each. A send never blocks; an event a full buffer cannot take is
  counted as dropped.
\<close>

subsection \<open>Counters\<close>

record Counters =
  cn_queries :: u64
  cn_blocked :: u64
  cn_upErr :: u64
  cn_rateLimited :: u64
  cn_durNs :: u64

definition zeroCounters :: Counters where
  "zeroCounters = \<lparr>cn_queries = 0, cn_blocked = 0, cn_upErr = 0, cn_rateLimited = 0, cn_durNs = 0\<rparr>"

definition AddDuration :: "duration \<Rightarrow> Counters \<Rightarrow> Counters" where
  "AddDuration d c = c\<lparr>cn_durNs := cn_durNs c + word_of_int d\<rparr>"

definition AddQuery :: "Counters \<Rightarrow> Counters" where
  "AddQuery c = c\<lparr>cn_queries := cn_queries c + 1\<rparr>"

definition AddBlocked :: "Counters \<Rightarrow> Counters" where
  "AddBlocked c = c\<lparr>cn_blocked := cn_blocked c + 1\<rparr>"

definition AddUpErr :: "Counters \<Rightarrow> Counters" where
  "AddUpErr c = c\<lparr>cn_upErr := cn_upErr c + 1\<rparr>"

definition AddRateLimited :: "Counters \<Rightarrow> Counters" where
  "AddRateLimited c = c\<lparr>cn_rateLimited := cn_rateLimited c + 1\<rparr>"

definition Counters_RateLimited :: "Counters \<Rightarrow> u64" where
  "Counters_RateLimited c = cn_rateLimited c"

subsection \<open>Statistics and events\<close>

record StatsResponse =
  sr_Cached :: int
  sr_QueriesTotal :: u64
  sr_BlockedTotal :: u64
  sr_UpstreamErr :: u64
  sr_Upstream :: string
  sr_BlocklistCount :: int
  sr_BlocklistHash :: u64
  sr_DohHTTPAddr :: string
  sr_RateLimitQPS :: int
  sr_RateLimited :: u64
  sr_DurationTotalUs :: u64
  sr_CacheSize :: int
  sr_UpstreamServers :: "UpstreamServer list"
  sr_UpstreamRoutes :: "UpstreamRoute list"
  sr_BootstrapServers :: "UpstreamServer list"
  sr_RecordsHash :: u64

definition emptyStats :: StatsResponse where
  "emptyStats =
     \<lparr>sr_Cached = 0, sr_QueriesTotal = 0, sr_BlockedTotal = 0, sr_UpstreamErr = 0, sr_Upstream = [],
      sr_BlocklistCount = 0, sr_BlocklistHash = 0, sr_DohHTTPAddr = [], sr_RateLimitQPS = 0,
      sr_RateLimited = 0, sr_DurationTotalUs = 0, sr_CacheSize = 0, sr_UpstreamServers = [],
      sr_UpstreamRoutes = [], sr_BootstrapServers = [], sr_RecordsHash = 0\<rparr>"

definition Counters_Stats :: "Counters \<Rightarrow> StatsResponse" where
  "Counters_Stats c =
     emptyStats\<lparr>sr_QueriesTotal := cn_queries c, sr_BlockedTotal := cn_blocked c,
       sr_UpstreamErr := cn_upErr c, sr_RateLimited := cn_rateLimited c,
       sr_DurationTotalUs := cn_durNs c div 1000\<rparr>"

record Answer =
  an_Type :: string
  an_Data :: string
  an_TTL :: int

record WatchEvent =
  we_Type :: string
  we_At :: time
  we_Stats :: "StatsResponse option"
  we_Client :: string
  we_Domain :: string
  we_Proto :: string
  we_QType :: string
  we_IPs :: "string list"
  we_Answers :: "Answer list"
  we_Msg :: string
  we_DurationUs :: int
  we_Cached :: bool
  we_Upstream :: string
  we_BlockList :: string

definition emptyEvent :: WatchEvent where
  "emptyEvent =
     \<lparr>we_Type = [], we_At = 0, we_Stats = None, we_Client = [], we_Domain = [], we_Proto = [], we_QType = [],
      we_IPs = [], we_Answers = [], we_Msg = [], we_DurationUs = 0, we_Cached = False, we_Upstream = [],
      we_BlockList = []\<rparr>"

definition ProtoDNS :: string where "ProtoDNS = ''dns''"
definition ProtoDoH :: string where "ProtoDoH = ''doh''"

subsection \<open>Watchers\<close>

definition watchBuffer :: nat where "watchBuffer = 4096"

text \<open>Channels by identity, each with the events waiting in it, oldest first.\<close>

record Watch =
  wt_watchers :: "(nat \<times> WatchEvent list) list"
  wt_watchCount :: int
  wt_dropped :: int

definition noWatch :: Watch where
  "noWatch = \<lparr>wt_watchers = [], wt_watchCount = 0, wt_dropped = 0\<rparr>"

definition HasWatchers :: "Watch \<Rightarrow> bool" where
  "HasWatchers s \<longleftrightarrow> 0 < wt_watchCount s"

text \<open>The non-blocking send on one channel.\<close>

definition trySend :: "WatchEvent \<Rightarrow> nat \<times> WatchEvent list \<Rightarrow> (nat \<times> WatchEvent list) \<times> bool" where
  "trySend e ch =
     (case ch of (i, buf) \<Rightarrow>
        if length buf < watchBuffer then ((i, buf @ [e]), True) else ((i, buf), False))"

definition Notify :: "WatchEvent \<Rightarrow> Watch \<Rightarrow> Watch" where
  "Notify e s =
     (if \<not> HasWatchers s then s
      else
        let outs = map (trySend e) (wt_watchers s)
        in s\<lparr>wt_watchers := map fst outs,
             wt_dropped := wt_dropped s + int (length (filter (\<lambda>(_, ok). \<not> ok) outs))\<rparr>)"

text \<open>The three steps of a watch request: register, take the next event, unregister.\<close>

definition watchOpen :: "nat \<Rightarrow> Watch \<Rightarrow> Watch" where
  "watchOpen ch s =
     (let ws = AList.update ch [] (wt_watchers s)
      in s\<lparr>wt_watchers := ws, wt_watchCount := int (length ws)\<rparr>)"

definition watchRecv :: "nat \<Rightarrow> Watch \<Rightarrow> Watch \<times> WatchEvent option" where
  "watchRecv ch s =
     (case map_of (wt_watchers s) ch of
        Some (e # es) \<Rightarrow> (s\<lparr>wt_watchers := AList.update ch es (wt_watchers s)\<rparr>, Some e)
      | _ \<Rightarrow> (s, None))"

definition watchClose :: "nat \<Rightarrow> Watch \<Rightarrow> Watch" where
  "watchClose ch s =
     (let ws = AList.delete ch (wt_watchers s)
      in s\<lparr>wt_watchers := ws, wt_watchCount := int (length ws)\<rparr>)"

subsection \<open>Invariant\<close>

definition Watch_inv :: "Watch \<Rightarrow> bool" where
  "Watch_inv s \<longleftrightarrow>
     distinct (map fst (wt_watchers s)) \<and> wt_watchCount s = int (length (wt_watchers s))
     \<and> (\<forall>(i, buf) \<in> set (wt_watchers s). length buf \<le> watchBuffer) \<and> 0 \<le> wt_dropped s"

lemma trySend_fst: "fst (fst (trySend e ch)) = fst ch"
  by (auto simp: trySend_def split: prod.splits)

lemma trySend_room: "length (snd ch) \<le> watchBuffer \<Longrightarrow> length (snd (fst (trySend e ch))) \<le> watchBuffer"
  by (auto simp: trySend_def split: prod.splits)

lemma length_update_mem: "k \<in> fst ` set al \<Longrightarrow> length (AList.update k v al) = length al"
  by (induction al) auto

lemma noWatch_inv [blip_inv]: "Watch_inv noWatch"
  by (simp add: noWatch_def Watch_inv_def)

lemma Notify_inv [blip_inv]: "Watch_inv s \<Longrightarrow> Watch_inv (Notify e s)"
  by (auto simp: Notify_def Watch_inv_def Let_def split_beta comp_def trySend_fst intro!: trySend_room)

lemma watchOpen_inv [blip_inv]: "Watch_inv s \<Longrightarrow> Watch_inv (watchOpen ch s)"
  by (auto simp: watchOpen_def Watch_inv_def Let_def dest!: subsetD [OF set_update_subset])

lemma watchClose_inv [blip_inv]: "Watch_inv s \<Longrightarrow> Watch_inv (watchClose ch s)"
  by (auto simp: watchClose_def Watch_inv_def Let_def dest!: subsetD [OF set_delete_subset])

lemma watchRecv_inv [blip_inv]: "Watch_inv s \<Longrightarrow> Watch_inv (fst (watchRecv ch s))"
proof -
  assume inv: "Watch_inv s"
  show ?thesis
  proof (cases "map_of (wt_watchers s) ch")
    case (Some buf)
    have "length (AList.update ch x (wt_watchers s)) = length (wt_watchers s)" for x
      using Some map_of_SomeD by (intro length_update_mem) force
    then show ?thesis using inv Some map_of_SomeD [OF Some]
      by (auto simp: watchRecv_def Watch_inv_def dest!: subsetD [OF set_update_subset] split: list.splits)
  qed (use inv in \<open>simp add: watchRecv_def\<close>)
qed

text \<open>What a watcher reads is a prefix-closed, order-preserving part of what was notified.\<close>

lemma Notify_delivers:
  assumes "Watch_inv s" and "map_of (wt_watchers s) ch = Some buf" and "length buf < watchBuffer"
  shows "map_of (wt_watchers (Notify e s)) ch = Some (buf @ [e])"
proof -
  have "wt_watchers s \<noteq> []" using assms(2) by auto
  then have "HasWatchers s" using assms(1) by (simp add: HasWatchers_def Watch_inv_def)
  moreover have "map_of (map (fst \<circ> trySend e) ws) ch = Some (buf @ [e])" if "map_of ws ch = Some buf" for ws
    using that assms(3) by (induction ws) (auto simp: trySend_def split: if_splits)
  ultimately show ?thesis using assms(2) by (simp add: Notify_def Let_def)
qed

end
