(* ===== verification/Blip_Records.thy ===== *)
theory Blip_Records
  imports Blip_Msg "HOL-Library.Multiset"
begin

text \<open>
  Local DNS records (\<open>src/internal/dnsserver/records.go\<close>, \<open>RecordEntry\<close> and
  \<open>RecordsHash\<close> of \<open>src/internal/control\<close>): the store of A, AAAA and CNAME records with
  wildcards, its lookup, the synthesis of reverse answers, and the order-independent
  checksum the controller compares. The record type carries the order that the checksum
  sorts by as an instance of the library's linear orders.
\<close>

subsection \<open>Record entries\<close>

datatype RecordEntry = RecordEntry (re_Domain: string) (re_Type: string) (re_Value: string) (re_TTL: int)

definition re_key :: "RecordEntry \<Rightarrow> string \<times> string \<times> string \<times> int" where
  "re_key r = (re_Domain r, re_Type r, re_Value r, re_TTL r)"

lemma re_key_inj: "re_key a = re_key b \<Longrightarrow> a = b"
  by (cases a; cases b) (simp add: re_key_def)

text \<open>The comparison function of the sort: domain, type, value, TTL.\<close>

instantiation RecordEntry :: linorder
begin

definition less_eq_RecordEntry :: "RecordEntry \<Rightarrow> RecordEntry \<Rightarrow> bool" where
  "less_eq_RecordEntry a b \<longleftrightarrow> re_key a \<le> re_key b"

definition less_RecordEntry :: "RecordEntry \<Rightarrow> RecordEntry \<Rightarrow> bool" where
  "less_RecordEntry a b \<longleftrightarrow> re_key a < re_key b"

instance
  by standard (auto simp: less_eq_RecordEntry_def less_RecordEntry_def dest: re_key_inj)

end

subsection \<open>The checksum\<close>

text \<open>FNV-1 on 64 bits over the fields, each closed by a zero byte.\<close>

definition fnv64Step :: "u64 \<Rightarrow> char \<Rightarrow> u64" where
  "fnv64Step h c = xor (h * 1099511628211) (of_nat (of_char c))"

definition fnv64 :: "string \<Rightarrow> u64 \<Rightarrow> u64" where
  "fnv64 s h = foldl fnv64Step h s"

definition hashRecord :: "RecordEntry \<Rightarrow> u64 \<Rightarrow> u64" where
  "hashRecord r h =
     (let z = [char_of (0 :: nat)]
      in fnv64 z (fnv64 (Itoa (re_TTL r)) (fnv64 z (fnv64 (re_Value r)
           (fnv64 z (fnv64 (re_Type r) (fnv64 z (fnv64 (re_Domain r) h))))))))"

definition RecordsHash :: "RecordEntry list \<Rightarrow> u64" where
  "RecordsHash records = fold hashRecord (sort records) 14695981039346656037"

subsection \<open>The store\<close>

definition defaultRecordTTL :: u32 where "defaultRecordTTL = 60"

definition maxRecordTTL :: u32 where "maxRecordTTL = 604800"

record RecordStore =
  rs_records :: "(string \<times> RecordEntry list) list"
  rs_wildcards :: "(string \<times> RecordEntry list) list"

definition NewRecordStore :: RecordStore where
  "NewRecordStore = \<lparr>rs_records = [], rs_wildcards = []\<rparr>"

text \<open>Reading a missing key of a Go map of slices gives the empty slice.\<close>

definition getRecs :: "(string \<times> RecordEntry list) list \<Rightarrow> string \<Rightarrow> RecordEntry list" where
  "getRecs m k = (case map_of m k of None \<Rightarrow> [] | Some l \<Rightarrow> l)"

definition recordKey :: "RecordEntry \<Rightarrow> string" where
  "recordKey r = ToLower (TrimSuffix (re_Domain r) ''.'')"

definition addRecord :: "RecordEntry \<Rightarrow> RecordStore \<Rightarrow> RecordStore" where
  "addRecord r rs =
     (let key = recordKey r in
      if key = [] then rs
      else if HasPrefix key ''*.'' then
        (let parent = drop 2 key in
         if parent = [] then rs
         else rs\<lparr>rs_wildcards := AList.update parent (getRecs (rs_wildcards rs) parent @ [r]) (rs_wildcards rs)\<rparr>)
      else rs\<lparr>rs_records := AList.update key (getRecs (rs_records rs) key @ [r]) (rs_records rs)\<rparr>)"

definition RecordStore_SetRecords :: "RecordEntry list \<Rightarrow> RecordStore \<Rightarrow> RecordStore" where
  "RecordStore_SetRecords records rs = fold addRecord records \<lparr>rs_records = [], rs_wildcards = []\<rparr>"

definition RecordStore_GetRecords :: "RecordStore \<Rightarrow> RecordEntry list" where
  "RecordStore_GetRecords rs = concat (map snd (rs_records rs)) @ concat (map snd (rs_wildcards rs))"

definition RecordStore_Hash :: "RecordStore \<Rightarrow> u64" where
  "RecordStore_Hash rs = RecordsHash (RecordStore_GetRecords rs)"

subsection \<open>Lookup\<close>

text \<open>The wildcard search: drop labels from the left until a parent has an entry.\<close>

fun wildSearch :: "(string \<times> RecordEntry list) list \<Rightarrow> string list \<Rightarrow> RecordEntry list" where
  "wildSearch w [] = []"
| "wildSearch w (l # ls) =
     (if ls = [] then []
      else case map_of w (Join ls ''.'') of Some recs \<Rightarrow> recs | None \<Rightarrow> wildSearch w ls)"

definition recordTTL :: "int \<Rightarrow> u32" where
  "recordTTL t =
     (let ttl = word_of_int t
      in if t \<le> 0 then defaultRecordTTL else if maxRecordTTL < ttl then maxRecordTTL else ttl)"

text \<open>What one record contributes: (matched, nameKnown, answers).\<close>

definition answerOne :: "Question \<Rightarrow> RecordEntry \<Rightarrow> bool \<times> bool \<times> RR list" where
  "answerOne q r =
     (case StringToType (ToUpper (re_Type r)) of
        None \<Rightarrow> (False, False, [])
      | Some t \<Rightarrow>
          if t \<noteq> TypeA \<and> t \<noteq> TypeAAAA \<and> t \<noteq> TypeCNAME then (False, False, [])
          else if t \<noteq> q_Qtype q then (False, True, [])
          else
            let ttl = recordTTL (re_TTL r); ip = ParseIP (re_Value r) in
            if t = TypeA then
              (if ip = [] then (False, True, []) else (True, True, [mkRR (q_Name q) TypeA ttl (A (To4 ip))]))
            else if t = TypeAAAA then
              (if ip = [] then (False, True, []) else (True, True, [mkRR (q_Name q) TypeAAAA ttl (AAAA (To16 ip))]))
            else (True, True, [mkRR (q_Name q) TypeCNAME ttl (CNAME (Fqdn (re_Value r)))]))"

definition localReply :: "Msg \<Rightarrow> Msg" where
  "localReply req = (SetReply emptyMsg req)\<lparr>m_Authoritative := True, m_RecursionAvailable := True\<rparr>"

fun reverseV6Groups :: "string list \<Rightarrow> string list" where
  "reverseV6Groups (a # b # c # d # ns) = (a @ b @ c @ d) # reverseV6Groups ns"
| "reverseV6Groups _ = []"

definition ptrIPFromArpa :: "string \<Rightarrow> IP option" where
  "ptrIPFromArpa name =
     (let n = ToLower (TrimSuffix name ''.'') in
      case CutSuffix n ''.in-addr.arpa'' of
        Some rest \<Rightarrow>
          let parts = Split rest (CHR ''.'') in
          if length parts \<noteq> 4 then None
          else let ip = ParseIP (Join (rev parts) ''.'')
               in if ip \<noteq> [] \<and> To4 ip \<noteq> [] then Some ip else None
      | None \<Rightarrow>
          (case CutSuffix n ''.ip6.arpa'' of
             Some rest \<Rightarrow>
               let nibbles = Split rest (CHR ''.'') in
               if length nibbles \<noteq> 32 then None
               else let ip = ParseIP (Join (reverseV6Groups (rev nibbles)) '':'')
                    in if ip \<noteq> [] then Some ip else None
           | None \<Rightarrow> None))"

definition ptrAnswer :: "string \<Rightarrow> IP \<Rightarrow> RecordEntry \<Rightarrow> RR list" where
  "ptrAnswer qname ip r =
     (let t = ToUpper (re_Type r); rip = ParseIP (re_Value r) in
      if t \<noteq> ''A'' \<and> t \<noteq> ''AAAA'' then []
      else if rip = [] \<or> \<not> IP_Equal rip ip then []
      else [mkRR qname TypePTR (recordTTL (re_TTL r)) (PTR (Fqdn (ToLower (TrimSuffix (re_Domain r) ''.''))))])"

definition lookupPTR :: "RecordStore \<Rightarrow> Msg \<Rightarrow> string \<Rightarrow> Msg option" where
  "lookupPTR rs req qname =
     (case ptrIPFromArpa qname of
        None \<Rightarrow> None
      | Some ip \<Rightarrow>
          let ans = concat (map (ptrAnswer qname ip) (concat (map snd (rs_records rs))))
          in if ans = [] then None else Some ((localReply req)\<lparr>m_Answer := ans\<rparr>))"

definition findRecs :: "RecordStore \<Rightarrow> string \<Rightarrow> RecordEntry list" where
  "findRecs rs domain =
     (let recs = getRecs (rs_records rs) domain
      in if recs = [] then wildSearch (rs_wildcards rs) (Split domain (CHR ''.'')) else recs)"

definition RecordStore_Lookup :: "RecordStore \<Rightarrow> Msg \<Rightarrow> Msg option" where
  "RecordStore_Lookup rs req =
     (case m_Question req of
        [] \<Rightarrow> None
      | q # _ \<Rightarrow>
          let domain = ToLower (TrimSuffix (q_Name q) ''.'') in
          if domain = [] then None
          else if q_Qtype q = TypePTR then lookupPTR rs req (q_Name q)
          else
            let recs = findRecs rs domain in
            if recs = [] then None
            else
              let outs = map (answerOne q) recs;
                  resp = (localReply req)\<lparr>m_Answer := concat (map (\<lambda>(_, _, a). a) outs)\<rparr>
              in if list_ex (\<lambda>(m, _, _). m) outs then Some resp
                 else if list_ex (\<lambda>(_, k, _). k) outs then Some resp
                 else None)"

subsection \<open>Contents of the store\<close>

definition exactKey :: "RecordEntry \<Rightarrow> string option" where
  "exactKey r = (if recordKey r = [] \<or> HasPrefix (recordKey r) ''*.'' then None else Some (recordKey r))"

definition wildKey :: "RecordEntry \<Rightarrow> string option" where
  "wildKey r = (if HasPrefix (recordKey r) ''*.'' \<and> drop 2 (recordKey r) \<noteq> [] then Some (drop 2 (recordKey r)) else None)"

lemma addRecord_records:
  "rs_records (addRecord r rs) = (case exactKey r of None \<Rightarrow> rs_records rs
     | Some k \<Rightarrow> AList.update k (getRecs (rs_records rs) k @ [r]) (rs_records rs))"
  by (auto simp: addRecord_def exactKey_def Let_def)

lemma addRecord_wildcards:
  "rs_wildcards (addRecord r rs) = (case wildKey r of None \<Rightarrow> rs_wildcards rs
     | Some k \<Rightarrow> AList.update k (getRecs (rs_wildcards rs) k @ [r]) (rs_wildcards rs))"
  by (auto simp: addRecord_def wildKey_def Let_def HasPrefix_def)

lemma getRecs_stored: "r \<in> set (getRecs m k) \<Longrightarrow> r \<in> set (concat (map snd m))"
  by (cases "map_of m k") (auto simp: getRecs_def dest: map_of_SomeD intro!: bexI)

lemma getRecs_update: "getRecs (AList.update k l m) k' = (if k' = k then l else getRecs m k')"
  by (simp add: getRecs_def)

lemma fold_addRecord:
  "getRecs (rs_records (fold addRecord recs rs)) k = getRecs (rs_records rs) k @ filter (\<lambda>r. exactKey r = Some k) recs"
  "getRecs (rs_wildcards (fold addRecord recs rs)) k = getRecs (rs_wildcards rs) k @ filter (\<lambda>r. wildKey r = Some k) recs"
  by (induction recs arbitrary: rs)
     (auto simp: addRecord_records addRecord_wildcards getRecs_update split: option.splits)

lemma update_getRecs_mset:
  assumes "distinct (map fst m)"
  shows "mset (concat (map snd (AList.update k (getRecs m k @ [r]) m))) = mset (concat (map snd m)) + {#r#}"
  using assms
proof (induction m)
  case (Cons kv m)
  obtain k0 l0 where kv: "kv = (k0, l0)" by force
  show ?case
  proof (cases "k0 = k")
    case False
    then have "getRecs (kv # m) k = getRecs m k" using kv by (simp add: getRecs_def)
    then show ?thesis using Cons False kv by simp
  qed (simp add: kv getRecs_def)
qed (simp add: getRecs_def)

definition store_ok :: "RecordStore \<Rightarrow> bool" where
  "store_ok rs \<longleftrightarrow> distinct (map fst (rs_records rs)) \<and> distinct (map fst (rs_wildcards rs))
     \<and> (\<forall>(k, l) \<in> set (rs_records rs). l \<noteq> []) \<and> (\<forall>(k, l) \<in> set (rs_wildcards rs). l \<noteq> [])"

lemma addRecord_ok: "store_ok rs \<Longrightarrow> store_ok (addRecord r rs)"
  by (auto simp: store_ok_def addRecord_records addRecord_wildcards split: option.splits
      dest!: subsetD [OF set_update_subset])

interpretation record_store: invariant_steps addRecord store_ok
  by unfold_locales (rule addRecord_ok)

definition kept :: "RecordEntry \<Rightarrow> bool" where
  "kept r \<longleftrightarrow> exactKey r \<noteq> None \<or> wildKey r \<noteq> None"

lemma keys_exclusive: "exactKey r = Some k \<Longrightarrow> wildKey r = None"
  by (auto simp: exactKey_def wildKey_def split: if_splits)

lemma fold_addRecord_mset:
  assumes "store_ok rs"
  shows "mset (RecordStore_GetRecords (fold addRecord recs rs)) = mset (RecordStore_GetRecords rs) + mset (filter kept recs)"
  using assms
proof (induction recs arbitrary: rs)
  case (Cons r recs)
  have "mset (RecordStore_GetRecords (addRecord r rs)) = mset (RecordStore_GetRecords rs) + (if kept r then {#r#} else {#})"
    using Cons.prems update_getRecs_mset
    by (auto simp: RecordStore_GetRecords_def addRecord_records addRecord_wildcards kept_def store_ok_def
        dest: keys_exclusive split: option.splits)
  then show ?case using Cons.IH [OF addRecord_ok [OF Cons.prems]] by simp
qed simp

lemma empty_store_ok: "store_ok \<lparr>rs_records = [], rs_wildcards = []\<rparr>"
  by (simp add: store_ok_def)

lemma SetRecords_mset: "mset (RecordStore_GetRecords (RecordStore_SetRecords recs rs)) = mset (filter kept recs)"
  unfolding RecordStore_SetRecords_def fold_addRecord_mset [OF empty_store_ok]
  by (simp add: RecordStore_GetRecords_def)

lemma RecordsHash_perm: "mset xs = mset ys \<Longrightarrow> RecordsHash xs = RecordsHash ys"
  using properties_for_sort [of "sort xs" ys] by (simp add: RecordsHash_def)

subsection \<open>Which records answer\<close>

fun firstHit :: "(string \<times> RecordEntry list) list \<Rightarrow> string list \<Rightarrow> RecordEntry list" where
  "firstHit w [] = []"
| "firstHit w (a # as) = (case map_of w a of Some recs \<Rightarrow> recs | None \<Rightarrow> firstHit w as)"

lemma wildSearch_ancestors: "wildSearch w (Split d (CHR ''.'')) = firstHit w (ancestors d)"
proof (induction d)
  case (Cons c cs)
  show ?case
  proof (cases "c = CHR ''.''")
    case True
    then show ?thesis using Cons by (simp split: option.splits)
  next
    case False
    obtain p ps where "Split cs (CHR ''.'') = p # ps" by (cases "Split cs (CHR ''.'')") auto
    then show ?thesis using Cons False by simp
  qed
qed simp

lemma firstHit_spec:
  assumes "\<forall>(k, l) \<in> set w. l \<noteq> []" and "distinct (map fst w)"
  shows "firstHit w as = (case find (\<lambda>a. getRecs w a \<noteq> []) as of None \<Rightarrow> [] | Some a \<Rightarrow> getRecs w a)"
proof (induction as)
  case (Cons a as)
  then show ?case using assms by (auto simp: getRecs_def dest!: map_of_SomeD split: option.splits)
qed simp

text \<open>The records in force for a name: its own, else those of the closest wildcard above it.\<close>

definition inForce :: "RecordEntry list \<Rightarrow> string \<Rightarrow> RecordEntry list" where
  "inForce recs d =
     (let own = filter (\<lambda>r. exactKey r = Some d) recs
      in if own \<noteq> [] then own
         else case find (\<lambda>a. \<exists>r \<in> set recs. wildKey r = Some a) (ancestors d) of
                None \<Rightarrow> []
              | Some a \<Rightarrow> filter (\<lambda>r. wildKey r = Some a) recs)"

lemma findRecs_inForce: "findRecs (RecordStore_SetRecords recs rs) d = inForce recs d"
proof -
  let ?s = "RecordStore_SetRecords recs rs"
  have ok: "store_ok ?s"
    unfolding RecordStore_SetRecords_def by (rule record_store.run_inv [OF empty_store_ok])
  have e: "getRecs (rs_records ?s) k = filter (\<lambda>r. exactKey r = Some k) recs" for k
    unfolding RecordStore_SetRecords_def fold_addRecord by (simp add: getRecs_def)
  have w: "getRecs (rs_wildcards ?s) k = filter (\<lambda>r. wildKey r = Some k) recs" for k
    unfolding RecordStore_SetRecords_def fold_addRecord by (simp add: getRecs_def)
  have "(getRecs (rs_wildcards ?s) a \<noteq> []) = (\<exists>r \<in> set recs. wildKey r = Some a)" for a
    by (auto simp: w filter_empty_conv)
  then have "firstHit (rs_wildcards ?s) (ancestors d) =
      (case find (\<lambda>a. \<exists>r \<in> set recs. wildKey r = Some a) (ancestors d) of None \<Rightarrow> []
       | Some a \<Rightarrow> filter (\<lambda>r. wildKey r = Some a) recs)"
    using firstHit_spec [of "rs_wildcards ?s" "ancestors d"] ok
    by (auto simp: store_ok_def w split: option.splits)
  then show ?thesis by (simp add: findRecs_def inForce_def wildSearch_ancestors e Let_def)
qed

lemma inForce_subset: "r \<in> set (inForce recs d) \<Longrightarrow> r \<in> set recs
    \<and> (exactKey r = Some d \<or> (\<exists>a \<in> set (ancestors d). wildKey r = Some a))"
proof -
  assume r: "r \<in> set (inForce recs d)"
  show ?thesis
  proof (cases "find (\<lambda>a. \<exists>r \<in> set recs. wildKey r = Some a) (ancestors d)")
    case (Some a)
    from find_SomeD [OF this] r Some show ?thesis by (auto simp: inForce_def Let_def split: if_splits)
  qed (use r in \<open>auto simp: inForce_def Let_def split: if_splits\<close>)
qed

lemma recordTTL_le: "recordTTL t \<le> maxRecordTTL"
  by (auto simp: recordTTL_def Let_def maxRecordTTL_def defaultRecordTTL_def)

lemma recordTTL_exact: "0 < t \<Longrightarrow> t < 2 ^ 32 \<Longrightarrow> uint (recordTTL t) = min t 604800"
  by (auto simp: recordTTL_def Let_def maxRecordTTL_def word_less_def uint_word_of_int)

lemma answerOne_rr:
  assumes "rr \<in> set (snd (snd (answerOne q r)))"
  shows "hdr_Name (rr_Hdr rr) = q_Name q" "hdr_Rrtype (rr_Hdr rr) = q_Qtype q" "rr_Ttl rr = recordTTL (re_TTL r)"
    "StringToType (ToUpper (re_Type r)) = Some (q_Qtype q)"
  using assms by (auto simp: answerOne_def Let_def split: option.splits if_splits)

subsection \<open>Reverse names\<close>

lemma ItoaNat_byte_cases:
  assumes "n < 256"
  obtains (one) "n < 10" "ItoaNat n = [digitChar n]"
    | (two) a b where "a < 10" "b < 10" "0 < a" "n = 10 * a + b" "ItoaNat n = [digitChar a, digitChar b]"
    | (three) a b c where "a < 10" "b < 10" "c < 10" "0 < a" "n = 100 * a + 10 * b + c"
        "ItoaNat n = [digitChar a, digitChar b, digitChar c]"
proof (cases "n < 10")
  case True
  then show ?thesis using one by (simp add: ItoaNat_small)
next
  case False
  show ?thesis
  proof (cases "n < 100")
    case True
    then show ?thesis using False two [of "n div 10" "n mod 10"] by (simp add: ItoaNat_small ItoaNat_step)
  next
    case False
    have e: "n div 10 div 10 = n div 100" using div_mult2_eq [of n 10 10] by simp
    then have "n = 100 * (n div 100) + 10 * (n div 10 mod 10) + n mod 10"
      using mult_div_mod_eq [of 10 n] mult_div_mod_eq [of 10 "n div 10"] by linarith
    moreover have "ItoaNat n = [digitChar (n div 100), digitChar (n div 10 mod 10), digitChar (n mod 10)]"
    proof -
      have "ItoaNat (n div 100) = [digitChar (n div 100)]" using assms by (intro ItoaNat_small) simp
      moreover have "10 \<le> n div 10" using False by simp
      ultimately show ?thesis using False e ItoaNat_step [of n] ItoaNat_step [of "n div 10"] by simp
    qed
    moreover have "n div 100 < 10" "0 < n div 100" "n div 10 mod 10 < 10" "n mod 10 < 10" using False assms by simp_all
    ultimately show ?thesis by (intro three)
  qed
qed

lemma of_char_digit: "d < 10 \<Longrightarrow> (of_char (digitChar d) :: nat) = 48 + d"
  by (simp add: digitChar_def)

lemma digitChar_dot: "d < 10 \<Longrightarrow> digitChar d \<noteq> CHR ''.''"
  using of_char_digit by force

lemma ItoaNat_no_dot: "CHR ''.'' \<notin> set (ItoaNat n)"
  using ItoaNat_digits [of n] by (auto simp: list_all_iff isDigit_def)

lemma parse_octet:
  assumes "n < 256"
  shows "parseIPv4Fields (ItoaNat n @ rest) pd 0 0 fs = parseIPv4Fields rest False n (length (ItoaNat n)) fs"
  using assms
proof (cases n rule: ItoaNat_byte_cases)
  case one
  then show ?thesis by simp
next
  case (two a b)
  then show ?thesis using assms by (simp add: Let_def mult.commute)
next
  case (three a b c)
  then show ?thesis using assms by (simp add: Let_def mult.commute)
qed

lemma parse_dot:
  assumes "length fs < 3" and "rest \<noteq> []"
  shows "parseIPv4Fields (CHR ''.'' # rest) False v k fs = parseIPv4Fields rest True 0 0 (fs @ [of_nat v])"
  using assms by (simp add: isDigit_def)

lemma parse_end: "length fs = 3 \<Longrightarrow> parseIPv4Fields [] False v k fs = Some (fs @ [of_nat v])"
  by simp

lemma parseIPv4_octets:
  fixes a b c d :: u8
  shows "parseIPv4 (joinBytes [a, b, c, d]) = Some [a, b, c, d]"
proof -
  have byte: "unat x < 256" for x :: u8 using unsigned_less [of x] by simp
  have ne: "ItoaNat n \<noteq> []" for n using ItoaNat_digits [of n] by simp
  have "parseIPv4 (ItoaNat (unat a) @ ''.'' @ ItoaNat (unat b) @ ''.'' @ ItoaNat (unat c) @ ''.'' @ ItoaNat (unat d) @ [])
      = Some [a, b, c, d]"
    unfolding parseIPv4_def
    by (simp add: parse_octet byte parse_dot ne parse_end del: parseIPv4Fields.simps append_Nil2)
  then show ?thesis by simp
qed

lemma joinBytes_first_dot:
  "IndexAny (joinBytes [a, b, c, d]) ''.:'' = Some (length (ItoaNat (unat a)))"
proof -
  have "\<forall>x \<in> set (ItoaNat (unat a)). \<not> x \<in> set ''.:''"
    using ItoaNat_digits [of "unat a"] by (auto simp: list_all_iff isDigit_def)
  from IndexP_append [OF this, of "CHR ''.''"] show ?thesis by (simp add: IndexAny_def)
qed

lemma ParseIP_octets: "ParseIP (joinBytes [a, b, c, d]) = IPv4 a b c d"
proof -
  have "CHR ''%'' \<notin> set (ItoaNat n)" for n
    using ItoaNat_digits [of n] by (auto simp: list_all_iff isDigit_def)
  then have "CHR ''%'' \<notin> set (joinBytes [a, b, c, d])" by simp
  moreover have "joinBytes [a, b, c, d] ! length (ItoaNat (unat a)) = CHR ''.''" by (simp add: nth_append)
  ultimately have "parseAddr (joinBytes [a, b, c, d]) = Some [a, b, c, d]"
    unfolding parseAddr_def using joinBytes_first_dot [of a b c d] parseIPv4_octets [of a b c d] by simp
  then show ?thesis by (simp add: ParseIP_def To16_def IPv4_def)
qed

text \<open>The reverse name of an IPv4 address.\<close>

definition arpaName :: "u8 \<Rightarrow> u8 \<Rightarrow> u8 \<Rightarrow> u8 \<Rightarrow> string" where
  "arpaName a b c d = joinBytes [d, c, b, a] @ ''.in-addr.arpa.''"

lemma ToLower_digits: "list_all (\<lambda>c. isDigit c \<or> c = CHR ''.'') s \<Longrightarrow> ToLower s = s"
  by (induction s) (auto simp: lowerChar_def isDigit_def Let_def)

lemma joinBytes_plain: "list_all (\<lambda>c. isDigit c \<or> c = CHR ''.'') (joinBytes [a, b, c, d])"
  using ItoaNat_digits by (auto simp: list_all_iff)

lemma Split_joinBytes:
  "Split (joinBytes [d, c, b, a]) (CHR ''.'') =
     [ItoaNat (unat d), ItoaNat (unat c), ItoaNat (unat b), ItoaNat (unat a)]"
  using Split_Join [of "map (\<lambda>b. ItoaNat (unat b)) [d, c, b, a]" "CHR ''.''"] ItoaNat_no_dot by auto

lemma To4_IPv4 [simp]: "To4 (IPv4 a b c d) = [a, b, c, d]" "IPv4 a b c d \<noteq> []"
  by (simp_all add: To4_def IPv4_def v4InV6Prefix_def numeral_eq_Suc)

lemma ptr_arpaName: "ptrIPFromArpa (arpaName a b c d) = Some (IPv4 a b c d)"
proof -
  have low: "ToLower (joinBytes [d, c, b, a]) = joinBytes [d, c, b, a]"
    by (rule ToLower_digits [OF joinBytes_plain])
  have "TrimSuffix (arpaName a b c d) ''.'' = joinBytes [d, c, b, a] @ ''.in-addr.arpa''"
    by (simp add: arpaName_def TrimSuffix_dot butlast_append del: joinBytes.simps)
  then have n: "ToLower (TrimSuffix (arpaName a b c d) ''.'') = joinBytes [d, c, b, a] @ ''.in-addr.arpa''"
  proof -
    have "ToLower ''.in-addr.arpa'' = ''.in-addr.arpa''" by code_simp
    moreover assume "TrimSuffix (arpaName a b c d) ''.'' = joinBytes [d, c, b, a] @ ''.in-addr.arpa''"
    ultimately show ?thesis by (metis ToLower_simps(3) low)
  qed
  have cut: "CutSuffix (joinBytes [d, c, b, a] @ ''.in-addr.arpa'') ''.in-addr.arpa'' = Some (joinBytes [d, c, b, a])"
    by (simp only: CutSuffix_Some)
  have "Join (rev (Split (joinBytes [d, c, b, a]) (CHR ''.''))) ''.'' = joinBytes [a, b, c, d]"
    unfolding Split_joinBytes by simp
  then show ?thesis
    unfolding ptrIPFromArpa_def n Let_def cut option.case
    by (simp add: Split_joinBytes ParseIP_octets del: joinBytes.simps Join.simps)
qed

lemma inForce_precedence:
  "\<exists>r \<in> set recs. exactKey r = Some d \<Longrightarrow> inForce recs d = filter (\<lambda>r. exactKey r = Some d) recs"
  by (auto simp: inForce_def filter_empty_conv Let_def)

lemma Lookup_eq:
  assumes "m_Question req = q # qs" and "ToLower (TrimSuffix (q_Name q) ''.'') \<noteq> []" and "q_Qtype q \<noteq> TypePTR"
  shows "RecordStore_Lookup (RecordStore_SetRecords recs rs) req =
    (let rs' = inForce recs (ToLower (TrimSuffix (q_Name q) ''.''))
     in if \<exists>r \<in> set rs'. fst (answerOne q r) \<or> fst (snd (answerOne q r))
        then Some ((localReply req)\<lparr>m_Answer := concat (map (snd \<circ> snd \<circ> answerOne q) rs')\<rparr>) else None)"
proof -
  have c: "concat (map (\<lambda>(_, _, a). a) (map (answerOne q) xs)) = concat (map (snd \<circ> snd \<circ> answerOne q) xs)" for xs
    by (induction xs) (auto split: prod.splits)
  have m: "list_ex (\<lambda>(m, _, _). m) (map (answerOne q) xs) = (\<exists>r \<in> set xs. fst (answerOne q r))"
    and k: "list_ex (\<lambda>(_, k, _). k) (map (answerOne q) xs) = (\<exists>r \<in> set xs. fst (snd (answerOne q r)))" for xs
    by (simp_all add: list_ex_iff split_beta)
  show ?thesis
    using assms by (auto simp only: RecordStore_Lookup_def findRecs_inForce Let_def c m k list.case if_True if_False
        bex_disj_distrib list.set empty_iff bex_empty split: if_splits)
qed

lemma answerOne_known:
  "fst (answerOne q r) \<or> fst (snd (answerOne q r)) \<longleftrightarrow>
     StringToType (ToUpper (re_Type r)) \<in> {Some TypeA, Some TypeAAAA, Some TypeCNAME}"
  by (auto simp: answerOne_def Let_def split: option.splits if_splits)

subsection \<open>Properties\<close>


definition sampleRecords :: "RecordEntry list" where
  "sampleRecords = [RecordEntry ''nas.lan.'' ''a'' ''192.168.1.5'' 0, RecordEntry ''*.lan'' ''A'' ''192.168.1.1'' 99]"

definition sampleQuery :: "string \<Rightarrow> u16 \<Rightarrow> Msg" where
  "sampleQuery name t = emptyMsg\<lparr>m_Id := 9, m_Question := [\<lparr>q_Name = name, q_Qtype = t, q_Qclass = ClassINET\<rparr>]\<rparr>"


text \<open>
  Forward and reverse agree. The reverse name of an IPv4 address denotes that address,
  and when an A record for it is stored under a plain name, the reverse query is answered
  locally with that name.
\<close>

theorem ptr_roundtrip:
  assumes "RecordEntry dn t (joinBytes [a, b, c, d]) ttl \<in> set recs" and "ToUpper t = ''A''"
    and "exactKey (RecordEntry dn t (joinBytes [a, b, c, d]) ttl) \<noteq> None"
    and "m_Question req = q # qs" and "q_Qtype q = TypePTR" and "q_Name q = arpaName a b c d"
  shows "ptrIPFromArpa (q_Name q) = Some (IPv4 a b c d)
    \<and> (\<exists>resp. RecordStore_Lookup (RecordStore_SetRecords recs rs) req = Some resp
        \<and> (\<exists>rr \<in> set (m_Answer resp). rr_Data rr = PTR (Fqdn (ToLower (TrimSuffix dn ''.'')))))"
proof -
  let ?r = "RecordEntry dn t (joinBytes [a, b, c, d]) ttl" and ?s = "RecordStore_SetRecords recs rs"
  have ip: "ptrIPFromArpa (q_Name q) = Some (IPv4 a b c d)" using assms(6) ptr_arpaName by simp
  obtain k where k: "exactKey ?r = Some k" using assms(3) by blast
  have "?r \<in> set (getRecs (rs_records ?s) k)"
    unfolding RecordStore_SetRecords_def fold_addRecord using assms(1) k by simp
  then have "?r \<in> set (concat (map snd (rs_records ?s)))"
    by (rule getRecs_stored)
  moreover have "ptrAnswer (q_Name q) (IPv4 a b c d) ?r
      = [mkRR (q_Name q) TypePTR (recordTTL ttl) (PTR (Fqdn (ToLower (TrimSuffix dn ''.''))))]"
    using assms(2) ParseIP_octets [of a b c d] by (simp add: ptrAnswer_def Let_def IP_Equal_def del: joinBytes.simps)
  ultimately have "mkRR (q_Name q) TypePTR (recordTTL ttl) (PTR (Fqdn (ToLower (TrimSuffix dn ''.''))))
      \<in> set (concat (map (ptrAnswer (q_Name q) (IPv4 a b c d)) (concat (map snd (rs_records ?s)))))" by force
  then have "\<exists>resp. lookupPTR ?s req (q_Name q) = Some resp
      \<and> (\<exists>rr \<in> set (m_Answer resp). rr_Data rr = PTR (Fqdn (ToLower (TrimSuffix dn ''.''))))"
    using ip by (force simp: lookupPTR_def Let_def)
  moreover have "ToLower (TrimSuffix (q_Name q) ''.'') \<noteq> []"
    unfolding assms(6) arpaName_def by (simp add: TrimSuffix_dot butlast_append del: joinBytes.simps)
  ultimately show ?thesis using ip assms(4,5) by (simp add: RecordStore_Lookup_def Let_def)
qed

theorem ptr_roundtrip_witness:
  "\<exists>resp. RecordStore_Lookup (RecordStore_SetRecords sampleRecords NewRecordStore)
      (sampleQuery (arpaName 192 168 1 5) TypePTR) = Some resp
    \<and> (\<exists>rr \<in> set (m_Answer resp). rr_Data rr = PTR (Fqdn (ToLower (TrimSuffix ''nas.lan.'' ''.''))))"
proof -
  have v: "joinBytes [192, 168, 1, 5] = ''192.168.1.5''" by code_simp
  have "exactKey (RecordEntry ''nas.lan.'' ''a'' ''192.168.1.5'' 0) \<noteq> None" "ToUpper ''a'' = ''A''" by code_simp+
  then show ?thesis
    using ptr_roundtrip [of "''nas.lan.''" "''a''" 192 168 1 5 0 sampleRecords] v
    by (simp add: sampleRecords_def sampleQuery_def)
qed

text \<open>
  Drift is detected by content only. The checksum does not depend on the order of the
  records, and what an instance computes from its store after a push equals what the
  controller computes from the list it pushed, less the entries without a usable domain;
  reading the records back gives the same entries, each as often.
\<close>

theorem records_hash_agrees:
  assumes "mset recs = mset recs'"
  shows "RecordsHash recs = RecordsHash recs'
    \<and> RecordStore_Hash (RecordStore_SetRecords recs rs) = RecordsHash (filter kept recs')
    \<and> mset (RecordStore_GetRecords (RecordStore_SetRecords recs rs)) = mset (filter kept recs')"
proof -
  have "mset (filter kept recs) = mset (filter kept recs')" using assms by simp
  then show ?thesis
    using RecordsHash_perm [OF assms] RecordsHash_perm [OF trans [OF SetRecords_mset [of recs rs]]] SetRecords_mset [of recs rs]
    by (simp add: RecordStore_Hash_def)
qed

theorem records_hash_agrees_witness:
  "RecordStore_Hash (RecordStore_SetRecords sampleRecords NewRecordStore) = RecordsHash (rev sampleRecords)"
proof -
  have "filter kept (rev sampleRecords) = rev sampleRecords" unfolding kept_def by code_simp
  then show ?thesis using records_hash_agrees [of sampleRecords "rev sampleRecords" NewRecordStore] by simp
qed

end
