(* ===== verification/Blip_Cache.thy ===== *)
theory Blip_Cache
  imports Blip_Msg
begin

text \<open>
  The response cache (\<open>src/internal/cache/cache.go\<close>): a map from keys to entries with an
  LRU list, TTL expiry, size bound and the coalesced fetch. Entries are heap objects
  (\<open>c_heap\<close>, indexed by an identity that stands for the pointer), because a reader may
  still hold an entry that was evicted meanwhile and \<open>Set\<close> changes an entry in place.

  Each method is first given as the regions it executes under the lock, composed in the
  source's order; the interleaving relation at the end runs those regions of any number of
  concurrent readers and writers in any order. Times are arguments: what \<open>c.now()\<close> returns.
\<close>

subsection \<open>Data\<close>

definition promoteEvery :: u64 where "promoteEvery = 16"

record Key =
  k_Name :: string
  k_Label :: string
  k_QType :: u16
  k_QClass :: u16

definition emptyKey :: Key where
  "emptyKey = \<lparr>k_Name = [], k_Label = [], k_QType = 0, k_QClass = 0\<rparr>"

record entry =
  e_key :: Key
  e_msg :: Msg
  e_expire :: time
  e_hits :: u64

record Cache =
  c_heap :: "nat \<rightharpoonup> entry"
  c_next :: nat
  c_items :: "(Key \<times> nat) list"
  c_lru :: "nat list"
  c_ttlCap :: duration
  c_maxEntries :: int

definition NewCache :: "duration \<Rightarrow> int \<Rightarrow> Cache" where
  "NewCache ttlCap maxEntries =
     \<lparr>c_heap = Map.empty, c_next = 0, c_items = [], c_lru = [],
      c_ttlCap = (if ttlCap \<le> 0 then Hour else ttlCap), c_maxEntries = maxEntries\<rparr>"

definition KeyOf :: "Msg \<Rightarrow> Key" where
  "KeyOf m =
     (case m_Question m of
        [] \<Rightarrow> emptyKey
      | q # _ \<Rightarrow> \<lparr>k_Name = ToLower (q_Name q), k_Label = [], k_QType = q_Qtype q, k_QClass = q_Qclass q\<rparr>)"

definition Key_String :: "Key \<Rightarrow> string" where
  "Key_String k =
     k_Name k @ ''|'' @ Itoa (uint (k_QType k)) @ ''|'' @ Itoa (uint (k_QClass k)) @ ''|'' @ k_Label k"

definition minStep :: "RR \<Rightarrow> u32 \<times> bool \<Rightarrow> u32 \<times> bool" where
  "minStep rr acc =
     (case acc of (mn, seen) \<Rightarrow> if \<not> seen \<or> rr_Ttl rr < mn then (rr_Ttl rr, True) else (mn, seen))"

definition minTTL :: "Msg \<Rightarrow> duration" where
  "minTTL m =
     (case fold minStep (m_Ns m) (fold minStep (m_Answer m) (0, False)) of (mn, seen) \<Rightarrow>
        if \<not> seen then 30 * Second
        else uint (if mn < 1 then 1 else mn) * Second)"

subsection \<open>The LRU list\<close>

text \<open>\<open>container/list\<close>: moving or removing an element that is not in the list does nothing.\<close>

definition MoveToFront :: "nat \<Rightarrow> nat list \<Rightarrow> nat list" where
  "MoveToFront e l = (if e \<in> set l then e # remove1 e l else l)"

text \<open>The eviction loop; \<open>Back\<close> of a list longer than a positive limit is never nil.\<close>

function evictLocked :: "Cache \<Rightarrow> Cache" where
  "evictLocked c =
     (if 0 < c_maxEntries c \<and> c_maxEntries c < int (length (c_lru c)) then
        (if c_lru c = [] then c
         else
           let e = last (c_lru c);
               items = (case c_heap c e of None \<Rightarrow> c_items c | Some en \<Rightarrow> AList.delete (e_key en) (c_items c))
           in evictLocked (c\<lparr>c_items := items, c_lru := remove1 e (c_lru c)\<rparr>))
      else c)"
  by pat_completeness auto
termination
  by (relation "measure (\<lambda>c. length (c_lru c))") (auto simp: length_remove1)

declare evictLocked.simps [simp del]

subsection \<open>Operations\<close>

datatype probe = Miss | Expired | Hit nat bool  \<comment> \<open>entry held, and whether it is promoted\<close>

text \<open>The shared-lock region of \<open>Get\<close>: lookup, expiry check, popularity bump.\<close>

definition get_probe :: "Key \<Rightarrow> time \<Rightarrow> Cache \<Rightarrow> Cache \<times> probe" where
  "get_probe k now c =
     (case map_of (c_items c) k of
        None \<Rightarrow> (c, Miss)
      | Some e \<Rightarrow>
          (case c_heap c e of
             None \<Rightarrow> (c, Miss)
           | Some en \<Rightarrow>
               if e_expire en < now then (c, Expired)
               else let h = e_hits en + 1
                    in (c\<lparr>c_heap := (c_heap c)(e \<mapsto> en\<lparr>e_hits := h\<rparr>)\<rparr>, Hit e (h mod promoteEvery = 0))))"

text \<open>The exclusive region after an expiry: use a refreshed entry, or delete it.\<close>

definition get_expired :: "Key \<Rightarrow> time \<Rightarrow> Cache \<Rightarrow> Cache \<times> nat option" where
  "get_expired k now c =
     (case map_of (c_items c) k of
        None \<Rightarrow> (c, None)
      | Some e \<Rightarrow>
          (case c_heap c e of
             None \<Rightarrow> (c, None)
           | Some en \<Rightarrow>
               if \<not> e_expire en < now then (c, Some e)
               else (c\<lparr>c_items := AList.delete k (c_items c), c_lru := remove1 e (c_lru c)\<rparr>, None)))"

text \<open>The exclusive region of a promotion: only if the key still holds the same entry.\<close>

definition get_promote :: "Key \<Rightarrow> nat \<Rightarrow> Cache \<Rightarrow> Cache" where
  "get_promote k e c =
     (if map_of (c_items c) k = Some e then c\<lparr>c_lru := MoveToFront e (c_lru c)\<rparr> else c)"

text \<open>The copy, outside every lock: the remaining time in whole seconds, at least one.\<close>

definition get_copy :: "entry \<Rightarrow> time \<Rightarrow> Msg" where
  "get_copy en now =
     (let ttl0 = (word_of_int ((e_expire en - now) sdiv Second) :: u32);
          ttl = (if ttl0 < 1 then 1 else ttl0)
      in (e_msg en)\<lparr>m_Answer := map (set_rr_Ttl ttl) (m_Answer (e_msg en))\<rparr>)"

definition Cache_Get :: "Key \<Rightarrow> time \<Rightarrow> Cache \<Rightarrow> Cache \<times> Msg option" where
  "Cache_Get k now c =
     (if k_Name k = [] then (c, None)
      else case get_probe k now c of
        (c1, Miss) \<Rightarrow> (c1, None)
      | (c1, Expired) \<Rightarrow>
          (case get_expired k now c1 of
             (c2, None) \<Rightarrow> (c2, None)
           | (c2, Some e) \<Rightarrow> (c2, map_option (\<lambda>en. get_copy en now) (c_heap c2 e)))
      | (c1, Hit e promote) \<Rightarrow>
          let c2 = (if promote then get_promote k e c1 else c1)
          in (c2, map_option (\<lambda>en. get_copy en now) (c_heap c2 e)))"

definition entryTTL :: "Cache \<Rightarrow> Msg \<Rightarrow> duration" where
  "entryTTL c m = (if c_ttlCap c < minTTL m then c_ttlCap c else minTTL m)"

text \<open>The exclusive region of \<open>Set\<close>: refresh in place, or insert at the front and trim.\<close>

definition set_locked :: "Key \<Rightarrow> Msg \<Rightarrow> time \<Rightarrow> Cache \<Rightarrow> Cache" where
  "set_locked k m expire c =
     (case map_of (c_items c) k of
        Some e \<Rightarrow>
          c\<lparr>c_heap := (case c_heap c e of None \<Rightarrow> c_heap c
                       | Some en \<Rightarrow> (c_heap c)(e \<mapsto> en\<lparr>e_msg := m, e_expire := expire\<rparr>)),
            c_lru := MoveToFront e (c_lru c)\<rparr>
      | None \<Rightarrow>
          let e = c_next c
          in evictLocked
               (c\<lparr>c_heap := (c_heap c)(e \<mapsto> \<lparr>e_key = k, e_msg = m, e_expire = expire, e_hits = 0\<rparr>),
                  c_next := Suc e, c_lru := e # c_lru c, c_items := AList.update k e (c_items c)\<rparr>))"

definition Cache_Set :: "Key \<Rightarrow> Msg option \<Rightarrow> time \<Rightarrow> Cache \<Rightarrow> Cache" where
  "Cache_Set k mo now c =
     (case mo of
        None \<Rightarrow> c
      | Some m \<Rightarrow>
          if k_Name k = [] then c
          else if m_Rcode m \<noteq> RcodeSuccess \<and> m_Rcode m \<noteq> RcodeNameError then c
          else set_locked k m (now + entryTTL c m) c)"

definition Cache_SetMaxEntries :: "int \<Rightarrow> Cache \<Rightarrow> Cache" where
  "Cache_SetMaxEntries n c = evictLocked (c\<lparr>c_maxEntries := (if n < 0 then 0 else n)\<rparr>)"

definition Cache_Purge :: "Cache \<Rightarrow> Cache" where
  "Cache_Purge c = c\<lparr>c_items := [], c_lru := []\<rparr>"

definition Cache_Len :: "Cache \<Rightarrow> nat" where
  "Cache_Len c = length (c_items c)"

text \<open>
  A fetch that is not coalesced with another: \<open>fn\<close> is the upstream call, which threads the
  world \<open>w\<close> it talks to and returns at \<open>now'\<close>.
\<close>

definition Cache_DoHit ::
  "Key \<Rightarrow> time \<Rightarrow> time \<Rightarrow> ('w \<Rightarrow> 'w \<times> ('e, Msg) result) \<Rightarrow> 'w \<Rightarrow> Cache
   \<Rightarrow> 'w \<times> Cache \<times> ('e, Msg \<times> bool) result" where
  "Cache_DoHit k now now' fn w c =
     (case Cache_Get k now c of
        (c1, Some m) \<Rightarrow> (w, c1, Inr (m, True))
      | (c1, None) \<Rightarrow>
          (case fn w of
             (w', Inl e) \<Rightarrow> (w', c1, Inl e)
           | (w', Inr m) \<Rightarrow> (w', Cache_Set k (Some m) now' c1, Inr (m, False))))"

subsection \<open>Invariant\<close>

declare map_of_eq_Some_iff [simp del] Some_eq_map_of_iff [simp del]

definition Cache_inv :: "Cache \<Rightarrow> bool" where
  "Cache_inv c \<longleftrightarrow>
     distinct (map fst (c_items c)) \<and> distinct (c_lru c)
     \<and> (\<forall>k e. map_of (c_items c) k = Some e \<longrightarrow>
          e \<in> set (c_lru c) \<and> (\<exists>en. c_heap c e = Some en \<and> e_key en = k))
     \<and> (\<forall>e \<in> set (c_lru c). \<exists>en. c_heap c e = Some en \<and> map_of (c_items c) (e_key en) = Some e)
     \<and> (\<forall>e \<ge> c_next c. c_heap c e = None)"

definition Cache_bounded :: "Cache \<Rightarrow> bool" where
  "Cache_bounded c \<longleftrightarrow> (0 < c_maxEntries c \<longrightarrow> int (length (c_lru c)) \<le> c_maxEntries c)"

lemma Cache_invI:
  assumes "distinct (map fst (c_items c))" and "distinct (c_lru c)"
    and "\<And>k e. map_of (c_items c) k = Some e \<Longrightarrow> e \<in> set (c_lru c) \<and> (\<exists>en. c_heap c e = Some en \<and> e_key en = k)"
    and "\<And>e. e \<in> set (c_lru c) \<Longrightarrow> \<exists>en. c_heap c e = Some en \<and> map_of (c_items c) (e_key en) = Some e"
    and "\<And>e. c_next c \<le> e \<Longrightarrow> c_heap c e = None"
  shows "Cache_inv c"
  using assms unfolding Cache_inv_def by blast

lemma inv_lookup:
  assumes "Cache_inv c" and "map_of (c_items c) k = Some e"
  obtains en where "c_heap c e = Some en" "e_key en = k" "e \<in> set (c_lru c)" "e < c_next c"
proof -
  from assms obtain en where "c_heap c e = Some en" "e_key en = k" "e \<in> set (c_lru c)"
    unfolding Cache_inv_def by blast
  moreover from this have "e < c_next c"
    using assms(1) unfolding Cache_inv_def by (metis linorder_not_le option.distinct(1))
  ultimately show ?thesis by (rule that)
qed

lemma inv_lru:
  assumes "Cache_inv c" and "e \<in> set (c_lru c)"
  obtains en where "c_heap c e = Some en" "map_of (c_items c) (e_key en) = Some e"
  using assms unfolding Cache_inv_def by blast

lemma inv_key_unique:
  assumes "Cache_inv c" "map_of (c_items c) k = Some e" "map_of (c_items c) k' = Some e"
  shows "k = k'"
  using inv_lookup [OF assms(1,2)] inv_lookup [OF assms(1,3)] by (metis option.inject)

lemma items_lru_length:
  assumes "Cache_inv c"
  shows "length (c_items c) = length (c_lru c)"
proof -
  let ?f = "\<lambda>e. e_key (the (c_heap c e))"
  have f: "map_of (c_items c) (?f e) = Some e" if "e \<in> set (c_lru c)" for e
    using inv_lru [OF assms that] by (metis option.sel)
  have "inj_on ?f (set (c_lru c))"
    by (rule inj_onI) (metis f option.inject)
  moreover have "?f ` set (c_lru c) = fst ` set (c_items c)"
  proof (intro equalityI subsetI)
    fix k assume "k \<in> fst ` set (c_items c)"
    then obtain e where "map_of (c_items c) k = Some e" by (metis map_of_None_iff not_None_eq)
    from inv_lookup [OF assms this] obtain en where "c_heap c e = Some en" "e_key en = k" "e \<in> set (c_lru c)" .
    then show "k \<in> ?f ` set (c_lru c)" by (intro image_eqI [of _ _ e]) simp_all
  next
    fix k assume "k \<in> ?f ` set (c_lru c)"
    then obtain e where "e \<in> set (c_lru c)" "k = ?f e" by blast
    with f have "map_of (c_items c) k = Some e" by simp
    then have "map_of (c_items c) k \<noteq> None" by simp
    then show "k \<in> fst ` set (c_items c)" by (simp add: map_of_None_iff)
  qed
  ultimately have "card (set (c_lru c)) = card (fst ` set (c_items c))" by (metis card_image)
  moreover have "distinct (map fst (c_items c))" "distinct (c_lru c)"
    using assms by (simp_all add: Cache_inv_def)
  ultimately show ?thesis by (metis distinct_card length_map set_map)
qed

text \<open>Removing the entry of a key from both structures.\<close>

definition dropEntry :: "Key \<Rightarrow> nat \<Rightarrow> Cache \<Rightarrow> Cache" where
  "dropEntry k e c = c\<lparr>c_items := AList.delete k (c_items c), c_lru := remove1 e (c_lru c)\<rparr>"

lemma dropEntry_simps [simp]:
  "c_heap (dropEntry k e c) = c_heap c" "c_next (dropEntry k e c) = c_next c"
  "c_maxEntries (dropEntry k e c) = c_maxEntries c" "c_ttlCap (dropEntry k e c) = c_ttlCap c"
  "c_lru (dropEntry k e c) = remove1 e (c_lru c)" "c_items (dropEntry k e c) = AList.delete k (c_items c)"
  by (simp_all add: dropEntry_def)

lemma dropEntry_inv:
  assumes inv: "Cache_inv c" and k: "map_of (c_items c) k = Some e"
  shows "Cache_inv (dropEntry k e c)"
proof (rule Cache_invI)
  have d: "distinct (map fst (c_items c))" "distinct (c_lru c)" "\<forall>e \<ge> c_next c. c_heap c e = None"
    using inv by (simp_all add: Cache_inv_def)
  show "distinct (map fst (c_items (dropEntry k e c)))" "distinct (c_lru (dropEntry k e c))"
    "\<And>e'. c_next (dropEntry k e c) \<le> e' \<Longrightarrow> c_heap (dropEntry k e c) e' = None"
    using d by simp_all
  fix k' e' assume "map_of (c_items (dropEntry k e c)) k' = Some e'"
  then have k': "map_of (c_items c) k' = Some e'" "k' \<noteq> k" by (auto split: if_splits)
  show "e' \<in> set (c_lru (dropEntry k e c)) \<and> (\<exists>en. c_heap (dropEntry k e c) e' = Some en \<and> e_key en = k')"
    using inv_lookup [OF inv k'(1)] inv_key_unique [OF inv k, of k'] k' d(2) by auto
next
  fix e' assume e': "e' \<in> set (c_lru (dropEntry k e c))"
  have "distinct (c_lru c)" using inv by (simp add: Cache_inv_def)
  with e' have "e' \<in> set (c_lru c)" "e' \<noteq> e" by auto
  then obtain en where "c_heap c e' = Some en" "map_of (c_items c) (e_key en) = Some e'"
    using inv_lru [OF inv] by blast
  with k \<open>e' \<noteq> e\<close> show "\<exists>en. c_heap (dropEntry k e c) e' = Some en
      \<and> map_of (c_items (dropEntry k e c)) (e_key en) = Some e'" by auto
qed

lemma evict_step:
  assumes "Cache_inv c" and "0 < c_maxEntries c" and "c_maxEntries c < int (length (c_lru c))"
  obtains k where "map_of (c_items c) k = Some (last (c_lru c))"
    "evictLocked c = evictLocked (dropEntry k (last (c_lru c)) c)"
    "c_lru (dropEntry k (last (c_lru c)) c) = butlast (c_lru c)"
proof -
  have ne: "c_lru c \<noteq> []" using assms(2,3) by auto
  obtain en where en: "c_heap c (last (c_lru c)) = Some en"
    "map_of (c_items c) (e_key en) = Some (last (c_lru c))"
    using inv_lru [OF assms(1)] last_in_set [OF ne] by metis
  have "evictLocked c = evictLocked (dropEntry (e_key en) (last (c_lru c)) c)"
    using assms(2,3) ne en(1) by (subst evictLocked.simps) (simp add: dropEntry_def Let_def)
  moreover have "remove1 (last (c_lru c)) (c_lru c) = butlast (c_lru c)"
  proof -
    have "last (c_lru c) \<notin> set (butlast (c_lru c))"
      using assms(1) ne unfolding Cache_inv_def
      by (metis append_butlast_last_id distinct_append not_distinct_conv_prefix disjoint_insert(1) list.set(2))
    then show ?thesis using ne by (metis append_butlast_last_id remove1_append remove1.simps append_Nil2)
  qed
  ultimately show ?thesis using en(2) that by simp
qed

text \<open>Eviction keeps exactly the front of the list, up to the limit.\<close>

lemma evictLocked_spec:
  assumes "Cache_inv c"
  shows "Cache_inv (evictLocked c) \<and> Cache_bounded (evictLocked c)
    \<and> c_heap (evictLocked c) = c_heap c \<and> c_next (evictLocked c) = c_next c
    \<and> c_ttlCap (evictLocked c) = c_ttlCap c \<and> c_maxEntries (evictLocked c) = c_maxEntries c
    \<and> c_lru (evictLocked c) = (if 0 < c_maxEntries c then take (nat (c_maxEntries c)) (c_lru c) else c_lru c)
    \<and> (\<forall>k e. map_of (c_items (evictLocked c)) k = Some e \<longleftrightarrow>
          map_of (c_items c) k = Some e \<and> e \<in> set (c_lru (evictLocked c)))"
  using assms
proof (induction c rule: measure_induct_rule [where f = "\<lambda>c. length (c_lru c)"])
  case (less c)
  show ?case
  proof (cases "0 < c_maxEntries c \<and> c_maxEntries c < int (length (c_lru c))")
    case False
    then have "evictLocked c = c" by (subst evictLocked.simps) auto
    with False less.prems show ?thesis
      by (auto simp: Cache_bounded_def elim: inv_lookup)
  next
    case True
    then obtain k where k: "map_of (c_items c) k = Some (last (c_lru c))"
      "evictLocked c = evictLocked (dropEntry k (last (c_lru c)) c)"
      "c_lru (dropEntry k (last (c_lru c)) c) = butlast (c_lru c)"
      using evict_step [OF less.prems] by blast
    define c' where "c' = dropEntry k (last (c_lru c)) c"
    have inv': "Cache_inv c'" unfolding c'_def by (rule dropEntry_inv [OF less.prems k(1)])
    have "length (c_lru c') < length (c_lru c)" using True k(3) by (auto simp: c'_def)
    note IH = less.IH [OF this inv']
    have lru': "c_lru c' = butlast (c_lru c)" using k(3) by (simp add: c'_def)
    have "take (nat (c_maxEntries c)) (butlast (c_lru c)) = take (nat (c_maxEntries c)) (c_lru c)"
      using True by (auto simp: butlast_conv_take intro!: arg_cong2 [where f = take])
    moreover have "e \<noteq> last (c_lru c)" if "e \<in> set (take (nat (c_maxEntries c)) (c_lru c'))" for e
      using that less.prems lru' k(3) unfolding Cache_inv_def c'_def
      by (metis dropEntry_simps(5) in_set_takeD set_remove1_eq Diff_iff singletonI)
    ultimately have lru: "c_lru (evictLocked c') = take (nat (c_maxEntries c)) (c_lru c)"
      and nl: "last (c_lru c) \<notin> set (c_lru (evictLocked c'))"
      using IH lru' True by (auto simp: c'_def)
    have "map_of (c_items (evictLocked c')) k' = Some e \<longleftrightarrow>
        map_of (c_items c) k' = Some e \<and> e \<in> set (c_lru (evictLocked c'))" for k' e
    proof -
      have "map_of (c_items c') k' = Some e \<longleftrightarrow> map_of (c_items c) k' = Some e \<and> k' \<noteq> k"
        by (auto simp: c'_def)
      then show ?thesis using IH k(1) nl by (metis option.inject)
    qed
    then show ?thesis
      using IH lru True k(2) [folded c'_def] by (simp add: c'_def)
  qed
qed

lemmas evict_fields = evictLocked_spec [THEN conjunct2, THEN conjunct2]

lemma MoveToFront_set [simp]: "set (MoveToFront e l) = set l"
proof -
  have "e \<in> set l \<Longrightarrow> insert e (set (remove1 e l)) = set l" by (induction l) auto
  then show ?thesis by (simp add: MoveToFront_def)
qed

lemma MoveToFront_length [simp]: "length (MoveToFront e l) = length l"
  using length_pos_if_in_set [of e l] by (auto simp: MoveToFront_def length_remove1)

lemma MoveToFront_distinct [simp]: "distinct l \<Longrightarrow> distinct (MoveToFront e l)"
  by (auto simp: MoveToFront_def)

text \<open>An entry changed in place keeps its key.\<close>

lemma inv_heap_update:
  assumes "Cache_inv c" and "c_heap c e = Some en" and "e_key en' = e_key en"
    and "set l = set (c_lru c)" and "distinct l"
  shows "Cache_inv (c\<lparr>c_heap := (c_heap c)(e \<mapsto> en'), c_lru := l\<rparr>)"
proof (rule Cache_invI, goal_cases)
  case (3 k e')
  then have "map_of (c_items c) k = Some e'" by simp
  then obtain en1 where "c_heap c e' = Some en1" "e_key en1 = k" "e' \<in> set (c_lru c)"
    using inv_lookup [OF assms(1)] by blast
  then show ?case using assms(2-4) by (cases "e' = e") simp_all
next
  case (4 e')
  then have "e' \<in> set (c_lru c)" using assms(4) by simp
  then obtain en1 where "c_heap c e' = Some en1" "map_of (c_items c) (e_key en1) = Some e'"
    using inv_lru [OF assms(1)] by blast
  then show ?case using assms(2,3) by (cases "e' = e") simp_all
qed (use assms in \<open>auto simp: Cache_inv_def\<close>)

lemma inv_lru_update:
  assumes "Cache_inv c" and "set l = set (c_lru c)" and "distinct l"
  shows "Cache_inv (c\<lparr>c_lru := l\<rparr>)"
  using assms unfolding Cache_inv_def by simp

lemma get_probe_inv [blip_inv]: "Cache_inv c \<Longrightarrow> Cache_inv (fst (get_probe k now c))"
  using inv_heap_update [of c _ _ _ "c_lru c"]
  by (auto simp: get_probe_def Let_def Cache_inv_def split: option.splits)

lemma get_expired_eq:
  "fst (get_expired k now c) = c \<or>
   (\<exists>e. map_of (c_items c) k = Some e \<and> fst (get_expired k now c) = dropEntry k e c)"
  by (auto simp: get_expired_def dropEntry_def split: option.splits)

lemma get_expired_inv [blip_inv]: "Cache_inv c \<Longrightarrow> Cache_inv (fst (get_expired k now c))"
  using get_expired_eq [of k now c] dropEntry_inv [of c k] by auto

lemma get_promote_inv [blip_inv]: "Cache_inv c \<Longrightarrow> Cache_inv (get_promote k e c)"
  by (auto simp: get_promote_def Cache_inv_def intro!: inv_lru_update)

lemma insert_inv:
  assumes inv: "Cache_inv c" and fresh: "map_of (c_items c) k = None"
  shows "Cache_inv (c\<lparr>c_heap := (c_heap c)(c_next c \<mapsto> \<lparr>e_key = k, e_msg = m, e_expire = x, e_hits = h\<rparr>),
    c_next := Suc (c_next c), c_lru := c_next c # c_lru c, c_items := AList.update k (c_next c) (c_items c)\<rparr>)"
proof (rule Cache_invI, goal_cases)
  case 2
  have "c_next c \<notin> set (c_lru c)" using inv by (auto simp: Cache_inv_def)
  then show ?case using inv by (simp add: Cache_inv_def)
next
  case (3 k' e')
  show ?case
  proof (cases "k' = k")
    case False
    with 3 have "map_of (c_items c) k' = Some e'" by simp
    then obtain en1 where "c_heap c e' = Some en1" "e_key en1 = k'" "e' \<in> set (c_lru c)" "e' < c_next c"
      using inv_lookup [OF inv] by blast
    then show ?thesis by simp
  qed (use 3 in simp)
next
  case (4 e')
  show ?case
  proof (cases "e' = c_next c")
    case False
    with 4 have "e' \<in> set (c_lru c)" by simp
    then obtain en1 where "c_heap c e' = Some en1" "map_of (c_items c) (e_key en1) = Some e'"
      using inv_lru [OF inv] by blast
    then show ?thesis using fresh False by auto
  qed simp
qed (use inv in \<open>auto simp: Cache_inv_def\<close>)

lemma set_locked_inv [blip_inv]:
  assumes "Cache_inv c" and "Cache_bounded c"
  shows "Cache_inv (set_locked k m x c) \<and> Cache_bounded (set_locked k m x c)"
proof (cases "map_of (c_items c) k")
  case None
  then show ?thesis
    using evictLocked_spec [OF insert_inv [OF assms(1) None]] by (simp add: set_locked_def Let_def)
next
  case (Some e)
  obtain en where "c_heap c e = Some en" using inv_lookup [OF assms(1) Some] .
  then show ?thesis
    using Some assms inv_heap_update [OF assms(1), of e en _ "MoveToFront e (c_lru c)"]
    by (simp add: set_locked_def Cache_bounded_def Cache_inv_def)
qed

lemma Purge_inv [blip_inv]: "Cache_inv c \<Longrightarrow> Cache_inv (Cache_Purge c)"
  by (simp add: Cache_inv_def Cache_Purge_def)

lemma Cache_inv_maxEntries [simp]: "Cache_inv (c\<lparr>c_maxEntries := n\<rparr>) \<longleftrightarrow> Cache_inv c"
  by (simp add: Cache_inv_def)

lemma SetMaxEntries_inv [blip_inv]:
  assumes "Cache_inv c"
  shows "Cache_inv (Cache_SetMaxEntries n c) \<and> Cache_bounded (Cache_SetMaxEntries n c)"
  using evictLocked_spec [of "c\<lparr>c_maxEntries := (if n < 0 then 0 else n)\<rparr>"] assms
  by (auto simp only: Cache_SetMaxEntries_def Cache_inv_maxEntries)

lemma NewCache_inv [blip_inv]: "Cache_inv (NewCache t n) \<and> Cache_bounded (NewCache t n)"
  by (simp add: NewCache_def Cache_inv_def Cache_bounded_def)

subsection \<open>Concurrent use\<close>

text \<open>
  Readers and writers as threads whose lock regions interleave freely. A reader is where
  the source's \<open>Get\<close> is between two regions; a writer computed its expiry before it waits
  for the lock. The clock only moves forward.
\<close>

datatype thread =
    GetStart Key
  | GetExpired Key
  | GetPromote Key nat time
  | GetCopy Key nat time
  | GetDone Key "Msg option"
  | SetStart Key "Msg option"
  | SetLocked Key Msg time
  | SetDone
  | PurgeStart
  | ResizeStart int

record cstate =
  cs_cache :: Cache
  cs_threads :: "thread list"
  cs_now :: time

text \<open>One region of one thread: the cache it leaves and where the thread goes next.\<close>

fun thread_step :: "thread \<Rightarrow> time \<Rightarrow> Cache \<Rightarrow> Cache \<times> thread" where
  "thread_step (GetStart k) now c =
     (if k_Name k = [] then (c, GetDone k None)
      else case get_probe k now c of
        (c', Miss) \<Rightarrow> (c', GetDone k None)
      | (c', Expired) \<Rightarrow> (c', GetExpired k)
      | (c', Hit e True) \<Rightarrow> (c', GetPromote k e now)
      | (c', Hit e False) \<Rightarrow> (c', GetCopy k e now))"
| "thread_step (GetExpired k) now c =
     (case get_expired k now c of
        (c', None) \<Rightarrow> (c', GetDone k None)
      | (c', Some e) \<Rightarrow> (c', GetCopy k e now))"
| "thread_step (GetPromote k e t) now c = (get_promote k e c, GetCopy k e t)"
| "thread_step (GetCopy k e t) now c = (c, GetDone k (map_option (\<lambda>en. get_copy en t) (c_heap c e)))"
| "thread_step (GetDone k r) now c = (c, GetDone k r)"
| "thread_step (SetStart k mo) now c =
     (case mo of
        None \<Rightarrow> (c, SetDone)
      | Some m \<Rightarrow>
          if k_Name k = [] then (c, SetDone)
          else if m_Rcode m \<noteq> RcodeSuccess \<and> m_Rcode m \<noteq> RcodeNameError then (c, SetDone)
          else (c, SetLocked k m (now + entryTTL c m)))"
| "thread_step (SetLocked k m x) now c = (set_locked k m x c, SetDone)"
| "thread_step SetDone now c = (c, SetDone)"
| "thread_step PurgeStart now c = (Cache_Purge c, SetDone)"
| "thread_step (ResizeStart n) now c = (Cache_SetMaxEntries n c, SetDone)"

inductive cache_step :: "cstate \<Rightarrow> cstate \<Rightarrow> bool" where
  run: "\<lbrakk>i < length (cs_threads s); thread_step (cs_threads s ! i) (cs_now s) (cs_cache s) = (c', t')\<rbrakk>
    \<Longrightarrow> cache_step s (s\<lparr>cs_cache := c', cs_threads := (cs_threads s)[i := t']\<rparr>)"
| tick: "cs_now s \<le> t \<Longrightarrow> cache_step s (s\<lparr>cs_now := t\<rparr>)"

inductive_cases cache_stepE: "cache_step s s'"

inductive cache_reach :: "cstate \<Rightarrow> cstate \<Rightarrow> bool" where
  start: "cache_reach s s"
| more: "cache_reach s s' \<Longrightarrow> cache_step s' s'' \<Longrightarrow> cache_reach s s''"

lemma probe_fields:
  "c_lru (fst (get_probe k now c)) = c_lru c" "c_items (fst (get_probe k now c)) = c_items c"
  "c_maxEntries (fst (get_probe k now c)) = c_maxEntries c" "c_ttlCap (fst (get_probe k now c)) = c_ttlCap c"
  by (auto simp: get_probe_def Let_def split: option.splits)

lemma bounded_simps:
  "Cache_bounded c \<Longrightarrow> Cache_bounded (fst (get_probe k now c))"
  "Cache_bounded c \<Longrightarrow> Cache_bounded (fst (get_expired k now c))"
  "Cache_bounded c \<Longrightarrow> Cache_bounded (get_promote k e c)"
  "Cache_bounded c \<Longrightarrow> Cache_bounded (Cache_Purge c)"
  using get_expired_eq [of k now c]
  by (auto simp: Cache_bounded_def probe_fields get_promote_def Cache_Purge_def length_remove1)

lemma thread_step_inv:
  assumes "Cache_inv c" and "Cache_bounded c" and "thread_step t now c = (c', t')"
  shows "Cache_inv c' \<and> Cache_bounded c'"
proof (cases t)
  case (GetStart k)
  then have "c' = c \<or> c' = fst (get_probe k now c)"
    using assms(3) by (auto split: if_splits prod.splits probe.splits bool.splits)
  then show ?thesis using assms get_probe_inv bounded_simps(1) by metis
next
  case (GetExpired k)
  then have "c' = fst (get_expired k now c)"
    using assms(3) by (auto split: prod.splits option.splits)
  then show ?thesis using assms get_expired_inv bounded_simps(2) by metis
next
  case (SetStart k mo)
  then show ?thesis using assms by (auto split: option.splits if_splits)
qed (use assms get_promote_inv bounded_simps(3,4) set_locked_inv Purge_inv SetMaxEntries_inv in auto)

lemma cache_step_inv:
  assumes "cache_step s s'" and "Cache_inv (cs_cache s) \<and> Cache_bounded (cs_cache s)"
  shows "Cache_inv (cs_cache s') \<and> Cache_bounded (cs_cache s')"
  using assms by (cases rule: cache_step.cases) (auto dest: thread_step_inv)

lemma cache_reach_inv:
  assumes "cache_reach s s'" and "Cache_inv (cs_cache s) \<and> Cache_bounded (cs_cache s)"
  shows "Cache_inv (cs_cache s') \<and> Cache_bounded (cs_cache s')"
  using assms by (induction rule: cache_reach.induct) (simp, metis cache_step_inv)

text \<open>What the writers put in: the messages stored under a key.\<close>

definition cacheable :: "Msg \<Rightarrow> bool" where
  "cacheable m \<longleftrightarrow> m_Rcode m = RcodeSuccess \<or> m_Rcode m = RcodeNameError"

definition written :: "thread list \<Rightarrow> Key \<Rightarrow> Msg \<Rightarrow> bool" where
  "written ts k m \<longleftrightarrow> SetStart k (Some m) \<in> set ts \<and> k_Name k \<noteq> [] \<and> cacheable m"

text \<open>Equal but for the answers' TTLs, which are one value of at least one second.\<close>

definition retimed :: "Msg \<Rightarrow> Msg \<Rightarrow> bool" where
  "retimed m m' \<longleftrightarrow> (\<exists>ttl \<ge> 1. m' = m\<lparr>m_Answer := map (set_rr_Ttl ttl) (m_Answer m)\<rparr>)"

lemma get_copy_retimed: "retimed (e_msg en) (get_copy en now)"
proof -
  have "1 \<le> (if x < 1 then 1 else x)" for x :: u32
    by (metis linorder_not_less order_refl)
  then show ?thesis unfolding retimed_def get_copy_def Let_def by blast
qed

definition heap_ok :: "thread list \<Rightarrow> Cache \<Rightarrow> bool" where
  "heap_ok ts c \<longleftrightarrow> (\<forall>e en. c_heap c e = Some en \<longrightarrow> written ts (e_key en) (e_msg en))"

definition holds :: "Cache \<Rightarrow> Key \<Rightarrow> nat \<Rightarrow> bool" where
  "holds c k e \<longleftrightarrow> (\<exists>en. c_heap c e = Some en \<and> e_key en = k)"

fun thread_ok :: "thread list \<Rightarrow> Cache \<Rightarrow> thread \<Rightarrow> bool" where
  "thread_ok ts c (GetPromote k e t) \<longleftrightarrow> holds c k e"
| "thread_ok ts c (GetCopy k e t) \<longleftrightarrow> holds c k e"
| "thread_ok ts c (GetDone k (Some m)) \<longleftrightarrow> (\<exists>m0. written ts k m0 \<and> retimed m0 m)"
| "thread_ok ts c (SetStart k mo) \<longleftrightarrow> SetStart k mo \<in> set ts"
| "thread_ok ts c (SetLocked k m x) \<longleftrightarrow> written ts k m"
| "thread_ok ts c _ \<longleftrightarrow> True"

text \<open>Objects are never freed and never change their key.\<close>

definition heap_le :: "Cache \<Rightarrow> Cache \<Rightarrow> bool" where
  "heap_le c c' \<longleftrightarrow> (\<forall>k e. holds c k e \<longrightarrow> holds c' k e)"

lemma thread_ok_mono: "heap_le c c' \<Longrightarrow> thread_ok ts c t \<Longrightarrow> thread_ok ts c' t"
  by (cases "(ts, c, t)" rule: thread_ok.cases) (auto simp: heap_le_def)

lemma heap_le_same [simp]: "c_heap c' = c_heap c \<Longrightarrow> heap_le c c'"
  by (simp add: heap_le_def holds_def)

lemma heap_ok_same: "heap_ok ts c \<Longrightarrow> c_heap c' = c_heap c \<Longrightarrow> heap_ok ts c'"
  by (simp add: heap_ok_def)

lemma get_expired_heap [simp]: "c_heap (fst (get_expired k now c)) = c_heap c"
  using get_expired_eq [of k now c] by auto

lemma get_promote_heap [simp]: "c_heap (get_promote k e c) = c_heap c"
  by (simp add: get_promote_def)

lemma Purge_heap [simp]: "c_heap (Cache_Purge c) = c_heap c"
  by (simp add: Cache_Purge_def)

lemma SetMaxEntries_heap: "Cache_inv c \<Longrightarrow> c_heap (Cache_SetMaxEntries n c) = c_heap c"
  using evict_fields [of "c\<lparr>c_maxEntries := (if n < 0 then 0 else n)\<rparr>"]
  by (simp add: Cache_SetMaxEntries_def)

lemma probe_heap:
  assumes "heap_ok ts c"
  shows "heap_ok ts (fst (get_probe k now c)) \<and> heap_le c (fst (get_probe k now c))"
  using assms by (auto simp: get_probe_def heap_ok_def heap_le_def holds_def Let_def split: option.splits)

lemma set_locked_heap:
  assumes "Cache_inv c" and "heap_ok ts c" and "written ts k m"
  shows "heap_ok ts (set_locked k m x c) \<and> heap_le c (set_locked k m x c)"
proof (cases "map_of (c_items c) k")
  case None
  have "c_heap c (c_next c) = None" using assms(1) by (simp add: Cache_inv_def)
  then show ?thesis
    using assms None evict_fields [OF insert_inv [OF assms(1) None, of m x 0]]
    by (auto simp: set_locked_def Let_def heap_ok_def heap_le_def holds_def)
next
  case (Some e)
  obtain en where "c_heap c e = Some en" "e_key en = k" using inv_lookup [OF assms(1) Some] .
  then show ?thesis
    using Some assms by (auto simp: set_locked_def heap_ok_def heap_le_def holds_def)
qed

lemma probe_hit:
  assumes "Cache_inv c" and "get_probe k now c = (c', Hit e b)"
  shows "holds c' k e"
proof -
  obtain en where "map_of (c_items c) k = Some e" "c_heap c e = Some en"
    "c' = c\<lparr>c_heap := (c_heap c)(e \<mapsto> en\<lparr>e_hits := e_hits en + 1\<rparr>)\<rparr>"
    using assms(2) by (auto simp: get_probe_def Let_def split: option.splits if_splits)
  then show ?thesis using inv_lookup [OF assms(1)] by (force simp: holds_def)
qed

lemma expired_hit:
  assumes "Cache_inv c" and "get_expired k now c = (c', Some e)"
  shows "holds c' k e"
proof -
  have "map_of (c_items c) k = Some e" "c' = c"
    using assms(2) by (auto simp: get_expired_def split: option.splits if_splits)
  then show ?thesis using inv_lookup [OF assms(1)] by (force simp: holds_def)
qed

lemma thread_step_ok:
  assumes "Cache_inv c" and "heap_ok ts c" and "thread_ok ts c t" and "thread_step t now c = (c', t')"
  shows "heap_ok ts c' \<and> heap_le c c' \<and> thread_ok ts c' t'"
proof (cases t)
  case (GetStart k)
  show ?thesis
  proof (cases "k_Name k = []")
    case False
    obtain c1 r where r: "get_probe k now c = (c1, r)" by force
    have "heap_ok ts c1 \<and> heap_le c c1" using probe_heap [OF assms(2), of k now] r by simp
    moreover have "c' = c1 \<and> thread_ok ts c1 t'"
      using assms(4) GetStart False r probe_hit [OF assms(1)]
      by (cases r) (auto split: if_splits bool.splits)
    ultimately show ?thesis by simp
  qed (use assms GetStart in auto)
next
  case (GetExpired k)
  obtain c1 r where r: "get_expired k now c = (c1, r)" by force
  have "c_heap c1 = c_heap c" using get_expired_heap [of k now c] r by simp
  moreover have "c' = c1 \<and> thread_ok ts c1 t'"
    using assms(4) GetExpired r expired_hit [OF assms(1)] by (cases r) auto
  ultimately show ?thesis using heap_ok_same [OF assms(2)] by simp
next
  case (GetCopy k e x)
  then obtain en where "c_heap c e = Some en" "e_key en = k" using assms(3) by (auto simp: holds_def)
  moreover from this have "written ts k (e_msg en)" using assms(2) by (auto simp: heap_ok_def)
  ultimately show ?thesis
    using GetCopy assms get_copy_retimed [of en x] by auto
next
  case (SetStart k mo)
  then show ?thesis
    using assms by (auto simp: written_def cacheable_def split: option.splits if_splits)
next
  case (SetLocked k m x)
  then show ?thesis using assms set_locked_heap [OF assms(1,2)] by auto
next
  case (GetPromote k e x)
  then show ?thesis using assms heap_ok_same [OF assms(2)] by (auto simp: holds_def)
next
  case (ResizeStart n)
  then show ?thesis using assms heap_ok_same [OF assms(2)] SetMaxEntries_heap [OF assms(1)] by auto
qed (use assms heap_ok_same [OF assms(2)] in auto)

lemma cache_step_ok:
  assumes "cache_step s s'" and "Cache_inv (cs_cache s)" and "heap_ok ts (cs_cache s)"
    and "\<forall>t \<in> set (cs_threads s). thread_ok ts (cs_cache s) t"
  shows "heap_ok ts (cs_cache s') \<and> (\<forall>t \<in> set (cs_threads s'). thread_ok ts (cs_cache s') t)"
  using assms(1)
proof (cases rule: cache_step.cases)
  case (run i c' t')
  have "thread_ok ts (cs_cache s) (cs_threads s ! i)" using assms(4) run by simp
  note ok = thread_step_ok [OF assms(2,3) this run(3)]
  show ?thesis
    using ok run assms(4)
    by (auto dest!: subsetD [OF set_update_subset_insert] intro: thread_ok_mono)
next
  case (tick t)
  then show ?thesis using assms by simp
qed

lemma cache_reach_ok:
  assumes "cache_reach s s'" and "Cache_inv (cs_cache s) \<and> Cache_bounded (cs_cache s)"
    and "heap_ok ts (cs_cache s)" and "\<forall>t \<in> set (cs_threads s). thread_ok ts (cs_cache s) t"
  shows "heap_ok ts (cs_cache s') \<and> (\<forall>t \<in> set (cs_threads s'). thread_ok ts (cs_cache s') t)"
  using assms
proof (induction rule: cache_reach.induct)
  case (more s s' s'')
  then show ?case using cache_step_ok cache_reach_inv by blast
qed blast

text \<open>A scheduler: run the threads in the given order.\<close>

fun schedule :: "nat list \<Rightarrow> cstate \<Rightarrow> cstate" where
  "schedule [] s = s"
| "schedule (i # is) s =
     (if i < length (cs_threads s)
      then let (c', t') = thread_step (cs_threads s ! i) (cs_now s) (cs_cache s)
           in schedule is (s\<lparr>cs_cache := c', cs_threads := (cs_threads s)[i := t']\<rparr>)
      else schedule is s)"

lemma reach_trans: "cache_reach b c \<Longrightarrow> cache_reach a b \<Longrightarrow> cache_reach a c"
  by (induction rule: cache_reach.induct) (auto intro: cache_reach.more)

lemma schedule_reach: "cache_reach s (schedule is s)"
proof (induction "is" arbitrary: s)
  case (Cons i "is")
  show ?case
  proof (cases "i < length (cs_threads s)")
    case True
    obtain c' t' where st: "thread_step (cs_threads s ! i) (cs_now s) (cs_cache s) = (c', t')" by force
    from cache_reach.more [OF cache_reach.start cache_step.run [OF True st]]
    show ?thesis using Cons.IH True st by (auto intro: reach_trans)
  qed (simp add: Cons.IH)
qed (simp add: cache_reach.start)

subsection \<open>Sequential use\<close>

datatype cache_op = CGet Key time | CSet Key "Msg option" time | CPurge | CResize int

fun cache_run1 :: "cache_op \<Rightarrow> Cache \<Rightarrow> Cache" where
  "cache_run1 (CGet k now) c = fst (Cache_Get k now c)"
| "cache_run1 (CSet k m now) c = Cache_Set k m now c"
| "cache_run1 CPurge c = Cache_Purge c"
| "cache_run1 (CResize n) c = Cache_SetMaxEntries n c"

text \<open>The specification of the contents: the last cacheable write of each key since the last purge.\<close>

fun spec_step :: "cache_op \<Rightarrow> (Key \<rightharpoonup> Msg \<times> time) \<Rightarrow> (Key \<rightharpoonup> Msg \<times> time)" where
  "spec_step (CGet k now) h = h"
| "spec_step (CSet k mo now) h =
     (case mo of Some m \<Rightarrow> if k_Name k \<noteq> [] \<and> cacheable m then h(k \<mapsto> (m, now)) else h | None \<Rightarrow> h)"
| "spec_step CPurge h = Map.empty"
| "spec_step (CResize n) h = h"

definition agrees :: "Cache \<Rightarrow> (Key \<rightharpoonup> Msg \<times> time) \<Rightarrow> bool" where
  "agrees c h \<longleftrightarrow>
     (\<forall>k e. map_of (c_items c) k = Some e \<longrightarrow>
        (\<exists>en m t. c_heap c e = Some en \<and> h k = Some (m, t) \<and> e_msg en = m \<and> e_expire en = t + entryTTL c m))"

lemma agreesD:
  assumes "agrees c h" and "map_of (c_items c) k = Some e" and "c_heap c e = Some en"
  shows "\<exists>t. h k = Some (e_msg en, t) \<and> e_expire en = t + entryTTL c (e_msg en)"
  using assms unfolding agrees_def by fastforce

lemma entryTTL_cong: "c_ttlCap c' = c_ttlCap c \<Longrightarrow> entryTTL c' m = entryTTL c m"
  by (simp add: entryTTL_def)

lemma agrees_mono:
  assumes "agrees c h" and "\<And>k e. map_of (c_items c') k = Some e \<Longrightarrow> map_of (c_items c) k = Some e"
    and "c_heap c' = c_heap c" and "c_ttlCap c' = c_ttlCap c"
  shows "agrees c' h"
  using assms entryTTL_cong [OF assms(4)] unfolding agrees_def by metis

lemma agrees_probe:
  assumes "agrees c h"
  shows "agrees (fst (get_probe k now c)) h"
proof -
  have ttl: "entryTTL (fst (get_probe k now c)) m = entryTTL c m" for m
    by (rule entryTTL_cong) (rule probe_fields)
  have heap: "\<exists>en'. c_heap (fst (get_probe k now c)) e = Some en' \<and> e_msg en' = e_msg en \<and> e_expire en' = e_expire en"
    if "c_heap c e = Some en" for e en
    using that by (auto simp: get_probe_def Let_def split: option.splits)
  show ?thesis
    unfolding agrees_def probe_fields ttl
  proof (intro allI impI)
    fix k' e assume "map_of (c_items c) k' = Some e"
    then obtain en t where "c_heap c e = Some en" "h k' = Some (e_msg en, t)"
      "e_expire en = t + entryTTL c (e_msg en)" using assms unfolding agrees_def by blast
    then show "\<exists>en m t. c_heap (fst (get_probe k now c)) e = Some en \<and> h k' = Some (m, t)
        \<and> e_msg en = m \<and> e_expire en = t + entryTTL c m"
      using heap [of e en] by auto
  qed
qed

lemma agrees_set:
  assumes inv: "Cache_inv c" and "agrees c h"
  shows "agrees (set_locked k m (now + entryTTL c m) c) (h(k \<mapsto> (m, now)))"
proof (cases "map_of (c_items c) k")
  case None
  let ?c = "c\<lparr>c_heap := (c_heap c)(c_next c \<mapsto> \<lparr>e_key = k, e_msg = m, e_expire = now + entryTTL c m, e_hits = 0\<rparr>),
    c_next := Suc (c_next c), c_lru := c_next c # c_lru c, c_items := AList.update k (c_next c) (c_items c)\<rparr>"
  have "agrees ?c (h(k \<mapsto> (m, now)))"
    unfolding agrees_def
  proof (intro allI impI)
    fix k' e assume a: "map_of (c_items ?c) k' = Some e"
    show "\<exists>en m' t. c_heap ?c e = Some en \<and> (h(k \<mapsto> (m, now))) k' = Some (m', t)
        \<and> e_msg en = m' \<and> e_expire en = t + entryTTL ?c m'"
    proof (cases "k' = k")
      case False
      with a have k': "map_of (c_items c) k' = Some e" by simp
      then obtain en where "c_heap c e = Some en" "e < c_next c" using inv_lookup [OF inv] by blast
      then show ?thesis
        using agreesD [OF assms(2) k', of en] False by (auto simp: entryTTL_def split: if_splits)
    qed (use a in \<open>simp add: entryTTL_def\<close>)
  qed
  then have "agrees (evictLocked ?c) (h(k \<mapsto> (m, now)))"
    using evict_fields [OF insert_inv [OF inv None, of m "now + entryTTL c m" 0]]
    by (elim agrees_mono) simp_all
  then show ?thesis using None by (simp add: set_locked_def Let_def)
next
  case (Some e)
  obtain en where en: "c_heap c e = Some en" "e_key en = k" using inv_lookup [OF inv Some] .
  show ?thesis
    unfolding agrees_def
  proof (intro allI impI)
    fix k' e' assume a: "map_of (c_items (set_locked k m (now + entryTTL c m) c)) k' = Some e'"
    have k': "map_of (c_items c) k' = Some e'" using a Some by (simp add: set_locked_def)
    show "\<exists>en m' t. c_heap (set_locked k m (now + entryTTL c m) c) e' = Some en
        \<and> (h(k \<mapsto> (m, now))) k' = Some (m', t) \<and> e_msg en = m'
        \<and> e_expire en = t + entryTTL (set_locked k m (now + entryTTL c m) c) m'"
    proof (cases "k' = k")
      case True
      then show ?thesis using k' Some en by (simp add: set_locked_def entryTTL_def)
    next
      case False
      then have "e' \<noteq> e" using k' Some inv_key_unique [OF inv] by blast
      moreover obtain en' where "c_heap c e' = Some en'" using inv_lookup [OF inv k'] .
      ultimately show ?thesis
        using agreesD [OF assms(2) k', of en'] False Some en
        by (auto simp: set_locked_def entryTTL_def split: if_splits)
    qed
  qed
qed

lemma Get_cache:
  obtains c1 where "fst (Cache_Get k now c) = c \<or> fst (Cache_Get k now c) = c1
      \<or> fst (Cache_Get k now c) = fst (get_expired k now c1) \<or> (\<exists>e. fst (Cache_Get k now c) = get_promote k e c1)"
    "c1 = fst (get_probe k now c)"
  by (rule that [of "fst (get_probe k now c)"])
     (auto simp: Cache_Get_def Let_def split: prod.splits probe.splits option.splits)

lemma Get_run:
  assumes "Cache_inv c \<and> Cache_bounded c \<and> agrees c h"
  shows "Cache_inv (fst (Cache_Get k now c)) \<and> Cache_bounded (fst (Cache_Get k now c))
    \<and> agrees (fst (Cache_Get k now c)) h"
proof -
  obtain c1 where c: "fst (Cache_Get k now c) = c \<or> fst (Cache_Get k now c) = c1
      \<or> fst (Cache_Get k now c) = fst (get_expired k now c1) \<or> (\<exists>e. fst (Cache_Get k now c) = get_promote k e c1)"
    and c1: "c1 = fst (get_probe k now c)" by (rule Get_cache)
  have ok: "Cache_inv c1" "Cache_bounded c1" "agrees c1 h"
    using assms by (simp_all add: c1 get_probe_inv bounded_simps agrees_probe)
  have "agrees (fst (get_expired k now c1)) h"
    using get_expired_eq [of k now c1] by (intro agrees_mono [OF ok(3)]) (auto split: if_splits)
  moreover have "agrees (get_promote k e c1) h" for e
    by (rule agrees_mono [OF ok(3)]) (auto simp: get_promote_def split: if_splits)
  ultimately show ?thesis
    using c assms ok get_expired_inv [OF ok(1)] get_promote_inv [OF ok(1)] bounded_simps(2,3) [OF ok(2)]
    by auto
qed

definition run_ok :: "Cache \<times> (Key \<rightharpoonup> Msg \<times> time) \<Rightarrow> bool" where
  "run_ok ch \<longleftrightarrow> Cache_inv (fst ch) \<and> Cache_bounded (fst ch) \<and> agrees (fst ch) (snd ch)"

definition run_step ::
  "cache_op \<Rightarrow> Cache \<times> (Key \<rightharpoonup> Msg \<times> time) \<Rightarrow> Cache \<times> (Key \<rightharpoonup> Msg \<times> time)" where
  "run_step e ch = (cache_run1 e (fst ch), spec_step e (snd ch))"

lemma run_step_ok: "run_ok ch \<Longrightarrow> run_ok (run_step e ch)"
proof (cases e)
  case (CGet k now)
  then show "run_ok ch \<Longrightarrow> ?thesis" using Get_run [of "fst ch" "snd ch"] by (simp add: run_ok_def run_step_def)
next
  case (CSet k mo now)
  assume ok: "run_ok ch"
  then show ?thesis
    using CSet agrees_set [of "fst ch" "snd ch" k] set_locked_inv [of "fst ch" k]
    by (auto simp: run_ok_def run_step_def Cache_Set_def cacheable_def split: option.splits)
next
  case CPurge
  then show "run_ok ch \<Longrightarrow> ?thesis"
    by (simp add: run_ok_def run_step_def Purge_inv bounded_simps) (simp add: Cache_Purge_def agrees_def)
next
  case (CResize n)
  assume ok: "run_ok ch"
  let ?c = "(fst ch)\<lparr>c_maxEntries := (if n < 0 then 0 else n)\<rparr>"
  have "agrees ?c (snd ch)" using ok by (auto simp: run_ok_def intro: agrees_mono)
  then have "agrees (evictLocked ?c) (snd ch)"
    using evict_fields [of ?c] ok by (elim agrees_mono) (simp_all add: run_ok_def)
  then show ?thesis
    using ok CResize SetMaxEntries_inv [of "fst ch" n] by (simp add: run_ok_def run_step_def Cache_SetMaxEntries_def)
qed

interpretation cache_run: invariant_steps run_step run_ok
  by unfold_locales (rule run_step_ok)

lemma run_split:
  "fold run_step ops (c, h) = (fold cache_run1 ops c, fold spec_step ops h)"
  by (induction ops arbitrary: c h) (simp_all add: run_step_def)

lemma reached_ok:
  "run_ok (fold cache_run1 ops (NewCache cap n), fold spec_step ops Map.empty)"
  using cache_run.run_inv [of "(NewCache cap n, Map.empty)" ops] NewCache_inv [of cap n]
  by (simp add: run_split run_ok_def agrees_def NewCache_def)

lemma Get_result:
  assumes "Cache_inv c" and "snd (Cache_Get k now c) = Some m'"
  shows "\<exists>e en. k_Name k \<noteq> [] \<and> map_of (c_items c) k = Some e \<and> c_heap c e = Some en \<and> now \<le> e_expire en
    \<and> m' = get_copy en now"
proof -
  have copy: "get_copy (en\<lparr>e_hits := x\<rparr>) now = get_copy en now" for en x
    by (simp add: get_copy_def)
  show ?thesis
  proof (cases "map_of (c_items c) k")
    case None
    then show ?thesis using assms(2) by (simp add: Cache_Get_def get_probe_def split: if_splits)
  next
    case (Some e)
    obtain en where en: "c_heap c e = Some en" using inv_lookup [OF assms(1) Some] .
    then show ?thesis
      using assms(2) Some copy
      by (auto simp: Cache_Get_def get_probe_def get_expired_def get_promote_def Let_def split: if_splits)
  qed
qed

lemma Get_hit:
  assumes "map_of (c_items c) k = Some e" and "c_heap c e = Some en" and "k_Name k \<noteq> []" and "now \<le> e_expire en"
  shows "snd (Cache_Get k now c) = Some (get_copy en now)"
  using assms by (auto simp: Cache_Get_def get_probe_def get_promote_def get_copy_def Let_def)

subsection \<open>TTL arithmetic\<close>

lemma fold_minStep:
  "snd acc \<Longrightarrow> fold minStep rrs acc = (fst (fold minStep rrs acc), True)
     \<and> fst (fold minStep rrs acc) \<le> fst acc
     \<and> (\<forall>rr \<in> set rrs. fst (fold minStep rrs acc) \<le> rr_Ttl rr)"
proof (induction rrs arbitrary: acc)
  case (Cons rr rrs)
  then have "snd (minStep rr acc)" "fst (minStep rr acc) \<le> fst acc" "fst (minStep rr acc) \<le> rr_Ttl rr"
    by (auto simp: minStep_def split: prod.splits)
  with Cons.IH [of "minStep rr acc"] show ?case by (auto intro: order_trans)
qed (simp add: prod_eq_iff)

lemma fold_minStep_start:
  assumes "rrs \<noteq> []"
  shows "\<exists>mn. fold minStep rrs (0, False) = (mn, True) \<and> (\<forall>rr \<in> set rrs. mn \<le> rr_Ttl rr)"
proof -
  obtain r rs where "rrs = r # rs" using assms by (cases rrs) auto
  then show ?thesis using fold_minStep [of "(rr_Ttl r, True)" rs] by (auto simp: minStep_def intro!: exI)
qed

lemma minTTL_bounds: "Second \<le> minTTL m \<and> minTTL m \<le> (2 ^ 32 - 1) * Second"
proof -
  have "uint x \<le> 2 ^ 32 - 1" for x :: u32 using uint_lt2p [of x] by simp
  moreover have "x \<noteq> 0 \<Longrightarrow> 1 \<le> uint x" for x :: u32
    using uint_ge_0 [of x] by (metis int_one_le_iff_zero_less le_less uint_0_iff)
  ultimately show ?thesis
    unfolding minTTL_def by (auto split: prod.splits)
qed

lemma minTTL_le:
  assumes "rr \<in> set (m_Answer m)"
  shows "minTTL m \<le> max 1 (uint (rr_Ttl rr)) * Second"
proof -
  obtain mn where mn: "fold minStep (m_Answer m) (0, False) = (mn, True)" "mn \<le> rr_Ttl rr"
    using fold_minStep_start [of "m_Answer m"] assms by (metis empty_iff list.set(1))
  then obtain mn' where "fold minStep (m_Ns m) (mn, True) = (mn', True)" "mn' \<le> mn"
    using fold_minStep [of "(mn, True)" "m_Ns m"] by (metis fst_conv snd_conv)
  moreover from this mn(2) have "uint mn' \<le> uint (rr_Ttl rr)" by (metis order_trans word_le_def)
  ultimately show ?thesis using mn(1) by (auto simp: minTTL_def word_less_def)
qed

lemma copy_answer:
  assumes "0 \<le> e_expire en - now" and "e_expire en - now \<le> (2 ^ 32 - 1) * Second"
    and "rr \<in> set (m_Answer (get_copy en now))"
  shows "uint (rr_Ttl rr) = max 1 ((e_expire en - now) div Second)"
proof -
  let ?d = "(e_expire en - now) div Second"
  have d: "0 \<le> ?d" "?d < 2 ^ 32" using assms(1,2) by (simp_all add: pos_imp_zdiv_nonneg_iff)
  have "(e_expire en - now) sdiv Second = ?d"
    using assms(1) by (simp add: signed_divide_int_def sgn_if)
  moreover have "uint (word_of_int ?d :: u32) = ?d" using d by (simp add: uint_word_of_int)
  ultimately show ?thesis
    using assms(3) d by (auto simp: get_copy_def Let_def word_less_def)
qed

subsection \<open>Keys\<close>

lemma bar_split:
  "a @ CHR ''|'' # x = b @ CHR ''|'' # y \<Longrightarrow> CHR ''|'' \<notin> set a \<Longrightarrow> CHR ''|'' \<notin> set b \<Longrightarrow> a = b \<and> x = y"
proof (induction a arbitrary: b)
  case Nil
  then show ?case by (cases b) auto
next
  case (Cons c cs)
  then show ?case by (cases b) auto
qed

lemma Itoa_no_bar: "CHR ''|'' \<notin> set (Itoa (uint (w :: u16)))"
  using Itoa_nat_digits [of "uint w" "CHR ''|''"] by (auto simp: isDigit_def)

subsection \<open>Properties\<close>

text \<open>
  C20. The cache's structure survives any concurrency. From an empty cache, whatever
  readers, writers, purges and resizes run and however their lock regions interleave, the
  item map and the LRU list always hold the same entries, each once and under its own key,
  and there are never more than the configured maximum.
\<close>

theorem cache_concurrent_invariant:
  assumes "cache_reach \<lparr>cs_cache = NewCache cap n, cs_threads = ts, cs_now = t0\<rparr> s"
  shows "Cache_inv (cs_cache s)
    \<and> (0 < c_maxEntries (cs_cache s) \<longrightarrow> int (Cache_Len (cs_cache s)) \<le> c_maxEntries (cs_cache s))"
proof -
  have "Cache_inv (cs_cache s) \<and> Cache_bounded (cs_cache s)"
    using cache_reach_inv [OF assms] NewCache_inv [of cap n] by simp
  then show ?thesis using items_lru_length [of "cs_cache s"] by (simp add: Cache_bounded_def Cache_Len_def)
qed

definition wKey :: Key where
  "wKey = \<lparr>k_Name = ''example.com.'', k_Label = [], k_QType = TypeA, k_QClass = ClassINET\<rparr>"

definition wMsg :: Msg where
  "wMsg = emptyMsg\<lparr>m_Answer := [mkRR ''example.com.'' TypeA 300 (A [192, 0, 2, 1])]\<rparr>"

definition wStart :: cstate where
  "wStart = \<lparr>cs_cache = NewCache Hour 1, cs_threads = [SetStart wKey (Some wMsg), GetStart wKey], cs_now = 0\<rparr>"

theorem cache_concurrent_invariant_witness:
  "\<exists>s. cache_reach wStart s \<and> Cache_Len (cs_cache s) = 1 \<and> Cache_inv (cs_cache s)"
proof -
  let ?s = "schedule [0, 1, 0, 1, 1] wStart"
  have "Cache_inv (cs_cache ?s)"
    by (rule cache_concurrent_invariant [THEN conjunct1, OF schedule_reach [of wStart, unfolded wStart_def],
          folded wStart_def])
  moreover have "Cache_Len (cs_cache ?s) = 1" by code_simp
  ultimately show ?thesis using schedule_reach by blast
qed

text \<open>
  No reader ever sees another key's answer. Under any interleaving, also while its
  entry is evicted, expired or overwritten between its lock regions, a \<open>Get\<close> that returns a
  message returns one that some writer stored under that very key and that is cacheable
  (NOERROR or NXDOMAIN), changed only in the TTLs of its answers.
\<close>

theorem get_returns_written:
  assumes "cache_reach \<lparr>cs_cache = NewCache cap n, cs_threads = ts, cs_now = t0\<rparr> s"
    and "\<forall>t \<in> set ts. case t of GetStart _ \<Rightarrow> True | SetStart _ _ \<Rightarrow> True | PurgeStart \<Rightarrow> True
           | ResizeStart _ \<Rightarrow> True | _ \<Rightarrow> False"
    and "GetDone k (Some m) \<in> set (cs_threads s)"
  shows "\<exists>m0. SetStart k (Some m0) \<in> set ts \<and> cacheable m0 \<and> retimed m0 m"
proof -
  have "thread_ok ts c t" if "t \<in> set ts" for t and c :: Cache
  proof -
    have "case t of GetStart _ \<Rightarrow> True | SetStart _ _ \<Rightarrow> True | PurgeStart \<Rightarrow> True
           | ResizeStart _ \<Rightarrow> True | _ \<Rightarrow> False" using assms(2) that by blast
    then show ?thesis using that by (auto split: thread.splits)
  qed
  then have "\<forall>t \<in> set (cs_threads s). thread_ok ts (cs_cache s) t"
    using cache_reach_ok [OF assms(1), of ts] NewCache_inv [of cap n]
    by (simp add: NewCache_def heap_ok_def)
  with assms(3) have "thread_ok ts (cs_cache s) (GetDone k (Some m))" by blast
  then show ?thesis by (auto simp: written_def)
qed

theorem get_returns_written_witness:
  "\<exists>s m m0. cache_reach wStart s \<and> GetDone wKey (Some m) \<in> set (cs_threads s)
     \<and> SetStart wKey (Some m0) \<in> set (cs_threads wStart) \<and> retimed m0 m"
proof -
  let ?s = "schedule [0, 0, 1, 1] wStart"
  have "\<exists>m. cs_threads ?s ! 1 = GetDone wKey (Some m) \<and> length (cs_threads ?s) = 2"
    by (rule exI [of _ wMsg]) code_simp
  then obtain m where m: "GetDone wKey (Some m) \<in> set (cs_threads ?s)"
    by (metis nth_mem one_less_numeral_iff semiring_norm(76))
  have "\<exists>m0. SetStart wKey (Some m0) \<in> set (cs_threads wStart) \<and> cacheable m0 \<and> retimed m0 m"
    using get_returns_written [OF schedule_reach [of wStart "[0, 0, 1, 1]", unfolded wStart_def] _ m [unfolded wStart_def]]
    by (simp add: wStart_def)
  then show ?thesis using m schedule_reach by blast
qed

text \<open>
  C21. Answers are fresh. In sequential use, a hit for a key at time \<open>now\<close> returns the last
  cacheable message written under it since the last purge, not later than its smallest
  record TTL (or the cap) after it was written; every answer carries the whole seconds
  that remain, at least one, and so never more than its published TTL.
\<close>

theorem get_fresh:
  assumes "c = fold cache_run1 ops (NewCache cap n)" and "snd (Cache_Get k now c) = Some m'"
  shows "\<exists>m t0. fold spec_step ops Map.empty k = Some (m, t0) \<and> retimed m m'
    \<and> now \<le> t0 + min (minTTL m) (c_ttlCap c)
    \<and> (t0 \<le> now \<longrightarrow>
        list_all2 (\<lambda>r r'. uint (rr_Ttl r') = max 1 ((t0 + min (minTTL m) (c_ttlCap c) - now) div Second)
            \<and> uint (rr_Ttl r') \<le> max 1 (uint (rr_Ttl r))) (m_Answer m) (m_Answer m'))"
proof -
  have ok: "Cache_inv c" "agrees c (fold spec_step ops Map.empty)"
    using reached_ok [of ops cap n] by (simp_all add: assms(1) run_ok_def)
  obtain e en where e: "map_of (c_items c) k = Some e" "c_heap c e = Some en" "now \<le> e_expire en"
    "m' = get_copy en now" using Get_result [OF ok(1) assms(2)] by blast
  obtain t0 where t0: "fold spec_step ops Map.empty k = Some (e_msg en, t0)"
    "e_expire en = t0 + entryTTL c (e_msg en)" using agreesD [OF ok(2) e(1,2)] by blast
  let ?m = "e_msg en"
  have ttl: "entryTTL c ?m = min (minTTL ?m) (c_ttlCap c)" by (simp add: entryTTL_def)
  have answers: "list_all2 (\<lambda>r r'. uint (rr_Ttl r') = max 1 ((e_expire en - now) div Second)
            \<and> uint (rr_Ttl r') \<le> max 1 (uint (rr_Ttl r))) (m_Answer ?m) (m_Answer m')" if "t0 \<le> now"
  proof -
    have rem: "0 \<le> e_expire en - now" "e_expire en - now \<le> minTTL ?m"
      using e(3) that t0(2) ttl by auto
    then have "e_expire en - now \<le> (2 ^ 32 - 1) * Second" using minTTL_bounds [of ?m] by simp
    note ans = copy_answer [OF rem(1) this]
    have "(e_expire en - now) div Second \<le> max 1 (uint (rr_Ttl r))" if "r \<in> set (m_Answer ?m)" for r
    proof -
      have "e_expire en - now \<le> max 1 (uint (rr_Ttl r)) * Second" using minTTL_le [OF that] rem(2) by simp
      from zdiv_mono1 [OF this, of Second] show ?thesis by simp
    qed
    moreover have "length (m_Answer m') = length (m_Answer ?m)" by (simp add: e(4) get_copy_def Let_def)
    ultimately show ?thesis
      using ans by (auto simp: list_all2_conv_all_nth e(4))
  qed
  then show ?thesis
    using t0 e(3,4) ttl get_copy_retimed [of en now] by (intro exI [of _ ?m] exI [of _ t0]) auto
qed

definition wOps :: "cache_op list" where
  "wOps = [CSet wKey (Some wMsg) 0, CGet wKey Second, CResize 5]"

theorem get_fresh_witness:
  "\<exists>m' m t0. snd (Cache_Get wKey (100 * Second) (fold cache_run1 wOps (NewCache Hour 1))) = Some m'
     \<and> map rr_Ttl (m_Answer m') = [200] \<and> fold spec_step wOps Map.empty wKey = Some (m, t0) \<and> retimed m m'"
proof -
  have "map_option (\<lambda>m. map rr_Ttl (m_Answer m))
      (snd (Cache_Get wKey (100 * Second) (fold cache_run1 wOps (NewCache Hour 1)))) = Some [200]" by code_simp
  then obtain m' where m': "snd (Cache_Get wKey (100 * Second) (fold cache_run1 wOps (NewCache Hour 1))) = Some m'"
    "map rr_Ttl (m_Answer m') = [200]" by auto
  from get_fresh [OF refl m'(1)] obtain m t0 where
    "fold spec_step wOps Map.empty wKey = Some (m, t0)" "retimed m m'" by (elim exE conjE)
  with m' show ?thesis by (intro exI conjI)
qed

text \<open>
  What is stored can be read back. A cacheable message written under a named key is
  returned by every \<open>Get\<close> until it expires, however small the cache is: trimming never takes
  the entry just written.
\<close>

theorem set_then_get:
  assumes "c = fold cache_run1 ops (NewCache cap n)" and "k_Name k \<noteq> []" and "cacheable m"
    and "now \<le> t0 + min (minTTL m) (c_ttlCap c)"
  shows "\<exists>m'. snd (Cache_Get k now (Cache_Set k (Some m) t0 c)) = Some m' \<and> retimed m m'"
proof -
  have inv: "Cache_inv c" using reached_ok [of ops cap n] by (simp add: assms(1) run_ok_def)
  define x where "x = t0 + entryTTL c m"
  have x: "now \<le> x" using assms(4) by (auto simp: x_def entryTTL_def min_def split: if_splits)
  have "\<exists>e en. map_of (c_items (set_locked k m x c)) k = Some e
      \<and> c_heap (set_locked k m x c) e = Some en \<and> e_msg en = m \<and> e_expire en = x"
  proof (cases "map_of (c_items c) k")
    case None
    let ?c = "c\<lparr>c_heap := (c_heap c)(c_next c \<mapsto> \<lparr>e_key = k, e_msg = m, e_expire = x, e_hits = 0\<rparr>),
      c_next := Suc (c_next c), c_lru := c_next c # c_lru c, c_items := AList.update k (c_next c) (c_items c)\<rparr>"
    note ev = evict_fields [OF insert_inv [OF inv None, of m x 0]]
    have "c_next c \<in> set (c_lru (evictLocked ?c))" using ev by (auto simp: take_Cons')
    then have "map_of (c_items (evictLocked ?c)) k = Some (c_next c)" using ev by simp
    then show ?thesis using ev None by (simp add: set_locked_def Let_def)
  next
    case (Some e)
    obtain en where "c_heap c e = Some en" using inv_lookup [OF inv Some] .
    then show ?thesis using Some by (simp add: set_locked_def)
  qed
  then obtain e en where "map_of (c_items (set_locked k m x c)) k = Some e"
    "c_heap (set_locked k m x c) e = Some en" "e_msg en = m" "e_expire en = x" by blast
  moreover have "Cache_Set k (Some m) t0 c = set_locked k m x c"
    using assms(2,3) by (auto simp: Cache_Set_def cacheable_def x_def)
  ultimately show ?thesis using Get_hit [of _ k e en now] assms(2) x get_copy_retimed [of en now] by auto
qed

theorem set_then_get_witness:
  "\<exists>m'. snd (Cache_Get wKey 0 (Cache_Set wKey (Some wMsg) 0 (NewCache Hour 1))) = Some m' \<and> retimed wMsg m'"
  by (rule set_then_get [where ops = "[]" and cap = Hour and n = 1]) (simp, code_simp+)

text \<open>
  Failures are never cached, and a hit never goes upstream. A hit leaves the outside
  world untouched; a failed fetch, and one whose answer is neither NOERROR nor NXDOMAIN,
  leaves the cache as the lookup left it, so the next query asks again.
\<close>

theorem DoHit_spec:
  "case Cache_DoHit k now now' fn w c of
     (w', c', Inr (m, True)) \<Rightarrow> w' = w \<and> snd (Cache_Get k now c) = Some m \<and> c' = fst (Cache_Get k now c)
   | (w', c', Inr (m, False)) \<Rightarrow> snd (Cache_Get k now c) = None \<and> fn w = (w', Inr m)
       \<and> c' = (if k_Name k \<noteq> [] \<and> cacheable m
               then set_locked k m (now' + entryTTL (fst (Cache_Get k now c)) m) (fst (Cache_Get k now c))
               else fst (Cache_Get k now c))
   | (w', c', Inl e) \<Rightarrow> snd (Cache_Get k now c) = None \<and> fn w = (w', Inl e) \<and> c' = fst (Cache_Get k now c)"
proof -
  obtain c1 r where "Cache_Get k now c = (c1, r)" by force
  moreover obtain w1 f where "fn w = (w1, f)" by force
  ultimately show ?thesis
    by (cases r; cases f) (auto simp: Cache_DoHit_def Cache_Set_def cacheable_def)
qed

text \<open>
  Concurrent fetches are coalesced only for equal keys: the text that identifies a
  fetch in flight determines name, type, class and upstream partition, for names without a
  vertical bar.
\<close>

theorem Key_String_inj:
  assumes "CHR ''|'' \<notin> set (k_Name a)" and "CHR ''|'' \<notin> set (k_Name b)"
    and "Key_String a = Key_String b"
  shows "a = b"
proof -
  have n: "k_Name a = k_Name b"
    and r: "Itoa (uint (k_QType a)) @ ''|'' @ Itoa (uint (k_QClass a)) @ ''|'' @ k_Label a
       = Itoa (uint (k_QType b)) @ ''|'' @ Itoa (uint (k_QClass b)) @ ''|'' @ k_Label b"
    using bar_split [OF _ assms(1,2)] assms(3) by (auto simp: Key_String_def)
  then have t: "Itoa (uint (k_QType a)) = Itoa (uint (k_QType b))"
    and r2: "Itoa (uint (k_QClass a)) @ ''|'' @ k_Label a = Itoa (uint (k_QClass b)) @ ''|'' @ k_Label b"
    using bar_split [OF _ Itoa_no_bar Itoa_no_bar] by auto
  then have "Itoa (uint (k_QClass a)) = Itoa (uint (k_QClass b))" "k_Label a = k_Label b"
    using bar_split [OF _ Itoa_no_bar Itoa_no_bar] by auto
  then show ?thesis
    using n t Itoa_inj_nonneg by (cases a; cases b) (simp add: word_uint_eq_iff)
qed

theorem Key_String_inj_witness:
  "Key_String wKey \<noteq> Key_String (wKey\<lparr>k_Label := ''override''\<rparr>)"
proof -
  have "CHR ''|'' \<notin> set (k_Name wKey)" "CHR ''|'' \<notin> set (k_Name (wKey\<lparr>k_Label := ''override''\<rparr>))"
    by code_simp+
  from Key_String_inj [OF this] show ?thesis by (auto simp: wKey_def)
qed

end
