(* ===== verification/Blip_RateLimit.thy ===== *)
theory Blip_RateLimit
  imports Complex_Main Blip_Blocklist
begin

text \<open>
  The per-client query limiter (\<open>src/internal/dnsserver/ratelimit.go\<close>): token buckets in
  16 shards, refilled by elapsed time, bounded in number. Tokens are rational numbers where
  the program uses \<open>float64\<close>: rounding is not modelled. The list order of a shard stands for
  the order in which the eviction loop happens to visit its map.
\<close>

record tokenBucket =
  tb_tokens :: rat
  tb_last :: time

definition rlShards :: nat where "rlShards = 16"

definition maxLiveClients :: nat where "maxLiveClients = 16384"

type_synonym rlShard = "(string \<times> tokenBucket) list"

record rateLimiter =
  rl_qps :: int
  rl_burst :: int
  rl_shards :: "rlShard list"
  rl_off :: bool

definition newRateLimiter :: rateLimiter where
  "newRateLimiter = \<lparr>rl_qps = 0, rl_burst = 0, rl_shards = replicate rlShards [], rl_off = False\<rparr>"

definition rateLimiter_set :: "int \<Rightarrow> int \<Rightarrow> rateLimiter \<Rightarrow> rateLimiter" where
  "rateLimiter_set qps0 burst0 rl =
     (let qps = (if qps0 < 0 then 0 else qps0);
          burst = (if burst0 \<le> 0 then (if qps < 1 then 1 else qps) else burst0)
      in rl\<lparr>rl_qps := qps, rl_burst := burst, rl_shards := map (\<lambda>_. []) (rl_shards rl), rl_off := (qps = 0)\<rparr>)"

definition rateLimiter_qps :: "rateLimiter \<Rightarrow> int" where
  "rateLimiter_qps rl = rl_qps rl"

text \<open>FNV-1a of the client, masked to the shard count.\<close>

definition rlShardFor :: "string \<Rightarrow> nat" where
  "rlShardFor client = unat (and (foldl fnvStep 2166136261 client) (of_nat (rlShards - 1)))"

text \<open>Evict the first idle bucket met, if any.\<close>

definition evictIdle :: "time \<Rightarrow> rlShard \<Rightarrow> rlShard" where
  "evictIdle now sh =
     (case find (\<lambda>(k, v). Minute < now - tb_last v) sh of
        None \<Rightarrow> sh
      | Some (k, _) \<Rightarrow> AList.delete k sh)"

text \<open>Refill by the elapsed time, cap at the burst, take a token if there is one.\<close>

definition takeToken :: "int \<Rightarrow> int \<Rightarrow> time \<Rightarrow> tokenBucket \<Rightarrow> tokenBucket \<times> bool" where
  "takeToken qps burst now b =
     (let elapsed = of_int (now - tb_last b) / of_int Second;
          t1 = tb_tokens b + elapsed * of_int qps;
          t2 = (if of_int burst < t1 then of_int burst else t1)
      in if 1 \<le> t2 then (\<lparr>tb_tokens = t2 - 1, tb_last = now\<rparr>, True)
         else (\<lparr>tb_tokens = t2, tb_last = now\<rparr>, False))"

definition shardAllow :: "int \<Rightarrow> int \<Rightarrow> string \<Rightarrow> time \<Rightarrow> rlShard \<Rightarrow> rlShard \<times> bool" where
  "shardAllow qps burst client now sh =
     (case map_of sh client of
        Some b \<Rightarrow> (case takeToken qps burst now b of (b', ok) \<Rightarrow> (AList.update client b' sh, ok))
      | None \<Rightarrow>
          let lim = maxLiveClients div rlShards;
              sh1 = (if lim \<le> length sh then evictIdle now sh else sh)
          in if lim \<le> length sh1 then (sh1, True)
             else case takeToken qps burst now \<lparr>tb_tokens = of_int burst, tb_last = now\<rparr> of
                    (b', ok) \<Rightarrow> (AList.update client b' sh1, ok))"

definition rateLimiter_allow :: "string \<Rightarrow> time \<Rightarrow> rateLimiter \<Rightarrow> rateLimiter \<times> bool" where
  "rateLimiter_allow client now rl =
     (if client = [] \<or> rl_off rl then (rl, True)
      else if rl_qps rl \<le> 0 then (rl, True)
      else
        let i = rlShardFor client in
        case shardAllow (rl_qps rl) (rl_burst rl) client now (rl_shards rl ! i) of
          (sh, ok) \<Rightarrow> (rl\<lparr>rl_shards := (rl_shards rl)[i := sh]\<rparr>, ok))"

subsection \<open>Shards\<close>

lemma rlShardFor_less: "rlShardFor client < rlShards"
proof -
  have "and x (of_nat 15) = take_bit 4 x" for x :: u32
    by (simp add: take_bit_eq_mask mask_eq_exp_minus_1)
  then have "unat (and x (of_nat 15 :: u32)) < 16" for x :: u32
    using take_bit_nat_less_exp [of 4 "unat x"] by (simp add: unsigned_take_bit_eq)
  then show ?thesis by (simp add: rlShardFor_def rlShards_def)
qed

definition limiter_inv :: "rateLimiter \<Rightarrow> bool" where
  "limiter_inv rl \<longleftrightarrow>
     length (rl_shards rl) = rlShards
     \<and> (\<forall>sh \<in> set (rl_shards rl). distinct (map fst sh) \<and> length sh \<le> maxLiveClients div rlShards)
     \<and> 0 \<le> rl_qps rl \<and> (0 < rl_qps rl \<longrightarrow> 1 \<le> rl_burst rl)"

lemma length_delete_le: "length (AList.delete k sh) \<le> length sh"
  by (simp add: AList.delete_eq)

lemma length_update: "length (AList.update k v sh) = (if k \<in> fst ` set sh then length sh else Suc (length sh))"
  by (induction sh) auto

lemma evictIdle_ok:
  "length (evictIdle now sh) \<le> length sh" "distinct (map fst sh) \<Longrightarrow> distinct (map fst (evictIdle now sh))"
  "set (evictIdle now sh) \<subseteq> set sh"
  by (auto simp: evictIdle_def length_delete_le dest: subsetD [OF set_delete_subset] split: option.splits)

lemma shardAllow_ok:
  assumes "distinct (map fst sh)" and "length sh \<le> maxLiveClients div rlShards"
  shows "distinct (map fst (fst (shardAllow q b cl now sh)))
    \<and> length (fst (shardAllow q b cl now sh)) \<le> maxLiveClients div rlShards"
proof (cases "map_of sh cl")
  case (Some bk)
  then have "cl \<in> fst ` set sh" by (metis map_of_None_iff option.distinct(1))
  then show ?thesis using assms Some by (simp add: shardAllow_def length_update split: prod.splits)
next
  case None
  then show ?thesis
    using assms evictIdle_ok(1) [of now sh] evictIdle_ok(2) [of sh now]
    by (auto simp: shardAllow_def Let_def length_update split: prod.splits)
qed

lemma allow_inv [blip_inv]: "limiter_inv rl \<Longrightarrow> limiter_inv (fst (rateLimiter_allow cl now rl))"
  using shardAllow_ok [of "rl_shards rl ! rlShardFor cl" "rl_qps rl" "rl_burst rl" cl now] rlShardFor_less [of cl]
  by (auto simp: rateLimiter_allow_def limiter_inv_def Let_def split: prod.splits
      dest!: subsetD [OF set_update_subset_insert])

lemma set_inv [blip_inv]: "limiter_inv rl \<Longrightarrow> limiter_inv (rateLimiter_set q b rl)"
  by (auto simp: rateLimiter_set_def limiter_inv_def Let_def)

lemma newRateLimiter_inv [blip_inv]: "limiter_inv newRateLimiter"
  by (simp add: newRateLimiter_def limiter_inv_def)

datatype rl_op = RlSet int int | RlAllow string time

fun rl_step :: "rl_op \<Rightarrow> rateLimiter \<Rightarrow> rateLimiter" where
  "rl_step (RlSet q b) rl = rateLimiter_set q b rl"
| "rl_step (RlAllow cl now) rl = fst (rateLimiter_allow cl now rl)"

interpretation limiter: invariant_steps rl_step limiter_inv
proof
  fix rl e assume "limiter_inv rl"
  then show "limiter_inv (rl_step e rl)" by (cases e) (simp_all add: blip_inv)
qed

subsection \<open>Runs of queries\<close>

fun verdicts :: "(string \<times> time) list \<Rightarrow> rateLimiter \<Rightarrow> bool list" where
  "verdicts [] rl = []"
| "verdicts ((cl, now) # qs) rl =
     (case rateLimiter_allow cl now rl of (rl', ok) \<Rightarrow> ok # verdicts qs rl')"

definition clientTimes :: "string \<Rightarrow> (string \<times> time) list \<Rightarrow> time list" where
  "clientTimes c qs = map snd (filter (\<lambda>(cl, _). cl = c) qs)"

definition clientVerdicts :: "string \<Rightarrow> (string \<times> time) list \<Rightarrow> rateLimiter \<Rightarrow> bool list" where
  "clientVerdicts c qs rl = map snd (filter (\<lambda>((cl, _), _). cl = c) (zip qs (verdicts qs rl)))"

text \<open>One client alone: its bucket, created full at its first query.\<close>

fun bucketRun :: "int \<Rightarrow> int \<Rightarrow> time list \<Rightarrow> tokenBucket option \<Rightarrow> bool list" where
  "bucketRun q b [] ob = []"
| "bucketRun q b (t # ts) ob =
     (case takeToken q b t (case ob of None \<Rightarrow> \<lparr>tb_tokens = of_int b, tb_last = t\<rparr> | Some bk \<Rightarrow> bk) of
        (bk', ok) \<Rightarrow> ok # bucketRun q b ts (Some bk'))"

definition bucketOf :: "string \<Rightarrow> rateLimiter \<Rightarrow> tokenBucket option" where
  "bucketOf c rl = map_of (rl_shards rl ! rlShardFor c) c"

definition tracked :: "rateLimiter \<Rightarrow> string set" where
  "tracked rl = (\<Union>sh \<in> set (rl_shards rl). fst ` set sh)"

lemma shard_room:
  assumes "limiter_inv rl" and "finite S" and "insert cl (tracked rl) \<subseteq> S" and "card S \<le> maxLiveClients div rlShards"
    and "bucketOf cl rl = None"
  shows "length (rl_shards rl ! rlShardFor cl) < maxLiveClients div rlShards"
proof -
  let ?sh = "rl_shards rl ! rlShardFor cl"
  have sh: "?sh \<in> set (rl_shards rl)" using assms(1) rlShardFor_less [of cl] by (simp add: limiter_inv_def)
  then have "distinct (map fst ?sh)" using assms(1) by (auto simp: limiter_inv_def)
  then have "length ?sh = card (fst ` set ?sh)" by (metis distinct_card length_map set_map)
  moreover have "cl \<notin> fst ` set ?sh" using assms(5) by (simp add: bucketOf_def map_of_None_iff)
  then have "fst ` set ?sh \<subset> S" using assms(3) sh by (auto simp: tracked_def)
  then have "card (fst ` set ?sh) < card S" using assms(2) by (rule psubset_card_mono [rotated])
  ultimately show ?thesis using assms(4) by simp
qed

lemma allow_unsaturated:
  assumes inv: "limiter_inv rl" and on: "\<not> rl_off rl" "0 < rl_qps rl" and cl: "cl \<noteq> []"
    and room: "bucketOf cl rl = None \<Longrightarrow> length (rl_shards rl ! rlShardFor cl) < maxLiveClients div rlShards"
    and bk: "takeToken (rl_qps rl) (rl_burst rl) now
        (case bucketOf cl rl of None \<Rightarrow> \<lparr>tb_tokens = of_int (rl_burst rl), tb_last = now\<rparr> | Some b \<Rightarrow> b) = (b', ok)"
  shows "rateLimiter_allow cl now rl =
    (rl\<lparr>rl_shards := (rl_shards rl)[rlShardFor cl := AList.update cl b' (rl_shards rl ! rlShardFor cl)]\<rparr>, ok)"
  using assms by (cases "bucketOf cl rl")
    (auto simp: rateLimiter_allow_def shardAllow_def bucketOf_def Let_def split: prod.splits)

lemma bucketOf_update:
  assumes "limiter_inv rl"
  shows "bucketOf c (rl\<lparr>rl_shards := (rl_shards rl)[rlShardFor cl := AList.update cl b (rl_shards rl ! rlShardFor cl)]\<rparr>)
    = (if c = cl then Some b else bucketOf c rl)"
  using assms rlShardFor_less [of cl] rlShardFor_less [of c]
  by (auto simp: bucketOf_def limiter_inv_def nth_list_update)

lemma tracked_update:
  assumes "limiter_inv rl"
  shows "tracked (rl\<lparr>rl_shards := (rl_shards rl)[rlShardFor cl := AList.update cl b (rl_shards rl ! rlShardFor cl)]\<rparr>)
    \<subseteq> insert cl (tracked rl)"
  using assms rlShardFor_less [of cl]
  by (fastforce simp: tracked_def limiter_inv_def
      dest!: subsetD [OF set_update_subset_insert] subsetD [OF set_update_subset])

lemma isolation:
  assumes "limiter_inv rl" and "\<not> rl_off rl" "0 < rl_qps rl" and "\<forall>(cl, _) \<in> set qs. cl \<noteq> []"
    and "finite S" and "tracked rl \<union> fst ` set qs \<subseteq> S" and "card S \<le> maxLiveClients div rlShards"
  shows "clientVerdicts c qs rl = bucketRun (rl_qps rl) (rl_burst rl) (clientTimes c qs) (bucketOf c rl)"
  using assms
proof (induction qs arbitrary: rl)
  case Nil
  then show ?case by (simp add: clientVerdicts_def clientTimes_def)
next
  case (Cons e qs)
  obtain cl now where e: "e = (cl, now)" by force
  obtain b' ok where bk: "takeToken (rl_qps rl) (rl_burst rl) now
      (case bucketOf cl rl of None \<Rightarrow> \<lparr>tb_tokens = of_int (rl_burst rl), tb_last = now\<rparr> | Some b \<Rightarrow> b) = (b', ok)"
    by force
  let ?rl = "rl\<lparr>rl_shards := (rl_shards rl)[rlShardFor cl := AList.update cl b' (rl_shards rl ! rlShardFor cl)]\<rparr>"
  have al: "rateLimiter_allow cl now rl = (?rl, ok)"
    using Cons.prems e shard_room [OF Cons.prems(1,5), of cl]
    by (intro allow_unsaturated [OF _ _ _ _ _ bk]) auto
  have "limiter_inv ?rl" using allow_inv [OF Cons.prems(1), of cl now] al by simp
  moreover have "tracked ?rl \<union> fst ` set qs \<subseteq> S"
    using tracked_update [OF Cons.prems(1), of cl b'] Cons.prems(6) e by auto
  ultimately have IH: "clientVerdicts c qs ?rl = bucketRun (rl_qps rl) (rl_burst rl) (clientTimes c qs) (bucketOf c ?rl)"
    using Cons.IH [of ?rl] Cons.prems e by simp
  show ?case
    using IH al bk e bucketOf_update [OF Cons.prems(1), of c cl b']
    by (cases "cl = c") (auto simp: clientVerdicts_def clientTimes_def)
qed

subsection \<open>The rate bound\<close>

lemma takeToken_cases:
  assumes "takeToken q b now bk = (bk', ok)" and "0 \<le> q" and "tb_last bk \<le> now" and "0 \<le> tb_tokens bk"
    and "0 \<le> b"
  shows "tb_last bk' = now" "0 \<le> tb_tokens bk'"
    "tb_tokens bk' + (if ok then 1 else 0) \<le> tb_tokens bk + of_int q * (of_int (now - tb_last bk) / of_int Second)"
proof -
  define el :: rat where "el = of_int (now - tb_last bk) / of_int Second * of_int q"
  have "0 \<le> el" unfolding el_def using assms(2,3) by (intro mult_nonneg_nonneg divide_nonneg_nonneg) simp_all
  moreover have "of_int q * (of_int (now - tb_last bk) / of_int Second) = el" by (simp add: el_def)
  ultimately show "tb_last bk' = now" "0 \<le> tb_tokens bk'"
    "tb_tokens bk' + (if ok then 1 else 0) \<le> tb_tokens bk + of_int q * (of_int (now - tb_last bk) / of_int Second)"
    using assms unfolding takeToken_def Let_def el_def [symmetric] by (auto split: if_splits)
qed

lemma bucketRun_bound:
  assumes "0 \<le> q" and "0 \<le> b" and "sorted (tb_last bk # ts)" and "0 \<le> tb_tokens bk"
  shows "of_nat (length (filter (\<lambda>ok. ok) (bucketRun q b ts (Some bk))))
    \<le> tb_tokens bk + of_int q * (of_int (last (tb_last bk # ts) - tb_last bk) / of_int Second)"
  using assms(3,4)
proof (induction ts arbitrary: bk)
  case (Cons t ts)
  obtain bk' ok where tk: "takeToken q b t bk = (bk', ok)" by force
  note st = takeToken_cases [OF tk assms(1) _ Cons.prems(2) assms(2)]
  have t: "tb_last bk \<le> t" "sorted (t # ts)" using Cons.prems(1) by auto
  have "of_nat (length (filter (\<lambda>ok. ok) (bucketRun q b ts (Some bk'))))
      \<le> tb_tokens bk' + of_int q * (of_int (last (t # ts) - t) / of_int Second)"
    using Cons.IH [of bk'] st t by simp
  moreover have "of_int q * (of_int (last (t # ts) - t) / of_int Second) + of_int q * (of_int (t - tb_last bk) / of_int Second)
      = (of_int q * (of_int (last (tb_last bk # t # ts) - tb_last bk) / of_int Second) :: rat)"
    by (simp add: field_simps)
  ultimately show ?case
    using st(3) t tk by (auto split: if_splits)
qed simp

text \<open>A bucket never holds more than the burst, so the bound holds from any query on, not only from the first.\<close>

lemma takeToken_cap:
  "takeToken q b now bk = (bk', ok) \<Longrightarrow> tb_tokens bk' + (if ok then 1 else 0) \<le> of_int b"
  by (auto simp: takeToken_def Let_def split: if_splits)

lemma bucketRun_window:
  assumes "0 \<le> q" and "0 \<le> b" and "sorted (earlier @ t # ts)"
    and "case ob of None \<Rightarrow> True | Some bk \<Rightarrow> 0 \<le> tb_tokens bk \<and> tb_last bk \<le> hd (earlier @ [t])"
  shows "of_nat (length (filter (\<lambda>ok. ok) (drop (length earlier) (bucketRun q b (earlier @ t # ts) ob))))
    \<le> (of_int b + of_int q * (of_int (last (t # ts) - t) / of_int Second) :: rat)"
  using assms(3,4)
proof (induction earlier arbitrary: ob)
  case Nil
  let ?bk = "case ob of None \<Rightarrow> \<lparr>tb_tokens = of_int b, tb_last = t\<rparr> | Some bk \<Rightarrow> bk"
  obtain bk' ok where tk: "takeToken q b t ?bk = (bk', ok)" by force
  have ok: "tb_last ?bk \<le> t" "0 \<le> tb_tokens ?bk" using Nil.prems(2) assms(2) by (auto split: option.splits)
  note st = takeToken_cases [OF tk assms(1) ok assms(2)]
  have "of_nat (length (filter (\<lambda>ok. ok) (bucketRun q b ts (Some bk'))))
      \<le> tb_tokens bk' + of_int q * (of_int (last (t # ts) - t) / of_int Second)"
    using bucketRun_bound [OF assms(1,2), of bk' ts] st(1,2) Nil.prems(1) by simp
  then show ?case using takeToken_cap [OF tk] tk by (auto split: if_splits)
next
  case (Cons e es)
  let ?bk = "case ob of None \<Rightarrow> \<lparr>tb_tokens = of_int b, tb_last = e\<rparr> | Some bk \<Rightarrow> bk"
  obtain bk' ok where tk: "takeToken q b e ?bk = (bk', ok)" by force
  have ok: "tb_last ?bk \<le> e" "0 \<le> tb_tokens ?bk" using Cons.prems(2) assms(2) by (auto split: option.splits)
  note st = takeToken_cases [OF tk assms(1) ok assms(2)]
  have "e \<le> hd (es @ [t])" using Cons.prems(1) by (cases es) auto
  then show ?case using Cons.IH [of "Some bk'"] Cons.prems(1) st(1,2) tk by simp
qed

lemma set_fields:
  assumes "limiter_inv rl" and "0 < qps"
  shows "rl_qps (rateLimiter_set qps burst rl) = qps" "\<not> rl_off (rateLimiter_set qps burst rl)"
    "rl_burst (rateLimiter_set qps burst rl) = (if burst \<le> 0 then qps else burst)"
    "bucketOf c (rateLimiter_set qps burst rl) = None" "tracked (rateLimiter_set qps burst rl) = {}"
  using assms rlShardFor_less [of c]
  by (auto simp: rateLimiter_set_def Let_def bucketOf_def tracked_def limiter_inv_def)

subsection \<open>Properties\<close>


definition burstQueries :: "(string \<times> time) list" where
  "burstQueries = [(''10.0.0.1'', 0), (''10.0.0.1'', 1), (''10.0.0.2'', 1), (''10.0.0.1'', 2), (''10.0.0.1'', Second)]"


text \<open>
  Tracking clients cannot exhaust memory: however many source addresses ask, and
  however the limit is changed in between, at most \<open>maxLiveClients\<close> buckets exist.
\<close>

theorem tracked_bounded:
  "sum_list (map length (rl_shards (fold rl_step ops newRateLimiter))) \<le> maxLiveClients"
proof -
  have inv: "limiter_inv (fold rl_step ops newRateLimiter)"
    by (rule limiter.run_inv [OF newRateLimiter_inv])
  have "sum_list (map length shs) \<le> length shs * n" if "\<forall>sh \<in> set shs. length sh \<le> n" for shs :: "rlShard list" and n
    using that by (induction shs) auto
  from this [of "rl_shards (fold rl_step ops newRateLimiter)" 1024] inv
  show ?thesis by (auto simp: limiter_inv_def rlShards_def maxLiveClients_def)
qed

end
