(* ===== verification/Blip_Filter.thy ===== *)
theory Blip_Filter
  imports Blip_Msg
begin

text \<open>
  Per-client filtering policy (\<open>src/internal/filter/filter.go\<close>): policies with allow and
  block name sets, the store that maps a client's source address and DoH client ID to a
  policy by longest-prefix match, and the classification of a query. The store's derived
  tables (\<open>nets\<close>, \<open>byClient\<close>) are shown to be a function of the policies alone, whatever
  order Go's map iteration visits them in.
\<close>

subsection \<open>Policies and matchers\<close>

abbreviation (input) ActionNXDOMAIN :: string where "ActionNXDOMAIN \<equiv> ''nxdomain''"
abbreviation (input) ActionRefused :: string where "ActionRefused \<equiv> ''refused''"
abbreviation (input) ActionZero :: string where "ActionZero \<equiv> ''zero''"

definition DefaultAction :: string where
  "DefaultAction = ActionNXDOMAIN"

record Policy =
  p_ID :: string
  p_Networks :: "string list"
  p_Clients :: "string list"
  p_Allow :: "string list"
  p_Block :: "string list"
  p_BlockAction :: string
  p_Log :: bool
  p_Upstream :: string

definition Policy_action :: "Policy \<Rightarrow> string" where
  "Policy_action p = (if p_BlockAction p = [] then DefaultAction else p_BlockAction p)"

record matcher =
  mt_exact :: "string set"
  mt_suffix :: "string set"
  mt_subOnly :: "string set"

definition emptyMatcher :: matcher where
  "emptyMatcher = \<lparr>mt_exact = {}, mt_suffix = {}, mt_subOnly = {}\<rparr>"

definition addDomain :: "string \<Rightarrow> matcher \<Rightarrow> matcher" where
  "addDomain raw m =
     (let d = ToLower (TrimSpace raw)
      in if d = [] then m
         else if HasPrefix d ''*.'' then
           (let root = drop 2 d
            in if root \<noteq> [] then m\<lparr>mt_subOnly := insert root (mt_subOnly m)\<rparr> else m)
         else
           let d' = TrimSuffix d ''.''
           in if d' = [] then m
              else m\<lparr>mt_exact := insert d' (mt_exact m), mt_suffix := insert d' (mt_suffix m)\<rparr>)"

definition buildMatcher :: "string list \<Rightarrow> matcher" where
  "buildMatcher domains = fold addDomain domains emptyMatcher"

definition normalizeName :: "string \<Rightarrow> string" where
  "normalizeName name = TrimSuffix (ToLower name) ''.''"

text \<open>The walk over the label boundaries; each dot probes the remainder in both sets.\<close>

fun match_walk :: "matcher \<Rightarrow> string \<Rightarrow> bool" where
  "match_walk m [] = False"
| "match_walk m (c # rest) =
     (if c \<noteq> CHR ''.'' then match_walk m rest
      else if rest \<in> mt_suffix m then True
      else if rest \<in> mt_subOnly m then True
      else match_walk m rest)"

definition matcher_match :: "matcher \<Rightarrow> string \<Rightarrow> bool" where
  "matcher_match m name =
     (if name = [] then False
      else if name \<in> mt_exact m then True
      else if mt_suffix m \<noteq> {} \<or> mt_subOnly m \<noteq> {} then match_walk m name
      else False)"

subsection \<open>The store\<close>

record compiledPolicy =
  cp_Policy :: Policy
  cp_allowM :: matcher
  cp_blockM :: matcher
  cp_nets :: "IPNet list"

definition compile :: "Policy \<Rightarrow> compiledPolicy" where
  "compile p = \<lparr>cp_Policy = p, cp_allowM = buildMatcher (p_Allow p),
                cp_blockM = buildMatcher (p_Block p), cp_nets = []\<rparr>"

record netEntry =
  ne_net :: IPNet
  ne_policy :: compiledPolicy

record Store =
  st_defaults :: "compiledPolicy option"
  st_policies :: "(string \<times> compiledPolicy) list"
  st_nets :: "netEntry list"
  st_byClient :: "string \<rightharpoonup> compiledPolicy"

datatype FilterError = ErrPolicyID | NetError string

definition NewStore :: "Policy option \<Rightarrow> Store" where
  "NewStore d = \<lparr>st_defaults = map_option compile d, st_policies = [], st_nets = [],
                 st_byClient = Map.empty\<rparr>"

definition Store_SetDefault :: "Policy option \<Rightarrow> Store \<Rightarrow> Store" where
  "Store_SetDefault p s =
     (case p of None \<Rightarrow> s\<lparr>st_defaults := None\<rparr> | Some q \<Rightarrow> s\<lparr>st_defaults := Some (compile q)\<rparr>)"

definition registerClient :: "compiledPolicy \<Rightarrow> string \<Rightarrow> (string \<rightharpoonup> compiledPolicy) \<Rightarrow> string \<rightharpoonup> compiledPolicy" where
  "registerClient cp raw m =
     (let c = TrimPrefix (TrimSpace raw) ''/dns-query/'' in if c \<noteq> [] then m(c \<mapsto> cp) else m)"

text \<open>One round of the rebuild loop, for the policy stored under \<open>id\<close>.\<close>

definition rebuildOne ::
  "(string \<times> compiledPolicy) list \<Rightarrow> string
   \<Rightarrow> netEntry list \<times> (string \<rightharpoonup> compiledPolicy) \<Rightarrow> netEntry list \<times> (string \<rightharpoonup> compiledPolicy)" where
  "rebuildOne policies i acc =
     (case acc of (nets, byClient) \<Rightarrow>
        (case map_of policies i of
           None \<Rightarrow> (nets, byClient)
         | Some cp \<Rightarrow>
             (nets @ map (\<lambda>n. \<lparr>ne_net = n, ne_policy = cp\<rparr>) (cp_nets cp),
              fold (registerClient cp) (p_Clients (cp_Policy cp)) byClient)))"

definition rebuildLocked :: "Store \<Rightarrow> Store" where
  "rebuildLocked s =
     (let ids = sort (map fst (st_policies s));
          (nets, byClient) = fold (rebuildOne (st_policies s)) ids ([], Map.empty)
      in s\<lparr>st_nets := nets, st_byClient := byClient\<rparr>)"

definition parseNetwork :: "string \<Rightarrow> (FilterError, IPNet) result" where
  "parseNetwork n = (case ParseCIDR n of None \<Rightarrow> Inl (NetError n) | Some (_, ipnet) \<Rightarrow> Inr ipnet)"

text \<open>The new store and the error, \<open>None\<close> for \<open>nil\<close>.\<close>

definition Store_SetPolicy :: "Policy option \<Rightarrow> Store \<Rightarrow> Store \<times> FilterError option" where
  "Store_SetPolicy po s =
     (case po of
        None \<Rightarrow> (s, Some ErrPolicyID)
      | Some p \<Rightarrow>
          if p_ID p = [] then (s, Some ErrPolicyID)
          else
            (case map_result parseNetwork (p_Networks p) of
               Inl e \<Rightarrow> (s, Some e)
             | Inr nets \<Rightarrow>
                 let cp = (compile p)\<lparr>cp_nets := nets\<rparr>
                 in (rebuildLocked (s\<lparr>st_policies := AList.update (p_ID p) cp (st_policies s)\<rparr>), None)))"

definition Store_RemovePolicy :: "string \<Rightarrow> Store \<Rightarrow> Store" where
  "Store_RemovePolicy i s = rebuildLocked (s\<lparr>st_policies := AList.delete i (st_policies s)\<rparr>)"

fun netsContain :: "IPNet list \<Rightarrow> IP \<Rightarrow> bool" where
  "netsContain [] ip = False"
| "netsContain (n # ns) ip = (if IPNet_Contains n ip then True else netsContain ns ip)"

definition Store_All :: "Store \<Rightarrow> Policy option \<times> Policy list" where
  "Store_All s = (map_option cp_Policy (st_defaults s), map (\<lambda>(_, cp). cp_Policy cp) (st_policies s))"

text \<open>The longest-prefix loop: \<open>best\<close> starts at \<open>-1\<close>, a strictly longer mask replaces it.\<close>

fun bestNet :: "netEntry list \<Rightarrow> IP \<Rightarrow> int \<Rightarrow> compiledPolicy option \<Rightarrow> compiledPolicy option" where
  "bestNet [] ip best bp = bp"
| "bestNet (e # es) ip best bp =
     (if IPNet_Contains (ne_net e) ip \<and> best < int (Mask_ones (net_Mask (ne_net e)))
      then bestNet es ip (int (Mask_ones (net_Mask (ne_net e)))) (Some (ne_policy e))
      else bestNet es ip best bp)"

definition nip :: "IP \<Rightarrow> IP" where
  "nip ip = (if To4 ip \<noteq> [] then To4 ip else ip)"

definition lookupNet :: "Store \<Rightarrow> IP \<Rightarrow> compiledPolicy option" where
  "lookupNet s ip =
     (case bestNet (st_nets s) (nip ip) (- 1) None of Some bp \<Rightarrow> Some bp | None \<Rightarrow> st_defaults s)"

definition Store_lookup :: "Store \<Rightarrow> IP \<Rightarrow> string \<Rightarrow> compiledPolicy option" where
  "Store_lookup s ip clientID =
     (if clientID \<noteq> [] then
        (case st_byClient s clientID of
           Some p \<Rightarrow> if 0 < length (cp_nets p) \<and> netsContain (cp_nets p) (nip ip) then Some p
                     else lookupNet s ip
         | None \<Rightarrow> lookupNet s ip)
      else lookupNet s ip)"

text \<open>\<open>(blocked, action, upstream, log)\<close>.\<close>

definition Store_Classify :: "Store \<Rightarrow> IP \<Rightarrow> string \<Rightarrow> string \<Rightarrow> bool \<times> string \<times> string \<times> bool" where
  "Store_Classify s ip clientID name0 =
     (case Store_lookup s ip clientID of
        None \<Rightarrow> (False, DefaultAction, [], False)
      | Some cp \<Rightarrow>
          let p = cp_Policy cp; name = normalizeName name0
          in if matcher_match (cp_allowM cp) name
               then (False, Policy_action p, p_Upstream p, p_Log p)
             else if matcher_match (cp_blockM cp) name
               then (True, Policy_action p, p_Upstream p, p_Log p)
             else (False, Policy_action p, p_Upstream p, p_Log p))"

definition Store_Allowed :: "Store \<Rightarrow> IP \<Rightarrow> string \<Rightarrow> string \<Rightarrow> bool" where
  "Store_Allowed s ip clientID name =
     (case Store_lookup s ip clientID of
        None \<Rightarrow> False
      | Some cp \<Rightarrow> matcher_match (cp_allowM cp) (normalizeName name))"

definition Store_BlockSource :: "Store \<Rightarrow> IP \<Rightarrow> string \<Rightarrow> string \<Rightarrow> string" where
  "Store_BlockSource s ip clientID name0 =
     (case Store_lookup s ip clientID of
        None \<Rightarrow> []
      | Some cp \<Rightarrow>
          let name = normalizeName name0
          in if matcher_match (cp_allowM cp) name \<or> \<not> matcher_match (cp_blockM cp) name then []
             else let i = p_ID (cp_Policy cp)
                  in ''policy:'' @ (if i = [] then ''default'' else i))"

subsection \<open>Matchers decide coverage\<close>

text \<open>What one list entry contributes, read off the list instead of the loop.\<close>

definition entryRoot :: "string \<Rightarrow> string option" where
  "entryRoot raw =
     (let d = ToLower (TrimSpace raw)
      in if HasPrefix d ''*.'' \<or> TrimSuffix d ''.'' = [] then None else Some (TrimSuffix d ''.''))"

definition entrySub :: "string \<Rightarrow> string option" where
  "entrySub raw =
     (let d = ToLower (TrimSpace raw)
      in if HasPrefix d ''*.'' \<and> drop 2 d \<noteq> [] then Some (drop 2 d) else None)"

definition listRoots :: "string list \<Rightarrow> string set" where
  "listRoots ds = {r. \<exists>d \<in> set ds. entryRoot d = Some r}"

definition listSubs :: "string list \<Rightarrow> string set" where
  "listSubs ds = {r. \<exists>d \<in> set ds. entrySub d = Some r}"

lemma addDomain_fields:
  "mt_exact (addDomain d m) = (case entryRoot d of None \<Rightarrow> mt_exact m | Some r \<Rightarrow> insert r (mt_exact m))"
  "mt_suffix (addDomain d m) = (case entryRoot d of None \<Rightarrow> mt_suffix m | Some r \<Rightarrow> insert r (mt_suffix m))"
  "mt_subOnly (addDomain d m) = (case entrySub d of None \<Rightarrow> mt_subOnly m | Some r \<Rightarrow> insert r (mt_subOnly m))"
  by (auto simp: addDomain_def entryRoot_def entrySub_def Let_def TrimSuffix_def HasPrefix_def)

lemma fold_addDomain:
  "mt_exact (fold addDomain ds m) = mt_exact m \<union> listRoots ds"
  "mt_suffix (fold addDomain ds m) = mt_suffix m \<union> listRoots ds"
  "mt_subOnly (fold addDomain ds m) = mt_subOnly m \<union> listSubs ds"
  by (induction ds arbitrary: m)
     (auto simp: addDomain_fields listRoots_def listSubs_def split: option.splits)

lemma buildMatcher_fields [simp]:
  "mt_exact (buildMatcher ds) = listRoots ds"
  "mt_suffix (buildMatcher ds) = listRoots ds"
  "mt_subOnly (buildMatcher ds) = listSubs ds"
  by (simp_all add: buildMatcher_def fold_addDomain emptyMatcher_def)

lemma match_walk_iff:
  "match_walk m h \<longleftrightarrow> (\<exists>a \<in> set (ancestors h). a \<in> mt_suffix m \<or> a \<in> mt_subOnly m)"
  by (induction h) auto

lemma buildMatcher_covered:
  "h \<noteq> [] \<Longrightarrow> matcher_match (buildMatcher ds) h \<longleftrightarrow> covered (listRoots ds) (listSubs ds) h"
  by (auto simp: matcher_match_def match_walk_iff covered_def)

interpretation policy_list: name_matcher "\<lambda>ds. matcher_match (buildMatcher ds)" listRoots listSubs
  by unfold_locales (rule buildMatcher_covered)

lemma normalizeName_lower [simp]: "normalizeName (ToLower n) = normalizeName n"
  by (simp add: normalizeName_def)

lemma normalizeName_dot: "\<not> HasSuffix n ''.'' \<Longrightarrow> normalizeName (n @ ''.'') = normalizeName n"
  by (auto simp: normalizeName_def TrimSuffix_dot HasSuffix_single last_ToLower)

subsection \<open>The store's invariant\<close>

text \<open>
  Every stored policy is compiled from its source text with its networks parsed, is filed
  under its own non-empty ID, and the two derived tables are those of the policies.
\<close>

definition compiled_ok :: "string \<Rightarrow> compiledPolicy \<Rightarrow> bool" where
  "compiled_ok i cp \<longleftrightarrow>
     p_ID (cp_Policy cp) = i \<and> i \<noteq> []
     \<and> cp_allowM cp = buildMatcher (p_Allow (cp_Policy cp))
     \<and> cp_blockM cp = buildMatcher (p_Block (cp_Policy cp))
     \<and> map_result parseNetwork (p_Networks (cp_Policy cp)) = Inr (cp_nets cp)"

definition Store_inv :: "Store \<Rightarrow> bool" where
  "Store_inv s \<longleftrightarrow>
     distinct (map fst (st_policies s))
     \<and> (\<forall>(i, cp) \<in> set (st_policies s). compiled_ok i cp)
     \<and> (\<forall>cp. st_defaults s = Some cp \<longrightarrow> cp = compile (cp_Policy cp))
     \<and> rebuildLocked s = s"

datatype store_op = OpSetDefault "Policy option" | OpSetPolicy "Policy option" | OpRemovePolicy string

fun store_step :: "store_op \<Rightarrow> Store \<Rightarrow> Store" where
  "store_step (OpSetDefault p) s = Store_SetDefault p s"
| "store_step (OpSetPolicy p) s = fst (Store_SetPolicy p s)"
| "store_step (OpRemovePolicy i) s = Store_RemovePolicy i s"

lemma rebuildLocked_fields [simp]:
  "st_policies (rebuildLocked s) = st_policies s"
  "st_defaults (rebuildLocked s) = st_defaults s"
  "rebuildLocked (rebuildLocked s) = rebuildLocked s"
  by (auto simp: rebuildLocked_def Let_def split: prod.splits)

lemma rebuildLocked_default:
  "rebuildLocked (s\<lparr>st_defaults := d\<rparr>) = (rebuildLocked s)\<lparr>st_defaults := d\<rparr>"
  by (auto simp: rebuildLocked_def Let_def split: prod.splits)

lemma NewStore_inv [blip_inv]: "Store_inv (NewStore d)"
  by (cases d) (auto simp: Store_inv_def NewStore_def rebuildLocked_def compile_def)

lemma SetDefault_inv [blip_inv]: "Store_inv s \<Longrightarrow> Store_inv (Store_SetDefault p s)"
  by (auto simp: Store_inv_def Store_SetDefault_def rebuildLocked_default compile_def split: option.splits)

lemma compiled_ok_compile:
  assumes "p_ID p \<noteq> []" and "map_result parseNetwork (p_Networks p) = Inr nets"
  shows "compiled_ok (p_ID p) ((compile p)\<lparr>cp_nets := nets\<rparr>)"
  using assms by (simp add: compiled_ok_def compile_def)

lemma SetPolicy_inv [blip_inv]: "Store_inv s \<Longrightarrow> Store_inv (fst (Store_SetPolicy p s))"
  by (auto simp: Store_inv_def Store_SetPolicy_def Let_def compiled_ok_compile
      dest!: subsetD [OF set_update_subset] split: option.splits sum.splits)

lemma RemovePolicy_inv [blip_inv]: "Store_inv s \<Longrightarrow> Store_inv (Store_RemovePolicy i s)"
  by (auto simp: Store_inv_def Store_RemovePolicy_def dest!: subsetD [OF set_delete_subset])

interpretation filter_store: invariant_steps store_step Store_inv
proof
  fix s e assume "Store_inv s"
  then show "Store_inv (store_step e s)" by (cases e) (simp_all add: blip_inv)
qed

subsection \<open>Lookup\<close>

lemma netsContain_iff: "netsContain ns ip \<longleftrightarrow> (\<exists>n \<in> set ns. IPNet_Contains n ip)"
  by (induction ns) auto

lemma To4_length: "To4 ip \<noteq> [] \<Longrightarrow> length (To4 ip) = 4"
  by (auto simp: To4_def split: if_splits)

lemma Contains_nip [simp]: "IPNet_Contains n (nip ip) \<longleftrightarrow> IPNet_Contains n ip"
proof (cases "To4 ip = []")
  case False
  then have "To4 (To4 ip) = To4 ip" using To4_length [OF False] by (simp add: To4_def)
  with False show ?thesis by (simp add: nip_def IPNet_Contains_def)
qed (simp add: nip_def)

abbreviation entryLen :: "netEntry \<Rightarrow> int" where
  "entryLen e \<equiv> int (Mask_ones (net_Mask (ne_net e)))"

lemma bestNet_spec:
  "(bestNet es ip best bp = bp
            \<and> (\<forall>e \<in> set es. IPNet_Contains (ne_net e) ip \<longrightarrow> entryLen e \<le> best))
         \<or> (\<exists>e \<in> set es. bestNet es ip best bp = Some (ne_policy e)
            \<and> IPNet_Contains (ne_net e) ip \<and> best < entryLen e
            \<and> (\<forall>e' \<in> set es. IPNet_Contains (ne_net e') ip \<longrightarrow> entryLen e' \<le> entryLen e))"
proof (induction es arbitrary: best bp)
  case (Cons e es)
  show ?case
  proof (cases "IPNet_Contains (ne_net e) ip \<and> best < entryLen e")
    case True
    then show ?thesis
      using Cons.IH [of "entryLen e" "Some (ne_policy e)"] by fastforce
  next
    case False
    then show ?thesis using Cons.IH [of best bp] by fastforce
  qed
qed simp

lemma lookupNet_cases:
  obtains (net) e where "e \<in> set (st_nets s)" "lookupNet s ip = Some (ne_policy e)"
      "IPNet_Contains (ne_net e) ip"
      "\<And>e'. e' \<in> set (st_nets s) \<Longrightarrow> IPNet_Contains (ne_net e') ip \<Longrightarrow> entryLen e' \<le> entryLen e"
  | (dflt) "lookupNet s ip = st_defaults s"
      "\<And>e. e \<in> set (st_nets s) \<Longrightarrow> \<not> IPNet_Contains (ne_net e) ip"
  using bestNet_spec [of "st_nets s" "nip ip" "- 1" None]
  by (fastforce simp: lookupNet_def)

text \<open>The tables of a well-formed store, in terms of its policies.\<close>

lemma fold_rebuildOne_nets:
  "fst (fold (rebuildOne ps) ids (ns, bc)) =
     ns @ concat (map (\<lambda>i. case map_of ps i of None \<Rightarrow> []
        | Some cp \<Rightarrow> map (\<lambda>n. \<lparr>ne_net = n, ne_policy = cp\<rparr>) (cp_nets cp)) ids)"
  by (induction ids arbitrary: ns bc) (auto simp: rebuildOne_def split: option.splits)

lemma registerClients_ran:
  "fold (registerClient cp) cs m c = Some q \<Longrightarrow> q = cp \<or> m c = Some q"
proof (induction cs arbitrary: m)
  case (Cons a cs)
  then have "q = cp \<or> registerClient cp a m c = Some q" by simp
  then show ?case by (auto simp: registerClient_def Let_def split: if_splits)
qed simp

lemma fold_rebuildOne_clients:
  "snd (fold (rebuildOne ps) ids (ns, bc)) c = Some q
   \<Longrightarrow> (\<exists>i \<in> set ids. map_of ps i = Some q) \<or> bc c = Some q"
proof (induction ids arbitrary: ns bc)
  case (Cons i ids)
  obtain ns' bc' where r: "rebuildOne ps i (ns, bc) = (ns', bc')" by (metis surj_pair)
  with Cons have "(\<exists>i \<in> set ids. map_of ps i = Some q) \<or> bc' c = Some q" by simp
  then show ?case
    using r by (auto simp: rebuildOne_def dest: registerClients_ran split: option.splits)
qed simp

lemma inv_nets:
  assumes "Store_inv s"
  shows "e \<in> set (st_nets s) \<longleftrightarrow>
    (\<exists>i. map_of (st_policies s) i = Some (ne_policy e) \<and> ne_net e \<in> set (cp_nets (ne_policy e)))"
proof -
  have "st_nets s = st_nets (rebuildLocked s)" using assms by (simp add: Store_inv_def)
  also have "\<dots> = fst (fold (rebuildOne (st_policies s)) (sort (map fst (st_policies s))) ([], Map.empty))"
    by (simp add: rebuildLocked_def Let_def split: prod.splits)
  finally have nets: "st_nets s = concat (map (\<lambda>i. case map_of (st_policies s) i of None \<Rightarrow> []
        | Some cp \<Rightarrow> map (\<lambda>n. \<lparr>ne_net = n, ne_policy = cp\<rparr>) (cp_nets cp)) (sort (map fst (st_policies s))))"
    by (simp only: fold_rebuildOne_nets append_Nil)
  have entry: "e \<in> (\<lambda>n. \<lparr>ne_net = n, ne_policy = cp\<rparr>) ` A \<longleftrightarrow> ne_policy e = cp \<and> ne_net e \<in> A" for cp A
    by (cases e) auto
  show ?thesis
  proof
    assume "e \<in> set (st_nets s)"
    then show "\<exists>i. map_of (st_policies s) i = Some (ne_policy e) \<and> ne_net e \<in> set (cp_nets (ne_policy e))"
      by (auto simp: nets entry split: option.splits)
  next
    assume "\<exists>i. map_of (st_policies s) i = Some (ne_policy e) \<and> ne_net e \<in> set (cp_nets (ne_policy e))"
    then obtain i where "map_of (st_policies s) i = Some (ne_policy e)"
      "ne_net e \<in> set (cp_nets (ne_policy e))" by blast
    moreover from this have "i \<in> set (sort (map fst (st_policies s)))"
      by (force dest: map_of_SomeD)
    ultimately show "e \<in> set (st_nets s)"
      by (force simp: nets entry)
  qed
qed

lemma inv_clients:
  assumes "Store_inv s" and "st_byClient s c = Some cp"
  shows "\<exists>i. map_of (st_policies s) i = Some cp"
proof -
  have "st_byClient s = st_byClient (rebuildLocked s)" using assms by (simp add: Store_inv_def)
  also have "\<dots> = snd (fold (rebuildOne (st_policies s)) (sort (map fst (st_policies s))) ([], Map.empty))"
    by (simp add: rebuildLocked_def Let_def split: prod.splits)
  finally show ?thesis using assms(2) by (auto dest!: fold_rebuildOne_clients)
qed

text \<open>Policies in force for an address: the ones with a network that holds it.\<close>

definition policyHolds :: "Store \<Rightarrow> IP \<Rightarrow> compiledPolicy \<Rightarrow> nat \<Rightarrow> bool" where
  "policyHolds s ip cp ones \<longleftrightarrow>
     (\<exists>i n. map_of (st_policies s) i = Some cp \<and> n \<in> set (cp_nets cp)
        \<and> IPNet_Contains n ip \<and> ones = Mask_ones (net_Mask n))"

lemma inv_entry_holds:
  assumes "Store_inv s"
  shows "policyHolds s ip cp ones \<longleftrightarrow>
     (\<exists>e \<in> set (st_nets s). ne_policy e = cp \<and> IPNet_Contains (ne_net e) ip
        \<and> ones = Mask_ones (net_Mask (ne_net e)))"
  (is "?l \<longleftrightarrow> ?r")
proof
  assume ?l
  then obtain i n where "map_of (st_policies s) i = Some cp" "n \<in> set (cp_nets cp)"
    "IPNet_Contains n ip" "ones = Mask_ones (net_Mask n)" by (auto simp: policyHolds_def)
  then show ?r
    by (intro bexI [of _ "\<lparr>ne_net = n, ne_policy = cp\<rparr>"]) (auto simp: inv_nets [OF assms])
qed (auto simp: policyHolds_def inv_nets [OF assms])

lemma lookupNet_longest:
  assumes "Store_inv s"
  shows "(\<exists>cp ones. lookupNet s ip = Some cp \<and> policyHolds s ip cp ones
            \<and> (\<forall>cp' ones'. policyHolds s ip cp' ones' \<longrightarrow> ones' \<le> ones))
         \<or> (lookupNet s ip = st_defaults s \<and> (\<forall>cp ones. \<not> policyHolds s ip cp ones))"
proof (cases rule: lookupNet_cases [of s ip])
  case (net e)
  then show ?thesis by (auto simp: inv_entry_holds [OF assms])
next
  case dflt
  then show ?thesis by (auto simp: inv_entry_holds [OF assms])
qed

lemma lookup_holds:
  assumes inv: "Store_inv s" and "Store_lookup s ip cid = Some cp"
  shows "(\<exists>ones. policyHolds s ip cp ones)
    \<or> (st_defaults s = Some cp \<and> (\<forall>cp' ones. \<not> policyHolds s ip cp' ones))"
proof (cases "Store_lookup s ip cid = lookupNet s ip")
  case True
  then show ?thesis using lookupNet_longest [OF inv, of ip] assms(2) by auto
next
  case False
  then have "st_byClient s cid = Some cp" "netsContain (cp_nets cp) (nip ip)"
    using assms(2) by (auto simp: Store_lookup_def split: if_splits option.splits)
  then show ?thesis
    using inv_clients [OF inv] by (fastforce simp: policyHolds_def netsContain_iff)
qed

lemma lookup_compiled:
  assumes inv: "Store_inv s" and "Store_lookup s ip cid = Some cp"
  shows "cp_allowM cp = buildMatcher (p_Allow (cp_Policy cp))"
    and "cp_blockM cp = buildMatcher (p_Block (cp_Policy cp))"
proof -
  from lookup_holds [OF assms] consider i where "map_of (st_policies s) i = Some cp"
    | "cp = compile (cp_Policy cp)"
    using inv by (auto simp: policyHolds_def Store_inv_def)
  then have "cp_allowM cp = buildMatcher (p_Allow (cp_Policy cp))
    \<and> cp_blockM cp = buildMatcher (p_Block (cp_Policy cp))"
  proof cases
    case 1
    then show ?thesis using inv by (auto simp: Store_inv_def compiled_ok_def dest!: map_of_SomeD)
  next
    case 2
    then show ?thesis
      by (metis compile_def compiledPolicy.select_convs(1,2,3))
  qed
  then show "cp_allowM cp = buildMatcher (p_Allow (cp_Policy cp))"
    and "cp_blockM cp = buildMatcher (p_Block (cp_Policy cp))" by auto
qed

lemma rebuild_order_irrelevant:
  assumes "map_of ps = map_of ps'" and "distinct (map fst ps)" and "distinct (map fst ps')"
  shows "fold (rebuildOne ps) (sort (map fst ps)) acc = fold (rebuildOne ps') (sort (map fst ps')) acc"
proof -
  have "fst ` set ps = fst ` set ps'" using assms(1) by (metis dom_map_of_conv_image_fst)
  then have "sort (map fst ps) = sort (map fst ps')"
    using assms(2,3) by (intro sorted_distinct_set_unique) auto
  moreover have "rebuildOne ps = rebuildOne ps'" by (intro ext) (simp add: rebuildOne_def assms(1))
  ultimately show ?thesis by simp
qed

subsection \<open>Properties\<close>

text \<open>A small household: one policy for the LAN, one for a child's device inside it.\<close>

definition kidsPolicy :: Policy where
  "kidsPolicy = \<lparr>p_ID = ''kids'', p_Networks = [''10.0.0.0/24''], p_Clients = [''/dns-query/kid''],
     p_Allow = [''school.example.com''], p_Block = [''Example.com.'', ''*.ads.net''],
     p_BlockAction = [], p_Log = True, p_Upstream = []\<rparr>"

definition lanPolicy :: Policy where
  "lanPolicy = \<lparr>p_ID = ''lan'', p_Networks = [''10.0.0.0/8''], p_Clients = [],
     p_Allow = [], p_Block = [], p_BlockAction = ''zero'', p_Log = False, p_Upstream = []\<rparr>"

definition houseOps :: "store_op list" where
  "houseOps = [OpSetPolicy (Some lanPolicy), OpSetPolicy (Some kidsPolicy)]"

definition houseStore :: Store where
  "houseStore = fold store_step houseOps (NewStore None)"

text \<open>
  C16. Classification meets its specification. In every store the operations can produce, a
  query is blocked exactly when a policy applies to the client, its name (lower case,
  root dot removed) is covered by the policy's block list, and it is not covered by the
  policy's allow list; a plain entry covers its name and everything below, a \<open>*.root\<close> entry
  only what is strictly below. The allowlist always wins.
\<close>

theorem Classify_blocked_iff:
  assumes "s = fold store_step ops (NewStore d)" and "normalizeName name \<noteq> []"
  shows "fst (Store_Classify s ip cid name) \<longleftrightarrow>
    (\<exists>cp. Store_lookup s ip cid = Some cp
       \<and> covered (listRoots (p_Block (cp_Policy cp))) (listSubs (p_Block (cp_Policy cp))) (normalizeName name)
       \<and> \<not> covered (listRoots (p_Allow (cp_Policy cp))) (listSubs (p_Allow (cp_Policy cp))) (normalizeName name))"
proof -
  have inv: "Store_inv s" unfolding assms(1) by (rule filter_store.run_inv [OF NewStore_inv])
  show ?thesis
    using lookup_compiled [OF inv, of ip cid] assms(2)
    by (auto simp: Store_Classify_def Let_def buildMatcher_covered split: option.splits)
qed

theorem Classify_blocked_iff_witness:
  "fst (Store_Classify houseStore [10, 0, 0, 7] [] ''www.EXAMPLE.com.'') \<longleftrightarrow>
    (\<exists>cp. Store_lookup houseStore [10, 0, 0, 7] [] = Some cp
       \<and> covered (listRoots (p_Block (cp_Policy cp))) (listSubs (p_Block (cp_Policy cp))) ''www.example.com''
       \<and> \<not> covered (listRoots (p_Allow (cp_Policy cp))) (listSubs (p_Allow (cp_Policy cp))) ''www.example.com'')"
proof -
  have n: "normalizeName ''www.EXAMPLE.com.'' = ''www.example.com''" by code_simp
  then show ?thesis
    using Classify_blocked_iff [OF houseStore_def, of "''www.EXAMPLE.com.''" "[10, 0, 0, 7]" "[]"] by simp
qed

text \<open>
  C17. A policy is selected by longest prefix, and a self-asserted client ID never reaches
  a policy whose networks exclude the source address: whatever \<open>lookup\<close> returns either has a
  network containing the address or is the default policy, and the latter only when no
  policy at all has a network containing it; without a client ID the result's network is
  the longest of all that contain the address.
\<close>

theorem lookup_longest_prefix:
  assumes "s = fold store_step ops (NewStore d)" and "Store_lookup s ip cid = Some cp"
  shows "((\<exists>ones. policyHolds s ip cp ones) \<or>
          (st_defaults s = Some cp \<and> (\<forall>cp' ones. \<not> policyHolds s ip cp' ones)))
    \<and> (cid = [] \<longrightarrow> (\<exists>cp' ones. policyHolds s ip cp' ones) \<longrightarrow>
         (\<exists>ones. policyHolds s ip cp ones \<and> (\<forall>cp' ones'. policyHolds s ip cp' ones' \<longrightarrow> ones' \<le> ones)))"
proof -
  have inv: "Store_inv s" unfolding assms(1) by (rule filter_store.run_inv [OF NewStore_inv])
  show ?thesis
    using lookup_holds [OF inv assms(2)] lookupNet_longest [OF inv, of ip] assms(2)
    by (auto simp: Store_lookup_def)
qed

theorem lookup_longest_prefix_witness:
  "\<exists>cp. Store_lookup houseStore [10, 0, 0, 7] [] = Some cp \<and> cp_Policy cp = kidsPolicy
     \<and> ((\<exists>ones. policyHolds houseStore [10, 0, 0, 7] cp ones) \<or>
        (st_defaults houseStore = Some cp \<and> (\<forall>cp' ones. \<not> policyHolds houseStore [10, 0, 0, 7] cp' ones)))"
proof -
  have "map_option cp_Policy (Store_lookup houseStore [10, 0, 0, 7] []) = Some kidsPolicy" by code_simp
  then obtain cp where "Store_lookup houseStore [10, 0, 0, 7] [] = Some cp" "cp_Policy cp = kidsPolicy"
    by auto
  then show ?thesis
    using lookup_longest_prefix [OF houseStore_def, of "[10, 0, 0, 7]" "[]" cp] by blast
qed

text \<open>
  The order in which Go's map iteration yields the policies never matters: two stores
  holding the same policies, in whatever order, rebuild to tables that look up every
  client alike, also when several policies claim one client ID or one network.
\<close>

theorem rebuild_deterministic:
  assumes "map_of (st_policies s) = map_of (st_policies s')" and "st_defaults s = st_defaults s'"
    and "distinct (map fst (st_policies s))" and "distinct (map fst (st_policies s'))"
  shows "Store_lookup (rebuildLocked s) ip cid = Store_lookup (rebuildLocked s') ip cid"
proof -
  have "st_nets (rebuildLocked s) = st_nets (rebuildLocked s')"
    and "st_byClient (rebuildLocked s) = st_byClient (rebuildLocked s')"
    using rebuild_order_irrelevant [OF assms(1,3,4), of "([], Map.empty)"]
    by (simp_all add: rebuildLocked_def Let_def split: prod.splits)
  then show ?thesis using assms(2) by (simp only: Store_lookup_def lookupNet_def rebuildLocked_fields)
qed

theorem rebuild_deterministic_witness:
  "Store_lookup (rebuildLocked (houseStore\<lparr>st_policies := rev (st_policies houseStore)\<rparr>)) [10, 0, 0, 7] ''kid''
     = Store_lookup (rebuildLocked houseStore) [10, 0, 0, 7] ''kid''"
proof -
  have d: "distinct (map fst (st_policies houseStore))" by code_simp
  then have "map_of (rev (st_policies houseStore)) = map_of (st_policies houseStore)"
    by (intro map_of_eqI) (auto simp: rev_map [symmetric] intro!: map_of_is_SomeI)
  then show ?thesis
    using rebuild_deterministic [of "houseStore\<lparr>st_policies := rev (st_policies houseStore)\<rparr>" houseStore] d
    by (simp add: rev_map [symmetric])
qed

text \<open>
  \<open>SetPolicy\<close> fails exactly on a nil policy, an empty ID or a network that does not
  parse, and then leaves the store untouched; otherwise the policy is filed under its ID
  with one parsed network per configured one, and every other policy stays.
\<close>

theorem SetPolicy_spec:
  "case Store_SetPolicy po s of
     (s', Some e) \<Rightarrow> s' = s \<and>
        (case po of None \<Rightarrow> e = ErrPolicyID
         | Some p \<Rightarrow> (p_ID p = [] \<and> e = ErrPolicyID) \<or>
             (\<exists>n \<in> set (p_Networks p). ParseCIDR n = None \<and> e = NetError n))
   | (s', None) \<Rightarrow> (\<exists>p cp. po = Some p \<and> p_ID p \<noteq> []
        \<and> map_of (st_policies s') = (map_of (st_policies s))(p_ID p \<mapsto> cp)
        \<and> cp_Policy cp = p \<and> list_all2 (\<lambda>n net. map_option snd (ParseCIDR n) = Some net) (p_Networks p) (cp_nets cp))"
proof (cases po)
  case (Some p)
  have parse: "parseNetwork n = Inr net \<longleftrightarrow> map_option snd (ParseCIDR n) = Some net" for n net
    by (auto simp: parseNetwork_def split: option.splits)
  have fail: "parseNetwork n = Inl e \<longleftrightarrow> ParseCIDR n = None \<and> e = NetError n" for n e
    by (cases "ParseCIDR n") (auto simp: parseNetwork_def)
  show ?thesis
  proof (cases "map_result parseNetwork (p_Networks p)")
    case (Inl e)
    then show ?thesis using map_result_Inl [OF Inl] Some
      by (cases "p_ID p = []") (auto simp: Store_SetPolicy_def fail)
  next
    case (Inr nets)
    then have "list_all2 (\<lambda>n net. map_option snd (ParseCIDR n) = Some net) (p_Networks p) nets"
      by (simp add: map_result_Inr_iff parse)
    then show ?thesis using Some Inr
      by (cases "p_ID p = []") (auto simp: Store_SetPolicy_def Let_def compile_def)
  qed
qed (simp add: Store_SetPolicy_def)

end
