(* ===== verification/Blip_Server.thy ===== *)
theory Blip_Server
  imports Blip_Events Blip_Records Blip_Cache Blip_RateLimit Blip_Filter
begin

text \<open>
  The query path of an instance (\<open>src/internal/dnsserver/server.go\<close>,
  \<open>upstream_ctrl.go\<close>): rate limit, global blocklist, per-client policy, local records,
  conditional forwarding, cache, upstream; and the operations that reconfigure a running
  server.

  \<open>Server\<close> collects the state the source spreads over the server, its configuration and
  the components it owns. Time is the clock of the network record, read where the source
  calls \<open>time.Now\<close>. What the server asks of the operating system beyond resolving is in
  \<open>srv_ops\<close>. A query is one atomic step; the interleavings of the cache's own lock regions
  are the subject of the cache theory.
\<close>

record 'w srv_ops =
  so_net :: "'w net_ops"
  so_timeout :: "uerr \<Rightarrow> bool"  \<comment> \<open>deadline or \<open>net.Error\<close> timeout\<close>
  so_listen :: "string \<Rightarrow> 'w \<Rightarrow> 'w \<times> string option"
  so_close :: "string \<Rightarrow> 'w \<Rightarrow> 'w"

record Server =
  s_Upstream :: string
  s_Store :: Store
  s_Blocklist :: "Blocklist option"
  s_BlockAction :: string
  s_cache :: Cache
  s_watch :: Watch
  s_cnt :: Counters
  s_pool :: "ResolverPool option"
  s_heap :: rheap
  s_logfn :: bool
  s_logged :: "(string \<times> string) list"
  s_dohPlain :: bool
  s_dohPlainAddr :: string
  s_down :: bool
  s_rl :: "rateLimiter option"
  s_cert :: "nat option"
  s_rec :: "RecordStore option"
  s_overrides :: "(string \<times> autoResolver) list"
  s_cacheSize :: int
  s_trustedProxies :: "IPNet list"

subsection \<open>Upstream selection\<close>

text \<open>What a failing construction allocated is garbage: the heap is the one before it.\<close>

definition safePool :: "Server \<Rightarrow> ResolverPool option" where
  "safePool s = s_pool s"

definition upstreamAuto :: "Server \<Rightarrow> autoResolver" where
  "upstreamAuto s = (case safePool s of None \<Rightarrow> NoAuto | Some p \<Rightarrow> ResolverPool_Auto p)"

definition upstreamFor :: "Server \<Rightarrow> string \<Rightarrow> IP \<Rightarrow> autoResolver \<times> bool" where
  "upstreamFor s name clientIP =
     (case safePool s of
        None \<Rightarrow> (upstreamAuto s, False)
      | Some p \<Rightarrow>
          (case ResolverPool_Match p name clientIP of
             Some m \<Rightarrow> (Auto m, True)
           | None \<Rightarrow> (upstreamAuto s, False)))"

definition overrideResolver :: "string \<Rightarrow> Server \<Rightarrow> Server \<times> (SpecError, autoResolver) result" where
  "overrideResolver spec s =
     (case map_of (s_overrides s) spec of
        Some r \<Rightarrow> (s, Inr r)
      | None \<Rightarrow>
          (case FromSpec spec (s_heap s) of
             (h, Inl e) \<Rightarrow> (s, Inl e)
           | (h, Inr ro) \<Rightarrow>
               let r = (case ro of Some a \<Rightarrow> Auto a | None \<Rightarrow> NilMember)
               in (s\<lparr>s_heap := h, s_overrides := AList.update spec r (s_overrides s)\<rparr>, Inr r)))"

definition upstreamLabel :: "Server \<Rightarrow> autoResolver \<Rightarrow> bool \<Rightarrow> string \<Rightarrow> string" where
  "upstreamLabel s resolver matchedRoute override =
     (if \<not> matchedRoute \<and> override \<noteq> [] then ''override: '' @ override
      else case safePool s of
             None \<Rightarrow> ''upstream''
           | Some p \<Rightarrow> let l = ResolverPool_LabelFor p resolver in if l \<noteq> [] then l else ''upstream'')"

definition SetUpstream ::
  "UpstreamServer list \<Rightarrow> UpstreamRoute list \<Rightarrow> UpstreamServer list \<Rightarrow> Server \<Rightarrow> Server \<times> PoolError option" where
  "SetUpstream servers routes bootstrap s =
     (case NewPoolWithBootstrap servers routes (s_Upstream s) bootstrap (s_heap s) of
        (h, Inl e) \<Rightarrow> (s, Some e)
      | (h, Inr pool) \<Rightarrow> (s\<lparr>s_heap := h, s_pool := Some pool\<rparr>, None))"

definition Upstream :: "Server \<Rightarrow> UpstreamServer list \<times> UpstreamRoute list \<times> UpstreamServer list" where
  "Upstream s =
     (case safePool s of
        None \<Rightarrow> ([], [], [])
      | Some p \<Rightarrow> (ResolverPool_Servers p, ResolverPool_Routes p, ResolverPool_Bootstrap p))"

subsection \<open>Rendering\<close>

definition qType :: "Msg \<Rightarrow> string" where
  "qType req = (case m_Question req of [] \<Rightarrow> [] | q # _ \<Rightarrow> typeString (q_Qtype q))"

definition isAddressType :: "string \<Rightarrow> bool" where
  "isAddressType t \<longleftrightarrow> t = ''A'' \<or> t = ''AAAA''"

text \<open>The head of \<open>rr.String()\<close>, for a name without characters the library escapes.\<close>

definition classString :: "u16 \<Rightarrow> string" where
  "classString c =
     (case map_of [(1, ''IN''), (2, ''CS''), (3, ''CH''), (4, ''HS''), (254, ''NONE''), (255, ''ANY'')] c of
        Some t \<Rightarrow> t | None \<Rightarrow> ''CLASS'' @ Itoa (uint c))"

definition hdrString :: "RR_Header \<Rightarrow> string" where
  "hdrString h =
     (let tab = [char_of (9 :: nat)]; t = typeString (hdr_Rrtype h)
      in hdr_Name h @ tab @ Itoa (uint (hdr_Ttl h)) @ tab @ classString (hdr_Class h) @ tab
           @ (if t = [] then ''TYPE'' @ Itoa (uint (hdr_Rrtype h)) else t) @ tab)"

definition answerOf :: "RR \<Rightarrow> Answer" where
  "answerOf rr =
     (let mk = (\<lambda>t d. \<lparr>an_Type = t, an_Data = d, an_TTL = uint (rr_Ttl rr)\<rparr>); n = (\<lambda>x :: u16. Itoa (uint x))
      in case rr_Data rr of
           A ip \<Rightarrow> mk ''A'' (IP_String ip)
         | AAAA ip \<Rightarrow> mk ''AAAA'' (IP_String ip)
         | CNAME target \<Rightarrow> mk ''CNAME'' target
         | TXT txt \<Rightarrow> mk ''TXT'' (concat txt)
         | MX pref mx \<Rightarrow> mk ''MX'' (mx @ '' '' @ n pref)
         | SRV prio weight port target \<Rightarrow> mk ''SRV'' (n prio @ '' '' @ n weight @ '' '' @ n port @ '' '' @ target)
         | PTR target \<Rightarrow> mk (typeString (hdr_Rrtype (rr_Hdr rr))) (hdrString (rr_Hdr rr) @ target)
         | OtherRR text \<Rightarrow> mk (typeString (hdr_Rrtype (rr_Hdr rr))) text)"

definition answersFor :: "Msg \<Rightarrow> Msg \<Rightarrow> Answer list" where
  "answersFor req resp = map answerOf (m_Answer resp)"

definition upstreamErrText :: "(uerr \<Rightarrow> bool) \<Rightarrow> string \<Rightarrow> uerr \<Rightarrow> string" where
  "upstreamErrText isTimeout up err =
     (if isTimeout err then (if up \<noteq> [] then ''timeout talking to '' @ up else ''upstream timeout'')
      else uerr_Error err)"

text \<open>\<open>applyBlockAction\<close>: \<open>''refused''\<close>, \<open>''zero''\<close>, anything else is NXDOMAIN.\<close>

definition applyBlockAction :: "Question \<Rightarrow> string \<Rightarrow> Msg \<Rightarrow> Msg" where
  "applyBlockAction q action resp =
     (if action = ''refused'' then resp\<lparr>m_Rcode := RcodeRefused\<rparr>
      else if action = ''zero'' then
        (let r = resp\<lparr>m_Rcode := RcodeSuccess\<rparr>
         in if q_Qtype q = TypeA then r\<lparr>m_Answer := [mkRR (q_Name q) TypeA 60 (A (To4 IPv4zero))]\<rparr>
            else if q_Qtype q = TypeAAAA then r\<lparr>m_Answer := [mkRR (q_Name q) TypeAAAA 60 (AAAA IPv6zero)]\<rparr>
            else r)
      else resp\<lparr>m_Rcode := RcodeNameError\<rparr>)"

subsection \<open>Notifications\<close>

definition srvNotify :: "WatchEvent \<Rightarrow> Server \<Rightarrow> Server" where
  "srvNotify e s = s\<lparr>s_watch := Notify e (s_watch s)\<rparr>"

definition notifyBlock ::
  "Msg \<Rightarrow> Msg \<Rightarrow> string \<Rightarrow> string \<Rightarrow> string \<Rightarrow> string \<Rightarrow> time \<Rightarrow> time \<Rightarrow> Server \<Rightarrow> Server" where
  "notifyBlock req resp client domain list proto start now s =
     (if \<not> HasWatchers (s_watch s) then s
      else srvNotify (emptyEvent\<lparr>we_Type := ''block'', we_At := now, we_Client := client, we_Domain := domain,
             we_Proto := proto, we_QType := qType req, we_Answers := answersFor req resp,
             we_BlockList := list, we_DurationUs := (now - start) sdiv Microsecond\<rparr>) s)"

definition notifyUpstreamError :: "string \<Rightarrow> string \<Rightarrow> string \<Rightarrow> time \<Rightarrow> Server \<Rightarrow> Server" where
  "notifyUpstreamError client domain msg now =
     srvNotify (emptyEvent\<lparr>we_Type := ''error'', we_At := now, we_Client := client, we_Domain := domain,
       we_Msg := msg\<rparr>)"

definition notifyPass ::
  "Msg \<Rightarrow> Msg \<Rightarrow> string \<Rightarrow> string \<Rightarrow> string \<Rightarrow> string list \<Rightarrow> bool \<Rightarrow> string \<Rightarrow> time \<Rightarrow> time \<Rightarrow> Server \<Rightarrow> Server" where
  "notifyPass req out client domain proto ips cached up start now s =
     (if \<not> HasWatchers (s_watch s) then s
      else srvNotify (emptyEvent\<lparr>we_Type := ''pass'', we_Proto := proto, we_At := now, we_Client := client,
             we_Domain := domain, we_QType := qType req, we_IPs := ips, we_Answers := answersFor req out,
             we_Cached := cached, we_Upstream := up, we_DurationUs := (now - start) sdiv Microsecond\<rparr>) s)"

definition logQuery :: "string \<Rightarrow> string \<Rightarrow> Server \<Rightarrow> Server" where
  "logQuery client domain s = (if s_logfn s then s\<lparr>s_logged := s_logged s @ [(client, domain)]\<rparr> else s)"

definition bump :: "(Counters \<Rightarrow> Counters) \<Rightarrow> Server \<Rightarrow> Server" where
  "bump f s = s\<lparr>s_cnt := f (s_cnt s)\<rparr>"

subsection \<open>The query path\<close>

definition reply0 :: "Msg \<Rightarrow> Msg" where
  "reply0 req = (SetReply emptyMsg req)\<lparr>m_RecursionAvailable := True\<rparr>"

text \<open>
  The cache in front of a resolver. A failover group with a nil member dereferences it when
  no earlier member answers; the result \<open>None\<close> stands for a query that gets as far as
  such a group.
\<close>

definition cachedResolve ::
  "'w net_ops \<Rightarrow> Key \<Rightarrow> Msg \<Rightarrow> autoResolver \<Rightarrow> Server \<Rightarrow> 'w \<Rightarrow> Server \<times> 'w \<times> (uerr, Msg \<times> bool) result option" where
  "cachedResolve n key req resolver s w =
     (case resolver of
        Auto r \<Rightarrow>
          let fn = (\<lambda>(h, w). case Resolve n 2 req r h w of (h', w', x) \<Rightarrow> ((h', w'), x));
              now' = clock n (snd (fst (fn (s_heap s, w))))
          in (case Cache_DoHit key (clock n w) now' fn (s_heap s, w) (s_cache s) of
                ((h', w'), c', x) \<Rightarrow> (s\<lparr>s_heap := h', s_cache := c'\<rparr>, w', Some x))
      | _ \<Rightarrow>
          (case Cache_Get key (clock n w) (s_cache s) of
             (c', Some m) \<Rightarrow> (s\<lparr>s_cache := c'\<rparr>, w, Some (Inr (m, True)))
           | (c', None) \<Rightarrow> (s\<lparr>s_cache := c'\<rparr>, w, None)))"

definition serveForward ::
  "'w srv_ops \<Rightarrow> autoResolver \<Rightarrow> string \<Rightarrow> string \<Rightarrow> string \<Rightarrow> string \<Rightarrow> time \<Rightarrow> Msg \<Rightarrow> Server \<Rightarrow> 'w
   \<Rightarrow> Server \<times> 'w \<times> Msg option" where
  "serveForward ops resolver label client domain proto start req s w =
     (let n = so_net ops; key = (if label \<noteq> [] then (KeyOf req)\<lparr>k_Label := label\<rparr> else KeyOf req)
      in case cachedResolve n key req resolver s w of
           (s1, w1, None) \<Rightarrow> (s1, w1, None)
         | (s1, w1, Some (Inl err)) \<Rightarrow>
             (notifyUpstreamError client domain (upstreamErrText (so_timeout ops) label err) (clock n w1)
                (bump AddUpErr s1), w1, Some ((reply0 req)\<lparr>m_Rcode := RcodeServerFailure\<rparr>))
         | (s1, w1, Some (Inr (m, cached))) \<Rightarrow>
             let out = m\<lparr>m_Id := m_Id req, m_Question := m_Question req\<rparr>;
                 ips = map an_Data (filter (\<lambda>a. isAddressType (an_Type a)) (answersFor req out))
             in (notifyPass req out client domain proto ips cached label start (clock n w1) s1, w1, Some out))"

text \<open>Reverse lookups the program keeps local.\<close>

definition privateReverse :: "Question \<Rightarrow> bool \<Rightarrow> string \<Rightarrow> bool" where
  "privateReverse q matchedRoute override \<longleftrightarrow>
     q_Qtype q = TypePTR \<and> \<not> matchedRoute \<and> override = []
     \<and> (case ptrIPFromArpa (q_Name q) of None \<Rightarrow> False | Some ip \<Rightarrow> \<not> IsGlobalUnicast ip)"

definition serveUpstream ::
  "'w srv_ops \<Rightarrow> IP \<Rightarrow> string \<Rightarrow> string \<Rightarrow> string \<Rightarrow> string \<Rightarrow> time \<Rightarrow> Msg \<Rightarrow> Question \<Rightarrow> Server \<Rightarrow> 'w
   \<Rightarrow> Server \<times> 'w \<times> Msg option" where
  "serveUpstream ops clientIP override client domain proto start req q s w =
     (case upstreamFor s (q_Name q) clientIP of (resolver0, matchedRoute) \<Rightarrow>
      let now = clock (so_net ops) w; servfail = (reply0 req)\<lparr>m_Rcode := RcodeServerFailure\<rparr> in
      if privateReverse q matchedRoute override
        then (s, w, Some ((reply0 req)\<lparr>m_Rcode := RcodeNameError\<rparr>))
      else
        (case (if override \<noteq> [] \<and> \<not> matchedRoute then overrideResolver override s else (s, Inr resolver0)) of
           (s1, Inl e) \<Rightarrow>
             (notifyUpstreamError client domain
                (''invalid upstream override '' @ Quote override @ '': '' @ SpecError_Error e) now (bump AddUpErr s1),
              w, Some servfail)
         | (s1, Inr resolver) \<Rightarrow>
             if resolver = NoAuto
               then (notifyUpstreamError client domain ''no upstream configured'' now (bump AddUpErr s1), w, Some servfail)
             else serveForward ops resolver (upstreamLabel s1 resolver matchedRoute override) client domain proto
                    start req s1 w))"

definition globallyBlocked :: "Server \<Rightarrow> IP \<Rightarrow> string \<Rightarrow> string \<Rightarrow> bool" where
  "globallyBlocked s clientIP clientID domain \<longleftrightarrow>
     (case s_Blocklist s of None \<Rightarrow> False | Some b \<Rightarrow> Blocklist_IsBlocked b domain)
     \<and> \<not> Store_Allowed (s_Store s) clientIP clientID domain"

definition serveAdmitted ::
  "'w srv_ops \<Rightarrow> IP \<Rightarrow> string \<Rightarrow> string \<Rightarrow> string \<Rightarrow> time \<Rightarrow> Msg \<Rightarrow> Server \<Rightarrow> 'w \<Rightarrow> Server \<times> 'w \<times> Msg option" where
  "serveAdmitted ops clientIP clientID client proto start req s w =
     (let resp = reply0 req; now = clock (so_net ops) w in
      case m_Question req of
        [] \<Rightarrow> (s, w, Some (resp\<lparr>m_Rcode := RcodeFormatError\<rparr>))
      | q # _ \<Rightarrow>
          if q_Qclass q = ClassCHAOS then (s, w, Some (resp\<lparr>m_Rcode := RcodeRefused\<rparr>))
          else
            let domain = TrimSuffix (q_Name q) ''.'' in
            if globallyBlocked s clientIP clientID domain then
              (logQuery client domain (notifyBlock req resp client domain ''global'' proto start now (bump AddBlocked s)),
               w, Some (applyBlockAction q (s_BlockAction s) resp))
            else
              (case Store_Classify (s_Store s) clientIP clientID domain of (blocked, action, override, logIt) \<Rightarrow>
                 if blocked then
                   let s1 = notifyBlock req resp client domain (Store_BlockSource (s_Store s) clientIP clientID domain)
                              proto start now (bump AddBlocked s)
                   in (if logIt then logQuery client domain s1 else s1, w, Some (applyBlockAction q action resp))
                 else
                   let s1 = (if logIt then logQuery client domain s else s) in
                   (case (case s_rec s1 of None \<Rightarrow> None | Some rs \<Rightarrow> RecordStore_Lookup rs req) of
                      Some out \<Rightarrow>
                        (notifyPass req out client domain proto [] False ''local'' start now s1, w, Some out)
                    | None \<Rightarrow> serveUpstream ops clientIP override client domain proto start req q s1 w)))"

text \<open>The rate limit is keyed by the source address, whatever identity the query carries.\<close>

definition admit :: "IP \<Rightarrow> string \<Rightarrow> string \<Rightarrow> time \<Rightarrow> Server \<Rightarrow> Server \<times> bool" where
  "admit clientIP clientID client now s =
     (case s_rl s of
        None \<Rightarrow> (s, True)
      | Some rl \<Rightarrow>
          let rlKey = (if clientID \<noteq> [] then IP_String clientIP else client)
          in (case rateLimiter_allow rlKey now rl of (rl', ok) \<Rightarrow> (s\<lparr>s_rl := Some rl'\<rparr>, ok)))"

definition serve ::
  "'w srv_ops \<Rightarrow> IP \<Rightarrow> string \<Rightarrow> string \<Rightarrow> Msg \<Rightarrow> Server \<Rightarrow> 'w \<Rightarrow> Server \<times> 'w \<times> Msg option" where
  "serve ops clientIP clientID proto req s w =
     (let start = clock (so_net ops) w;
          client = (if clientID = [] then IP_String clientIP else clientID)
      in case admit clientIP clientID client start s of
           (s1, False) \<Rightarrow> (bump AddRateLimited s1, w, Some ((reply0 req)\<lparr>m_Rcode := RcodeRefused\<rparr>))
         | (s1, True) \<Rightarrow>
             (case serveAdmitted ops clientIP clientID client proto start req (bump AddQuery s1) w of
                (s2, w2, out) \<Rightarrow> (bump (AddDuration (clock (so_net ops) w2 - start)) s2, w2, out)))"

definition ServeDNS :: "'w srv_ops \<Rightarrow> string \<Rightarrow> Msg \<Rightarrow> Server \<Rightarrow> 'w \<Rightarrow> Server \<times> 'w \<times> Msg option" where
  "ServeDNS ops remoteAddr req =
     (let clientIP = (case SplitHostPort remoteAddr of Some (host, _) \<Rightarrow> host | None \<Rightarrow> [])
      in serve ops (ParseIP clientIP) [] ProtoDNS req)"

subsection \<open>Construction\<close>

record Config =
  cf_Upstream :: string
  cf_UpstreamServers :: "UpstreamServer list"
  cf_UpstreamRoutes :: "UpstreamRoute list"
  cf_UpstreamBootstrap :: "UpstreamServer list"
  cf_RateLimitQPS :: int
  cf_RateLimitBurst :: int
  cf_CacheCap :: duration
  cf_CacheSize :: int
  cf_Store :: "Store option"
  cf_Blocklist :: "Blocklist option"
  cf_BlockAction :: string
  cf_TrustedProxies :: "string list"
  cf_TLSCert :: "nat option"

datatype NewError = PoolFailed PoolError | InvalidTrustedProxy string

fun parseTrustedProxies :: "string list \<Rightarrow> (NewError, IPNet list) result" where
  "parseTrustedProxies [] = Inr []"
| "parseTrustedProxies (value0 # values) =
     (let value = TrimSpace value0; rest = (\<lambda>n. map_sum id (\<lambda>ns. n # ns) (parseTrustedProxies values)) in
      if value = [] then parseTrustedProxies values
      else if \<not> Contains value ''/'' then
        (let ip = ParseIP value in
         if ip = [] then Inl (InvalidTrustedProxy value)
         else if To4 ip \<noteq> [] then rest \<lparr>net_IP = To4 ip, net_Mask = CIDRMask 32 32\<rparr>
         else rest \<lparr>net_IP = ip, net_Mask = CIDRMask 128 128\<rparr>)
      else case ParseCIDR value of
             None \<Rightarrow> Inl (InvalidTrustedProxy value)
           | Some (_, n) \<Rightarrow> rest n)"

definition SetRateLimit :: "int \<Rightarrow> int \<Rightarrow> Server \<Rightarrow> Server" where
  "SetRateLimit qps burst s =
     (case s_rl s of None \<Rightarrow> s | Some rl \<Rightarrow> s\<lparr>s_rl := Some (rateLimiter_set qps burst rl)\<rparr>)"

definition NewServer :: "Config \<Rightarrow> (NewError, Server) result" where
  "NewServer cfg =
     (let store = (case cf_Store cfg of None \<Rightarrow> NewStore None | Some st \<Rightarrow> st) in
      case NewPoolWithBootstrap (cf_UpstreamServers cfg) (cf_UpstreamRoutes cfg) (cf_Upstream cfg)
             (cf_UpstreamBootstrap cfg) [] of
        (h, Inl e) \<Rightarrow> Inl (PoolFailed e)
      | (h, Inr up) \<Rightarrow>
          (case parseTrustedProxies (cf_TrustedProxies cfg) of
             Inl e \<Rightarrow> Inl e
           | Inr trusted \<Rightarrow>
               let s = \<lparr>s_Upstream = cf_Upstream cfg, s_Store = store, s_Blocklist = cf_Blocklist cfg,
                        s_BlockAction = cf_BlockAction cfg, s_cache = NewCache (cf_CacheCap cfg) (cf_CacheSize cfg),
                        s_watch = noWatch, s_cnt = zeroCounters, s_pool = Some up, s_heap = h, s_logfn = False,
                        s_logged = [], s_dohPlain = False, s_dohPlainAddr = [], s_down = False,
                        s_rl = Some newRateLimiter, s_cert = cf_TLSCert cfg, s_rec = Some NewRecordStore,
                        s_overrides = [], s_cacheSize = cf_CacheSize cfg, s_trustedProxies = trusted\<rparr>
               in Inr (if 0 < cf_RateLimitQPS cfg
                       then SetRateLimit (cf_RateLimitQPS cfg) (cf_RateLimitBurst cfg) s else s)))"

subsection \<open>Reconfiguration\<close>

definition SetTLSCert :: "nat option \<Rightarrow> Server \<Rightarrow> Server" where
  "SetTLSCert c s = (if c \<noteq> None then s\<lparr>s_cert := c\<rparr> else s)"

definition SetBlockLogger :: "bool \<Rightarrow> Server \<Rightarrow> Server" where
  "SetBlockLogger fn s = s\<lparr>s_logfn := fn\<rparr>"

definition RateLimitQPS :: "Server \<Rightarrow> int" where
  "RateLimitQPS s = (case s_rl s of None \<Rightarrow> 0 | Some rl \<Rightarrow> rateLimiter_qps rl)"

definition SetCacheConfig :: "int \<Rightarrow> Server \<Rightarrow> Server \<times> string option" where
  "SetCacheConfig sz s =
     (if sz < 0 then (s, Some ''cache size must be >= 0'')
      else (s\<lparr>s_cacheSize := sz, s_cache := Cache_SetMaxEntries sz (s_cache s)\<rparr>, None))"

definition CacheSize :: "Server \<Rightarrow> int" where
  "CacheSize s = s_cacheSize s"

definition PurgeCache :: "Server \<Rightarrow> Server" where
  "PurgeCache s = s\<lparr>s_cache := Cache_Purge (s_cache s)\<rparr>"

definition stopDoHPlainLocked :: "'w srv_ops \<Rightarrow> Server \<Rightarrow> 'w \<Rightarrow> Server \<times> 'w" where
  "stopDoHPlainLocked ops s w =
     (if \<not> s_dohPlain s then (s\<lparr>s_dohPlainAddr := []\<rparr>, w)
      else (s\<lparr>s_dohPlain := False, s_dohPlainAddr := []\<rparr>, so_close ops (s_dohPlainAddr s) w))"

definition SetDoHHTTPAddr :: "'w srv_ops \<Rightarrow> string \<Rightarrow> Server \<Rightarrow> 'w \<Rightarrow> Server \<times> 'w \<times> string option" where
  "SetDoHHTTPAddr ops addr s w =
     (if addr = s_dohPlainAddr s then (s, w, None)
      else
        case stopDoHPlainLocked ops s w of (s1, w1) \<Rightarrow>
        if addr = [] then (s1, w1, None)
        else case SplitHostPort addr of
               None \<Rightarrow> (s1, w1, Some (''doh http addr '' @ Quote addr))
             | Some (_, port) \<Rightarrow>
                 if port = [] then (s1, w1, Some (''doh http addr '' @ Quote addr @ '': missing port''))
                 else
                   (case so_listen ops addr w1 of
                      (w2, Some e) \<Rightarrow> (s1, w2, Some (''doh http listen '' @ addr @ '': '' @ e))
                    | (w2, None) \<Rightarrow> (s1\<lparr>s_dohPlain := True, s_dohPlainAddr := addr\<rparr>, w2, None)))"

definition DoHHTTPAddr :: "Server \<Rightarrow> string" where
  "DoHHTTPAddr s = s_dohPlainAddr s"

text \<open>\<open>Shutdown\<close> runs once; the UDP, TCP and TLS listeners have no state here.\<close>

definition Shutdown :: "'w srv_ops \<Rightarrow> Server \<Rightarrow> 'w \<Rightarrow> Server \<times> 'w" where
  "Shutdown ops s w =
     (if s_down s then (s, w)
      else case stopDoHPlainLocked ops s w of (s1, w1) \<Rightarrow> (s1\<lparr>s_down := True\<rparr>, w1))"

definition SetRecords :: "RecordEntry list \<Rightarrow> Server \<Rightarrow> Server" where
  "SetRecords records s =
     (case s_rec s of None \<Rightarrow> s | Some rs \<Rightarrow> s\<lparr>s_rec := Some (RecordStore_SetRecords records rs)\<rparr>)"

definition GetRecords :: "Server \<Rightarrow> RecordEntry list" where
  "GetRecords s = (case s_rec s of None \<Rightarrow> [] | Some rs \<Rightarrow> RecordStore_GetRecords rs)"

definition Server_RecordsHash :: "Server \<Rightarrow> u64" where
  "Server_RecordsHash s = (case s_rec s of None \<Rightarrow> 0 | Some rs \<Rightarrow> RecordStore_Hash rs)"

subsection \<open>Resolving keeps the shape of the heap\<close>

text \<open>What resolving may change: the connection of a TLS resolver, the stamps of a group.\<close>

fun shape :: "robj \<Rightarrow> robj" where
  "shape (TLSResolver a t c) = TLSResolver a t None"
| "shape (MultiResolver rs du cd) = MultiResolver rs (replicate (length du) 0) cd"
| "shape x = x"

lemma shape_leaf: "leaf (shape x) = leaf x"
  by (cases x) auto

lemma shape_update: "shape x = shape (h ! i) \<Longrightarrow> map shape (h[i := x]) = map shape h"
  by (simp add: map_update) (metis list_update_id list_update_beyond map_update not_le)

lemma shape_setDown: "map shape (setDown m i v h) = map shape h"
  by (cases "h ! m") (auto simp: setDown_def intro!: shape_update)

lemma shape_multiLoop:
  assumes "\<And>r h w. map shape (fst (res r h w)) = map shape h"
  shows "map shape (fst (multiLoop res m rs now cd is fe h w)) = map shape h"
proof (induction "is" arbitrary: fe h w)
  case (Cons i "is")
  obtain h1 w1 x where x: "res (rs ! i) h w = (h1, w1, x)" by (cases "res (rs ! i) h w")
  then have "map shape h1 = map shape h" using assms [of "rs ! i" h w] by simp
  then show ?case using Cons x by (cases x) (simp_all add: shape_setDown)
qed simp

lemma shape_Resolve: "map shape (fst (Resolve n d q r h w)) = map shape h"
proof (induction d arbitrary: r h w)
  case (Suc d)
  show ?case
  proof (cases "h ! r")
    case (MultiResolver rs du cd)
    have "map shape (h[r := MultiResolver rs (map (\<lambda>_. 0) du) cd]) = map shape h"
      using MultiResolver by (intro shape_update) simp
    then show ?thesis
      using MultiResolver shape_multiLoop [OF Suc.IH] by (simp add: Resolve.simps multiResolve_def Let_def)
  next
    case (TLSResolver a t c)
    have "map shape (h[r := TLSResolver a t c']) = map shape h" for c'
      using TLSResolver by (intro shape_update) simp
    then show ?thesis using TLSResolver by (auto simp: Resolve.simps split: prod.splits)
  qed (auto simp: Resolve.simps split: prod.splits)
qed (simp add: Resolve.simps)

lemma shape_nth: "map shape h' = map shape h \<Longrightarrow> i < length h \<Longrightarrow> shape (h' ! i) = shape (h ! i)"
  by (metis length_map nth_map)

lemma shape_length: "map shape h' = map shape h \<Longrightarrow> length h' = length h"
  by (metis length_map)

lemma shape_leaf_nth: "map shape h' = map shape h \<Longrightarrow> i < length h \<Longrightarrow> leaf (h' ! i) = leaf (h ! i)"
  by (metis shape_nth shape_leaf)

lemma shape_MultiD:
  assumes "shape x = shape (MultiResolver rs du cd)"
  obtains du' where "x = MultiResolver rs du' cd" "length du' = length du"
  using assms by (cases x) (auto simp: replicate_eq_replicate)

lemma shape_heap_wf:
  assumes "heap_wf h" and "map shape h' = map shape h"
  shows "heap_wf h'"
  unfolding heap_wf_def
proof (intro allI impI)
  fix m rs du cd assume m: "m < length h'" "h' ! m = MultiResolver rs du cd"
  then have m': "m < length h" using shape_length [OF assms(2)] by simp
  obtain du' where du': "h ! m = MultiResolver rs du' cd" "length du' = length du"
    using shape_nth [OF assms(2) m'] m(2) by (metis shape_MultiD)
  then have "group_ok h m rs du' cd" "rs \<noteq> []" using assms(1) m' by (auto simp: heap_wf_def)
  then show "group_ok h' m rs du cd \<and> rs \<noteq> []"
    using m du' shape_length [OF assms(2)] shape_leaf_nth [OF assms(2)] by (auto simp: group_ok_def)
qed

lemma shape_pool_ok:
  assumes "pool_ok h p" and "map shape h' = map shape h"
  shows "pool_ok h' p"
  using assms shape_heap_wf [OF _ assms(2)] shape_length [OF assms(2)] shape_leaf_nth [OF assms(2)]
  by (auto simp: pool_ok_def named_ok_def)

lemma pool_ok_append: "pool_ok h p \<Longrightarrow> heap_wf (h @ xs) \<Longrightarrow> pool_ok (h @ xs) p"
  by (auto simp: pool_ok_def named_ok_append trans_less_add1)

subsection \<open>Building pools on a live heap\<close>

text \<open>Whatever the server names, a built pool is well formed and leaves older objects alone.\<close>

lemma buildNamed_append:
  assumes "heap_wf h" and "buildNamed b svs named h = (h1, x)"
  shows "\<exists>xs. h1 = h @ xs"
  using assms
proof (induction svs arbitrary: h named)
  case (Cons sv svs)
  let ?sv = "namedServer sv"
  obtain h2 y where y: "fromServerSpecWithBootstrap (us_Address ?sv) (timeoutForServer ?sv) b h = (h2, y)" by force
  obtain xs where f: "heap_wf h2" "h2 = h @ xs" using fromServerSpec_ok [OF Cons.prems(1) y] by blast
  show ?case
  proof (cases "map_of named (us_Name ?sv) = None \<and> (\<exists>r. y = Inr r)")
    case True
    then show ?thesis using Cons.IH [OF f(1)] Cons.prems(2) y f(2) by (fastforce simp: Let_def)
  next
    case False
    then show ?thesis using Cons.prems y f(2) by (auto simp: Let_def split: sum.splits if_splits)
  qed
qed auto

lemma buildAuto_refs:
  assumes "heap_wf h" and "named_ok h named" and "buildAuto named svs up h = (h1, Inr au)"
  shows "heap_wf h1 \<and> (\<exists>xs. h1 = h @ xs) \<and> (\<forall>r. au = Auto r \<longrightarrow> r < length h1)"
proof (cases "set (rotationOrder svs) \<subseteq> dom (map_of named)")
  case True
  from buildAuto_ok [OF assms(1,2) this assms(3)] show ?thesis by blast
next
  case False
  then obtain nm where nm: "nm \<in> set (rotationOrder svs)" "map_of named nm = None" by blast
  then have "None \<in> set (map (map_of named) (rotationOrder svs))" by (metis image_eqI set_map)
  then have "h1 = h" "au = NoAuto \<or> au = NilMember"
    using assms(3) by (auto simp: buildAuto_def split: list.splits if_splits option.splits)
  then show ?thesis using assms(1) by auto
qed

lemma NewPool_extends:
  assumes "heap_wf h" and "NewPoolWithBootstrap servers routes up boot h = (h', Inr p)"
  shows "pool_ok h' p \<and> (\<exists>xs. h' = h @ xs)"
proof -
  obtain h1 b where b: "BuildBootstrapResolver boot h = (h1, Inr b)"
    using assms(2) by (cases "BuildBootstrapResolver boot h") (auto simp: NewPoolWithBootstrap_def split: sum.splits)
  obtain h2 named where nm: "buildNamed b servers [] h1 = (h2, Inr named)"
    using assms(2) b by (cases "buildNamed b servers [] h1") (auto simp: NewPoolWithBootstrap_def split: sum.splits)
  obtain h3 au where au: "buildAuto named servers up h2 = (h3, Inr au)"
    using assms(2) b nm by (cases "buildAuto named servers up h2") (auto simp: NewPoolWithBootstrap_def split: sum.splits)
  obtain rules where ru: "map_result (makeRouteRule named) (filter (\<lambda>rt. \<not> ur_Disabled rt) routes) = Inr rules"
    and p: "h' = h3" "p = \<lparr>pl_named = named, pl_auto = au, pl_rules = rules, pl_servers = servers, pl_routes = routes, pl_bootstrap = boot\<rparr>"
    using assms(2) b nm au by (auto simp: NewPoolWithBootstrap_def split: sum.splits)
  have h1: "heap_wf h1" "\<exists>xs. h1 = h @ xs" using BuildBootstrap_ok [OF assms(1) b] by blast+
  have "named_ok h1 []" by (simp add: named_ok_def)
  from buildNamed_ok [OF h1(1) this nm] have h2: "heap_wf h2" "named_ok h2 named" by auto
  note a = buildAuto_refs [OF h2 au]
  have "named_ok h3 named" using a named_ok_append [OF h2(2)] by blast
  moreover have "\<forall>rule \<in> set rules. map_of named (rr_server rule) \<noteq> None"
    using ru by (auto simp: map_result_Inr_iff list_all2_conv_all_nth in_set_conv_nth dest!: makeRouteRule_server)
  ultimately have "pool_ok h3 p" using a p by (simp add: pool_ok_def)
  then show ?thesis using p(1) h1(2) buildNamed_append [OF h1(1) nm] a by auto
qed

subsection \<open>The server's invariant\<close>

text \<open>Memoized override resolvers are live objects.\<close>

definition overrides_ok :: "nat \<Rightarrow> (string \<times> autoResolver) list \<Rightarrow> bool" where
  "overrides_ok n os \<longleftrightarrow> (\<forall>spec r. map_of os spec = Some r \<longrightarrow> (\<exists>a < n. r = Auto a))"

lemma overrides_ok_grow: "overrides_ok n os \<Longrightarrow> n \<le> m \<Longrightarrow> overrides_ok m os"
  unfolding overrides_ok_def by (meson order_less_le_trans)

lemma overrides_ok_add: "overrides_ok n os \<Longrightarrow> r < n \<Longrightarrow> overrides_ok n (AList.update spec (Auto r) os)"
  by (simp add: overrides_ok_def)

text \<open>The cache is consistent and enforces the size the server reports.\<close>

definition cache_ok :: "int \<Rightarrow> Cache \<Rightarrow> bool" where
  "cache_ok n c \<longleftrightarrow> Cache_inv c \<and> Cache_bounded c \<and> c_maxEntries c = n"

definition Server_inv :: "Server \<Rightarrow> bool" where
  "Server_inv s \<longleftrightarrow>
     Store_inv (s_Store s) \<and> cache_ok (s_cacheSize s) (s_cache s) \<and> Watch_inv (s_watch s)
     \<and> (\<forall>rl. s_rl s = Some rl \<longrightarrow> limiter_inv rl)
     \<and> heap_wf (s_heap s) \<and> (\<forall>p. s_pool s = Some p \<longrightarrow> pool_ok (s_heap s) p)
     \<and> overrides_ok (length (s_heap s)) (s_overrides s)
     \<and> (\<forall>rs. s_rec s = Some rs \<longrightarrow> store_ok rs)
     \<and> (s_dohPlain s \<longleftrightarrow> s_dohPlainAddr s \<noteq> [])"

lemma inv_bump [simp]: "Server_inv (bump f s) = Server_inv s"
  by (simp add: Server_inv_def bump_def)

lemma inv_log [simp]: "Server_inv (logQuery c d s) = Server_inv s"
  by (simp add: Server_inv_def logQuery_def)

lemma inv_rl: "Server_inv s \<Longrightarrow> limiter_inv rl \<Longrightarrow> Server_inv (s\<lparr>s_rl := Some rl\<rparr>)"
  by (simp add: Server_inv_def)

lemma inv_notify [blip_inv]:
  assumes "Server_inv s"
  shows "Server_inv (srvNotify e s)" "Server_inv (notifyBlock req resp c d l pr t0 t1 s)"
    "Server_inv (notifyUpstreamError c d m t1 s)" "Server_inv (notifyPass req resp c d pr ips ca up t0 t1 s)"
proof -
  have *: "Server_inv (srvNotify e s)" for e using assms Notify_inv by (simp add: Server_inv_def srvNotify_def)
  then show "Server_inv (srvNotify e s)" "Server_inv (notifyBlock req resp c d l pr t0 t1 s)"
    "Server_inv (notifyUpstreamError c d m t1 s)" "Server_inv (notifyPass req resp c d pr ips ca up t0 t1 s)"
    using assms by (auto simp: notifyBlock_def notifyUpstreamError_def notifyPass_def)
qed

lemma inv_heap_shape:
  assumes "Server_inv s" and "map shape h = map shape (s_heap s)" and "cache_ok (s_cacheSize s) c"
  shows "Server_inv (s\<lparr>s_heap := h, s_cache := c\<rparr>)"
  using assms shape_heap_wf [OF _ assms(2)] shape_pool_ok [OF _ assms(2)] shape_length [OF assms(2)]
  by (auto simp: Server_inv_def)

lemma Get_inv:
  assumes "cache_ok n c"
  shows "cache_ok n (fst (Cache_Get k now c))"
proof -
  obtain c1 where g: "fst (Cache_Get k now c) = c \<or> fst (Cache_Get k now c) = c1
      \<or> fst (Cache_Get k now c) = fst (get_expired k now c1) \<or> (\<exists>e. fst (Cache_Get k now c) = get_promote k e c1)"
    and c1: "c1 = fst (get_probe k now c)" by (rule Get_cache)
  have "cache_ok n c1" using assms by (simp add: cache_ok_def c1 get_probe_inv bounded_simps probe_fields)
  moreover have "c_maxEntries (fst (get_expired k now c1)) = c_maxEntries c1" "c_maxEntries (get_promote k e c1) = c_maxEntries c1" for e
    using get_expired_eq [of k now c1] by (auto simp: get_promote_def)
  ultimately have "cache_ok n c1" "cache_ok n (fst (get_expired k now c1))" "cache_ok n (get_promote k e c1)" for e
    by (simp_all add: cache_ok_def get_expired_inv get_promote_inv bounded_simps)
  then show ?thesis using g assms by metis
qed

lemma Set_inv:
  assumes "cache_ok n c"
  shows "cache_ok n (Cache_Set k m t c)"
proof -
  have "c_maxEntries (set_locked k m x c) = c_maxEntries c" for m x
  proof (cases "map_of (c_items c) k")
    case None
    have "Cache_inv c" using assms by (simp add: cache_ok_def)
    from evict_fields [OF insert_inv [OF this None]] None show ?thesis by (simp add: set_locked_def Let_def)
  qed (simp add: set_locked_def)
  then show ?thesis
    using assms set_locked_inv [of c] by (auto simp: cache_ok_def Cache_Set_def Let_def split: option.splits)
qed

lemma DoHit_inv:
  assumes "cache_ok n c" and "Cache_DoHit k now now' fn w c = (w', c', x)"
  shows "cache_ok n c'"
proof -
  obtain c1 mo where g: "Cache_Get k now c = (c1, mo)" by force
  have "cache_ok n c1" using Get_inv [OF assms(1), of k now] g by simp
  then show ?thesis
    using assms(2) g by (auto simp: Cache_DoHit_def Set_inv split: option.splits sum.splits prod.splits)
qed

lemma cachedResolve_inv:
  assumes "Server_inv s" and "cachedResolve n key req r s w = (s', w', x)"
  shows "Server_inv s'"
proof -
  have c: "cache_ok (s_cacheSize s) (s_cache s)" using assms(1) by (simp add: Server_inv_def)
  have same: "Server_inv (s\<lparr>s_cache := c'\<rparr>)" if "Cache_Get k t (s_cache s) = (c', mo)" for k t c' mo
    using assms(1) Get_inv [OF c, of k t] that by (simp add: Server_inv_def)
  show ?thesis
  proof (cases r)
    case (Auto a)
    let ?fn = "\<lambda>(h, w). case Resolve n 2 req a h w of (h', w', x) \<Rightarrow> ((h', w'), x)"
    let ?now = "clock n (snd (fst (?fn (s_heap s, w))))"
    obtain h1 w1 c1 y where d: "Cache_DoHit key (clock n w) ?now ?fn (s_heap s, w) (s_cache s) = ((h1, w1), c1, y)"
      by (metis prod.exhaust_sel)
    have "map shape h1 = map shape (s_heap s)"
      using d shape_Resolve [of n 2 req a "s_heap s" w]
      by (auto simp: Cache_DoHit_def split: prod.splits option.splits sum.splits)
    from inv_heap_shape [OF assms(1) this] DoHit_inv [OF c d] d assms(2) Auto show ?thesis
      by (auto simp: cachedResolve_def Let_def)
  qed (use assms(2) in \<open>auto simp: cachedResolve_def intro: same split: prod.splits option.splits\<close>)
qed

lemma overrideResolver_inv:
  assumes "Server_inv s" and "overrideResolver spec s = (s', x)"
  shows "Server_inv s' \<and> (\<forall>r. x = Inr r \<longrightarrow> (\<exists>a < length (s_heap s'). r = Auto a)) \<and> s_pool s' = s_pool s"
proof (cases "map_of (s_overrides s) spec")
  case (Some r)
  then show ?thesis using assms by (auto simp: overrideResolver_def Server_inv_def overrides_ok_def)
next
  case None
  have wf: "heap_wf (s_heap s)" using assms(1) by (simp add: Server_inv_def)
  obtain h y where y: "FromSpec spec (s_heap s) = (h, y)" by force
  show ?thesis
  proof (cases y)
    case (Inr ro)
    obtain r where r: "r < length h" "ro = Some r" "heap_wf h" using FromSpec_ok [OF wf] y Inr by blast
    obtain xs where "h = s_heap s @ xs" using FromSpec_append [OF wf] y Inr by blast
    moreover have "s' = s\<lparr>s_heap := h, s_overrides := AList.update spec (Auto r) (s_overrides s)\<rparr>" "x = Inr (Auto r)"
      using assms(2) None y Inr r(2) by (auto simp: overrideResolver_def Let_def)
    ultimately show ?thesis
      using assms(1) r(1,3) pool_ok_append [of "s_heap s" _ xs]
        overrides_ok_grow [of "length (s_heap s)" "s_overrides s" "length h"]
      by (auto simp: Server_inv_def overrides_ok_add)
  qed (use assms None y in \<open>auto simp: overrideResolver_def\<close>)
qed

lemma serveForward_inv:
  assumes "Server_inv s"
  shows "Server_inv (fst (serveForward ops r label c d pr t0 req s w))"
proof -
  obtain s1 w1 x where x: "cachedResolve (so_net ops)
      (if label \<noteq> [] then (KeyOf req)\<lparr>k_Label := label\<rparr> else KeyOf req) req r s w = (s1, w1, x)"
    by (metis prod.exhaust_sel)
  from cachedResolve_inv [OF assms x] show ?thesis
    using x by (auto simp: serveForward_def Let_def inv_notify split: option.splits sum.splits)
qed

lemma serveUpstream_inv:
  assumes "Server_inv s"
  shows "Server_inv (fst (serveUpstream ops ip ov c d pr t0 req q s w))"
proof -
  obtain s1 x where x: "overrideResolver ov s = (s1, x)" by force
  from overrideResolver_inv [OF assms this] have "Server_inv s1" by blast
  then show ?thesis
    using x assms by (auto simp: serveUpstream_def Let_def inv_notify serveForward_inv split: prod.splits sum.splits)
qed

lemma serveAdmitted_inv:
  assumes "Server_inv s"
  shows "Server_inv (fst (serveAdmitted ops ip cid c pr t0 req s w))"
  using assms
  by (auto simp: serveAdmitted_def Let_def inv_notify serveUpstream_inv split: list.splits prod.splits option.splits)

lemma admit_rl: "\<exists>r. fst (admit ip cid c now s) = s\<lparr>s_rl := r\<rparr> \<and> (Server_inv s \<longrightarrow> (\<forall>rl. r = Some rl \<longrightarrow> limiter_inv rl))"
proof (cases "s_rl s")
  case None
  then have "fst (admit ip cid c now s) = s\<lparr>s_rl := None\<rparr>" by (simp add: admit_def)
  then show ?thesis by blast
next
  case (Some rl)
  define k where "k = (if cid \<noteq> [] then IP_String ip else c)"
  have "fst (admit ip cid c now s) = s\<lparr>s_rl := Some (fst (rateLimiter_allow k now rl))\<rparr>"
    using Some by (simp add: admit_def Let_def k_def split: prod.splits)
  moreover have "Server_inv s \<longrightarrow> limiter_inv (fst (rateLimiter_allow k now rl))"
    using Some allow_inv by (auto simp: Server_inv_def)
  ultimately show ?thesis by blast
qed

lemma admit_inv: "Server_inv s \<Longrightarrow> Server_inv (fst (admit ip cid c now s))"
  using admit_rl [of ip cid c now s] by (auto simp: Server_inv_def)

text \<open>The two ways a query goes.\<close>

lemma serve_cases:
  obtains (limited) s1 where "admit ip cid (if cid = [] then IP_String ip else cid) (clock (so_net ops) w) s = (s1, False)"
      "serve ops ip cid pr req s w = (bump AddRateLimited s1, w, Some ((reply0 req)\<lparr>m_Rcode := RcodeRefused\<rparr>))"
    | (admitted) s1 s2 w2 out where
      "admit ip cid (if cid = [] then IP_String ip else cid) (clock (so_net ops) w) s = (s1, True)"
      "serveAdmitted ops ip cid (if cid = [] then IP_String ip else cid) pr (clock (so_net ops) w) req (bump AddQuery s1) w = (s2, w2, out)"
      "serve ops ip cid pr req s w = (bump (AddDuration (clock (so_net ops) w2 - clock (so_net ops) w)) s2, w2, out)"
proof -
  obtain s1 ok where a: "admit ip cid (if cid = [] then IP_String ip else cid) (clock (so_net ops) w) s = (s1, ok)" by force
  obtain s2 w2 out where x: "serveAdmitted ops ip cid (if cid = [] then IP_String ip else cid) pr
      (clock (so_net ops) w) req (bump AddQuery s1) w = (s2, w2, out)" by (metis prod.exhaust_sel)
  show thesis
  proof (cases ok)
    case True
    then show thesis using a x by (intro admitted [OF _ x]) (simp_all only: serve_def Let_def prod.case bool.case)
  next
    case False
    then show thesis using a by (intro limited) (simp_all only: serve_def Let_def prod.case bool.case)
  qed
qed

lemma serve_inv [blip_inv]:
  assumes "Server_inv s"
  shows "Server_inv (fst (serve ops ip cid pr req s w))"
proof (cases rule: serve_cases [of ip cid ops w s pr req])
  case (limited s1)
  then show ?thesis using admit_inv [OF assms] by (metis fst_conv inv_bump)
next
  case (admitted s1 s2 w2 out)
  then have "Server_inv s1" using admit_inv [OF assms] by (metis fst_conv)
  then have "Server_inv s2" using serveAdmitted_inv [of "bump AddQuery s1"] admitted(2) by (metis fst_conv inv_bump)
  then show ?thesis using admitted(3) by simp
qed

subsection \<open>Reconfiguration keeps the invariant\<close>

lemma newRateLimiter_ok: "limiter_inv newRateLimiter"
  by (simp add: limiter_inv_def newRateLimiter_def rlShards_def)

lemma SetRateLimit_inv [blip_inv]: "Server_inv s \<Longrightarrow> Server_inv (SetRateLimit q b s)"
  by (auto simp: SetRateLimit_def Server_inv_def set_inv split: option.splits)

lemma SetUpstream_inv [blip_inv]:
  assumes "Server_inv s"
  shows "Server_inv (fst (SetUpstream svs rts boot s))"
proof -
  obtain h x where x: "NewPoolWithBootstrap svs rts (s_Upstream s) boot (s_heap s) = (h, x)" by force
  show ?thesis
  proof (cases x)
    case (Inr p)
    have wf: "heap_wf (s_heap s)" using assms by (simp add: Server_inv_def)
    obtain xs where p: "pool_ok h p" "h = s_heap s @ xs" using NewPool_extends [OF wf] x Inr by blast
    then have "overrides_ok (length h) (s_overrides s)"
      using assms by (auto simp: Server_inv_def elim!: overrides_ok_grow)
    then show ?thesis using assms x Inr p by (auto simp: SetUpstream_def Server_inv_def pool_ok_def)
  qed (use assms x in \<open>simp add: SetUpstream_def\<close>)
qed

lemma SetCacheConfig_inv [blip_inv]:
  assumes "Server_inv s"
  shows "Server_inv (fst (SetCacheConfig n s))"
proof (cases "n < 0")
  case False
  have "cache_ok n (Cache_SetMaxEntries n (s_cache s))"
    using assms False SetMaxEntries_inv [of "s_cache s" n] evict_fields [of "(s_cache s)\<lparr>c_maxEntries := n\<rparr>"]
    by (auto simp: Server_inv_def cache_ok_def Cache_SetMaxEntries_def)
  then show ?thesis using assms False by (simp add: SetCacheConfig_def Server_inv_def)
qed (use assms in \<open>simp add: SetCacheConfig_def\<close>)

lemma PurgeCache_inv [blip_inv]: "Server_inv s \<Longrightarrow> Server_inv (PurgeCache s)"
  using Purge_inv by (auto simp: PurgeCache_def Server_inv_def cache_ok_def Cache_bounded_def Cache_Purge_def)

lemma stop_inv: "Server_inv s \<Longrightarrow> Server_inv (fst (stopDoHPlainLocked ops s w))"
  by (auto simp: stopDoHPlainLocked_def Server_inv_def)

lemma SetDoHHTTPAddr_inv [blip_inv]:
  assumes "Server_inv s"
  shows "Server_inv (fst (SetDoHHTTPAddr ops a s w))"
proof -
  obtain s1 w1 where s1: "stopDoHPlainLocked ops s w = (s1, w1)" by force
  then have "Server_inv s1" using stop_inv [OF assms, of ops w] by simp
  moreover from this have "a \<noteq> [] \<Longrightarrow> Server_inv (s1\<lparr>s_dohPlain := True, s_dohPlainAddr := a\<rparr>)" by (simp add: Server_inv_def)
  ultimately show ?thesis
    using assms s1 by (auto simp: SetDoHHTTPAddr_def split: option.splits prod.splits)
qed

lemma Shutdown_inv [blip_inv]: "Server_inv s \<Longrightarrow> Server_inv (fst (Shutdown ops s w))"
  using stop_inv [of s ops w] by (auto simp: Shutdown_def Server_inv_def split: prod.splits)

lemma SetRecords_inv [blip_inv]: "Server_inv s \<Longrightarrow> Server_inv (SetRecords rs s)"
  using record_store.run_inv [OF empty_store_ok]
  by (auto simp: SetRecords_def Server_inv_def RecordStore_SetRecords_def split: option.splits)

lemma SetTLSCert_inv [blip_inv]: "Server_inv s \<Longrightarrow> Server_inv (SetTLSCert c s)"
  by (simp add: SetTLSCert_def Server_inv_def)

lemma SetBlockLogger_inv [blip_inv]: "Server_inv s \<Longrightarrow> Server_inv (SetBlockLogger f s)"
  by (simp add: SetBlockLogger_def Server_inv_def)

lemma NewServer_inv:
  assumes "NewServer cfg = Inr s" and "\<forall>st. cf_Store cfg = Some st \<longrightarrow> Store_inv st"
  shows "Server_inv s"
proof -
  obtain h x where x: "NewPoolWithBootstrap (cf_UpstreamServers cfg) (cf_UpstreamRoutes cfg) (cf_Upstream cfg)
      (cf_UpstreamBootstrap cfg) [] = (h, x)" by force
  have wf: "heap_wf []" by (simp add: heap_wf_def)
  obtain p where p: "x = Inr p" using assms(1) x by (cases x) (auto simp: NewServer_def)
  have "pool_ok h p" using NewPool_extends [OF wf] x p by blast
  moreover have "Store_inv (case cf_Store cfg of None \<Rightarrow> NewStore None | Some st \<Rightarrow> st)"
    using assms(2) NewStore_inv by (auto split: option.splits)
  moreover have "store_ok NewRecordStore" using empty_store_ok by (simp add: NewRecordStore_def)
  moreover have "cache_ok (cf_CacheSize cfg) (NewCache (cf_CacheCap cfg) (cf_CacheSize cfg))"
    using NewCache_inv by (auto simp: cache_ok_def NewCache_def)
  moreover obtain trusted where "parseTrustedProxies (cf_TrustedProxies cfg) = Inr trusted"
    using assms(1) x p by (cases "parseTrustedProxies (cf_TrustedProxies cfg)") (auto simp: NewServer_def)
  ultimately show ?thesis
    using assms(1) x p noWatch_inv newRateLimiter_ok
    by (auto simp: NewServer_def Let_def Server_inv_def pool_ok_def overrides_ok_def SetRateLimit_def set_inv split: if_splits)
qed

text \<open>Everything that happens to a running server.\<close>

datatype server_op =
    OpServe IP string string Msg
  | OpPolicy store_op
  | OpBlocklist bl_op
  | OpUpstream "UpstreamServer list" "UpstreamRoute list" "UpstreamServer list"
  | OpRateLimit int int
  | OpCacheSize int
  | OpPurge
  | OpDoHAddr string
  | OpRecords "RecordEntry list"
  | OpCert "nat option"
  | OpLogger bool
  | OpWatchOpen nat
  | OpWatchRecv nat
  | OpWatchClose nat
  | OpShutdown

fun server_step :: "'w srv_ops \<Rightarrow> server_op \<Rightarrow> Server \<times> 'w \<Rightarrow> Server \<times> 'w" where
  "server_step ops (OpServe ip cid pr req) (s, w) = (case serve ops ip cid pr req s w of (s', w', _) \<Rightarrow> (s', w'))"
| "server_step ops (OpPolicy e) (s, w) = (s\<lparr>s_Store := store_step e (s_Store s)\<rparr>, w)"
| "server_step ops (OpBlocklist e) (s, w) = (s\<lparr>s_Blocklist := map_option (bl_step e) (s_Blocklist s)\<rparr>, w)"
| "server_step ops (OpUpstream a b c) (s, w) = (fst (SetUpstream a b c s), w)"
| "server_step ops (OpRateLimit q b) (s, w) = (SetRateLimit q b s, w)"
| "server_step ops (OpCacheSize n) (s, w) = (fst (SetCacheConfig n s), w)"
| "server_step ops OpPurge (s, w) = (PurgeCache s, w)"
| "server_step ops (OpDoHAddr a) (s, w) = (case SetDoHHTTPAddr ops a s w of (s', w', _) \<Rightarrow> (s', w'))"
| "server_step ops (OpRecords rs) (s, w) = (SetRecords rs s, w)"
| "server_step ops (OpCert c) (s, w) = (SetTLSCert c s, w)"
| "server_step ops (OpLogger f) (s, w) = (SetBlockLogger f s, w)"
| "server_step ops (OpWatchOpen i) (s, w) = (s\<lparr>s_watch := watchOpen i (s_watch s)\<rparr>, w)"
| "server_step ops (OpWatchRecv i) (s, w) = (s\<lparr>s_watch := fst (watchRecv i (s_watch s))\<rparr>, w)"
| "server_step ops (OpWatchClose i) (s, w) = (s\<lparr>s_watch := watchClose i (s_watch s)\<rparr>, w)"
| "server_step ops OpShutdown (s, w) = Shutdown ops s w"

lemma server_step_inv:
  assumes "Server_inv s"
  shows "Server_inv (fst (server_step ops e (s, w)))"
proof (cases e)
  case (OpServe ip cid pr req)
  then show ?thesis using serve_inv [OF assms] by (simp add: split_beta)
next
  case (OpPolicy e')
  then show ?thesis using assms filter_store.step_inv by (simp add: Server_inv_def)
next
  case (OpDoHAddr a)
  then show ?thesis using SetDoHHTTPAddr_inv [OF assms] by (simp add: split_beta)
qed (use assms in \<open>simp_all add: blip_inv\<close>, simp_all add: Server_inv_def watchOpen_inv watchRecv_inv watchClose_inv)

interpretation dns_server: invariant_steps "server_step ops" "\<lambda>sw. Server_inv (fst sw)" for ops
  by unfold_locales (metis prod.collapse server_step_inv)

end
