(* ===== verification/Blip_Query.thy ===== *)
theory Blip_Query
  imports Blip_Server
begin

text \<open>
  Properties of the query path: what a query may change, which queries stay on the box,
  how they are counted, and what the reply carries.
\<close>

subsection \<open>What the stages change\<close>

lemma notify_fields [simp]:
  "s_cnt (srvNotify e s) = s_cnt s" "s_cache (srvNotify e s) = s_cache s" "s_heap (srvNotify e s) = s_heap s"
  "s_cnt (notifyBlock req resp c d l pr t0 t1 s) = s_cnt s"
  "s_cache (notifyBlock req resp c d l pr t0 t1 s) = s_cache s"
  "s_heap (notifyBlock req resp c d l pr t0 t1 s) = s_heap s"
  "s_cnt (notifyUpstreamError c d m t1 s) = s_cnt s"
  "s_cnt (notifyPass req resp c d pr ips ca up t0 t1 s) = s_cnt s"
  by (simp_all add: srvNotify_def notifyBlock_def notifyUpstreamError_def notifyPass_def)

lemma log_bump_fields [simp]:
  "s_cnt (logQuery c d s) = s_cnt s" "s_cache (logQuery c d s) = s_cache s" "s_heap (logQuery c d s) = s_heap s"
  "s_Store (logQuery c d s) = s_Store s" "s_rec (logQuery c d s) = s_rec s" "s_pool (logQuery c d s) = s_pool s"
  "s_cnt (bump f s) = f (s_cnt s)" "s_cache (bump f s) = s_cache s" "s_heap (bump f s) = s_heap s"
  "s_Store (bump f s) = s_Store s" "s_Blocklist (bump f s) = s_Blocklist s" "s_rec (bump f s) = s_rec s"
  "s_pool (bump f s) = s_pool s" "s_BlockAction (bump f s) = s_BlockAction s" "s_watch (bump f s) = s_watch s"
  by (simp_all add: logQuery_def bump_def)

lemma admit_fields:
  assumes "admit ip cid c now s = (s1, ok)"
  shows "s_cnt s1 = s_cnt s" "s_cache s1 = s_cache s" "s_heap s1 = s_heap s" "s_Store s1 = s_Store s"
    "s_Blocklist s1 = s_Blocklist s" "s_rec s1 = s_rec s" "s_pool s1 = s_pool s" "s_BlockAction s1 = s_BlockAction s"
    "s_watch s1 = s_watch s" "s_logged s1 = s_logged s"
proof -
  obtain r where "s1 = s\<lparr>s_rl := r\<rparr>" using admit_rl [of ip cid c now s] assms by auto
  then show "s_cnt s1 = s_cnt s" "s_cache s1 = s_cache s" "s_heap s1 = s_heap s" "s_Store s1 = s_Store s"
    "s_Blocklist s1 = s_Blocklist s" "s_rec s1 = s_rec s" "s_pool s1 = s_pool s" "s_BlockAction s1 = s_BlockAction s"
    "s_watch s1 = s_watch s" "s_logged s1 = s_logged s" by simp_all
qed

lemma admit_identity:
  "admit ip cid (if cid = [] then IP_String ip else cid) now s = admit ip [] (IP_String ip) now s"
  by (simp add: admit_def)

lemma cachedResolve_cnt: "cachedResolve n k req r s w = (s', w', x) \<Longrightarrow> s_cnt s' = s_cnt s"
  by (auto simp: cachedResolve_def Let_def split: autoResolver.splits prod.splits option.splits)

lemma override_cnt: "overrideResolver ov s = (s', x) \<Longrightarrow> s_cnt s' = s_cnt s"
  by (auto simp: overrideResolver_def Let_def split: option.splits prod.splits sum.splits)

abbreviation servfail :: "Msg \<Rightarrow> Msg" where
  "servfail req \<equiv> (reply0 req)\<lparr>m_Rcode := RcodeServerFailure\<rparr>"

lemma serveForward_cnt:
  assumes "serveForward ops r label c d pr t0 req s w = (s', w', out)"
  shows "s_cnt s' = s_cnt s \<or> (s_cnt s' = AddUpErr (s_cnt s) \<and> out = Some (servfail req))"
proof -
  obtain s1 w1 x where x: "cachedResolve (so_net ops)
      (if label \<noteq> [] then (KeyOf req)\<lparr>k_Label := label\<rparr> else KeyOf req) req r s w = (s1, w1, x)"
    by (metis prod.exhaust_sel)
  note cachedResolve_cnt [OF this]
  then show ?thesis using assms x by (auto simp: serveForward_def Let_def split: option.splits sum.splits)
qed

lemma serveUpstream_cnt:
  assumes "serveUpstream ops ip ov c d pr t0 req q s w = (s', w', out)"
  shows "s_cnt s' = s_cnt s \<or> (s_cnt s' = AddUpErr (s_cnt s) \<and> out = Some (servfail req))"
proof -
  obtain s1 x where x: "overrideResolver ov s = (s1, x)" by force
  have "s_cnt s1 = s_cnt s" by (rule override_cnt [OF x])
  then show ?thesis
    using assms x by (auto simp: serveUpstream_def Let_def split: prod.splits sum.splits if_splits dest!: serveForward_cnt)
qed

lemma serveAdmitted_cnt:
  assumes "serveAdmitted ops ip cid c pr t0 req s w = (s', w', out)"
  shows "s_cnt s' = s_cnt s
    \<or> (s_cnt s' = AddUpErr (s_cnt s) \<and> out = Some (servfail req))
    \<or> (s_cnt s' = AddBlocked (s_cnt s) \<and> w' = w \<and> s_cache s' = s_cache s \<and> s_heap s' = s_heap s)"
  using assms
  by (auto simp: serveAdmitted_def Let_def split: list.splits prod.splits option.splits if_splits dest!: serveUpstream_cnt)

subsection \<open>Blocking\<close>

definition queryBlocked :: "Server \<Rightarrow> IP \<Rightarrow> string \<Rightarrow> string \<Rightarrow> bool" where
  "queryBlocked s ip cid domain \<longleftrightarrow>
     globallyBlocked s ip cid domain \<or> fst (Store_Classify (s_Store s) ip cid domain)"

definition blockActionFor :: "Server \<Rightarrow> IP \<Rightarrow> string \<Rightarrow> string \<Rightarrow> string" where
  "blockActionFor s ip cid domain =
     (if globallyBlocked s ip cid domain then s_BlockAction s
      else fst (snd (Store_Classify (s_Store s) ip cid domain)))"

lemma allowed_not_blocked: "Store_Allowed st ip cid d \<Longrightarrow> \<not> fst (Store_Classify st ip cid d)"
  by (auto simp: Store_Allowed_def Store_Classify_def Let_def split: option.splits)

lemma serveAdmitted_blocked:
  assumes "m_Question req = q # qs" and "q_Qclass q \<noteq> ClassCHAOS"
    and "d = TrimSuffix (q_Name q) ''.''" and "queryBlocked s ip cid d"
    and "serveAdmitted ops ip cid c pr t0 req s w = (s', w', out)"
  shows "w' = w \<and> s_cache s' = s_cache s \<and> s_heap s' = s_heap s \<and> s_cnt s' = AddBlocked (s_cnt s)
    \<and> out = Some (applyBlockAction q (blockActionFor s ip cid d) (reply0 req))"
  using assms
  by (auto simp: serveAdmitted_def queryBlocked_def blockActionFor_def Let_def split: prod.splits if_splits)

lemma serveAdmitted_open:
  assumes "m_Question req = q # qs" and "q_Qclass q \<noteq> ClassCHAOS"
    and "d = TrimSuffix (q_Name q) ''.''" and "\<not> queryBlocked s ip cid d"
    and "serveAdmitted ops ip cid c pr t0 req s w = (s', w', out)"
  shows "s_cnt s' = s_cnt s \<or> (s_cnt s' = AddUpErr (s_cnt s) \<and> out = Some (servfail req))"
  using assms
  by (auto simp: serveAdmitted_def queryBlocked_def Let_def split: prod.splits if_splits option.splits
      dest!: serveUpstream_cnt)

lemma blockAction_answers:
  "rr \<in> set (m_Answer (applyBlockAction q a (reply0 req))) \<Longrightarrow>
     rr_Data rr = A [0, 0, 0, 0] \<or> rr_Data rr = AAAA (replicate 16 0)"
proof -
  have "To4 IPv4zero = [0, 0, 0, 0]" by (simp add: IPv4zero_def)
  then show "rr \<in> set (m_Answer (applyBlockAction q a (reply0 req))) \<Longrightarrow> ?thesis"
    by (auto simp: applyBlockAction_def Let_def reply0_def IPv6zero_def split: if_splits)
qed

subsection \<open>Replies\<close>

definition answers_query :: "Msg \<Rightarrow> Msg option \<Rightarrow> bool" where
  "answers_query req out \<longleftrightarrow>
     (\<exists>m. out = Some m \<and> m_Id m = m_Id req
        \<and> (m_Question m = m_Question req \<or> m_Question m = take 1 (m_Question req)))"

lemma answers_reply0 [simp]: "answers_query req (Some ((reply0 req)\<lparr>m_Rcode := r\<rparr>))"
  by (simp add: answers_query_def reply0_def SetReply_Question)

lemma answers_block [simp]: "answers_query req (Some (applyBlockAction q a (reply0 req)))"
  by (simp add: answers_query_def applyBlockAction_def Let_def reply0_def SetReply_Question)

lemma localReply_id: "m_Id ((localReply req)\<lparr>m_Answer := a\<rparr>) = m_Id req"
    "m_Question ((localReply req)\<lparr>m_Answer := a\<rparr>) = take 1 (m_Question req)"
  by (simp_all add: localReply_def SetReply_Question)

lemma answers_local:
  assumes "RecordStore_Lookup rs req = Some out"
  shows "answers_query req (Some out)"
proof -
  have "\<exists>a. out = (localReply req)\<lparr>m_Answer := a\<rparr>"
    using assms by (auto simp: RecordStore_Lookup_def lookupPTR_def Let_def split: list.splits if_splits option.splits)
  then show ?thesis using localReply_id by (auto simp: answers_query_def)
qed

lemma cachedResolve_Some: "cachedResolve n k req (Auto a) s w = (s', w', x) \<Longrightarrow> x \<noteq> None"
  by (auto simp: cachedResolve_def Let_def split: prod.splits)

lemma answers_forward:
  assumes "serveForward ops (Auto a) label c d pr t0 req s w = (s', w', out)"
  shows "answers_query req out"
proof -
  obtain s1 w1 x where x: "cachedResolve (so_net ops)
      (if label \<noteq> [] then (KeyOf req)\<lparr>k_Label := label\<rparr> else KeyOf req) req (Auto a) s w = (s1, w1, x)"
    by (metis prod.exhaust_sel)
  obtain y where "x = Some y" using cachedResolve_Some [OF x] by blast
  then show ?thesis using assms x by (cases y) (auto simp: serveForward_def Let_def answers_query_def reply0_def SetReply_Question)
qed

definition pool_complete :: "Server \<Rightarrow> bool" where
  "pool_complete s \<longleftrightarrow> (\<forall>p. s_pool s = Some p \<longrightarrow> pl_auto p \<noteq> NilMember)"

lemma upstreamFor_complete: "pool_complete s \<Longrightarrow> fst (upstreamFor s nm ip) \<noteq> NilMember"
  by (auto simp: upstreamFor_def upstreamAuto_def safePool_def ResolverPool_Auto_def pool_complete_def split: option.splits)

lemma answers_upstream:
  assumes "Server_inv s" and "pool_complete s" and "serveUpstream ops ip ov c d pr t0 req q s w = (s', w', out)"
  shows "answers_query req out"
proof -
  obtain r0 mt where u: "upstreamFor s (q_Name q) ip = (r0, mt)" by force
  obtain s1 x where x: "(if ov \<noteq> [] \<and> \<not> mt then overrideResolver ov s else (s, Inr r0)) = (s1, x)" by force
  have nil: "r \<noteq> NilMember" if "x = Inr r" for r
  proof (cases "ov \<noteq> [] \<and> \<not> mt")
    case True
    then show ?thesis using x that overrideResolver_inv [OF assms(1), of ov] by fastforce
  next
    case False
    then have "r = r0" using x that by auto
    then show ?thesis using upstreamFor_complete [OF assms(2), of "q_Name q" ip] u by simp
  qed
  have "answers_query req out" if prem: "x = Inr r" "r \<noteq> NoAuto" "\<not> privateReverse q mt ov" for r
  proof -
    obtain a where "r = Auto a" using nil [OF prem(1)] prem(2) by (cases r) auto
    then show ?thesis using prem assms(3) u x by (auto simp: serveUpstream_def Let_def dest: answers_forward)
  qed
  then show ?thesis
    using assms(3) u x by (cases x) (auto simp: serveUpstream_def Let_def split: if_splits)
qed

lemma answers_admitted:
  assumes "Server_inv s" and "pool_complete s" and "serveAdmitted ops ip cid c pr t0 req s w = (s', w', out)"
  shows "answers_query req out"
proof -
  have "pool_complete (logQuery c d s)" for d using assms(2) by (simp add: pool_complete_def)
  then show ?thesis
    using assms answers_local
    by (auto simp: serveAdmitted_def Let_def split: list.splits prod.splits option.splits if_splits
        dest!: answers_upstream [rotated 2])
qed

lemma serve_answers:
  assumes "Server_inv s" and "pool_complete s"
  shows "answers_query req (snd (snd (serve ops ip cid pr req s w)))"
proof (cases rule: serve_cases [of ip cid ops w s pr req])
  case (admitted s1 s2 w2 out)
  note f = admit_fields [OF admitted(1)]
  have "Server_inv (bump AddQuery s1)" using admit_inv [OF assms(1)] admitted(1) by (metis fst_conv inv_bump)
  moreover have "pool_complete (bump AddQuery s1)" using assms(2) f by (simp add: pool_complete_def)
  ultimately show ?thesis using answers_admitted [OF _ _ admitted(2)] admitted(3) by simp
qed simp

subsection \<open>A sample server\<close>

definition sampleOpsNet :: "nat srv_ops" where
  "sampleOpsNet = \<lparr>so_net = wNet, so_timeout = (\<lambda>_. True), so_listen = (\<lambda>a w. (w, None)), so_close = (\<lambda>a w. w)\<rparr>"

definition sampleCfg :: Config where
  "sampleCfg = \<lparr>cf_Upstream = ''192.0.2.2'', cf_UpstreamServers = [], cf_UpstreamRoutes = [],
     cf_UpstreamBootstrap = [], cf_RateLimitQPS = 0, cf_RateLimitBurst = 0, cf_CacheCap = 0, cf_CacheSize = 100,
     cf_Store = Some houseStore, cf_Blocklist = Some (fold bl_step sampleOps Blip_Blocklist.New),
     cf_BlockAction = ''zero'', cf_TrustedProxies = [''192.0.2.0/24''], cf_TLSCert = None\<rparr>"

definition sampleServer :: Server where
  "sampleServer = projr (NewServer sampleCfg)"

lemma sampleServer_new: "NewServer sampleCfg = Inr sampleServer"
proof -
  have "\<not> isl (NewServer sampleCfg)" by code_simp
  then show ?thesis by (cases "NewServer sampleCfg") (auto simp: sampleServer_def)
qed

lemma houseStore_inv: "Store_inv houseStore"
  unfolding houseStore_def by (rule filter_store.run_inv [OF NewStore_inv])

lemma sampleServer_inv: "Server_inv sampleServer"
  by (rule NewServer_inv [OF sampleServer_new]) (simp add: sampleCfg_def houseStore_inv)

subsection \<open>Properties\<close>

text \<open>
  C3. A running server stays consistent. From any configuration that is accepted, after any
  sequence of queries, policy, blocklist, upstream, record, cache, listener and watcher
  operations, the policy tables agree with the policies, the cache is consistent and within
  the size the server reports, the limiter's shards are bounded, every resolver the pool or a
  memoized override names is a live object of the right shape, and a plain listener runs
  exactly when an address is reported.
\<close>

theorem server_invariant:
  assumes "NewServer cfg = Inr s0" and "\<forall>st. cf_Store cfg = Some st \<longrightarrow> Store_inv st"
    and "s = fst (fold (server_step ops) es (s0, w))"
  shows "Store_inv (s_Store s) \<and> Cache_inv (s_cache s)
    \<and> (0 < CacheSize s \<longrightarrow> int (Cache_Len (s_cache s)) \<le> CacheSize s)
    \<and> (\<forall>rl. s_rl s = Some rl \<longrightarrow> limiter_inv rl)
    \<and> (\<forall>p. s_pool s = Some p \<longrightarrow> pool_ok (s_heap s) p)
    \<and> (\<forall>spec r. map_of (s_overrides s) spec = Some r \<longrightarrow> (\<exists>a < length (s_heap s). r = Auto a))
    \<and> (s_dohPlain s \<longleftrightarrow> DoHHTTPAddr s \<noteq> [])"
proof -
  have "Server_inv (fst (s0, w))" using NewServer_inv [OF assms(1,2)] by simp
  from dns_server.run_inv [OF this] have inv: "Server_inv s" unfolding assms(3) .
  moreover from this have "length (c_items (s_cache s)) = length (c_lru (s_cache s))"
    by (intro items_lru_length) (simp add: Server_inv_def cache_ok_def)
  ultimately show ?thesis
    by (auto simp: Server_inv_def cache_ok_def Cache_bounded_def CacheSize_def Cache_Len_def DoHHTTPAddr_def overrides_ok_def)
qed

theorem server_invariant_witness:
  "Cache_inv (s_cache (fst (fold (server_step sampleOpsNet)
     [OpServe [10, 0, 0, 7] [] ''dns'' wQuery, OpCacheSize 1, OpDoHAddr ''127.0.0.1:80''] (sampleServer, 5))))"
proof -
  have "\<forall>st. cf_Store sampleCfg = Some st \<longrightarrow> Store_inv st" by (simp add: sampleCfg_def houseStore_inv)
  from server_invariant [OF sampleServer_new this refl] show ?thesis by (rule conjunct2 [THEN conjunct1])
qed



text \<open>
  C1. Blocking is final and local. A name that the global blocklist or the client's policy
  blocks is never sent upstream and never answered from the cache: the reply is the configured
  block action (or the rate limit's refusal) and carries no address but the null address. A
  name the client's policy allows is never blocked, whichever list contains it.
\<close>

theorem blocked_stays_local:
  assumes "m_Question req = q # qs" and "q_Qclass q \<noteq> ClassCHAOS" and "d = TrimSuffix (q_Name q) ''.''"
    and "serve ops ip cid pr req s w = (s', w', out)"
  shows "(queryBlocked s ip cid d \<longrightarrow>
      w' = w \<and> s_cache s' = s_cache s \<and> s_heap s' = s_heap s
      \<and> (\<exists>resp. out = Some resp
          \<and> (resp = (reply0 req)\<lparr>m_Rcode := RcodeRefused\<rparr>
             \<or> resp = applyBlockAction q (blockActionFor s ip cid d) (reply0 req) \<and> cn_blocked (s_cnt s') = cn_blocked (s_cnt s) + 1)
          \<and> (\<forall>rr \<in> set (m_Answer resp). rr_Data rr = A [0, 0, 0, 0] \<or> rr_Data rr = AAAA (replicate 16 0))))
    \<and> (Store_Allowed (s_Store s) ip cid d \<longrightarrow> cn_blocked (s_cnt s') = cn_blocked (s_cnt s))"
proof (cases rule: serve_cases [of ip cid ops w s pr req])
  case (limited s1)
  then show ?thesis
    using admit_fields [OF limited(1)] assms(4) by (auto simp: AddRateLimited_def reply0_def)
next
  case (admitted s1 s2 w2 out')
  note f = admit_fields [OF admitted(1)]
  have g: "globallyBlocked (bump AddQuery s1) = globallyBlocked s" by (simp add: globallyBlocked_def fun_eq_iff f)
  then have qb: "queryBlocked (bump AddQuery s1) = queryBlocked s" "blockActionFor (bump AddQuery s1) = blockActionFor s"
    by (simp_all add: queryBlocked_def blockActionFor_def fun_eq_iff f)
  have out: "w' = w2" "out = out'" "s' = bump (AddDuration (clock (so_net ops) w2 - clock (so_net ops) w)) s2"
    using admitted(3) assms(4) by auto
  show ?thesis
  proof (intro conjI impI)
    assume "Store_Allowed (s_Store s) ip cid d"
    then have "\<not> queryBlocked (bump AddQuery s1) ip cid d"
      using allowed_not_blocked unfolding qb by (auto simp: queryBlocked_def globallyBlocked_def)
    from serveAdmitted_open [OF assms(1-3) this admitted(2)] out(3) f(1)
    show "cn_blocked (s_cnt s') = cn_blocked (s_cnt s)" by (auto simp: AddDuration_def AddUpErr_def AddQuery_def)
  next
    assume "queryBlocked s ip cid d"
    then have "queryBlocked (bump AddQuery s1) ip cid d" unfolding qb .
    note b = serveAdmitted_blocked [OF assms(1-3) this admitted(2)]
    show "w' = w" "s_cache s' = s_cache s" "s_heap s' = s_heap s" using b out f by simp_all
    have "cn_blocked (s_cnt s') = cn_blocked (s_cnt s) + 1"
      using b out(3) f(1) by (simp add: AddDuration_def AddBlocked_def AddQuery_def)
    then show "\<exists>resp. out = Some resp
          \<and> (resp = (reply0 req)\<lparr>m_Rcode := RcodeRefused\<rparr>
             \<or> resp = applyBlockAction q (blockActionFor s ip cid d) (reply0 req) \<and> cn_blocked (s_cnt s') = cn_blocked (s_cnt s) + 1)
          \<and> (\<forall>rr \<in> set (m_Answer resp). rr_Data rr = A [0, 0, 0, 0] \<or> rr_Data rr = AAAA (replicate 16 0))"
      using b out(2) blockAction_answers qb(2) by auto
  qed
qed

theorem blocked_stays_local_witness:
  "fst (snd (serve sampleOpsNet [192, 0, 2, 7] [] ''dns'' (SetQuestion 7 ''Ads.example.com.'' TypeA) sampleServer 5)) = 5"
proof -
  let ?req = "SetQuestion 7 ''Ads.example.com.'' TypeA"
  obtain s' w' out where x: "serve sampleOpsNet [192, 0, 2, 7] [] ''dns'' ?req sampleServer 5 = (s', w', out)"
    by (metis prod.exhaust_sel)
  have q: "m_Question ?req = \<lparr>q_Name = ''Ads.example.com.'', q_Qtype = TypeA, q_Qclass = ClassINET\<rparr> # []"
    by (simp add: SetQuestion_def)
  have "queryBlocked sampleServer [192, 0, 2, 7] [] (TrimSuffix ''Ads.example.com.'' ''.'')" by code_simp
  with blocked_stays_local [OF q _ refl x] x show ?thesis by simp
qed

text \<open>
  C4. Each query is counted once. The limiter's verdict depends on the source address and
  the time only, not on the identity in the URL. A refused query raises the
  rate-limit counter and changes nothing else but the limiter; any other raises the query
  counter, adds its duration, and raises at most one of the blocked and the
  upstream-error counters, the latter only with SERVFAIL as the reply.
\<close>

theorem serve_accounting:
  assumes "serve ops ip cid pr req s w = (s', w', out)"
  shows "if snd (admit ip [] (IP_String ip) (clock (so_net ops) w) s)
    then cn_queries (s_cnt s') = cn_queries (s_cnt s) + 1 \<and> cn_rateLimited (s_cnt s') = cn_rateLimited (s_cnt s)
      \<and> cn_durNs (s_cnt s') = cn_durNs (s_cnt s) + word_of_int (clock (so_net ops) w' - clock (so_net ops) w)
      \<and> ((cn_blocked (s_cnt s') = cn_blocked (s_cnt s) \<and> cn_upErr (s_cnt s') = cn_upErr (s_cnt s))
         \<or> (cn_blocked (s_cnt s') = cn_blocked (s_cnt s) + 1 \<and> cn_upErr (s_cnt s') = cn_upErr (s_cnt s) \<and> w' = w)
         \<or> (cn_blocked (s_cnt s') = cn_blocked (s_cnt s) \<and> cn_upErr (s_cnt s') = cn_upErr (s_cnt s) + 1
            \<and> out = Some (servfail req)))
    else s_cnt s' = AddRateLimited (s_cnt s) \<and> w' = w \<and> s_cache s' = s_cache s \<and> s_heap s' = s_heap s
      \<and> s_watch s' = s_watch s \<and> s_logged s' = s_logged s \<and> out = Some ((reply0 req)\<lparr>m_Rcode := RcodeRefused\<rparr>)"
proof (cases rule: serve_cases [of ip cid ops w s pr req])
  case (limited s1)
  then show ?thesis
    using assms admit_fields [OF limited(1)] unfolding admit_identity by (auto simp: bump_def)
next
  case (admitted s1 s2 w2 out')
  have out: "w' = w2" "out = out'" "s' = bump (AddDuration (clock (so_net ops) w2 - clock (so_net ops) w)) s2"
    using admitted(3) assms by auto
  have "snd (admit ip [] (IP_String ip) (clock (so_net ops) w) s)"
    using admitted(1) unfolding admit_identity by simp
  moreover from serveAdmitted_cnt [OF admitted(2)] out admit_fields(1) [OF admitted(1)]
  have "cn_queries (s_cnt s') = cn_queries (s_cnt s) + 1 \<and> cn_rateLimited (s_cnt s') = cn_rateLimited (s_cnt s)
      \<and> cn_durNs (s_cnt s') = cn_durNs (s_cnt s) + word_of_int (clock (so_net ops) w' - clock (so_net ops) w)
      \<and> ((cn_blocked (s_cnt s') = cn_blocked (s_cnt s) \<and> cn_upErr (s_cnt s') = cn_upErr (s_cnt s))
         \<or> (cn_blocked (s_cnt s') = cn_blocked (s_cnt s) + 1 \<and> cn_upErr (s_cnt s') = cn_upErr (s_cnt s) \<and> w' = w)
         \<or> (cn_blocked (s_cnt s') = cn_blocked (s_cnt s) \<and> cn_upErr (s_cnt s') = cn_upErr (s_cnt s) + 1
            \<and> out = Some (servfail req)))"
    by (auto simp: AddDuration_def AddUpErr_def AddQuery_def AddBlocked_def)
  ultimately show ?thesis by simp
qed

theorem serve_accounting_witness:
  "cn_queries (s_cnt (fst (serve sampleOpsNet [192, 0, 2, 7] ''tv'' ''doh'' wQuery sampleServer 5))) = 1"
proof -
  obtain s' w' out where x: "serve sampleOpsNet [192, 0, 2, 7] ''tv'' ''doh'' wQuery sampleServer 5 = (s', w', out)"
    by (metis prod.exhaust_sel)
  have "snd (admit [192, 0, 2, 7] [] (IP_String [192, 0, 2, 7]) (clock (so_net sampleOpsNet) 5) sampleServer)"
    "cn_queries (s_cnt sampleServer) = 0" by code_simp+
  with serve_accounting [OF x] x show ?thesis by simp
qed

text \<open>
  Reverse lookups of private addresses leave the box. The guard keeps a reverse query
  local only if the address is not global unicast, and a private address of RFC 1918 is
  global unicast in that sense: with no route, override or local record in the way, the query
  goes to the upstream through the cache like any other.
\<close>

theorem private_ptr_forwarded:
  assumes "q_Qtype q = TypePTR" and "q_Name q = arpaName 10 b c d"
    and "upstreamFor s (q_Name q) ip = (Auto r, matched)"
  shows "IsPrivate (IPv4 10 b c d)
    \<and> serveUpstream ops ip [] client domain pr t0 req q s w
       = serveForward ops (Auto r) (upstreamLabel s (Auto r) matched []) client domain pr t0 req s w"
proof -
  have len: "length (IPv4 e f g h) = 16" for e f g h by (simp add: IPv4_def v4InV6Prefix_def)
  have "(IPv4 10 b c d = IPv4 e f g h) = ([10, b, c, d] = [e, f, g, h])" for e f g h
    unfolding IPv4_def same_append_eq ..
  then have inj: "(IPv4 10 b c d = IPv4 e f g h) = (e = 10 \<and> f = b \<and> g = c \<and> h = d)" for e f g h by auto
  have "IPv4 10 b c d ! 10 = 255" by (simp add: IPv4_def v4InV6Prefix_def nth_append)
  then have z: "IPv4 10 b c d \<noteq> replicate 16 0" by auto
  have g: "IsGlobalUnicast (IPv4 10 b c d)"
    by (simp add: IsGlobalUnicast_def IPv4bcast_def IsUnspecified_def IsLoopback_def IsMulticast_def
        IsLinkLocalUnicast_def IP_Equal_def IPv4zero_def IPv6zero_def len inj z)
  have "\<not> privateReverse q matched []"
    using g ptr_arpaName [of 10 b c d] assms(1,2) by (simp add: privateReverse_def)
  moreover have "IsPrivate (IPv4 10 b c d)" by (simp add: IsPrivate_def)
  ultimately show ?thesis using assms(3) by (simp add: serveUpstream_def Let_def)
qed

theorem private_ptr_forwarded_witness:
  "snd (serveUpstream sampleOpsNet [192, 0, 2, 7] [] ''c'' ''d'' ''dns'' 5 wQuery
      \<lparr>q_Name = arpaName 10 0 0 9, q_Qtype = TypePTR, q_Qclass = ClassINET\<rparr> sampleServer 5)
   = snd (serveForward sampleOpsNet (Auto 0) ''auto'' ''c'' ''d'' ''dns'' 5 wQuery sampleServer 5)"
proof -
  let ?q = "\<lparr>q_Name = arpaName 10 0 0 9, q_Qtype = TypePTR, q_Qclass = ClassINET\<rparr>"
  have "upstreamFor sampleServer (q_Name ?q) [192, 0, 2, 7] = (Auto 0, False)" by code_simp
  moreover have "upstreamLabel sampleServer (Auto 0) False [] = ''auto''" by code_simp
  ultimately show ?thesis
    using private_ptr_forwarded [of ?q 0 0 9 sampleServer "[192, 0, 2, 7]" 0 False sampleOpsNet "''c''" "''d''" "''dns''" 5 wQuery 5]
    by simp
qed

end
