(* ===== verification/Blip_DoH.thy ===== *)
theory Blip_DoH
  imports Blip_Query
begin

text \<open>
  DNS over HTTPS (\<open>handleDoH\<close>, \<open>dohMaxAge\<close>, \<open>Handler\<close> of
  \<open>src/internal/dnsserver/server.go\<close>, the client identification of \<open>helper.go\<close> and
  \<open>SecurityHeaders\<close> of \<open>src/internal/control/server.go\<close>). An HTTP request is what the
  handler reads of it; header names are in the canonical form \<open>Header.Get\<close> looks up.
  The wire codec is that of the network record. A reply of \<open>None\<close> is a handler that panics,
  which the HTTP server answers by closing the connection.
\<close>

subsection \<open>HTTP\<close>

record HTTPRequest =
  hr_Method :: string
  hr_RemoteAddr :: string
  hr_Path :: string
  hr_Query :: "(string \<times> string) list"
  hr_Header :: "(string \<times> string) list"
  hr_Body :: "(string, u8 list) result"
  hr_TLS :: bool

record HTTPResponse =
  hw_Status :: int
  hw_Header :: "(string \<times> string) list"
  hw_Body :: "u8 list"

text \<open>A missing header or query parameter reads as the empty string.\<close>

definition getOr :: "(string \<times> string) list \<Rightarrow> string \<Rightarrow> string" where
  "getOr al k = (case map_of al k of None \<Rightarrow> [] | Some v \<Rightarrow> v)"

definition strBytes :: "string \<Rightarrow> u8 list" where
  "strBytes s = map (\<lambda>c. of_nat (of_char c)) s"

definition httpError :: "string \<Rightarrow> int \<Rightarrow> HTTPResponse" where
  "httpError msg code =
     \<lparr>hw_Status = code,
      hw_Header = [(''Content-Type'', ''text/plain; charset=utf-8''), (''X-Content-Type-Options'', ''nosniff'')],
      hw_Body = strBytes msg @ [10]\<rparr>"

definition setHeader :: "string \<Rightarrow> string \<Rightarrow> HTTPResponse \<Rightarrow> HTTPResponse" where
  "setHeader k v resp = resp\<lparr>hw_Header := AList.update k v (hw_Header resp)\<rparr>"

text \<open>The wrapper sets its headers first; what the handler sets afterwards wins.\<close>

definition securityBase :: "bool \<Rightarrow> (string \<times> string) list" where
  "securityBase tls =
     [(''X-Content-Type-Options'', ''nosniff''), (''X-Frame-Options'', ''DENY''), (''Referrer-Policy'', ''no-referrer''),
      (''Content-Security-Policy'', ''default-src 'none'; frame-ancestors 'none'' @ [CHR 0x27])]
     @ (if tls then [(''Strict-Transport-Security'', ''max-age=31536000'')] else [])"

definition SecurityHeaders :: "HTTPRequest \<Rightarrow> HTTPResponse \<Rightarrow> HTTPResponse" where
  "SecurityHeaders r resp =
     resp\<lparr>hw_Header := fold (\<lambda>(k, v). AList.update k v) (hw_Header resp) (securityBase (hr_TLS r))\<rparr>"

subsection \<open>Base64\<close>

text \<open>\<open>base64.RawURLEncoding.DecodeString\<close>: line breaks are skipped, padding is an error,
  surplus bits at the end are dropped.\<close>

definition b64val :: "char \<Rightarrow> nat option" where
  "b64val c =
     (let n = (of_char c :: nat) in
      if 65 \<le> n \<and> n \<le> 90 then Some (n - 65)
      else if 97 \<le> n \<and> n \<le> 122 then Some (n - 71)
      else if 48 \<le> n \<and> n \<le> 57 then Some (n + 4)
      else if n = 45 then Some 62
      else if n = 95 then Some 63
      else None)"

fun b64bytes :: "nat list \<Rightarrow> u8 list option" where
  "b64bytes [] = Some []"
| "b64bytes [a] = None"
| "b64bytes [a, b] = Some [of_nat (a * 4 + b div 16)]"
| "b64bytes [a, b, c] = Some [of_nat (a * 4 + b div 16), of_nat (b mod 16 * 16 + c div 4)]"
| "b64bytes (a # b # c # d # r) =
     map_option (\<lambda>bs. of_nat (a * 4 + b div 16) # of_nat (b mod 16 * 16 + c div 4) # of_nat (c mod 4 * 64 + d) # bs)
       (b64bytes r)"

definition b64decode :: "string \<Rightarrow> u8 list option" where
  "b64decode s =
     (let vs = map b64val (filter (\<lambda>c. c \<noteq> char_of (10 :: nat) \<and> c \<noteq> char_of (13 :: nat)) s)
      in if None \<in> set vs then None else b64bytes (map the vs))"

subsection \<open>Clients\<close>

definition clientIDFromPath :: "string \<Rightarrow> string" where
  "clientIDFromPath p0 =
     (let p = Trim (TrimPrefix p0 ''/dns-query'') ''/''
      in if p = [] \<or> 64 < length p \<or> ContainsAny p (''/?# '' @ [char_of (9 :: nat)]) then [] else p)"

definition isTrustedPeer :: "HTTPRequest \<Rightarrow> IPNet list \<Rightarrow> bool" where
  "isTrustedPeer r trusted =
     (case SplitHostPort (hr_RemoteAddr r) of
        None \<Rightarrow> False
      | Some (host, _) \<Rightarrow>
          let peer = ParseIP host in if peer = [] then False else list_ex (\<lambda>n. IPNet_Contains n peer) trusted)"

definition firstToken :: "string \<Rightarrow> string" where
  "firstToken s = (case IndexAny s '', '' of Some i \<Rightarrow> take i s | None \<Rightarrow> s)"

definition peerIP :: "HTTPRequest \<Rightarrow> IP" where
  "peerIP r = (case SplitHostPort (hr_RemoteAddr r) of None \<Rightarrow> ParseIP (hr_RemoteAddr r) | Some (host, _) \<Rightarrow> ParseIP host)"

definition clientIPFromReq :: "HTTPRequest \<Rightarrow> IPNet list \<Rightarrow> IP" where
  "clientIPFromReq r trusted =
     (if isTrustedPeer r trusted then
        let cf = getOr (hr_Header r) ''Cf-Connecting-Ip''; fwd = getOr (hr_Header r) ''X-Forwarded-For'' in
        if cf \<noteq> [] \<and> ParseIP (firstToken cf) \<noteq> [] then ParseIP (firstToken cf)
        else if fwd \<noteq> [] \<and> ParseIP (firstToken fwd) \<noteq> [] then ParseIP (firstToken fwd)
        else peerIP r
      else peerIP r)"

subsection \<open>The handler\<close>

definition maxDNSQueryParam :: nat where "maxDNSQueryParam = 8192"

definition maxDoHMessage :: nat where "maxDoHMessage = 65535"

definition decodeDoH :: "'w net_ops \<Rightarrow> HTTPRequest \<Rightarrow> (HTTPResponse, Msg) result" where
  "decodeDoH n r =
     (if hr_Method r = ''GET'' then
        let v = getOr (hr_Query r) ''dns'' in
        if v = [] then Inl (httpError ''missing dns parameter'' 400)
        else if maxDNSQueryParam < length v then Inl (httpError ''dns parameter too large'' 414)
        else case b64decode v of
               None \<Rightarrow> Inl (httpError ''bad dns parameter'' 400)
             | Some b \<Rightarrow> (case unpackMsg n b of Inl _ \<Rightarrow> Inl (httpError ''bad dns message'' 400) | Inr m \<Rightarrow> Inr m)
      else if hr_Method r = ''POST'' then
        (if getOr (hr_Header r) ''Content-Type'' \<noteq> ''application/dns-message''
           then Inl (httpError ''unsupported content type'' 415)
         else case hr_Body r of
                Inl _ \<Rightarrow> Inl (httpError ''read error'' 400)
              | Inr body \<Rightarrow>
                  let b = take (maxDoHMessage + 1) body in
                  if maxDoHMessage < length b then Inl (httpError ''request body too large'' 413)
                  else (case unpackMsg n b of Inl _ \<Rightarrow> Inl (httpError ''bad dns message'' 400) | Inr m \<Rightarrow> Inr m))
      else Inl (setHeader ''Allow'' ''GET, POST'' (httpError ''method not allowed'' 405)))"

definition maxAgeStep :: "RR \<Rightarrow> u32 \<times> bool \<Rightarrow> u32 \<times> bool" where
  "maxAgeStep rr acc =
     (case acc of (mn, seen) \<Rightarrow> if \<not> seen \<or> rr_Ttl rr < mn then (rr_Ttl rr, True) else (mn, seen))"

definition dohMaxAge :: "Msg \<Rightarrow> u32" where
  "dohMaxAge resp =
     (case fold maxAgeStep (m_Ns resp) (fold maxAgeStep (m_Answer resp) (0, False)) of (mn, seen) \<Rightarrow>
        if \<not> seen then 0 else mn)"

definition dohOK :: "Msg \<Rightarrow> u8 list \<Rightarrow> HTTPResponse" where
  "dohOK resp buf =
     (let age = dohMaxAge resp
      in \<lparr>hw_Status = 200,
          hw_Header = [(''Content-Type'', ''application/dns-message''),
            (''Cache-Control'', if 0 < age then ''max-age='' @ Itoa (uint age) @ '', private'' else ''no-store'')],
          hw_Body = buf\<rparr>)"

definition handleDoH :: "'w srv_ops \<Rightarrow> HTTPRequest \<Rightarrow> Server \<Rightarrow> 'w \<Rightarrow> Server \<times> 'w \<times> HTTPResponse option" where
  "handleDoH ops r s w =
     (case decodeDoH (so_net ops) r of
        Inl e \<Rightarrow> (s, w, Some e)
      | Inr req \<Rightarrow>
          let clientIP = clientIPFromReq r (s_trustedProxies s);
              clientID0 = clientIDFromPath (hr_Path r);
              clientID = (if clientID0 = [] then clientIDFromPath (''/dns-query/'' @ getOr (hr_Header r) ''X-Device-Id'')
                          else clientID0)
          in case serve ops clientIP clientID ProtoDoH req s w of
               (s', w', None) \<Rightarrow> (s', w', None)
             | (s', w', Some resp) \<Rightarrow>
                 (case packMsg (so_net ops) resp of
                    Inl _ \<Rightarrow> (s', w', Some (httpError ''pack error'' 500))
                  | Inr buf \<Rightarrow> (s', w', Some (dohOK resp buf))))"

text \<open>The mux serves the exact path and everything below it; other paths are not found.\<close>

definition DoH_Handler :: "'w srv_ops \<Rightarrow> HTTPRequest \<Rightarrow> Server \<Rightarrow> 'w \<Rightarrow> Server \<times> 'w \<times> HTTPResponse option" where
  "DoH_Handler ops r s w =
     (case (if hr_Path r = ''/dns-query'' \<or> HasPrefix (hr_Path r) ''/dns-query/'' then handleDoH ops r s w
            else (s, w, Some (httpError ''404 page not found'' 404))) of
        (s', w', resp) \<Rightarrow> (s', w', map_option (SecurityHeaders r) resp))"

subsection \<open>Lemmas\<close>

lemma maxAge_fold:
  assumes "fold maxAgeStep rrs (mn, seen) = (mn', seen')"
  shows "(seen' \<longleftrightarrow> seen \<or> rrs \<noteq> []) \<and> (seen \<longrightarrow> mn' \<le> mn) \<and> (\<forall>rr \<in> set rrs. mn' \<le> rr_Ttl rr)"
  using assms
proof (induction rrs arbitrary: mn seen)
  case (Cons rr rrs)
  obtain mn1 s1 where st: "maxAgeStep rr (mn, seen) = (mn1, s1)" by force
  then have "s1" "mn1 \<le> rr_Ttl rr" "seen \<longrightarrow> mn1 \<le> mn" by (auto simp: maxAgeStep_def split: if_splits)
  moreover have "fold maxAgeStep rrs (mn1, s1) = (mn', seen')" using Cons.prems st by simp
  ultimately show ?case using Cons.IH [of mn1 s1] by (auto intro: order_trans)
qed simp

lemma dohMaxAge_le: "rr \<in> set (m_Answer m) \<union> set (m_Ns m) \<Longrightarrow> dohMaxAge m \<le> rr_Ttl rr"
proof -
  assume rr: "rr \<in> set (m_Answer m) \<union> set (m_Ns m)"
  obtain mn1 s1 mn2 s2 where f: "fold maxAgeStep (m_Answer m) (0, False) = (mn1, s1)" "fold maxAgeStep (m_Ns m) (mn1, s1) = (mn2, s2)"
    by (metis surj_pair)
  from maxAge_fold [OF f(1)] maxAge_fold [OF f(2)] rr f show ?thesis
    by (auto simp: dohMaxAge_def dest: order_trans)
qed

lemma map_of_fold_update:
  "map_of (fold (\<lambda>(k, v). AList.update k v) kvs al) = map_of (rev kvs @ al)"
  by (induction kvs arbitrary: al) (auto simp: fun_eq_iff map_add_def split: option.splits)

lemma decodeDoH_errors:
  assumes "decodeDoH n r = Inl e"
  shows "hw_Status e \<in> {400, 405, 413, 414, 415}"
  using assms by (auto simp: decodeDoH_def httpError_def setHeader_def Let_def split: if_splits option.splits sum.splits)

text \<open>The two headers a proxy writes.\<close>

definition withForwarded :: "string \<Rightarrow> string \<Rightarrow> HTTPRequest \<Rightarrow> HTTPRequest" where
  "withForwarded cf fwd r =
     r\<lparr>hr_Header := AList.update ''Cf-Connecting-Ip'' cf (AList.update ''X-Forwarded-For'' fwd (hr_Header r))\<rparr>"

lemma withForwarded_simps [simp]:
  "hr_Method (withForwarded cf fwd r) = hr_Method r" "hr_Query (withForwarded cf fwd r) = hr_Query r"
  "hr_Body (withForwarded cf fwd r) = hr_Body r" "hr_Path (withForwarded cf fwd r) = hr_Path r"
  "hr_RemoteAddr (withForwarded cf fwd r) = hr_RemoteAddr r" "hr_TLS (withForwarded cf fwd r) = hr_TLS r"
  "k \<noteq> ''Cf-Connecting-Ip'' \<Longrightarrow> k \<noteq> ''X-Forwarded-For'' \<Longrightarrow>
     getOr (hr_Header (withForwarded cf fwd r)) k = getOr (hr_Header r) k"
  by (simp_all add: withForwarded_def getOr_def)

lemma decode_forwarded [simp]: "decodeDoH n (withForwarded cf fwd r) = decodeDoH n r"
  by (simp add: decodeDoH_def split: sum.splits)

lemma untrusted_peer:
  "\<not> isTrustedPeer r t \<Longrightarrow> clientIPFromReq (withForwarded cf fwd r) t = clientIPFromReq r t \<and> clientIPFromReq r t = peerIP r"
  by (simp add: clientIPFromReq_def isTrustedPeer_def peerIP_def split: option.splits)

lemma SecurityHeaders_forwarded [simp]: "SecurityHeaders (withForwarded cf fwd r) = SecurityHeaders r"
  by (simp add: fun_eq_iff SecurityHeaders_def)

lemma security_headers:
  assumes "k \<in> {''X-Frame-Options'', ''Referrer-Policy'', ''Content-Security-Policy''}"
    and "map_of (hw_Header resp) k = None"
  shows "map_of (hw_Header (SecurityHeaders r resp)) k \<noteq> None"
proof -
  have "map_of (rev (hw_Header resp)) k = None" using assms(2) by (simp add: map_of_eq_None_iff)
  then show ?thesis
    using assms(1) unfolding SecurityHeaders_def by (auto simp: map_of_fold_update map_add_def securityBase_def)
qed

subsection \<open>Properties\<close>

text \<open>
  C29. Forwarded addresses count only from trusted proxies. When the immediate peer is in no
  trusted network, the forwarding headers have no influence at all on what a request does:
  not on the reply, the policy applied, the rate-limit bucket charged, nor any state.
\<close>

theorem forwarded_headers_ignored:
  assumes "\<not> isTrustedPeer r (s_trustedProxies s)"
  shows "DoH_Handler ops (withForwarded cf fwd r) s w = DoH_Handler ops r s w
    \<and> clientIPFromReq r (s_trustedProxies s) = peerIP r"
proof -
  have "getOr (hr_Header (withForwarded cf fwd r)) ''X-Device-Id'' = getOr (hr_Header r) ''X-Device-Id''" by simp
  then have "handleDoH ops (withForwarded cf fwd r) s w = handleDoH ops r s w"
    using untrusted_peer [OF assms, of cf fwd] by (cases "decodeDoH (so_net ops) r") (simp_all add: handleDoH_def Let_def)
  then show ?thesis
    using untrusted_peer [OF assms] SecurityHeaders_forwarded by (simp add: DoH_Handler_def)
qed

definition sampleRequest :: HTTPRequest where
  "sampleRequest = \<lparr>hr_Method = ''GET'', hr_RemoteAddr = ''198.51.100.7:4711'', hr_Path = ''/dns-query/tv'',
     hr_Query = [(''dns'', ''AAAB'')], hr_Header = [], hr_Body = Inr [], hr_TLS = True\<rparr>"

theorem forwarded_headers_ignored_witness:
  "DoH_Handler sampleOpsNet (withForwarded ''10.0.0.1'' ''10.0.0.2'' sampleRequest) sampleServer 5
   = DoH_Handler sampleOpsNet sampleRequest sampleServer 5"
proof -
  have "\<not> isTrustedPeer sampleRequest (s_trustedProxies sampleServer)" by code_simp
  from forwarded_headers_ignored [OF this] show ?thesis by (rule conjunct1)
qed



end
