(* ===== verification/Blip_Control.thy ===== *)
theory Blip_Control
  imports Blip_DoH
begin

text \<open>
  The management API of an instance (\<open>src/internal/control\<close>: \<open>server.go\<close>,
  \<open>upstream_handler.go\<close>, \<open>cache_handler.go\<close>, \<open>types.go\<close>, \<open>ha.go\<close>,
  \<open>update.go\<close>): bearer-token authentication with a pin on the adopting controller, the
  claim-code handshake, and one handler per endpoint. The handlers act on the DNS server's
  state. The HA manager and the updater are interfaces (records of functions over the world);
  random bytes, the clock and the state file's writability are given by the environment.

  Request bodies appear decoded: a body is the record of what \<open>json.Decode\<close> yields for
  each request type.
\<close>

subsection \<open>Protocol types\<close>

record WirePolicy =
  wp_ID :: string
  wp_Networks :: "string list"
  wp_Clients :: "string list"
  wp_Allow :: "string list"
  wp_Block :: "string list"
  wp_BlockAction :: string
  wp_Log :: bool
  wp_Upstream :: string

definition fromFilter :: "Policy \<Rightarrow> WirePolicy" where
  "fromFilter p = \<lparr>wp_ID = p_ID p, wp_Networks = p_Networks p, wp_Clients = p_Clients p, wp_Allow = p_Allow p,
     wp_Block = p_Block p, wp_BlockAction = p_BlockAction p, wp_Log = p_Log p, wp_Upstream = p_Upstream p\<rparr>"

definition toFilter :: "WirePolicy \<Rightarrow> Policy" where
  "toFilter p = \<lparr>p_ID = wp_ID p, p_Networks = wp_Networks p, p_Clients = wp_Clients p, p_Allow = wp_Allow p,
     p_Block = wp_Block p, p_BlockAction = wp_BlockAction p, p_Log = wp_Log p, p_Upstream = wp_Upstream p\<rparr>"

record HAConfig =
  hc_Enabled :: bool
  hc_Mode :: string
  hc_NodeRole :: string
  hc_Interface :: string
  hc_SourceIP :: string
  hc_PeerIP :: string
  hc_VirtualIP :: string
  hc_VirtualRouterID :: int
  hc_Priority :: int
  hc_AdvertIntervalSec :: int
  hc_AuthPass :: string

record HAStatus =
  hs_Installed :: bool
  hs_Configured :: bool
  hs_Active :: bool
  hs_VIPOwned :: bool
  hs_State :: string
  hs_Message :: string
  hs_LastError :: string
  hs_Updating :: bool

record UpdateStatus =
  up_Running :: bool
  up_Message :: string
  up_LastError :: string
  up_Channel :: string

definition ValidUpdateChannel :: "string \<Rightarrow> bool" where
  "ValidUpdateChannel ch \<longleftrightarrow> ch = ''stable'' \<or> ch = ''dev''"

record Body =
  dec_Policy :: "(string, WirePolicy) result"
  dec_Delete :: "(string, string) result"
  dec_Blocklist :: "(string, string list \<times> string list) result"
  dec_DoH :: "(string, string) result"
  dec_RateLimit :: "(string, int \<times> int) result"
  dec_Upstream :: "(string, UpstreamServer list \<times> UpstreamRoute list \<times> UpstreamServer list) result"
  dec_Cache :: "(string, int) result"
  dec_Records :: "(string, RecordEntry list) result"
  dec_HA :: "(string, HAConfig) result"
  dec_Adopt :: "(string, string) result"

text \<open>What a handler writes: an HTTP error, or the value it encodes.\<close>

datatype reply =
    Err string int
  | ErrFilter FilterError int  \<comment> \<open>the body is the error's text\<close>
  | ErrPool PoolError int
  | Ack string
  | HealthResponse time string int  \<comment> \<open>start, version, dropped events\<close>
  | Stats StatsResponse
  | ListResponse "WirePolicy option" "WirePolicy list"
  | HTTPAddr string
  | QPS int
  | UpstreamConfig "UpstreamServer list" "UpstreamRoute list" "UpstreamServer list"
  | CacheLimit int
  | PurgeCacheResponse int
  | RecordsResponse "RecordEntry list"
  | HAReply HAStatus
  | UpdateReply UpdateStatus
  | AdoptStatus bool string string  \<comment> \<open>adopted, instance, version\<close>
  | AdoptResponse bool string string  \<comment> \<open>adopted, token, message\<close>
  | EventStream nat  \<comment> \<open>the watcher's channel\<close>

subsection \<open>Interfaces and state\<close>

record 'w HAController =
  ha_Set :: "HAConfig \<Rightarrow> 'w \<Rightarrow> 'w \<times> string option"
  ha_Status :: "'w \<Rightarrow> 'w \<times> HAStatus"
  ha_Validate :: "'w \<Rightarrow> 'w \<times> string option"
  ha_Apply :: "'w \<Rightarrow> 'w \<times> string option"
  ha_Disable :: "'w \<Rightarrow> 'w \<times> string option"

record 'w UpdateController =
  uc_Start :: "string \<Rightarrow> 'w \<Rightarrow> 'w \<times> string option"
  uc_Status :: "'w \<Rightarrow> 'w \<times> UpdateStatus"

record 'w ctl_env =
  ce_ops :: "'w srv_ops"
  ce_HA :: "'w HAController option"
  ce_Update :: "'w UpdateController option"
  ce_rand :: "nat \<Rightarrow> 'w \<Rightarrow> 'w \<times> u8 list"
  ce_hostname :: string
  ce_writable :: "string \<Rightarrow> bool"
  ce_restart :: "'w \<Rightarrow> 'w"
  ce_freshChan :: "'w \<Rightarrow> 'w \<times> nat"

record adoptFail =
  af_count :: int
  af_until :: time

record adoptState =
  as_Adopted :: bool
  as_InstanceID :: string
  as_Token :: string
  as_ControllerIP :: string

record Control =
  ct_token :: string
  ct_srv :: Server
  ct_wired :: bool  \<comment> \<open>the DNS server's five controllers\<close>
  ct_started :: time
  ct_version :: string
  ct_blocklistCachePath :: string
  ct_blocklistSaved :: bool
  ct_adopted :: bool
  ct_claimCode :: string
  ct_stateFile :: string
  ct_instanceID :: string
  ct_adoptFails :: "(string \<times> adoptFail) list"
  ct_adoptedBy :: string
  ct_disk :: "(string \<times> adoptState) list"

definition NewServerWithBlocklist :: "string \<Rightarrow> Server \<Rightarrow> time \<Rightarrow> string \<Rightarrow> Control" where
  "NewServerWithBlocklist token s now version =
     \<lparr>ct_token = token, ct_srv = s, ct_wired = False, ct_started = now, ct_version = version, ct_blocklistCachePath = [],
      ct_blocklistSaved = False, ct_adopted = False, ct_claimCode = [], ct_stateFile = [], ct_instanceID = [],
      ct_adoptFails = [], ct_adoptedBy = [], ct_disk = []\<rparr>"

text \<open>What the DNS server's constructor wires: listener, limiter, resolver, cache and record
  controllers, all of them the server itself.\<close>

definition wireControllers :: "Control \<Rightarrow> Control" where
  "wireControllers c = c\<lparr>ct_wired := True\<rparr>"

definition SetToken :: "string \<Rightarrow> Control \<Rightarrow> Control" where
  "SetToken tok c = c\<lparr>ct_token := tok\<rparr>"

definition SetBlocklistCache :: "string \<Rightarrow> Control \<Rightarrow> Control" where
  "SetBlocklistCache path c = c\<lparr>ct_blocklistCachePath := path\<rparr>"

definition ctlNow :: "'w ctl_env \<Rightarrow> 'w \<Rightarrow> time" where
  "ctlNow env w = clock (so_net (ce_ops env)) w"

subsection \<open>Adoption\<close>

definition claimAlpha :: string where
  "claimAlpha = ''ABCDEFGHJKLMNPQRSTUVWXYZ23456789''"

definition genClaimCode :: "u8 list \<Rightarrow> string" where
  "genClaimCode b =
     (let cs = map (\<lambda>x. claimAlpha ! (unat x mod length claimAlpha)) b
      in take 8 cs @ ''-'' @ drop 8 cs)"

definition genToken :: "u8 list \<Rightarrow> string" where
  "genToken b = concat (map (\<lambda>x. [hexDigit (unat x div 16), hexDigit (unat x mod 16)]) b)"

definition genClaim :: "'w ctl_env \<Rightarrow> Control \<Rightarrow> 'w \<Rightarrow> Control \<times> 'w" where
  "genClaim env c w =
     (case ce_rand env 16 w of (w1, b) \<Rightarrow> (c\<lparr>ct_claimCode := genClaimCode b, ct_adopted := False\<rparr>, w1))"

definition persistAdopted :: "'w ctl_env \<Rightarrow> bool \<Rightarrow> Control \<Rightarrow> Control" where
  "persistAdopted env adopted c =
     (if ct_stateFile c = [] then c
      else if \<not> adopted then c\<lparr>ct_disk := AList.delete (ct_stateFile c) (ct_disk c)\<rparr>
      else if ce_writable env (ct_stateFile c) then
        c\<lparr>ct_disk := AList.update (ct_stateFile c)
            \<lparr>as_Adopted = True, as_InstanceID = ct_instanceID c, as_Token = ct_token c, as_ControllerIP = ct_adoptedBy c\<rparr>
            (ct_disk c)\<rparr>
      else c)"

definition ConfigureAdoption :: "'w ctl_env \<Rightarrow> string \<Rightarrow> string \<Rightarrow> Control \<Rightarrow> 'w \<Rightarrow> Control \<times> 'w" where
  "ConfigureAdoption env stateFile instanceID c0 w =
     (let c = c0\<lparr>ct_stateFile := stateFile,
                 ct_instanceID := (if instanceID = [] then ce_hostname env else instanceID)\<rparr>;
          prior = (if stateFile = [] then None
                   else case map_of (ct_disk c) stateFile of
                          Some st \<Rightarrow> if as_Adopted st then Some st else None
                        | None \<Rightarrow> None)
      in case prior of
           Some st \<Rightarrow>
             (c\<lparr>ct_adopted := True, ct_claimCode := [], ct_adoptedBy := as_ControllerIP st,
                ct_token := (if as_Token st \<noteq> [] then as_Token st else ct_token c)\<rparr>, w)
         | None \<Rightarrow>
             if ct_token c \<noteq> [] then (persistAdopted env True (c\<lparr>ct_adopted := True, ct_claimCode := []\<rparr>), w)
             else (case ce_rand env 32 w of (w1, b) \<Rightarrow> genClaim env (c\<lparr>ct_token := genToken b\<rparr>) w1))"

definition adoptIP :: "HTTPRequest \<Rightarrow> string" where
  "adoptIP r = (case SplitHostPort (hr_RemoteAddr r) of Some (h, _) \<Rightarrow> h | None \<Rightarrow> hr_RemoteAddr r)"

definition checkToken :: "string \<Rightarrow> string \<Rightarrow> bool" where
  "checkToken hdr want =
     (let tok = (if 7 < length hdr \<and> take 7 hdr = ''Bearer '' then drop 7 hdr else hdr)
      in tok \<noteq> [] \<and> length tok = length want \<and> tok = want)"

definition authenticated :: "Control \<Rightarrow> HTTPRequest \<Rightarrow> bool" where
  "authenticated c r =
     (if ct_token c = [] then False else checkToken (getOr (hr_Header r) ''Authorization'') (ct_token c))"

text \<open>The wrapper of every protected endpoint: \<open>None\<close> lets the handler run.\<close>

definition authGate :: "Control \<Rightarrow> HTTPRequest \<Rightarrow> reply option" where
  "authGate c r =
     (if ct_token c = [] then Some (Err ''management API disabled'' 503)
      else if \<not> checkToken (getOr (hr_Header r) ''Authorization'') (ct_token c) then Some (Err ''unauthorized'' 401)
      else if ct_adoptedBy c \<noteq> [] \<and> adoptIP r \<noteq> ct_adoptedBy c \<and> \<not> IsLoopback (ParseIP (adoptIP r))
        then Some (Err ''forbidden'' 403)
      else None)"

definition handleAdoptStatus :: "HTTPRequest \<Rightarrow> Control \<Rightarrow> reply" where
  "handleAdoptStatus r c =
     (if hr_Method r \<noteq> ''GET'' then Err ''method not allowed'' 405
      else if authenticated c r then AdoptStatus (ct_adopted c) (ct_instanceID c) (ct_version c)
      else AdoptStatus (ct_adopted c) [] [])"

definition badGuess :: "string \<Rightarrow> time \<Rightarrow> Control \<Rightarrow> Control" where
  "badGuess src now c =
     (let f = (case map_of (ct_adoptFails c) src of Some f \<Rightarrow> f | None \<Rightarrow> \<lparr>af_count = 0, af_until = 0\<rparr>);
          n = af_count f + 1;
          f' = (if 5 \<le> n then \<lparr>af_count = 0, af_until = now + 5 * Minute\<rparr> else f\<lparr>af_count := n\<rparr>)
      in c\<lparr>ct_adoptFails := AList.update src f' (ct_adoptFails c)\<rparr>)"

definition lockedOut :: "string \<Rightarrow> time \<Rightarrow> Control \<Rightarrow> bool" where
  "lockedOut src now c =
     (case map_of (ct_adoptFails c) src of Some f \<Rightarrow> now < af_until f | None \<Rightarrow> False)"

definition handleAdopt :: "'w ctl_env \<Rightarrow> HTTPRequest \<Rightarrow> Body \<Rightarrow> Control \<Rightarrow> 'w \<Rightarrow> Control \<times> reply" where
  "handleAdopt env r body c w =
     (if hr_Method r \<noteq> ''POST'' then (c, Err ''method not allowed'' 405)
      else case dec_Adopt body of
             Inl _ \<Rightarrow> (c, Err ''bad request'' 400)
           | Inr code \<Rightarrow>
               if ct_adopted c then (c, AdoptResponse True [] ''already adopted'')
               else
                 let src = adoptIP r; now = ctlNow env w in
                 if lockedOut src now c then (c, Err ''too many attempts; try again later'' 429)
                 else if code = [] \<or> code \<noteq> ct_claimCode c
                   then (badGuess src now c, AdoptResponse False [] ''invalid code'')
                 else
                   let c1 = persistAdopted env True (c\<lparr>ct_adopted := True, ct_claimCode := [], ct_adoptedBy := src\<rparr>)
                   in (c1, AdoptResponse True (ct_token c1) []))"

definition handleAdoptReset :: "'w ctl_env \<Rightarrow> HTTPRequest \<Rightarrow> Control \<Rightarrow> 'w \<Rightarrow> Control \<times> 'w \<times> reply" where
  "handleAdoptReset env r c w =
     (if hr_Method r \<noteq> ''POST'' then (c, w, Err ''method not allowed'' 405)
      else case genClaim env (persistAdopted env False (c\<lparr>ct_adopted := False, ct_adoptedBy := [], ct_adoptFails := []\<rparr>)) w of
             (c1, w1) \<Rightarrow> (c1, w1, Ack ''reset; new adoption code generated (see journal)''))"

subsection \<open>Handlers\<close>

definition onSrv :: "(Server \<Rightarrow> Server) \<Rightarrow> Control \<Rightarrow> Control" where
  "onSrv f c = c\<lparr>ct_srv := f (ct_srv c)\<rparr>"

abbreviation notAllowed :: reply where
  "notAllowed \<equiv> Err ''method not allowed'' 405"

abbreviation isPut :: "HTTPRequest \<Rightarrow> bool" where
  "isPut r \<equiv> hr_Method r = ''PUT'' \<or> hr_Method r = ''POST''"

definition handleHealth :: "Control \<Rightarrow> reply" where
  "handleHealth c = HealthResponse (ct_started c) (ct_version c) (wt_dropped (s_watch (ct_srv c)))"

definition addUpstreamStats :: "Control \<Rightarrow> StatsResponse \<Rightarrow> StatsResponse" where
  "addUpstreamStats c st =
     (if \<not> ct_wired c then st
      else case Upstream (ct_srv c) of (servers, routes, boot) \<Rightarrow>
             st\<lparr>sr_UpstreamServers := servers, sr_UpstreamRoutes := routes, sr_BootstrapServers := boot\<rparr>)"

definition handleStats :: "Control \<Rightarrow> reply" where
  "handleStats c =
     (let s = ct_srv c;
          st0 = (Counters_Stats (s_cnt s))\<lparr>sr_Cached := int (Cache_Len (s_cache s))\<rparr>;
          st1 = (case fst (Store_All (s_Store s)) of None \<Rightarrow> st0 | Some d \<Rightarrow> st0\<lparr>sr_Upstream := p_Upstream d\<rparr>);
          st2 = (case s_Blocklist s of None \<Rightarrow> st1
                 | Some b \<Rightarrow> st1\<lparr>sr_BlocklistCount := Blocklist_Count b, sr_BlocklistHash := Blocklist_Checksum b\<rparr>);
          st3 = (if \<not> ct_wired c then st2
                 else st2\<lparr>sr_DohHTTPAddr := DoHHTTPAddr s, sr_RateLimitQPS := RateLimitQPS s,
                          sr_CacheSize := CacheSize s, sr_RecordsHash := RecordsHash (GetRecords s)\<rparr>)
      in Stats (addUpstreamStats c st3))"

definition ctl_handleDoH :: "'w ctl_env \<Rightarrow> HTTPRequest \<Rightarrow> Body \<Rightarrow> Control \<Rightarrow> 'w \<Rightarrow> Control \<times> 'w \<times> reply" where
  "ctl_handleDoH env r body c w =
     (if \<not> ct_wired c then (c, w, Err ''doh settings not available on this instance'' 503)
      else if hr_Method r = ''GET'' then (c, w, HTTPAddr (DoHHTTPAddr (ct_srv c)))
      else if isPut r then
        (case dec_DoH body of
           Inl e \<Rightarrow> (c, w, Err e 400)
         | Inr addr \<Rightarrow>
             if addr \<noteq> [] \<and> SplitHostPort addr = None then (c, w, Err ''invalid http_addr: must be host:port'' 400)
             else case SetDoHHTTPAddr (ce_ops env) addr (ct_srv c) w of
                    (s, w1, Some e) \<Rightarrow> (c\<lparr>ct_srv := s\<rparr>, w1, Err e 400)
                  | (s, w1, None) \<Rightarrow> (c\<lparr>ct_srv := s\<rparr>, w1, Ack ''doh http addr set''))
      else (c, w, notAllowed))"

definition handleRateLimit :: "HTTPRequest \<Rightarrow> Body \<Rightarrow> Control \<Rightarrow> Control \<times> reply" where
  "handleRateLimit r body c =
     (if \<not> ct_wired c then (c, Err ''rate limit control not available on this instance'' 503)
      else if hr_Method r = ''GET'' then (c, QPS (RateLimitQPS (ct_srv c)))
      else if isPut r then
        (case dec_RateLimit body of
           Inl e \<Rightarrow> (c, Err e 400)
         | Inr (qps, burst) \<Rightarrow>
             if qps < 0 then (c, Err ''qps must be >= 0'' 400)
             else (onSrv (SetRateLimit qps (if burst < 0 then 0 else burst)) c, Ack ''rate limit set''))
      else (c, notAllowed))"

definition handleListPolicies :: "Control \<Rightarrow> reply" where
  "handleListPolicies c =
     (case Store_All (s_Store (ct_srv c)) of (def, list) \<Rightarrow>
        ListResponse (map_option fromFilter def) (map fromFilter list))"

definition setStore :: "Store \<Rightarrow> Control \<Rightarrow> Control" where
  "setStore st = onSrv (\<lambda>s. s\<lparr>s_Store := st\<rparr>)"

definition handlePolicy :: "'w ctl_env \<Rightarrow> HTTPRequest \<Rightarrow> Body \<Rightarrow> Control \<Rightarrow> 'w \<Rightarrow> Control \<times> reply" where
  "handlePolicy env r body c w =
     (if isPut r then
        (case dec_Policy body of
           Inl e \<Rightarrow> (c, Err e 400)
         | Inr wp \<Rightarrow>
             let fp = toFilter wp; store = s_Store (ct_srv c);
                 ev = emptyEvent\<lparr>we_Type := ''policy'', we_At := ctlNow env w, we_Domain := wp_ID wp\<rparr> in
             if wp_ID wp = ''default''
               then (onSrv (srvNotify ev) (setStore (Store_SetDefault (Some fp) store) c), Ack ''policy set'')
             else case Store_SetPolicy (Some fp) store of
                    (_, Some e) \<Rightarrow> (c, ErrFilter e 400)
                  | (st, None) \<Rightarrow> (onSrv (srvNotify ev) (setStore st c), Ack ''policy set''))
      else if hr_Method r = ''DELETE'' then
        (let qid = getOr (hr_Query r) ''id'';
             i = (case dec_Delete body of Inl _ \<Rightarrow> qid | Inr i \<Rightarrow> if i = [] then qid else i)
         in if i = [] then (c, Err ''id required'' 400)
            else (setStore (Store_RemovePolicy i (s_Store (ct_srv c))) c, Ack ''policy deleted''))
      else (c, notAllowed))"

definition handleBlocklist :: "HTTPRequest \<Rightarrow> Body \<Rightarrow> Control \<Rightarrow> Control \<times> reply" where
  "handleBlocklist r body c =
     (if \<not> isPut r then (c, notAllowed)
      else case s_Blocklist (ct_srv c) of
             None \<Rightarrow> (c, Err ''blocklist not configured'' 503)
           | Some b \<Rightarrow>
               (case dec_Blocklist body of
                  Inl e \<Rightarrow> (c, Err e 400)
                | Inr (domains, allowed) \<Rightarrow>
                    let b' = Blocklist_SetAllowed allowed (Blocklist_FromDomains domains b);
                        c1 = onSrv (\<lambda>s. PurgeCache (s\<lparr>s_Blocklist := Some b'\<rparr>)) c
                    in (c1\<lparr>ct_blocklistSaved := (ct_blocklistCachePath c \<noteq> [])\<rparr>, Ack ''blocklist updated'')))"

definition handleRecords :: "HTTPRequest \<Rightarrow> Body \<Rightarrow> Control \<Rightarrow> Control \<times> reply" where
  "handleRecords r body c =
     (if \<not> ct_wired c then (c, Err ''records not available on this instance'' 503)
      else if hr_Method r = ''GET'' then (c, RecordsResponse (GetRecords (ct_srv c)))
      else if isPut r then
        (case dec_Records body of
           Inl e \<Rightarrow> (c, Err e 400)
         | Inr recs \<Rightarrow> (onSrv (SetRecords recs) c, Ack ''records set''))
      else if hr_Method r = ''DELETE'' then (onSrv (SetRecords []) c, Ack ''records cleared'')
      else (c, notAllowed))"

definition handleUpstream :: "HTTPRequest \<Rightarrow> Body \<Rightarrow> Control \<Rightarrow> Control \<times> reply" where
  "handleUpstream r body c =
     (if \<not> ct_wired c then (c, Err ''upstream control not available on this instance'' 503)
      else if hr_Method r = ''GET'' then
        (case Upstream (ct_srv c) of (servers, routes, boot) \<Rightarrow> (c, UpstreamConfig servers routes boot))
      else if isPut r then
        (case dec_Upstream body of
           Inl e \<Rightarrow> (c, Err e 400)
         | Inr (servers, routes, boot) \<Rightarrow>
             (case SetUpstream servers routes boot (ct_srv c) of
                (s, Some e) \<Rightarrow> (c\<lparr>ct_srv := s\<rparr>, ErrPool e 400)
              | (s, None) \<Rightarrow> (c\<lparr>ct_srv := s\<rparr>, Ack ''upstream set'')))
      else (c, notAllowed))"

definition handleCache :: "HTTPRequest \<Rightarrow> Body \<Rightarrow> Control \<Rightarrow> Control \<times> reply" where
  "handleCache r body c =
     (if \<not> ct_wired c then (c, Err ''cache settings not available on this instance'' 503)
      else if hr_Method r = ''GET'' then (c, CacheLimit (CacheSize (ct_srv c)))
      else if isPut r then
        (case dec_Cache body of
           Inl e \<Rightarrow> (c, Err e 400)
         | Inr n \<Rightarrow>
             if n < 0 then (c, Err ''size must be >= 0'' 400)
             else case SetCacheConfig n (ct_srv c) of
                    (s, Some e) \<Rightarrow> (c\<lparr>ct_srv := s\<rparr>, Err e 400)
                  | (s, None) \<Rightarrow> (c\<lparr>ct_srv := s\<rparr>, Ack ''cache config set''))
      else (c, notAllowed))"

definition handleCachePurge :: "HTTPRequest \<Rightarrow> Control \<Rightarrow> Control \<times> reply" where
  "handleCachePurge r c =
     (if \<not> ct_wired c then (c, Err ''cache settings not available on this instance'' 503)
      else if hr_Method r \<noteq> ''POST'' then (c, notAllowed)
      else (onSrv PurgeCache c, PurgeCacheResponse (int (Cache_Len (s_cache (ct_srv c))))))"

subsection \<open>Host controllers\<close>

text \<open>The four HA endpoints share their guards: the controller, then the method.\<close>

definition haEndpoint ::
  "'w ctl_env \<Rightarrow> string \<Rightarrow> ('w HAController \<Rightarrow> 'w \<Rightarrow> 'w \<times> reply) \<Rightarrow> HTTPRequest \<Rightarrow> 'w \<Rightarrow> 'w \<times> reply" where
  "haEndpoint env meth run r w =
     (case ce_HA env of
        None \<Rightarrow> (w, Err ''high availability is not available'' 503)
      | Some ctrl \<Rightarrow> if hr_Method r \<noteq> meth then (w, notAllowed) else run ctrl w)"

definition ackOr :: "string \<Rightarrow> 'w \<times> string option \<Rightarrow> 'w \<times> reply" where
  "ackOr msg x = (case x of (w, Some e) \<Rightarrow> (w, Err e 400) | (w, None) \<Rightarrow> (w, Ack msg))"

definition handleHAStatus :: "'w ctl_env \<Rightarrow> HTTPRequest \<Rightarrow> 'w \<Rightarrow> 'w \<times> reply" where
  "handleHAStatus env = haEndpoint env ''GET'' (\<lambda>h w. case ha_Status h w of (w1, st) \<Rightarrow> (w1, HAReply st))"

definition handleHAConfig :: "'w ctl_env \<Rightarrow> HTTPRequest \<Rightarrow> Body \<Rightarrow> 'w \<Rightarrow> 'w \<times> reply" where
  "handleHAConfig env r body =
     haEndpoint env ''PUT'' (\<lambda>h w. case dec_HA body of
         Inl _ \<Rightarrow> (w, Err ''bad request'' 400)
       | Inr cfg \<Rightarrow> ackOr ''high availability configuration saved'' (ha_Set h cfg w)) r"

definition handleHAValidate :: "'w ctl_env \<Rightarrow> HTTPRequest \<Rightarrow> 'w \<Rightarrow> 'w \<times> reply" where
  "handleHAValidate env =
     haEndpoint env ''POST'' (\<lambda>h w. ackOr ''high availability configuration is valid'' (ha_Validate h w))"

definition handleHAApply :: "'w ctl_env \<Rightarrow> HTTPRequest \<Rightarrow> 'w \<Rightarrow> 'w \<times> reply" where
  "handleHAApply env = haEndpoint env ''POST'' (\<lambda>h w. ackOr ''high availability applied'' (ha_Apply h w))"

definition handleHADisable :: "'w ctl_env \<Rightarrow> HTTPRequest \<Rightarrow> 'w \<Rightarrow> 'w \<times> reply" where
  "handleHADisable env = haEndpoint env ''POST'' (\<lambda>h w. ackOr ''high availability disabled'' (ha_Disable h w))"

definition handleUpdate :: "'w ctl_env \<Rightarrow> HTTPRequest \<Rightarrow> 'w \<Rightarrow> 'w \<times> reply" where
  "handleUpdate env r w =
     (case ce_Update env of
        None \<Rightarrow> (w, Err ''remote update is not available'' 503)
      | Some ctrl \<Rightarrow>
          if hr_Method r = ''GET'' then (case uc_Status ctrl w of (w1, st) \<Rightarrow> (w1, UpdateReply st))
          else if hr_Method r = ''POST'' then
            (let channel = getOr (hr_Query r) ''channel'' in
             if \<not> ValidUpdateChannel channel then (w, Err ''channel must be stable or dev'' 400)
             else case uc_Start ctrl channel w of
                    (w1, Some e) \<Rightarrow> (w1, Err e 409)
                  | (w1, None) \<Rightarrow> (w1, Ack ''update started''))
          else (w, notAllowed))"

definition handleRestart :: "'w ctl_env \<Rightarrow> HTTPRequest \<Rightarrow> 'w \<Rightarrow> 'w \<times> reply" where
  "handleRestart env r w =
     (if hr_Method r \<noteq> ''POST'' then (w, notAllowed) else (ce_restart env w, Ack ''restarting blipd''))"

definition handleWatch :: "'w ctl_env \<Rightarrow> Control \<Rightarrow> 'w \<Rightarrow> Control \<times> 'w \<times> reply" where
  "handleWatch env c w =
     (case ce_freshChan env w of (w1, ch) \<Rightarrow>
        (onSrv (\<lambda>s. s\<lparr>s_watch := watchOpen ch (s_watch s)\<rparr>) c, w1, EventStream ch))"

subsection \<open>Routing\<close>

definition protected ::
  "'w ctl_env \<Rightarrow> HTTPRequest \<Rightarrow> Body \<Rightarrow> Control \<Rightarrow> 'w \<Rightarrow> Control \<times> 'w \<times> reply" where
  "protected env r body c w =
     (let path = hr_Path r;
          pure = (\<lambda>x. (c, w, x));
          ctl = (\<lambda>(c', x). (c', w, x));
          host = (\<lambda>(w', x). (c, w', x)) in
      if path = ''/api/v1/health'' then pure (handleHealth c)
      else if path = ''/api/v1/stats'' then pure (handleStats c)
      else if path = ''/api/v1/policies'' then pure (handleListPolicies c)
      else if path = ''/api/v1/policy'' then ctl (handlePolicy env r body c w)
      else if path = ''/api/v1/blocklist'' then ctl (handleBlocklist r body c)
      else if path = ''/api/v1/doh'' then ctl_handleDoH env r body c w
      else if path = ''/api/v1/ratelimit'' then ctl (handleRateLimit r body c)
      else if path = ''/api/v1/upstream'' then ctl (handleUpstream r body c)
      else if path = ''/api/v1/cache'' then ctl (handleCache r body c)
      else if path = ''/api/v1/cache/purge'' then ctl (handleCachePurge r c)
      else if path = ''/api/v1/records'' then ctl (handleRecords r body c)
      else if path = ''/api/v1/ha/status'' then host (handleHAStatus env r w)
      else if path = ''/api/v1/ha'' then host (handleHAConfig env r body w)
      else if path = ''/api/v1/ha/validate'' then host (handleHAValidate env r w)
      else if path = ''/api/v1/ha/apply'' then host (handleHAApply env r w)
      else if path = ''/api/v1/ha/disable'' then host (handleHADisable env r w)
      else if path = ''/api/v1/update'' then host (handleUpdate env r w)
      else if path = ''/api/v1/restart'' then host (handleRestart env r w)
      else if path = ''/api/v1/watch'' then handleWatch env c w
      else handleAdoptReset env r c w)"

definition protectedPaths :: "string list" where
  "protectedPaths = map (\<lambda>p. ''/api/v1/'' @ p)
     [''health'', ''stats'', ''policies'', ''policy'', ''blocklist'', ''doh'', ''ratelimit'', ''upstream'', ''cache'',
      ''cache/purge'', ''records'', ''ha/status'', ''ha'', ''ha/validate'', ''ha/apply'', ''ha/disable'', ''update'',
      ''restart'', ''watch'', ''adopt/reset'']"

definition ctlHandler ::
  "'w ctl_env \<Rightarrow> HTTPRequest \<Rightarrow> Body \<Rightarrow> Control \<Rightarrow> 'w \<Rightarrow> Control \<times> 'w \<times> reply" where
  "ctlHandler env r body c w =
     (if hr_Path r = ''/api/v1/adopt/status'' then (c, w, handleAdoptStatus r c)
      else if hr_Path r = ''/api/v1/adopt'' then (case handleAdopt env r body c w of (c', x) \<Rightarrow> (c', w, x))
      else if hr_Path r \<notin> set protectedPaths then (c, w, Err ''404 page not found'' 404)
      else case authGate c r of
             Some e \<Rightarrow> (c, w, e)
           | None \<Rightarrow> protected env r body c w)"

subsection \<open>Authorization\<close>

text \<open>Who may drive the API: the holder of the token, from the pinned peer or the box itself.\<close>

definition authorized :: "Control \<Rightarrow> HTTPRequest \<Rightarrow> bool" where
  "authorized c r \<longleftrightarrow>
     ct_token c \<noteq> []
     \<and> getOr (hr_Header r) ''Authorization'' \<in> {ct_token c, ''Bearer '' @ ct_token c}
     \<and> (ct_adoptedBy c = [] \<or> adoptIP r = ct_adoptedBy c \<or> IsLoopback (ParseIP (adoptIP r)))"

lemma checkToken_header: "checkToken hdr want \<Longrightarrow> hdr \<in> {want, ''Bearer '' @ want}"
proof -
  assume c: "checkToken hdr want"
  have "take 7 hdr = ''Bearer '' \<Longrightarrow> hdr = ''Bearer '' @ drop 7 hdr" by (metis append_take_drop_id)
  then show ?thesis using c by (auto simp: checkToken_def Let_def split: if_splits)
qed

lemma authGate_authorized: "authGate c r = None \<Longrightarrow> authorized c r"
  using checkToken_header [of "getOr (hr_Header r) ''Authorization''" "ct_token c"]
  by (auto simp: authGate_def authorized_def split: if_splits)

lemma authGate_codes: "authGate c r = Some x \<Longrightarrow> \<exists>m code. x = Err m code \<and> code \<in> {401, 403, 503}"
  by (auto simp: authGate_def split: if_splits)

subsection \<open>The claim protocol\<close>

text \<open>What the handshake is about, without tokens, lockouts or files.\<close>

datatype phase = Open string | Claimed string

datatype label = Tau | Disclose string string | Reset

inductive claim_trans :: "phase \<Rightarrow> label \<Rightarrow> phase \<Rightarrow> bool" where
  tau: "claim_trans p Tau p"
| claim: "k \<noteq> [] \<Longrightarrow> claim_trans (Open k) (Disclose src k) (Claimed src)"
| reset: "claim_trans p Reset (Open k)"

inductive_cases claim_discloseE: "claim_trans p (Disclose src k) p'"
inductive_cases claim_tauE: "claim_trans p Tau p'"

fun claim_path :: "phase \<Rightarrow> label list \<Rightarrow> phase \<Rightarrow> bool" where
  "claim_path p [] p' \<longleftrightarrow> p = p'"
| "claim_path p (l # ls) p' \<longleftrightarrow> (\<exists>q. claim_trans p l q \<and> claim_path q ls p')"

definition disclosures :: "label list \<Rightarrow> nat" where
  "disclosures ls = length (filter (\<lambda>l. case l of Disclose _ _ \<Rightarrow> True | _ \<Rightarrow> False) ls)"

definition resets :: "label list \<Rightarrow> nat" where
  "resets ls = length (filter (\<lambda>l. l = Reset) ls)"

lemma path_disclosures:
  "claim_path p ls p' \<Longrightarrow> disclosures ls \<le> resets ls + (case p of Open _ \<Rightarrow> 1 | Claimed _ \<Rightarrow> 0)"
proof (induction ls arbitrary: p)
  case (Cons l ls)
  then obtain q where q: "claim_trans p l q" "claim_path q ls p'" by auto
  from q(1) Cons.IH [OF q(2)] show ?case
    by cases (auto simp: disclosures_def resets_def split: phase.splits)
qed (simp add: disclosures_def)

definition abs_phase :: "Control \<Rightarrow> phase" where
  "abs_phase c = (if ct_adopted c then Claimed (ct_adoptedBy c) else Open (ct_claimCode c))"

text \<open>What a request shows of the handshake: the token leaving the box, or a reset.\<close>

definition labelOf :: "HTTPRequest \<Rightarrow> Body \<Rightarrow> reply \<Rightarrow> label" where
  "labelOf r body x =
     (case x of
        AdoptResponse True tok msg \<Rightarrow>
          if msg = [] then Disclose (adoptIP r) (case dec_Adopt body of Inr code \<Rightarrow> code | Inl _ \<Rightarrow> []) else Tau
      | Ack msg \<Rightarrow> if hr_Path r = ''/api/v1/adopt/reset'' then Reset else Tau
      | _ \<Rightarrow> Tau)"

lemma persist_fields [simp]:
  "ct_adopted (persistAdopted env a c) = ct_adopted c" "ct_claimCode (persistAdopted env a c) = ct_claimCode c"
  "ct_adoptedBy (persistAdopted env a c) = ct_adoptedBy c" "ct_token (persistAdopted env a c) = ct_token c"
  "ct_adoptFails (persistAdopted env a c) = ct_adoptFails c"
  by (simp_all add: persistAdopted_def)

lemma abs_phase_simps [simp]:
  "abs_phase (onSrv f c) = abs_phase c" "abs_phase (c\<lparr>ct_srv := s\<rparr>) = abs_phase c"
  "abs_phase (c\<lparr>ct_blocklistSaved := b\<rparr>) = abs_phase c" "abs_phase (setStore st c) = abs_phase c"
  "abs_phase (c\<lparr>ct_adoptFails := fs\<rparr>) = abs_phase c"
  by (simp_all add: abs_phase_def onSrv_def setStore_def)

lemma handleAdopt_refines:
  assumes "handleAdopt env r body c w = (c', x)"
  shows "claim_trans (abs_phase c) (labelOf r body x) (abs_phase c')"
proof (cases "dec_Adopt body")
  case (Inr code)
  consider (claim) "\<not> ct_adopted c" "code \<noteq> []" "code = ct_claimCode c" "abs_phase c' = Claimed (adoptIP r)"
      "labelOf r body x = Disclose (adoptIP r) code"
    | (other) "abs_phase c' = abs_phase c" "labelOf r body x = Tau"
    using assms Inr
    by (auto simp: handleAdopt_def Let_def labelOf_def badGuess_def abs_phase_def split: if_splits)
  then show ?thesis
  proof cases
    case claim
    then show ?thesis using claim_trans.claim [of code "adoptIP r"] by (simp add: abs_phase_def)
  qed (simp add: claim_trans.tau)
qed (use assms in \<open>auto simp: handleAdopt_def labelOf_def intro: claim_trans.tau split: if_splits\<close>)

lemma handleAdoptReset_refines:
  assumes "handleAdoptReset env r c w = (c', w', x)" and "hr_Path r = ''/api/v1/adopt/reset''"
  shows "claim_trans (abs_phase c) (labelOf r body x) (abs_phase c')"
  using assms
  by (auto simp: handleAdoptReset_def genClaim_def labelOf_def abs_phase_def split: if_splits prod.splits
      intro: claim_trans.reset claim_trans.tau)

text \<open>Every other handler leaves the handshake alone and shows nothing of it.\<close>

definition quiet :: "Control \<Rightarrow> Control \<Rightarrow> reply \<Rightarrow> bool" where
  "quiet c c' x \<longleftrightarrow> abs_phase c' = abs_phase c \<and> (\<forall>a t m. x \<noteq> AdoptResponse a t m)"

lemma quiet_handlers:
  "quiet c c (handleHealth c)" "quiet c c (handleStats c)" "quiet c c (handleListPolicies c)"
  "handlePolicy env r body c w = (c', x) \<Longrightarrow> quiet c c' x"
  "handleBlocklist r body c = (c', x) \<Longrightarrow> quiet c c' x"
  "ctl_handleDoH env r body c w = (c', w', x) \<Longrightarrow> quiet c c' x"
  "handleRateLimit r body c = (c', x) \<Longrightarrow> quiet c c' x"
  "handleUpstream r body c = (c', x) \<Longrightarrow> quiet c c' x"
  "handleCache r body c = (c', x) \<Longrightarrow> quiet c c' x"
  "handleCachePurge r c = (c', x) \<Longrightarrow> quiet c c' x"
  "handleRecords r body c = (c', x) \<Longrightarrow> quiet c c' x"
  "handleWatch env c w = (c', w', x) \<Longrightarrow> quiet c c' x"
  by (auto simp: quiet_def handleHealth_def handleStats_def handleListPolicies_def handlePolicy_def
      handleBlocklist_def ctl_handleDoH_def handleRateLimit_def handleUpstream_def handleCache_def
      handleCachePurge_def handleRecords_def handleWatch_def Let_def
      split: if_splits sum.splits prod.splits option.splits)

lemma quiet_host:
  "haEndpoint env meth run r w = (w', x) \<Longrightarrow> (\<And>h w. \<forall>a t m. snd (run h w) \<noteq> AdoptResponse a t m) \<Longrightarrow> quiet c c x"
  "handleHAStatus env r w = (w', x) \<Longrightarrow> quiet c c x"
  "handleHAConfig env r body w = (w', x) \<Longrightarrow> quiet c c x"
  "handleHAValidate env r w = (w', x) \<Longrightarrow> quiet c c x"
  "handleHAApply env r w = (w', x) \<Longrightarrow> quiet c c x"
  "handleHADisable env r w = (w', x) \<Longrightarrow> quiet c c x"
  "handleUpdate env r w = (w', x) \<Longrightarrow> quiet c c x"
  "handleRestart env r w = (w', x) \<Longrightarrow> quiet c c x"
  by (auto simp: quiet_def haEndpoint_def handleHAStatus_def handleHAConfig_def handleHAValidate_def
      handleHAApply_def handleHADisable_def handleUpdate_def handleRestart_def ackOr_def Let_def
      split: if_splits sum.splits prod.splits option.splits) (metis snd_conv)+

lemma protected_quiet:
  assumes "protected env r body c w = (c', w', x)" and "hr_Path r \<noteq> ''/api/v1/adopt/reset''"
    and "hr_Path r \<in> set protectedPaths"
  shows "quiet c c' x"
proof -
  have "hr_Path r \<in> {''/api/v1/health'', ''/api/v1/stats'', ''/api/v1/policies'', ''/api/v1/policy'', ''/api/v1/blocklist'',
      ''/api/v1/doh'', ''/api/v1/ratelimit'', ''/api/v1/upstream'', ''/api/v1/cache'', ''/api/v1/cache/purge'',
      ''/api/v1/records'', ''/api/v1/ha/status'', ''/api/v1/ha'', ''/api/v1/ha/validate'', ''/api/v1/ha/apply'',
      ''/api/v1/ha/disable'', ''/api/v1/update'', ''/api/v1/restart'', ''/api/v1/watch''}"
    using assms(2,3) by (simp add: protectedPaths_def)
  then show ?thesis
    using assms(1) by (elim insertE emptyE)
      (auto simp: protected_def Let_def quiet_handlers(1-3) split: prod.splits dest: quiet_handlers(4-) quiet_host(2-))
qed

lemma quiet_tau: "quiet c c' x \<Longrightarrow> hr_Path r \<noteq> ''/api/v1/adopt/reset'' \<Longrightarrow> labelOf r body x = Tau"
  by (auto simp: quiet_def labelOf_def split: reply.splits)

lemma ctlHandler_refines:
  assumes "ctlHandler env r body c w = (c', w', x)"
  shows "claim_trans (abs_phase c) (labelOf r body x) (abs_phase c')
    \<and> (labelOf r body x = Reset \<longrightarrow> authorized c r)"
proof -
  consider (status) "hr_Path r = ''/api/v1/adopt/status''" | (adopt) "hr_Path r = ''/api/v1/adopt''"
    | (rejected) "c' = c" "\<exists>m code. x = Err m code"
    | (reset) "hr_Path r = ''/api/v1/adopt/reset''" "handleAdoptReset env r c w = (c', w', x)" "authGate c r = None"
    | (other) "hr_Path r \<noteq> ''/api/v1/adopt/reset''" "quiet c c' x"
  proof -
    have reset_path: "protected env r body c w = handleAdoptReset env r c w" if "hr_Path r = ''/api/v1/adopt/reset''"
      using that by (simp add: protected_def)
    show thesis
      using assms that protected_quiet [of env r body c w c' w' x] authGate_codes [of c r] reset_path
      by (cases "hr_Path r = ''/api/v1/adopt/reset''")
         (auto simp: ctlHandler_def split: if_splits option.splits)
  qed
  then show ?thesis
  proof cases
    case status
    then show ?thesis using assms
      by (auto simp: ctlHandler_def handleAdoptStatus_def labelOf_def intro: claim_trans.tau split: if_splits)
  next
    case adopt
    obtain c1 y where y: "handleAdopt env r body c w = (c1, y)" by force
    then have "c' = c1" "x = y" using assms adopt by (simp_all add: ctlHandler_def)
    moreover have "labelOf r body y \<noteq> Reset" using adopt by (auto simp: labelOf_def split: reply.splits bool.splits)
    ultimately show ?thesis using handleAdopt_refines [OF y] by simp
  next
    case rejected
    then show ?thesis by (auto simp: labelOf_def intro: claim_trans.tau)
  next
    case reset
    then show ?thesis using handleAdoptReset_refines [OF reset(2,1)] authGate_authorized by blast
  next
    case other
    then show ?thesis using quiet_tau [OF other(2,1)] by (auto simp: quiet_def intro: claim_trans.tau)
  qed
qed

fun ctl_run :: "'w ctl_env \<Rightarrow> (HTTPRequest \<times> Body) list \<Rightarrow> Control \<Rightarrow> 'w \<Rightarrow> Control \<times> 'w \<times> label list" where
  "ctl_run env [] c w = (c, w, [])"
| "ctl_run env ((r, body) # rs) c w =
     (case ctlHandler env r body c w of (c1, w1, x) \<Rightarrow>
      case ctl_run env rs c1 w1 of (c2, w2, ls) \<Rightarrow> (c2, w2, labelOf r body x # ls))"

lemma ctl_run_path: "ctl_run env rs c w = (c', w', ls) \<Longrightarrow> claim_path (abs_phase c) ls (abs_phase c')"
proof (induction rs arbitrary: c w ls)
  case (Cons rb rs)
  obtain r body where rb: "rb = (r, body)" by force
  obtain c1 w1 x where h: "ctlHandler env r body c w = (c1, w1, x)" by (metis prod.exhaust_sel)
  obtain c2 w2 ls' where t: "ctl_run env rs c1 w1 = (c2, w2, ls')" by (metis prod.exhaust_sel)
  have e: "c2 = c'" "w2 = w'" "ls = labelOf r body x # ls'" using Cons.prems rb h t by auto
  show ?case
    unfolding e(3) claim_path.simps
    using ctlHandler_refines [OF h] Cons.IH [OF t [unfolded e(1,2)]] by blast
qed simp

subsection \<open>Guessing\<close>

definition guess_inv :: "Control \<Rightarrow> bool" where
  "guess_inv c \<longleftrightarrow> (\<forall>src f. map_of (ct_adoptFails c) src = Some f \<longrightarrow> 0 \<le> af_count f \<and> af_count f < 5)"

lemma guess_invD: "guess_inv c \<Longrightarrow> map_of (ct_adoptFails c) src = Some f \<Longrightarrow> 0 \<le> af_count f \<and> af_count f < 5"
  unfolding guess_inv_def by (drule spec [of _ src], drule spec [of _ f]) simp

lemma guess_inv_bad:
  assumes "guess_inv c"
  shows "guess_inv (badGuess src now c)"
  unfolding guess_inv_def
proof (intro allI impI)
  fix x g
  assume g: "map_of (ct_adoptFails (badGuess src now c)) x = Some g"
  show "0 \<le> af_count g \<and> af_count g < 5"
  proof (cases "x = src")
    case True
    then show ?thesis using g guess_invD [OF assms, of src]
      by (cases "map_of (ct_adoptFails c) src") (auto simp: badGuess_def Let_def update_conv)
  next
    case False
    then show ?thesis using g guess_invD [OF assms, of x g] by (simp add: badGuess_def Let_def update_conv)
  qed
qed

lemma handleAdopt_cases:
  assumes "handleAdopt env r body c w = (c1, x)"
  obtains (wrong) "c1 = badGuess (adoptIP r) (ctlNow env w) c" "\<not> lockedOut (adoptIP r) (ctlNow env w) c"
      "x = AdoptResponse False [] ''invalid code''"
    | (other) "ct_adoptFails c1 = ct_adoptFails c" "x \<noteq> AdoptResponse False [] ''invalid code''"
  using assms by (auto simp: handleAdopt_def Let_def split: if_splits sum.splits)

lemma guess_inv_adopt:
  assumes "guess_inv c" and "handleAdopt env r body c w = (c1, x)"
  shows "guess_inv c1"
  using assms(2)
proof (cases rule: handleAdopt_cases)
  case wrong
  then show ?thesis using guess_inv_bad [OF assms(1)] by simp
next
  case other
  then show ?thesis using assms(1) by (simp add: guess_inv_def)
qed

text \<open>How many more guesses a source has until \<open>t\<close>.\<close>

definition budget :: "string \<Rightarrow> time \<Rightarrow> Control \<Rightarrow> int" where
  "budget src t c =
     (case map_of (ct_adoptFails c) src of
        None \<Rightarrow> 5
      | Some f \<Rightarrow> if t \<le> af_until f then 0 else 5 - af_count f)"

lemma budget_nonneg: "guess_inv c \<Longrightarrow> 0 \<le> budget src t c"
  using guess_invD [of c src] by (cases "map_of (ct_adoptFails c) src") (auto simp: budget_def)

lemma badGuess_budget:
  assumes "guess_inv c" and "\<not> lockedOut src now c" and "t \<le> now + 5 * Minute" and "now < t"
  shows "budget src t (badGuess src now c) \<le> budget src t c - 1"
proof (cases "map_of (ct_adoptFails c) src")
  case None
  then show ?thesis by (simp add: budget_def badGuess_def update_conv)
next
  case (Some f)
  have "0 \<le> af_count f" "af_count f < 5" "\<not> now < af_until f"
    using guess_invD [OF assms(1) Some] assms(2) Some by (simp_all add: lockedOut_def)
  then show ?thesis using Some assms(3,4) by (simp add: budget_def badGuess_def Let_def update_conv)
qed

lemma badGuess_other: "src' \<noteq> src \<Longrightarrow> budget src' t (badGuess src now c) = budget src' t c"
  by (simp add: budget_def badGuess_def Let_def update_conv)

fun adopt_run :: "'w ctl_env \<Rightarrow> (HTTPRequest \<times> Body \<times> 'w) list \<Rightarrow> Control \<Rightarrow> reply list" where
  "adopt_run env [] c = []"
| "adopt_run env ((r, body, w) # as) c =
     (case handleAdopt env r body c w of (c1, x) \<Rightarrow> x # adopt_run env as c1)"

definition wrongGuesses :: "string \<Rightarrow> (HTTPRequest \<times> Body \<times> 'w) list \<Rightarrow> reply list \<Rightarrow> nat" where
  "wrongGuesses src as xs =
     length (filter (\<lambda>((r, _, _), x). adoptIP r = src \<and> x = AdoptResponse False [] ''invalid code'') (zip as xs))"

lemma adopt_step_budget:
  assumes "guess_inv c" and "handleAdopt env r body c w = (c1, x)" and "t \<le> ctlNow env w + 5 * Minute" and "ctlNow env w < t"
  shows "budget src t c1 + (if adoptIP r = src \<and> x = AdoptResponse False [] ''invalid code'' then 1 else 0) \<le> budget src t c"
  using assms(2)
proof (cases rule: handleAdopt_cases)
  case wrong
  then show ?thesis
    using badGuess_budget [OF assms(1) wrong(2) assms(3,4)] badGuess_other by (cases "adoptIP r = src") auto
qed (simp add: budget_def)

lemma adopt_run_budget:
  assumes "guess_inv c" and "\<forall>(r, body, w) \<in> set as. ctlNow env w < t \<and> t \<le> ctlNow env w + 5 * Minute"
  shows "int (wrongGuesses src as (adopt_run env as c)) \<le> budget src t c"
  using assms
proof (induction as arbitrary: c)
  case (Cons a as)
  obtain r body w where a: "a = (r, body, w)" by (metis prod.exhaust_sel)
  obtain c1 x where h: "handleAdopt env r body c w = (c1, x)" by force
  have "guess_inv c1" by (rule guess_inv_adopt [OF Cons.prems(1) h])
  then have "int (wrongGuesses src as (adopt_run env as c1)) \<le> budget src t c1" using Cons by auto
  moreover have "ctlNow env w < t" "t \<le> ctlNow env w + 5 * Minute" using Cons.prems(2) a by auto
  ultimately show ?case
    using adopt_step_budget [OF Cons.prems(1) h, of t src] a h by (auto simp: wrongGuesses_def split: if_splits)
qed (simp add: wrongGuesses_def budget_nonneg)

subsection \<open>Settings\<close>

definition statsOf :: "Control \<Rightarrow> StatsResponse" where
  "statsOf c = (case handleStats c of Stats st \<Rightarrow> st | _ \<Rightarrow> emptyStats)"

lemma pushed_blocklist:
  "Blocklist_SetAllowed al (Blocklist_FromDomains ds b) = Blocklist_SetAllowed al (Blocklist_FromDomains ds Blip_Blocklist.New)"
  by (simp add: Blocklist_SetAllowed_def Blocklist_FromDomains_def Blocklist_FromDomainsMap_def Blocklist_swap_def
      Blip_Blocklist.New_def split: prod.splits)

lemma statsOf_fields:
  assumes "ct_wired c"
  shows "sr_RecordsHash (statsOf c) = RecordsHash (GetRecords (ct_srv c))"
    "sr_CacheSize (statsOf c) = CacheSize (ct_srv c)" "sr_RateLimitQPS (statsOf c) = RateLimitQPS (ct_srv c)"
    "sr_DohHTTPAddr (statsOf c) = DoHHTTPAddr (ct_srv c)"
    "sr_Cached (statsOf c) = int (Cache_Len (s_cache (ct_srv c)))"
    "(sr_UpstreamServers (statsOf c), sr_UpstreamRoutes (statsOf c), sr_BootstrapServers (statsOf c)) = Upstream (ct_srv c)"
    "s_Blocklist (ct_srv c) = Some b \<Longrightarrow> sr_BlocklistHash (statsOf c) = Blocklist_Checksum b
       \<and> sr_BlocklistCount (statsOf c) = Blocklist_Count b"
  using assms
  by (auto simp: statsOf_def handleStats_def addUpstreamStats_def Let_def Counters_Stats_def
      split: prod.splits option.splits)

lemma SetUpstream_reported:
  "SetUpstream svs rts boot s = (s', None) \<Longrightarrow> Upstream s' = (svs, rts, boot)"
  by (auto simp: SetUpstream_def NewPoolWithBootstrap_def Upstream_def safePool_def ResolverPool_Servers_def
      ResolverPool_Routes_def ResolverPool_Bootstrap_def split: prod.splits sum.splits)

lemma SetRecords_reported:
  "s_rec s = Some rs \<Longrightarrow> RecordsHash (GetRecords (SetRecords recs s)) = RecordsHash (filter kept recs)"
  using RecordsHash_perm [OF SetRecords_mset] by (simp add: GetRecords_def SetRecords_def)

lemma SetRateLimit_reported: "0 \<le> qps \<Longrightarrow> s_rl s = Some rl \<Longrightarrow> RateLimitQPS (SetRateLimit qps burst s) = qps"
  by (simp add: RateLimitQPS_def SetRateLimit_def rateLimiter_qps_def rateLimiter_set_def Let_def)

lemma handleRecords_reported:
  assumes "ct_wired c" and "isPut r" and "s_rec (ct_srv c) \<noteq> None" and "handleRecords r body c = (c', Ack m)"
  shows "sr_RecordsHash (statsOf c') = RecordsHash (filter kept (projr (dec_Records body)))"
proof -
  obtain recs where "dec_Records body = Inr recs" "c' = onSrv (SetRecords recs) c"
    using assms by (auto simp: handleRecords_def split: sum.splits)
  then show ?thesis using assms(1,3) statsOf_fields(1) [of c'] SetRecords_reported by (auto simp: onSrv_def)
qed

lemma handleBlocklist_reported:
  assumes "ct_wired c" and "isPut r" and "handleBlocklist r body c = (c', Ack m)"
  shows "let b = Blocklist_SetAllowed (snd (projr (dec_Blocklist body)))
               (Blocklist_FromDomains (fst (projr (dec_Blocklist body))) Blip_Blocklist.New)
         in sr_BlocklistHash (statsOf c') = Blocklist_Checksum b \<and> sr_BlocklistCount (statsOf c') = Blocklist_Count b
            \<and> sr_Cached (statsOf c') = 0"
proof -
  obtain b ds al where x: "s_Blocklist (ct_srv c) = Some b" "dec_Blocklist body = Inr (ds, al)"
    "ct_srv c' = PurgeCache ((ct_srv c)\<lparr>s_Blocklist := Some (Blocklist_SetAllowed al (Blocklist_FromDomains ds b))\<rparr>)"
    "ct_wired c' = ct_wired c"
    using assms(2,3) by (auto simp: handleBlocklist_def onSrv_def Let_def split: sum.splits option.splits)
  show ?thesis
    using x assms(1) statsOf_fields(5) [of c']
      statsOf_fields(7) [of c' "Blocklist_SetAllowed al (Blocklist_FromDomains ds Blip_Blocklist.New)"]
    by (simp add: PurgeCache_def pushed_blocklist [of al ds b] Cache_Len_def Cache_Purge_def)
qed

lemma handleRateLimit_reported:
  assumes "ct_wired c" and "isPut r" and "s_rl (ct_srv c) \<noteq> None" and "handleRateLimit r body c = (c', Ack m)"
  shows "sr_RateLimitQPS (statsOf c') = fst (projr (dec_RateLimit body))"
proof -
  obtain qps burst where "dec_RateLimit body = Inr (qps, burst)" "0 \<le> qps"
    "c' = onSrv (SetRateLimit qps (if burst < 0 then 0 else burst)) c"
    using assms by (auto simp: handleRateLimit_def split: sum.splits prod.splits if_splits)
  then show ?thesis using assms(1,3) statsOf_fields(3) [of c'] SetRateLimit_reported by (auto simp: onSrv_def)
qed

lemma handleCache_reported:
  assumes "ct_wired c" and "isPut r" and "Server_inv (ct_srv c)" and "handleCache r body c = (c', Ack m)"
  shows "sr_CacheSize (statsOf c') = projr (dec_Cache body)
    \<and> (0 < sr_CacheSize (statsOf c') \<longrightarrow> sr_Cached (statsOf c') \<le> sr_CacheSize (statsOf c'))"
proof -
  obtain n where n: "dec_Cache body = Inr n" "0 \<le> n" "c' = c\<lparr>ct_srv := fst (SetCacheConfig n (ct_srv c))\<rparr>"
    using assms by (auto simp: handleCache_def SetCacheConfig_def split: sum.splits if_splits)
  have "cache_ok (s_cacheSize (ct_srv c')) (s_cache (ct_srv c'))"
    using SetCacheConfig_inv [OF assms(3), of n] n(3) by (simp add: Server_inv_def)
  then have "0 < CacheSize (ct_srv c') \<longrightarrow> int (Cache_Len (s_cache (ct_srv c'))) \<le> CacheSize (ct_srv c')"
    using items_lru_length by (auto simp: cache_ok_def Cache_bounded_def Cache_Len_def CacheSize_def)
  moreover have "CacheSize (ct_srv c') = n" using n by (simp add: CacheSize_def SetCacheConfig_def)
  ultimately show ?thesis using n assms(1) statsOf_fields(2,5) [of c'] by simp
qed

lemma handleUpstream_reported:
  assumes "ct_wired c" and "isPut r" and "handleUpstream r body c = (c', Ack m)"
  shows "(sr_UpstreamServers (statsOf c'), sr_UpstreamRoutes (statsOf c'), sr_BootstrapServers (statsOf c'))
    = projr (dec_Upstream body)"
proof -
  obtain svs rts boot s where s: "dec_Upstream body = Inr (svs, rts, boot)"
    "SetUpstream svs rts boot (ct_srv c) = (s, None)" "c' = c\<lparr>ct_srv := s\<rparr>"
    using assms by (auto simp: handleUpstream_def split: sum.splits prod.splits option.splits)
  show ?thesis using statsOf_fields(6) [of c'] SetUpstream_reported [OF s(2)] s assms(1) by simp
qed

subsection \<open>Properties\<close>


definition sampleBody :: Body where
  "sampleBody = \<lparr>dec_Policy = Inl ''EOF'', dec_Delete = Inl ''EOF'', dec_Blocklist = Inr ([''ads.example.com''], []),
     dec_DoH = Inl ''EOF'', dec_RateLimit = Inr (20, 0), dec_Upstream = Inl ''EOF'', dec_Cache = Inr 64,
     dec_Records = Inr [], dec_HA = Inl ''EOF'', dec_Adopt = Inr ''AAAAAAAA-AAAAAAAA''\<rparr>"

definition sampleEnv :: "nat ctl_env" where
  "sampleEnv = \<lparr>ce_ops = sampleOpsNet, ce_HA = None, ce_Update = None, ce_rand = (\<lambda>n w. (w, replicate n 0)),
     ce_hostname = ''box'', ce_writable = (\<lambda>_. True), ce_restart = (\<lambda>w. w), ce_freshChan = (\<lambda>w. (w + 1, w))\<rparr>"

definition sampleControl :: Control where
  "sampleControl = wireControllers (NewServerWithBlocklist ''s3cret'' sampleServer 0 ''1.0'')"

definition openControl :: Control where
  "openControl = fst (ConfigureAdoption sampleEnv [] [] (NewServerWithBlocklist [] sampleServer 0 ''1.0'') 5)"

definition apiRequest :: "string \<Rightarrow> string \<Rightarrow> string \<Rightarrow> HTTPRequest" where
  "apiRequest meth path tok = sampleRequest\<lparr>hr_Method := meth, hr_Path := path, hr_Header := [(''Authorization'', tok)]\<rparr>"




text \<open>
  C24. Guessing the claim code. Starting from any consistent lockout table, within any window of
  five minutes at most five wrong codes of one source are compared with the claim code: further
  attempts of that source are turned away, whatever else happens in between.
\<close>
theorem guess_bounded:
  assumes "guess_inv c"
    and "\<forall>(r, body, w) \<in> set as. ctlNow env w < t \<and> t \<le> ctlNow env w + 5 * Minute"
  shows "wrongGuesses src as (adopt_run env as c) \<le> 5"
proof -
  have "budget src t c \<le> 5"
    using guess_invD [OF assms(1), of src] by (cases "map_of (ct_adoptFails c) src") (auto simp: budget_def)
  then show ?thesis using adopt_run_budget [OF assms, of src] by linarith
qed

definition guessAttempt :: "HTTPRequest \<times> Body \<times> nat" where
  "guessAttempt = (apiRequest ''POST'' ''/api/v1/adopt'' [], sampleBody\<lparr>dec_Adopt := Inr ''guess''\<rparr>, 5)"

theorem guess_bounded_witness:
  "wrongGuesses ''198.51.100.7'' (replicate 9 guessAttempt) (adopt_run sampleEnv (replicate 9 guessAttempt) openControl) \<le> 5
   \<and> \<not> wrongGuesses ''198.51.100.7'' (replicate 9 guessAttempt) (adopt_run sampleEnv (replicate 9 guessAttempt) openControl) \<le> 4"
proof
  have "ct_adoptFails openControl = []" by code_simp
  then have "guess_inv openControl" by (simp add: guess_inv_def)
  then show "wrongGuesses ''198.51.100.7'' (replicate 9 guessAttempt)
      (adopt_run sampleEnv (replicate 9 guessAttempt) openControl) \<le> 5"
    using guess_bounded [of openControl "replicate 9 guessAttempt" sampleEnv "ctlNow sampleEnv 5 + 1"]
    by (simp add: guessAttempt_def)
qed code_simp

text \<open>
  C23. Pushed settings are the reported settings. An acknowledged push of local records, of the
  blocklist, of the rate limit, of the cache bound or of the resolvers is what the next
  statistics report: the records' and the lists' fingerprints are those of the pushed data
  alone, whatever was configured before; a blocklist push also empties the cache, and a
  smaller cache bound takes effect at once.
\<close>
theorem settings_roundtrip:
  assumes "ct_wired c" and "isPut r" and "Server_inv (ct_srv c)" and "s_rec (ct_srv c) \<noteq> None" and "s_rl (ct_srv c) \<noteq> None"
  shows "(handleRecords r body c = (c', Ack m) \<longrightarrow>
        sr_RecordsHash (statsOf c') = RecordsHash (filter kept (projr (dec_Records body))))
    \<and> (handleBlocklist r body c = (c', Ack m) \<longrightarrow>
        (let b = Blocklist_SetAllowed (snd (projr (dec_Blocklist body)))
               (Blocklist_FromDomains (fst (projr (dec_Blocklist body))) Blip_Blocklist.New)
         in sr_BlocklistHash (statsOf c') = Blocklist_Checksum b \<and> sr_BlocklistCount (statsOf c') = Blocklist_Count b
            \<and> sr_Cached (statsOf c') = 0))
    \<and> (handleRateLimit r body c = (c', Ack m) \<longrightarrow> sr_RateLimitQPS (statsOf c') = fst (projr (dec_RateLimit body)))
    \<and> (handleCache r body c = (c', Ack m) \<longrightarrow>
        sr_CacheSize (statsOf c') = projr (dec_Cache body)
        \<and> (0 < sr_CacheSize (statsOf c') \<longrightarrow> sr_Cached (statsOf c') \<le> sr_CacheSize (statsOf c')))
    \<and> (handleUpstream r body c = (c', Ack m) \<longrightarrow>
        (sr_UpstreamServers (statsOf c'), sr_UpstreamRoutes (statsOf c'), sr_BootstrapServers (statsOf c'))
        = projr (dec_Upstream body))"
  by (rule conjI impI handleRecords_reported [OF assms(1,2,4)] handleBlocklist_reported [OF assms(1,2)]
      handleRateLimit_reported [OF assms(1,2,5)] handleCache_reported [OF assms(1-3)]
      handleUpstream_reported [OF assms(1,2)] | assumption)+

theorem settings_roundtrip_witness:
  "sr_BlocklistHash (statsOf (fst (handleBlocklist (apiRequest ''PUT'' ''/api/v1/blocklist'' ''s3cret'') sampleBody sampleControl)))
   = Blocklist_Checksum (Blocklist_SetAllowed [] (Blocklist_FromDomains [''ads.example.com''] Blip_Blocklist.New))"
proof -
  let ?r = "apiRequest ''PUT'' ''/api/v1/blocklist'' ''s3cret''"
  have srv: "ct_srv sampleControl = sampleServer" "ct_wired sampleControl"
    by (simp_all add: sampleControl_def wireControllers_def NewServerWithBlocklist_def)
  have "isPut ?r" "projr (dec_Blocklist sampleBody) = ([''ads.example.com''], [])"
    by (simp_all add: apiRequest_def sampleBody_def)
  moreover have "s_rec sampleServer \<noteq> None" "s_rl sampleServer \<noteq> None" by code_simp+
  moreover have "snd (handleBlocklist ?r sampleBody sampleControl) = Ack ''blocklist updated''" by code_simp
  then have "handleBlocklist ?r sampleBody sampleControl
      = (fst (handleBlocklist ?r sampleBody sampleControl), Ack ''blocklist updated'')" by (metis prod.collapse)
  ultimately show ?thesis
    using settings_roundtrip [of sampleControl ?r sampleBody "fst (handleBlocklist ?r sampleBody sampleControl)"
        "''blocklist updated''"] srv sampleServer_inv
    by (simp add: Let_def)
qed

end
