(* ===== verification/Blip_Client.thy ===== *)
theory Blip_Client
  imports Blip_Control
begin

text \<open>
  The controller's client of the management API (\<open>src/internal/control/client.go\<close>), composed
  with the API it talks to: a call sends a request over an unreliable transport to the
  instance behind the base URL, runs that instance's handler and reads the reply.

  The transport is a parameter: it lets a request through, loses it before it arrives, or
  loses the reply after the instance has acted. A body arrives as it was sent (encoding and
  decoding JSON between the two ends of the same types is the identity).
\<close>

subsection \<open>Transport\<close>

datatype delivery = Through | Lost string | ReplyLost string

record 'w client_env =
  cl_node :: "string \<Rightarrow> 'w ctl_env"  \<comment> \<open>the host behind a base URL\<close>
  cl_transport :: "string \<Rightarrow> 'w \<Rightarrow> 'w \<times> delivery"
  cl_parseQuery :: "string \<Rightarrow> (string \<times> string) list"  \<comment> \<open>net/url, for the one path built by concatenation\<close>
  cl_addr :: string  \<comment> \<open>the controller's address and port as an instance sees it\<close>

record Client =
  cc_base :: string
  cc_token :: string

definition NewClient :: "string \<Rightarrow> string \<Rightarrow> Client" where
  "NewClient baseURL token = \<lparr>cc_base = baseURL, cc_token = token\<rparr>"

text \<open>The instances by base URL; the rest of the world.\<close>

type_synonym 'w net = "(string \<Rightarrow> Control) \<times> 'w"

definition emptyBody :: Body where
  "emptyBody = \<lparr>dec_Policy = Inl ''EOF'', dec_Delete = Inl ''EOF'', dec_Blocklist = Inl ''EOF'', dec_DoH = Inl ''EOF'',
     dec_RateLimit = Inl ''EOF'', dec_Upstream = Inl ''EOF'', dec_Cache = Inl ''EOF'', dec_Records = Inl ''EOF'',
     dec_HA = Inl ''EOF'', dec_Adopt = Inl ''EOF''\<rparr>"

definition replyStatus :: "reply \<Rightarrow> int" where
  "replyStatus x = (case x of Err _ n \<Rightarrow> n | ErrFilter _ n \<Rightarrow> n | ErrPool _ n \<Rightarrow> n | _ \<Rightarrow> 200)"

datatype ClientError =
    TransportError string
  | StatusError string string reply  \<comment> \<open>method, path, what the instance answered\<close>
  | DecodeError

definition clientRequest :: "'w client_env \<Rightarrow> Client \<Rightarrow> string \<Rightarrow> string \<Rightarrow> (string \<times> string) list \<Rightarrow> HTTPRequest" where
  "clientRequest env cl meth path query =
     \<lparr>hr_Method = meth, hr_RemoteAddr = cl_addr env, hr_Path = path, hr_Query = query,
      hr_Header = [(''Authorization'', ''Bearer '' @ cc_token cl)], hr_Body = Inr [], hr_TLS = False\<rparr>"

text \<open>\<open>do\<close>: deliver, let the instance act, read the status.\<close>

definition Client_do ::
  "'w client_env \<Rightarrow> Client \<Rightarrow> string \<Rightarrow> string \<Rightarrow> (string \<times> string) list \<Rightarrow> Body \<Rightarrow> 'w net
   \<Rightarrow> 'w net \<times> (ClientError, reply) result" where
  "Client_do env cl meth path query body net =
     (case net of (nodes, w) \<Rightarrow>
      case cl_transport env (cc_base cl) w of
        (w1, Lost e) \<Rightarrow> ((nodes, w1), Inl (TransportError e))
      | (w1, d) \<Rightarrow>
          (case ctlHandler (cl_node env (cc_base cl)) (clientRequest env cl meth path query) body (nodes (cc_base cl)) w1 of
             (c, w2, x) \<Rightarrow>
               ((nodes(cc_base cl := c), w2),
                case d of
                  ReplyLost e \<Rightarrow> Inl (TransportError e)
                | _ \<Rightarrow> if 400 \<le> replyStatus x then Inl (StatusError meth path x) else Inr x)))"

definition ignoreReply :: "'w net \<times> (ClientError, reply) result \<Rightarrow> 'w net \<times> ClientError option" where
  "ignoreReply r = (case r of (net, Inl e) \<Rightarrow> (net, Some e) | (net, Inr _) \<Rightarrow> (net, None))"

subsection \<open>Calls\<close>

definition Client_Health :: "'w client_env \<Rightarrow> Client \<Rightarrow> 'w net \<Rightarrow> 'w net \<times> (ClientError, reply) result" where
  "Client_Health env cl = Client_do env cl ''GET'' ''/api/v1/health'' [] emptyBody"

definition Client_Stats :: "'w client_env \<Rightarrow> Client \<Rightarrow> 'w net \<Rightarrow> 'w net \<times> (ClientError, StatsResponse) result" where
  "Client_Stats env cl net =
     (case Client_do env cl ''GET'' ''/api/v1/stats'' [] emptyBody net of
        (net1, Inl e) \<Rightarrow> (net1, Inl e)
      | (net1, Inr (Stats st)) \<Rightarrow> (net1, Inr st)
      | (net1, Inr _) \<Rightarrow> (net1, Inl DecodeError))"

definition Client_ListPolicies ::
  "'w client_env \<Rightarrow> Client \<Rightarrow> 'w net \<Rightarrow> 'w net \<times> (ClientError, reply) result" where
  "Client_ListPolicies env cl = Client_do env cl ''GET'' ''/api/v1/policies'' [] emptyBody"

definition Client_SetPolicy :: "'w client_env \<Rightarrow> Client \<Rightarrow> WirePolicy \<Rightarrow> 'w net \<Rightarrow> 'w net \<times> ClientError option" where
  "Client_SetPolicy env cl p net =
     ignoreReply (Client_do env cl ''PUT'' ''/api/v1/policy'' [] (emptyBody\<lparr>dec_Policy := Inr p\<rparr>) net)"

definition Client_SetBlocklist ::
  "'w client_env \<Rightarrow> Client \<Rightarrow> string list \<Rightarrow> string list \<Rightarrow> 'w net \<Rightarrow> 'w net \<times> ClientError option" where
  "Client_SetBlocklist env cl domains allowed net =
     ignoreReply (Client_do env cl ''PUT'' ''/api/v1/blocklist'' [] (emptyBody\<lparr>dec_Blocklist := Inr (domains, allowed)\<rparr>) net)"

definition Client_DeletePolicy :: "'w client_env \<Rightarrow> Client \<Rightarrow> string \<Rightarrow> 'w net \<Rightarrow> 'w net \<times> ClientError option" where
  "Client_DeletePolicy env cl i net =
     ignoreReply (Client_do env cl ''DELETE'' ''/api/v1/policy'' (cl_parseQuery env (''id='' @ i)) emptyBody net)"

definition Client_SetDoHHTTPAddr :: "'w client_env \<Rightarrow> Client \<Rightarrow> string \<Rightarrow> 'w net \<Rightarrow> 'w net \<times> ClientError option" where
  "Client_SetDoHHTTPAddr env cl addr net =
     ignoreReply (Client_do env cl ''PUT'' ''/api/v1/doh'' [] (emptyBody\<lparr>dec_DoH := Inr addr\<rparr>) net)"

definition Client_SetRateLimit :: "'w client_env \<Rightarrow> Client \<Rightarrow> int \<Rightarrow> int \<Rightarrow> 'w net \<Rightarrow> 'w net \<times> ClientError option" where
  "Client_SetRateLimit env cl qps burst net =
     ignoreReply (Client_do env cl ''PUT'' ''/api/v1/ratelimit'' [] (emptyBody\<lparr>dec_RateLimit := Inr (qps, burst)\<rparr>) net)"

definition Client_SetCacheConfig :: "'w client_env \<Rightarrow> Client \<Rightarrow> int \<Rightarrow> 'w net \<Rightarrow> 'w net \<times> ClientError option" where
  "Client_SetCacheConfig env cl n net =
     ignoreReply (Client_do env cl ''PUT'' ''/api/v1/cache'' [] (emptyBody\<lparr>dec_Cache := Inr n\<rparr>) net)"

definition Client_SetUpstream ::
  "'w client_env \<Rightarrow> Client \<Rightarrow> UpstreamServer list \<Rightarrow> UpstreamRoute list \<Rightarrow> UpstreamServer list \<Rightarrow> 'w net
   \<Rightarrow> 'w net \<times> ClientError option" where
  "Client_SetUpstream env cl servers routes boot net =
     ignoreReply (Client_do env cl ''PUT'' ''/api/v1/upstream'' [] (emptyBody\<lparr>dec_Upstream := Inr (servers, routes, boot)\<rparr>) net)"

definition Client_PurgeCache :: "'w client_env \<Rightarrow> Client \<Rightarrow> 'w net \<Rightarrow> 'w net \<times> (ClientError, int) result" where
  "Client_PurgeCache env cl net =
     (case Client_do env cl ''POST'' ''/api/v1/cache/purge'' [] emptyBody net of
        (net1, Inl e) \<Rightarrow> (net1, Inl e)
      | (net1, Inr (PurgeCacheResponse n)) \<Rightarrow> (net1, Inr n)
      | (net1, Inr _) \<Rightarrow> (net1, Inl DecodeError))"

definition Client_AdoptStatus :: "'w client_env \<Rightarrow> Client \<Rightarrow> 'w net \<Rightarrow> 'w net \<times> (ClientError, reply) result" where
  "Client_AdoptStatus env cl = Client_do env cl ''GET'' ''/api/v1/adopt/status'' [] emptyBody"

definition Client_Adopt ::
  "'w client_env \<Rightarrow> Client \<Rightarrow> string \<Rightarrow> 'w net \<Rightarrow> 'w net \<times> (ClientError, bool \<times> string \<times> string) result" where
  "Client_Adopt env cl code net =
     (case Client_do env cl ''POST'' ''/api/v1/adopt'' [] (emptyBody\<lparr>dec_Adopt := Inr code\<rparr>) net of
        (net1, Inl e) \<Rightarrow> (net1, Inl e)
      | (net1, Inr (AdoptResponse a tok msg)) \<Rightarrow> (net1, Inr (a, tok, msg))
      | (net1, Inr _) \<Rightarrow> (net1, Inl DecodeError))"

definition Client_ResetAdoption :: "'w client_env \<Rightarrow> Client \<Rightarrow> 'w net \<Rightarrow> 'w net \<times> ClientError option" where
  "Client_ResetAdoption env cl net =
     ignoreReply (Client_do env cl ''POST'' ''/api/v1/adopt/reset'' [] emptyBody net)"

definition Client_GetRecords :: "'w client_env \<Rightarrow> Client \<Rightarrow> 'w net \<Rightarrow> 'w net \<times> (ClientError, RecordEntry list) result" where
  "Client_GetRecords env cl net =
     (case Client_do env cl ''GET'' ''/api/v1/records'' [] emptyBody net of
        (net1, Inl e) \<Rightarrow> (net1, Inl e)
      | (net1, Inr (RecordsResponse rs)) \<Rightarrow> (net1, Inr rs)
      | (net1, Inr _) \<Rightarrow> (net1, Inl DecodeError))"

definition Client_SetRecords :: "'w client_env \<Rightarrow> Client \<Rightarrow> RecordEntry list \<Rightarrow> 'w net \<Rightarrow> 'w net \<times> ClientError option" where
  "Client_SetRecords env cl records net =
     ignoreReply (Client_do env cl ''PUT'' ''/api/v1/records'' [] (emptyBody\<lparr>dec_Records := Inr records\<rparr>) net)"

definition Client_ClearRecords :: "'w client_env \<Rightarrow> Client \<Rightarrow> 'w net \<Rightarrow> 'w net \<times> ClientError option" where
  "Client_ClearRecords env cl net = ignoreReply (Client_do env cl ''DELETE'' ''/api/v1/records'' [] emptyBody net)"

definition Client_HAStatus :: "'w client_env \<Rightarrow> Client \<Rightarrow> 'w net \<Rightarrow> 'w net \<times> (ClientError, HAStatus) result" where
  "Client_HAStatus env cl net =
     (case Client_do env cl ''GET'' ''/api/v1/ha/status'' [] emptyBody net of
        (net1, Inl e) \<Rightarrow> (net1, Inl e)
      | (net1, Inr (HAReply st)) \<Rightarrow> (net1, Inr st)
      | (net1, Inr _) \<Rightarrow> (net1, Inl DecodeError))"

definition Client_SetHAConfig :: "'w client_env \<Rightarrow> Client \<Rightarrow> HAConfig \<Rightarrow> 'w net \<Rightarrow> 'w net \<times> ClientError option" where
  "Client_SetHAConfig env cl cfg net =
     ignoreReply (Client_do env cl ''PUT'' ''/api/v1/ha'' [] (emptyBody\<lparr>dec_HA := Inr cfg\<rparr>) net)"

definition Client_ValidateHA :: "'w client_env \<Rightarrow> Client \<Rightarrow> 'w net \<Rightarrow> 'w net \<times> ClientError option" where
  "Client_ValidateHA env cl net = ignoreReply (Client_do env cl ''POST'' ''/api/v1/ha/validate'' [] emptyBody net)"

definition Client_ApplyHA :: "'w client_env \<Rightarrow> Client \<Rightarrow> 'w net \<Rightarrow> 'w net \<times> ClientError option" where
  "Client_ApplyHA env cl net = ignoreReply (Client_do env cl ''POST'' ''/api/v1/ha/apply'' [] emptyBody net)"

definition Client_DisableHA :: "'w client_env \<Rightarrow> Client \<Rightarrow> 'w net \<Rightarrow> 'w net \<times> ClientError option" where
  "Client_DisableHA env cl net = ignoreReply (Client_do env cl ''POST'' ''/api/v1/ha/disable'' [] emptyBody net)"

definition Client_Restart :: "'w client_env \<Rightarrow> Client \<Rightarrow> 'w net \<Rightarrow> 'w net \<times> ClientError option" where
  "Client_Restart env cl net = ignoreReply (Client_do env cl ''POST'' ''/api/v1/restart'' [] emptyBody net)"

definition Client_StartUpdate :: "'w client_env \<Rightarrow> Client \<Rightarrow> string \<Rightarrow> 'w net \<Rightarrow> 'w net \<times> ClientError option" where
  "Client_StartUpdate env cl channel net =
     ignoreReply (Client_do env cl ''POST'' ''/api/v1/update'' [(''channel'', channel)] emptyBody net)"

definition Client_UpdateStatus :: "'w client_env \<Rightarrow> Client \<Rightarrow> 'w net \<Rightarrow> 'w net \<times> (ClientError, UpdateStatus) result" where
  "Client_UpdateStatus env cl net =
     (case Client_do env cl ''GET'' ''/api/v1/update'' [] emptyBody net of
        (net1, Inl e) \<Rightarrow> (net1, Inl e)
      | (net1, Inr (UpdateReply st)) \<Rightarrow> (net1, Inr st)
      | (net1, Inr _) \<Rightarrow> (net1, Inl DecodeError))"

end
