(* ===== verification/Blip_Bus.thy ===== *)
theory Blip_Bus
  imports Blip_Control
begin

text \<open>
  The controller's event hub (\<open>src/internal/controller/bus.go\<close>): a ring of recent events
  for late joiners and one bounded channel per live subscriber. Sends never block; a full
  channel misses the event.
\<close>

record Event =
  ev_InstanceID :: string
  ev_Instance :: string
  ev_Type :: string
  ev_At :: time
  ev_Health :: "reply option"
  ev_Stats :: "StatsResponse option"
  ev_Client :: string
  ev_Domain :: string
  ev_Msg :: string
  ev_QType :: string
  ev_IPs :: "string list"
  ev_Answers :: "Answer list"
  ev_Cached :: bool
  ev_Upstream :: string
  ev_DurationUs :: int

definition noEvent :: Event where
  "noEvent = \<lparr>ev_InstanceID = [], ev_Instance = [], ev_Type = [], ev_At = 0, ev_Health = None, ev_Stats = None,
     ev_Client = [], ev_Domain = [], ev_Msg = [], ev_QType = [], ev_IPs = [], ev_Answers = [], ev_Cached = False,
     ev_Upstream = [], ev_DurationUs = 0\<rparr>"

record Bus =
  bus_subs :: "(nat \<times> Event list) list"
  bus_buffer :: "Event list"
  bus_cap :: int

definition subBuffer :: nat where "subBuffer = 64"

definition NewBus :: "int \<Rightarrow> Bus" where
  "NewBus n = \<lparr>bus_subs = [], bus_buffer = [], bus_cap = (if n \<le> 0 then 500 else n)\<rparr>"

definition Subscribe :: "nat \<Rightarrow> Bus \<Rightarrow> Bus \<times> Event list" where
  "Subscribe ch b = (b\<lparr>bus_subs := AList.update ch [] (bus_subs b)\<rparr>, bus_buffer b)"

definition Unsubscribe :: "nat \<Rightarrow> Bus \<Rightarrow> Bus" where
  "Unsubscribe ch b = b\<lparr>bus_subs := AList.delete ch (bus_subs b)\<rparr>"

definition offer :: "Event \<Rightarrow> nat \<times> Event list \<Rightarrow> nat \<times> Event list" where
  "offer e ch = (case ch of (i, q) \<Rightarrow> if length q < subBuffer then (i, q @ [e]) else (i, q))"

definition Publish :: "Event \<Rightarrow> Bus \<Rightarrow> Bus" where
  "Publish e b =
     (let q = bus_buffer b @ [e];
          q' = (if bus_cap b < int (length q) then drop (length q - nat (bus_cap b)) q else q)
      in b\<lparr>bus_buffer := q', bus_subs := map (offer e) (bus_subs b)\<rparr>)"

definition Recent :: "Bus \<Rightarrow> Event list" where
  "Recent b = bus_buffer b"

subsection \<open>Invariant\<close>

definition Bus_inv :: "Bus \<Rightarrow> bool" where
  "Bus_inv b \<longleftrightarrow> 0 < bus_cap b \<and> int (length (bus_buffer b)) \<le> bus_cap b \<and> distinct (map fst (bus_subs b))
     \<and> (\<forall>(i, q) \<in> set (bus_subs b). length q \<le> subBuffer)"

lemma offer_fst [simp]: "fst (offer e ch) = fst ch"
  by (auto simp: offer_def split: prod.splits)

lemma offer_room: "length (snd ch) \<le> subBuffer \<Longrightarrow> length (snd (offer e ch)) \<le> subBuffer"
  by (auto simp: offer_def split: prod.splits)

lemma NewBus_inv [blip_inv]: "Bus_inv (NewBus n)"
  by (simp add: NewBus_def Bus_inv_def)

lemma Subscribe_inv [blip_inv]: "Bus_inv b \<Longrightarrow> Bus_inv (fst (Subscribe ch b))"
  by (auto simp: Subscribe_def Bus_inv_def dest!: subsetD [OF set_update_subset])

lemma Unsubscribe_inv [blip_inv]: "Bus_inv b \<Longrightarrow> Bus_inv (Unsubscribe ch b)"
  by (auto simp: Unsubscribe_def Bus_inv_def dest!: subsetD [OF set_delete_subset])

lemma Publish_inv [blip_inv]: "Bus_inv b \<Longrightarrow> Bus_inv (Publish e b)"
  by (auto simp: Publish_def Bus_inv_def Let_def comp_def split_beta intro!: offer_room)

datatype bus_op = BusSub nat | BusUnsub nat | BusPub Event

fun bus_step :: "bus_op \<Rightarrow> Bus \<Rightarrow> Bus" where
  "bus_step (BusSub ch) b = fst (Subscribe ch b)"
| "bus_step (BusUnsub ch) b = Unsubscribe ch b"
| "bus_step (BusPub e) b = Publish e b"

interpretation bus: invariant_steps bus_step Bus_inv
proof
  fix b e assume "Bus_inv b"
  then show "Bus_inv (bus_step e b)" by (cases e) (simp_all add: blip_inv)
qed

subsection \<open>What a client sees\<close>

fun published :: "bus_op list \<Rightarrow> Event list" where
  "published [] = []"
| "published (BusPub e # ops) = e # published ops"
| "published (_ # ops) = published ops"

lemma Publish_buffer:
  assumes "Bus_inv b" and "bus_buffer b = drop (length es - nat (bus_cap b)) es"
  shows "bus_buffer (Publish e b) = drop (length (es @ [e]) - nat (bus_cap b)) (es @ [e])"
proof -
  have cap: "0 < bus_cap b" using assms(1) by (simp add: Bus_inv_def)
  then obtain n where n: "bus_cap b = int n" "0 < n" by (metis pos_int_cases)
  show ?thesis
  proof (cases "n \<le> length es")
    case True
    then have "Suc (length es) - n = Suc (length es - n)" by simp
    then show ?thesis using assms(2) n True by (simp add: Publish_def)
  next
    case False
    then show ?thesis using assms(2) n by (simp add: Publish_def)
  qed
qed

lemma bus_step_cap [simp]: "bus_cap (bus_step op b) = bus_cap b"
  by (cases op) (simp_all add: Subscribe_def Unsubscribe_def Publish_def Let_def)

lemma buffer_recent:
  assumes "Bus_inv b" and "bus_buffer b = drop (length es - nat (bus_cap b)) es"
  shows "bus_buffer (fold bus_step ops b) = drop (length (es @ published ops) - nat (bus_cap b)) (es @ published ops)"
  using assms
proof (induction ops arbitrary: b es)
  case (Cons op ops)
  show ?case
  proof (cases op)
    case (BusPub e)
    have "Bus_inv (Publish e b)" using Cons.prems(1) by (rule Publish_inv)
    from Cons.IH [OF this, of "es @ [e]"] show ?thesis
      using Publish_buffer [OF Cons.prems] BusPub by (simp add: Publish_def Let_def)
  qed (use Cons.IH [OF bus.step_inv [OF Cons.prems(1), of op], of es] Cons.prems(2) in
      \<open>simp_all add: Subscribe_def Unsubscribe_def\<close>)
qed simp

text \<open>A subscriber that never falls 64 behind sees every event after its backlog, in order.\<close>

lemma map_of_offer:
  "map_of (map (offer e) subs) ch = map_option (\<lambda>q. snd (offer e (ch, q))) (map_of subs ch)"
  by (induction subs) (auto simp: offer_def split: if_splits)

lemma subscriber_complete:
  assumes "map_of (bus_subs b) ch = Some q" and "length q + length es \<le> subBuffer"
  shows "map_of (bus_subs (fold Publish es b)) ch = Some (q @ es)"
  using assms
proof (induction es arbitrary: b q)
  case (Cons e es)
  have "map_of (bus_subs (Publish e b)) ch = Some (q @ [e])"
    using Cons.prems by (simp add: Publish_def Let_def map_of_offer) (simp add: offer_def)
  from Cons.IH [OF this] show ?case using Cons.prems(2) by simp
qed simp

end
