(* ===== verification/Blip_Fleet.thy ===== *)
theory Blip_Fleet
  imports Blip_Client Blip_Bus
begin

text \<open>
  The controller's desired state (\<open>src/internal/controller/fleet.go\<close>): fleet-wide settings,
  sparse per-instance overrides, the merged blocklist with its hand-edited parts, and the
  configuration file they are kept in. Talking to the instances is in the next theory.

  SHA-256 fingerprints of JSON encodings are functions of the environment. Go maps whose
  iteration order the code exposes are association lists in an arbitrary order.
\<close>

subsection \<open>State\<close>

record InstanceConfig =
  ic_ID :: string
  ic_URL :: string
  ic_Token :: string
  ic_Label :: string
  ic_Claim :: string

record InstanceOverride =
  io_Upstream :: "string option"
  io_BlockAction :: "string option"
  io_Log :: "bool option"
  io_DoHHTTPAddr :: "string option"
  io_RateLimitQPS :: "int option"
  io_UpstreamServers :: "UpstreamServer list option"
  io_UpstreamRoutes :: "UpstreamRoute list option"
  io_UpstreamBootstrap :: "UpstreamServer list option"
  io_CacheSize :: "int option"
  io_Records :: "RecordEntry list option"

definition IsEmpty :: "InstanceOverride option \<Rightarrow> bool" where
  "IsEmpty oo =
     (case oo of
        None \<Rightarrow> True
      | Some ov \<Rightarrow> io_Upstream ov = None \<and> io_BlockAction ov = None \<and> io_Log ov = None \<and> io_DoHHTTPAddr ov = None
          \<and> io_RateLimitQPS ov = None \<and> io_UpstreamServers ov = None \<and> io_UpstreamRoutes ov = None
          \<and> io_UpstreamBootstrap ov = None \<and> io_CacheSize ov = None \<and> io_Records ov = None)"

definition noOverride :: InstanceOverride where
  "noOverride = \<lparr>io_Upstream = None, io_BlockAction = None, io_Log = None, io_DoHHTTPAddr = None, io_RateLimitQPS = None,
     io_UpstreamServers = None, io_UpstreamRoutes = None, io_UpstreamBootstrap = None, io_CacheSize = None, io_Records = None\<rparr>"

record HACluster =
  hl_Enabled :: bool
  hl_PrimaryInstance :: string
  hl_SecondaryInstance :: string
  hl_Primary :: HAConfig
  hl_Secondary :: HAConfig

definition noHA :: HAConfig where
  "noHA = \<lparr>hc_Enabled = False, hc_Mode = [], hc_NodeRole = [], hc_Interface = [], hc_SourceIP = [], hc_PeerIP = [],
     hc_VirtualIP = [], hc_VirtualRouterID = 0, hc_Priority = 0, hc_AdvertIntervalSec = 0, hc_AuthPass = []\<rparr>"

definition noCluster :: HACluster where
  "noCluster = \<lparr>hl_Enabled = False, hl_PrimaryInstance = [], hl_SecondaryInstance = [], hl_Primary = noHA, hl_Secondary = noHA\<rparr>"

text \<open>The controller's view of one instance.\<close>

record Instance =
  in_Config :: InstanceConfig
  in_client :: Client
  in_claimCode :: string
  in_online :: bool
  in_health :: "reply option"
  in_stats :: "StatsResponse option"
  in_last :: time
  in_err :: "ClientError option"
  in_pingSamples :: int
  in_pingSumMs :: int
  in_pingLastMs :: int
  in_appliedHash :: string
  in_lastUpstr :: string
  in_blHash :: u64
  in_haHash :: string
  in_blPushing :: bool
  in_blRetryAfter :: time
  in_blForeign :: bool

record FullConfig =
  fc_Listen :: string
  fc_Username :: string
  fc_Password :: string
  fc_PasswordHash :: string
  fc_DefaultPolicy :: "WirePolicy option"
  fc_InstancePolicies :: "(string \<times> InstanceOverride) list"
  fc_DoHHTTPAddr :: string
  fc_RateLimitQPS :: int
  fc_UpstreamServers :: "UpstreamServer list"
  fc_UpstreamRoutes :: "UpstreamRoute list"
  fc_UpstreamBootstrap :: "UpstreamServer list"
  fc_CacheSize :: int
  fc_QueryLogRetentionHours :: int
  fc_BlocklistSources :: "string list"
  fc_BlocklistDisabled :: "string list"
  fc_BlocklistUpdateHours :: int
  fc_Instances :: "InstanceConfig list"
  fc_Records :: "RecordEntry list"
  fc_HACluster :: HACluster
  fc_ReleaseChannel :: string

datatype yamlFile = Missing | Garbled | Parsed FullConfig

record UpdateJobStatus =
  uj_Running :: bool
  uj_Channel :: string
  uj_Current :: string
  uj_Total :: int
  uj_Completed :: int
  uj_Results :: "(string \<times> string) list"
  uj_Error :: string

record Fleet =
  fl_instances :: "(string \<times> Instance) list"
  fl_bus :: Bus
  fl_blocklist :: Blocklist
  fl_blocklistSources :: "string list"
  fl_blocklistDisabled :: "string list"
  fl_blLoading :: bool
  fl_manualDomains :: "string list"
  fl_manualAllowed :: "string list"
  fl_autoUpdateHours :: int
  fl_configPath :: string
  fl_file :: yamlFile
  fl_defaultPolicy :: "WirePolicy option"
  fl_overrides :: "(string \<times> InstanceOverride) list"
  fl_dohHTTPAddr :: string
  fl_rateLimitQPS :: int
  fl_cacheSize :: int
  fl_cacheConfigured :: bool
  fl_upstreamServers :: "UpstreamServer list"
  fl_upstreamRoutes :: "UpstreamRoute list"
  fl_upstreamBootstrap :: "UpstreamServer list"
  fl_qlRetentionHours :: int
  fl_records :: "RecordEntry list"
  fl_haCluster :: HACluster
  fl_releaseChannel :: string
  fl_updateJob :: UpdateJobStatus

record 'w fleet_env =
  fe_client :: "'w client_env"
  fe_now :: "'w \<Rightarrow> time"
  fe_policyHash :: "WirePolicy \<Rightarrow> string"
  fe_upstreamHash :: "UpstreamServer list \<times> UpstreamRoute list \<times> UpstreamServer list \<Rightarrow> string"
  fe_haHash :: "HAConfig \<Rightarrow> string"
  fe_order :: "string set \<Rightarrow> string list"  \<comment> \<open>the order a set of names is iterated in\<close>
  fe_writable :: bool  \<comment> \<open>the configuration file\<close>

definition noJob :: UpdateJobStatus where
  "noJob = \<lparr>uj_Running = False, uj_Channel = [], uj_Current = [], uj_Total = 0, uj_Completed = 0, uj_Results = [], uj_Error = []\<rparr>"

definition NewFleet :: "string \<Rightarrow> yamlFile \<Rightarrow> Fleet" where
  "NewFleet configPath file =
     \<lparr>fl_instances = [], fl_bus = NewBus 500, fl_blocklist = Blip_Blocklist.New, fl_blocklistSources = [],
      fl_blocklistDisabled = [], fl_blLoading = False, fl_manualDomains = [], fl_manualAllowed = [],
      fl_autoUpdateHours = 0, fl_configPath = configPath, fl_file = file, fl_defaultPolicy = None, fl_overrides = [],
      fl_dohHTTPAddr = [], fl_rateLimitQPS = 0, fl_cacheSize = 0, fl_cacheConfigured = False, fl_upstreamServers = [],
      fl_upstreamRoutes = [], fl_upstreamBootstrap = [], fl_qlRetentionHours = 0, fl_records = [],
      fl_haCluster = noCluster, fl_releaseChannel = [], fl_updateJob = noJob\<rparr>"

subsection \<open>Fleet-wide settings\<close>

definition ReleaseChannel :: "Fleet \<Rightarrow> string" where
  "ReleaseChannel f = (if ValidUpdateChannel (fl_releaseChannel f) then fl_releaseChannel f else ''stable'')"

definition SetReleaseChannelDefault :: "string \<Rightarrow> Fleet \<Rightarrow> Fleet \<times> string option" where
  "SetReleaseChannelDefault channel f =
     (if \<not> ValidUpdateChannel channel then (f, Some ''release channel must be stable or dev'')
      else (f\<lparr>fl_releaseChannel := channel\<rparr>, None))"

definition SetDefault :: "WirePolicy option \<Rightarrow> Fleet \<Rightarrow> Fleet" where
  "SetDefault p f = f\<lparr>fl_defaultPolicy := map_option (\<lambda>q. q\<lparr>wp_ID := ''default''\<rparr>) p\<rparr>"

definition SetOverride :: "string \<Rightarrow> InstanceOverride option \<Rightarrow> Fleet \<Rightarrow> Fleet" where
  "SetOverride i oo f =
     (case oo of
        None \<Rightarrow> f
      | Some ov \<Rightarrow> if IsEmpty oo then f else f\<lparr>fl_overrides := AList.update i ov (fl_overrides f)\<rparr>)"

definition SetDoHDefault :: "string \<Rightarrow> Fleet \<Rightarrow> Fleet" where
  "SetDoHDefault addr f = f\<lparr>fl_dohHTTPAddr := addr\<rparr>"

definition SetRateLimitQPSDefault :: "int \<Rightarrow> Fleet \<Rightarrow> Fleet" where
  "SetRateLimitQPSDefault qps f = f\<lparr>fl_rateLimitQPS := (if qps < 0 then 0 else qps)\<rparr>"

definition SetCacheDefault :: "int \<Rightarrow> Fleet \<Rightarrow> Fleet" where
  "SetCacheDefault n f = f\<lparr>fl_cacheSize := (if n < 0 then 0 else n), fl_cacheConfigured := True\<rparr>"

definition SetUpstreamDefault ::
  "UpstreamServer list \<Rightarrow> UpstreamRoute list \<Rightarrow> UpstreamServer list \<Rightarrow> Fleet \<Rightarrow> Fleet" where
  "SetUpstreamDefault servers routes boot f =
     f\<lparr>fl_upstreamServers := servers, fl_upstreamRoutes := routes, fl_upstreamBootstrap := boot\<rparr>"

definition SetQueryLogRetentionDefault :: "int \<Rightarrow> Fleet \<Rightarrow> Fleet" where
  "SetQueryLogRetentionDefault hours f = f\<lparr>fl_qlRetentionHours := hours\<rparr>"

definition QueryLogRetentionHours :: "Fleet \<Rightarrow> int" where
  "QueryLogRetentionHours f = (if fl_qlRetentionHours f \<le> 0 then 720 else fl_qlRetentionHours f)"

definition ValidQueryLogRetentionHours :: "int \<Rightarrow> bool" where
  "ValidQueryLogRetentionHours h \<longleftrightarrow> h \<in> set [24, 168, 720, 4320, 8760]"

subsection \<open>What an instance should have\<close>

definition overrideOf :: "Fleet \<Rightarrow> string \<Rightarrow> InstanceOverride" where
  "overrideOf f i = (case map_of (fl_overrides f) i of Some ov \<Rightarrow> ov | None \<Rightarrow> noOverride)"

definition orElse :: "'a option \<Rightarrow> 'a \<Rightarrow> 'a" where
  "orElse x d = (case x of Some v \<Rightarrow> v | None \<Rightarrow> d)"

lemma orElse_simps [simp]: "orElse (Some v) d = v" "orElse None d = d"
  by (simp_all add: orElse_def)

definition emptyPolicy :: WirePolicy where
  "emptyPolicy = \<lparr>wp_ID = ''default'', wp_Networks = [], wp_Clients = [], wp_Allow = [], wp_Block = [],
     wp_BlockAction = [], wp_Log = False, wp_Upstream = []\<rparr>"

definition effectivePolicy :: "'w fleet_env \<Rightarrow> Fleet \<Rightarrow> string \<Rightarrow> WirePolicy option \<times> string" where
  "effectivePolicy env f i =
     (case map_of (fl_overrides f) i of
        None \<Rightarrow> (case fl_defaultPolicy f of None \<Rightarrow> (None, []) | Some p \<Rightarrow> (Some p, fe_policyHash env p))
      | Some ov \<Rightarrow>
          let merged = (case fl_defaultPolicy f of Some p \<Rightarrow> p | None \<Rightarrow> emptyPolicy);
              m1 = merged\<lparr>wp_Upstream := orElse (io_Upstream ov) (wp_Upstream merged)\<rparr>;
              m2 = m1\<lparr>wp_BlockAction := orElse (io_BlockAction ov) (wp_BlockAction m1)\<rparr>;
              m3 = m2\<lparr>wp_Log := orElse (io_Log ov) (wp_Log m2)\<rparr>
          in (Some m3, fe_policyHash env m3))"

definition wantConfig :: "'w fleet_env \<Rightarrow> Fleet \<Rightarrow> string \<Rightarrow> (string \<times> string) option" where
  "wantConfig env f i =
     (case effectivePolicy env f i of
        (Some eff, hash) \<Rightarrow> if hash = [] then None else Some (hash, wp_Upstream eff)
      | (None, _) \<Rightarrow> None)"

definition effectiveDoHHTTPAddr :: "Fleet \<Rightarrow> string \<Rightarrow> string" where
  "effectiveDoHHTTPAddr f i = orElse (io_DoHHTTPAddr (overrideOf f i)) (fl_dohHTTPAddr f)"

definition effectiveRateLimitQPS :: "Fleet \<Rightarrow> string \<Rightarrow> int" where
  "effectiveRateLimitQPS f i = orElse (io_RateLimitQPS (overrideOf f i)) (fl_rateLimitQPS f)"

definition effectiveUpstream ::
  "Fleet \<Rightarrow> string \<Rightarrow> UpstreamServer list \<times> UpstreamRoute list \<times> UpstreamServer list" where
  "effectiveUpstream f i =
     (orElse (io_UpstreamServers (overrideOf f i)) (fl_upstreamServers f),
      orElse (io_UpstreamRoutes (overrideOf f i)) (fl_upstreamRoutes f),
      orElse (io_UpstreamBootstrap (overrideOf f i)) (fl_upstreamBootstrap f))"

definition effectiveCacheConfig :: "Fleet \<Rightarrow> string \<Rightarrow> int" where
  "effectiveCacheConfig f i = orElse (io_CacheSize (overrideOf f i)) (fl_cacheSize f)"

definition cacheConfiguredFor :: "Fleet \<Rightarrow> string \<Rightarrow> bool" where
  "cacheConfiguredFor f i \<longleftrightarrow> (if fl_cacheConfigured f then True else io_CacheSize (overrideOf f i) \<noteq> None)"

definition Fleet_recordsHash :: "Fleet \<Rightarrow> u64" where
  "Fleet_recordsHash f = RecordsHash (fl_records f)"

definition effectiveRecords :: "Fleet \<Rightarrow> string \<Rightarrow> RecordEntry list" where
  "effectiveRecords f i = orElse (io_Records (overrideOf f i)) (fl_records f)"

definition effectiveHABConfig :: "Fleet \<Rightarrow> string \<Rightarrow> HAConfig option" where
  "effectiveHABConfig f i =
     (if \<not> hl_Enabled (fl_haCluster f) then None
      else if hl_PrimaryInstance (fl_haCluster f) = i then Some (hl_Primary (fl_haCluster f))
      else if hl_SecondaryInstance (fl_haCluster f) = i then Some (hl_Secondary (fl_haCluster f))
      else None)"

definition haHashFor :: "'w fleet_env \<Rightarrow> Fleet \<Rightarrow> string \<Rightarrow> string" where
  "haHashFor env f i = (case effectiveHABConfig f i of None \<Rightarrow> [] | Some cfg \<Rightarrow> fe_haHash env cfg)"

definition mergeOverride :: "InstanceOverride option \<Rightarrow> InstanceOverride option \<Rightarrow> InstanceOverride option" where
  "mergeOverride existing partial =
     (case (partial, existing) of
        (None, _) \<Rightarrow> existing
      | (Some _, None) \<Rightarrow> partial
      | (Some p, Some e) \<Rightarrow>
          Some (e\<lparr>io_Upstream := (case io_Upstream p of None \<Rightarrow> io_Upstream e | x \<Rightarrow> x),
                  io_BlockAction := (case io_BlockAction p of None \<Rightarrow> io_BlockAction e | x \<Rightarrow> x),
                  io_Log := (case io_Log p of None \<Rightarrow> io_Log e | x \<Rightarrow> x),
                  io_DoHHTTPAddr := (case io_DoHHTTPAddr p of None \<Rightarrow> io_DoHHTTPAddr e | x \<Rightarrow> x),
                  io_RateLimitQPS := (case io_RateLimitQPS p of None \<Rightarrow> io_RateLimitQPS e | x \<Rightarrow> x),
                  io_UpstreamServers := (case io_UpstreamServers p of None \<Rightarrow> io_UpstreamServers e | x \<Rightarrow> x),
                  io_UpstreamRoutes := (case io_UpstreamRoutes p of None \<Rightarrow> io_UpstreamRoutes e | x \<Rightarrow> x),
                  io_UpstreamBootstrap := (case io_UpstreamBootstrap p of None \<Rightarrow> io_UpstreamBootstrap e | x \<Rightarrow> x),
                  io_CacheSize := (case io_CacheSize p of None \<Rightarrow> io_CacheSize e | x \<Rightarrow> x),
                  io_Records := (case io_Records p of None \<Rightarrow> io_Records e | x \<Rightarrow> x)\<rparr>))"

subsection \<open>High availability\<close>

definition validateHACluster :: "HACluster \<Rightarrow> string option" where
  "validateHACluster c =
     (if \<not> hl_Enabled c then None
      else if hc_AuthPass (hl_Primary c) \<noteq> hc_AuthPass (hl_Secondary c)
        then Some ''both nodes must use the same VRRP authentication password''
      else if hl_PrimaryInstance c = [] \<or> hl_SecondaryInstance c = [] \<or> hl_PrimaryInstance c = hl_SecondaryInstance c
        then Some ''high availability requires two different instances''
      else if hc_VirtualIP (hl_Primary c) = [] \<or> hc_VirtualIP (hl_Primary c) \<noteq> hc_VirtualIP (hl_Secondary c)
        then Some ''both nodes must use the same virtual IP''
      else if hc_VirtualRouterID (hl_Primary c) < 1 \<or> 255 < hc_VirtualRouterID (hl_Primary c)
          \<or> hc_VirtualRouterID (hl_Primary c) \<noteq> hc_VirtualRouterID (hl_Secondary c)
        then Some ''both nodes must use the same virtual router ID from 1 to 255''
      else if hc_NodeRole (hl_Primary c) \<noteq> ''primary'' \<or> hc_NodeRole (hl_Secondary c) \<noteq> ''secondary''
        then Some ''node roles must be primary and secondary''
      else if hc_Priority (hl_Primary c) \<le> hc_Priority (hl_Secondary c)
        then Some ''primary priority must be higher than secondary priority''
      else if hc_Mode (hl_Primary c) \<noteq> hc_Mode (hl_Secondary c)
        then Some ''both nodes must use the same VRRP mode''
      else None)"

definition SetHAClusterDefault :: "HACluster \<Rightarrow> Fleet \<Rightarrow> Fleet \<times> string option" where
  "SetHAClusterDefault cluster f =
     (case validateHACluster cluster of
        Some e \<Rightarrow> (f, Some e)
      | None \<Rightarrow> (f\<lparr>fl_haCluster := cluster\<rparr>, None))"

definition haPriorityDelta :: int where "haPriorityDelta = 20"

definition reducePriority :: "int \<Rightarrow> int \<Rightarrow> int" where
  "reducePriority p peer =
     (if p \<le> 0 then p
      else
        let p1 = p - haPriorityDelta;
            p2 = (if peer - 1 < p1 then peer - 1 else p1)
        in if p2 < 1 then 1 else p2)"

subsection \<open>Blocklist sources and hand-edited entries\<close>

definition cleanURLs :: "string list \<Rightarrow> string list" where
  "cleanURLs urls = filter (\<lambda>u. u \<noteq> []) (map TrimSpace urls)"

definition SetBlocklistSourcesDefault :: "string list \<Rightarrow> Fleet \<Rightarrow> Fleet" where
  "SetBlocklistSourcesDefault urls f = f\<lparr>fl_blocklistSources := cleanURLs urls\<rparr>"

definition EnabledBlocklistSources :: "Fleet \<Rightarrow> string list" where
  "EnabledBlocklistSources f = filter (\<lambda>u. u \<notin> set (fl_blocklistDisabled f)) (fl_blocklistSources f)"

definition SetBlocklistDisabled :: "string list \<Rightarrow> Fleet \<Rightarrow> Fleet" where
  "SetBlocklistDisabled urls f = f\<lparr>fl_blocklistDisabled := remdups (cleanURLs urls)\<rparr>"

definition AllowedDomains :: "Fleet \<Rightarrow> string list" where
  "AllowedDomains f = sort (fl_manualAllowed f)"

definition ManualDomains :: "Fleet \<Rightarrow> string list" where
  "ManualDomains f = sort (fl_manualDomains f)"

definition onList :: "(Blocklist \<Rightarrow> Blocklist) \<Rightarrow> Fleet \<Rightarrow> Fleet" where
  "onList g f = f\<lparr>fl_blocklist := g (fl_blocklist f)\<rparr>"

definition syncAllowed :: "Fleet \<Rightarrow> Fleet" where
  "syncAllowed f = onList (Blocklist_SetAllowed (AllowedDomains f)) f"

definition AddManualDomain :: "string \<Rightarrow> Fleet \<Rightarrow> Fleet" where
  "AddManualDomain domain f =
     (let d = normalizeDomain domain in
      if d = [] then f
      else onList (Blocklist_Add d) (f\<lparr>fl_manualDomains := List.insert d (fl_manualDomains f)\<rparr>))"

definition RemoveManualDomain :: "string \<Rightarrow> Fleet \<Rightarrow> Fleet" where
  "RemoveManualDomain domain f =
     (let d = normalizeDomain domain in
      if d = [] \<or> d \<notin> set (fl_manualDomains f) then f
      else onList (Blocklist_Remove d) (f\<lparr>fl_manualDomains := removeAll d (fl_manualDomains f)\<rparr>))"

definition ClearManualDomains :: "Fleet \<Rightarrow> Fleet" where
  "ClearManualDomains f = onList (fold Blocklist_Remove (fl_manualDomains f)) (f\<lparr>fl_manualDomains := []\<rparr>)"

definition AddAllowedDomain :: "string \<Rightarrow> Fleet \<Rightarrow> Fleet" where
  "AddAllowedDomain domain f =
     (let d = normalizeDomain domain in
      if d = [] then f
      else onList (Blocklist_AddAllowed d) (f\<lparr>fl_manualAllowed := List.insert d (fl_manualAllowed f)\<rparr>))"

definition RemoveAllowedDomain :: "string \<Rightarrow> Fleet \<Rightarrow> Fleet" where
  "RemoveAllowedDomain domain f =
     (let d = normalizeDomain domain in
      if d = [] \<or> d \<notin> set (fl_manualAllowed f) then f
      else onList (Blocklist_RemoveAllowed d) (f\<lparr>fl_manualAllowed := removeAll d (fl_manualAllowed f)\<rparr>))"

definition ClearAllowedDomains :: "Fleet \<Rightarrow> Fleet" where
  "ClearAllowedDomains f = onList (Blocklist_SetAllowed []) (f\<lparr>fl_manualAllowed := []\<rparr>)"

subsection \<open>The configuration file\<close>

definition zeroConfig :: FullConfig where
  "zeroConfig = \<lparr>fc_Listen = [], fc_Username = [], fc_Password = [], fc_PasswordHash = [], fc_DefaultPolicy = None,
     fc_InstancePolicies = [], fc_DoHHTTPAddr = [], fc_RateLimitQPS = 0, fc_UpstreamServers = [], fc_UpstreamRoutes = [],
     fc_UpstreamBootstrap = [], fc_CacheSize = 0, fc_QueryLogRetentionHours = 0, fc_BlocklistSources = [],
     fc_BlocklistDisabled = [], fc_BlocklistUpdateHours = 0, fc_Instances = [], fc_Records = [],
     fc_HACluster = noCluster, fc_ReleaseChannel = []\<rparr>"

definition configOf :: "Fleet \<Rightarrow> FullConfig \<Rightarrow> FullConfig" where
  "configOf f cfg =
     cfg\<lparr>fc_Instances := map (in_Config \<circ> snd) (fl_instances f), fc_DefaultPolicy := fl_defaultPolicy f,
         fc_InstancePolicies := fl_overrides f, fc_DoHHTTPAddr := fl_dohHTTPAddr f, fc_RateLimitQPS := fl_rateLimitQPS f,
         fc_UpstreamServers := fl_upstreamServers f, fc_UpstreamRoutes := fl_upstreamRoutes f,
         fc_UpstreamBootstrap := fl_upstreamBootstrap f, fc_CacheSize := fl_cacheSize f,
         fc_QueryLogRetentionHours := QueryLogRetentionHours f, fc_BlocklistSources := fl_blocklistSources f,
         fc_BlocklistDisabled := fl_blocklistDisabled f, fc_BlocklistUpdateHours := fl_autoUpdateHours f,
         fc_Records := fl_records f, fc_HACluster := fl_haCluster f, fc_ReleaseChannel := ReleaseChannel f\<rparr>"

definition saveConfig :: "'w fleet_env \<Rightarrow> Fleet \<Rightarrow> Fleet \<times> string option" where
  "saveConfig env f =
     (if fl_configPath f = [] then (f, None)
      else
        let write = (\<lambda>old. if fe_writable env then (f\<lparr>fl_file := Parsed (configOf f old)\<rparr>, None)
                           else (f, Some ''cannot write configuration''))
        in case fl_file f of
             Garbled \<Rightarrow> (f, Some ''yaml error'')
           | Missing \<Rightarrow> write zeroConfig
           | Parsed old \<Rightarrow> write old)"

text \<open>Most callers only log a failure.\<close>

definition savedQuietly :: "'w fleet_env \<Rightarrow> Fleet \<Rightarrow> Fleet" where
  "savedQuietly env f = fst (saveConfig env f)"

definition SetReleaseChannel :: "'w fleet_env \<Rightarrow> string \<Rightarrow> Fleet \<Rightarrow> Fleet \<times> string option" where
  "SetReleaseChannel env channel f =
     (case SetReleaseChannelDefault channel f of
        (f1, Some e) \<Rightarrow> (f1, Some e)
      | (f1, None) \<Rightarrow> saveConfig env f1)"

definition SetAutoUpdateHours :: "'w fleet_env \<Rightarrow> int \<Rightarrow> Fleet \<Rightarrow> Fleet" where
  "SetAutoUpdateHours env h f = savedQuietly env (f\<lparr>fl_autoUpdateHours := (if h < 0 then 0 else h)\<rparr>)"

definition SetQueryLogRetention :: "'w fleet_env \<Rightarrow> int \<Rightarrow> Fleet \<Rightarrow> Fleet" where
  "SetQueryLogRetention env hours f = savedQuietly env (SetQueryLogRetentionDefault hours f)"

definition setHAClusterPersisted :: "'w fleet_env \<Rightarrow> HACluster \<Rightarrow> Fleet \<Rightarrow> Fleet \<times> string option" where
  "setHAClusterPersisted env cluster f =
     (case validateHACluster cluster of
        Some e \<Rightarrow> (f, Some e)
      | None \<Rightarrow> saveConfig env (f\<lparr>fl_haCluster := cluster\<rparr>))"

definition hasTraversal :: "string \<Rightarrow> bool" where
  "hasTraversal p \<longleftrightarrow> ''..'' \<in> set (Split p (CHR ''/''))"

definition ResolveTokenFile :: "(string \<Rightarrow> string option) \<Rightarrow> InstanceConfig \<Rightarrow> InstanceConfig" where
  "ResolveTokenFile readFile cfg =
     (let tok = ic_Token cfg in
      if length tok \<le> 1 \<or> (hd tok \<noteq> CHR ''@'' \<and> hd tok \<noteq> CHR ''/'') then cfg
      else
        let p = (if hd tok = CHR ''@'' then drop 1 tok else tok) in
        if hasTraversal p then cfg
        else case readFile p of Some b \<Rightarrow> cfg\<lparr>ic_Token := b\<rparr> | None \<Rightarrow> cfg)"

subsection \<open>The merged list stays consistent\<close>

lemma fleet_list_simps [simp]:
  "fl_blocklist (onList g f) = g (fl_blocklist f)" "fl_blocklist (SetDefault p f) = fl_blocklist f"
  "fl_blocklist (SetDoHDefault a f) = fl_blocklist f" "fl_blocklist (SetRateLimitQPSDefault q f) = fl_blocklist f"
  "fl_blocklist (SetCacheDefault n f) = fl_blocklist f" "fl_blocklist (SetUpstreamDefault sv rt bt f) = fl_blocklist f"
  "fl_blocklist (NewFleet path y) = Blip_Blocklist.New"
  by (simp_all add: onList_def SetDefault_def SetDoHDefault_def SetRateLimitQPSDefault_def SetCacheDefault_def
      SetUpstreamDefault_def NewFleet_def)

lemma removals_inv: "Blocklist_inv b \<Longrightarrow> Blocklist_inv (fold Blocklist_Remove ds b)"
  by (induction ds arbitrary: b) (simp_all add: blip_inv)

lemma fleet_list_inv [blip_inv]:
  assumes "Blocklist_inv (fl_blocklist f)"
  shows "Blocklist_inv (fl_blocklist (syncAllowed f))" "Blocklist_inv (fl_blocklist (AddManualDomain d f))"
    "Blocklist_inv (fl_blocklist (RemoveManualDomain d f))" "Blocklist_inv (fl_blocklist (ClearManualDomains f))"
    "Blocklist_inv (fl_blocklist (AddAllowedDomain d f))" "Blocklist_inv (fl_blocklist (RemoveAllowedDomain d f))"
    "Blocklist_inv (fl_blocklist (ClearAllowedDomains f))"
  using assms by (simp_all add: syncAllowed_def AddManualDomain_def RemoveManualDomain_def ClearManualDomains_def
      AddAllowedDomain_def RemoveAllowedDomain_def ClearAllowedDomains_def Let_def blip_inv removals_inv)

end
