(* ===== verification/Blip_Reconcile.thy ===== *)
theory Blip_Reconcile
  imports Blip_Fleet
begin

text \<open>
  How the controller drives its instances (\<open>src/internal/controller/instance.go\<close> and the
  distributing half of \<open>fleet.go\<close>): the poll loop with one reconciler per setting, the
  pushes an operator's change triggers, adoption, and the HA operations. Every call goes
  through the client to the instance's own management handler.
\<close>

subsection \<open>Instance bookkeeping\<close>

definition hasToken :: "Instance \<Rightarrow> bool" where
  "hasToken i \<longleftrightarrow> ic_Token (in_Config i) \<noteq> []"

definition instID :: "Instance \<Rightarrow> string" where
  "instID i = ic_ID (in_Config i)"

definition configApplied :: "string \<Rightarrow> Instance \<Rightarrow> bool" where
  "configApplied hash i \<longleftrightarrow> in_appliedHash i = hash"

definition markConfigAppliedWith :: "string \<Rightarrow> string \<Rightarrow> Instance \<Rightarrow> Instance" where
  "markConfigAppliedWith hash upstr i = i\<lparr>in_appliedHash := hash, in_lastUpstr := upstr\<rparr>"

definition haConfigApplied :: "string \<Rightarrow> Instance \<Rightarrow> bool" where
  "haConfigApplied hash i \<longleftrightarrow> in_haHash i = hash"

definition markHAApplied :: "string \<Rightarrow> Instance \<Rightarrow> Instance" where
  "markHAApplied hash i = i\<lparr>in_haHash := hash\<rparr>"

definition foreignBlocklistDetected :: "Instance \<Rightarrow> Instance \<times> bool" where
  "foreignBlocklistDetected i = (if in_blForeign i then (i, False) else (i\<lparr>in_blForeign := True\<rparr>, True))"

definition reportedBlocklistHash :: "StatsResponse option \<Rightarrow> u64" where
  "reportedBlocklistHash s = (case s of None \<Rightarrow> 0 | Some st \<Rightarrow> sr_BlocklistHash st)"

definition markBlocklistApplied :: "u64 \<Rightarrow> Instance \<Rightarrow> Instance" where
  "markBlocklistApplied hash i = i\<lparr>in_blHash := hash\<rparr>"

definition blocklistPushBackoff :: time where "blocklistPushBackoff = 60 * Second"

definition tryBeginBlocklistPush :: "time \<Rightarrow> Instance \<Rightarrow> Instance \<times> bool" where
  "tryBeginBlocklistPush now i =
     (if in_blPushing i \<or> now < in_blRetryAfter i then (i, False) else (i\<lparr>in_blPushing := True\<rparr>, True))"

definition finishBlocklistPush :: "ClientError option \<Rightarrow> u64 \<Rightarrow> time \<Rightarrow> Instance \<Rightarrow> Instance" where
  "finishBlocklistPush err hash now i =
     (case err of
        Some _ \<Rightarrow> i\<lparr>in_blPushing := False, in_blRetryAfter := now + blocklistPushBackoff\<rparr>
      | None \<Rightarrow> i\<lparr>in_blPushing := False, in_blRetryAfter := 0, in_blHash := hash, in_blForeign := False\<rparr>)"

subsection \<open>Reconcilers\<close>

text \<open>Each takes the instance's last report and returns the instance and the network after the call it made, if any.\<close>

definition maybePushConfig ::
  "'w fleet_env \<Rightarrow> Fleet \<Rightarrow> StatsResponse option \<Rightarrow> Instance \<Rightarrow> 'w net \<Rightarrow> Instance \<times> 'w net" where
  "maybePushConfig env f reported i net =
     (case effectivePolicy env f (instID i) of
        (None, _) \<Rightarrow> (i, net)
      | (Some eff, hash) \<Rightarrow>
          if hash = [] \<or> \<not> hasToken i then (i, net)
          else
            let rep = (case reported of None \<Rightarrow> [] | Some st \<Rightarrow> sr_Upstream st) in
            if configApplied hash i \<and> rep = wp_Upstream eff then (i, net)
            else case Client_SetPolicy (fe_client env) (in_client i) eff net of
                   (net1, None) \<Rightarrow> (markConfigAppliedWith hash (wp_Upstream eff) i, net1)
                 | (net1, Some _) \<Rightarrow> (i, net1))"

definition maybePushDoH :: "'w fleet_env \<Rightarrow> Fleet \<Rightarrow> StatsResponse option \<Rightarrow> Instance \<Rightarrow> 'w net \<Rightarrow> 'w net" where
  "maybePushDoH env f reported i net =
     (let want = effectiveDoHHTTPAddr f (instID i);
          rep = (case reported of None \<Rightarrow> [] | Some st \<Rightarrow> sr_DohHTTPAddr st)
      in if rep = want \<or> \<not> hasToken i then net
         else fst (Client_SetDoHHTTPAddr (fe_client env) (in_client i) want net))"

definition maybePushRateLimit :: "'w fleet_env \<Rightarrow> Fleet \<Rightarrow> StatsResponse option \<Rightarrow> Instance \<Rightarrow> 'w net \<Rightarrow> 'w net" where
  "maybePushRateLimit env f reported i net =
     (let want = effectiveRateLimitQPS f (instID i);
          rep = (case reported of None \<Rightarrow> - 1 | Some st \<Rightarrow> sr_RateLimitQPS st)
      in if rep = want \<or> \<not> hasToken i then net
         else fst (Client_SetRateLimit (fe_client env) (in_client i) want 0 net))"

definition maybePushCache :: "'w fleet_env \<Rightarrow> Fleet \<Rightarrow> StatsResponse option \<Rightarrow> Instance \<Rightarrow> 'w net \<Rightarrow> 'w net" where
  "maybePushCache env f reported i net =
     (if \<not> cacheConfiguredFor f (instID i) then net
      else
        let want = effectiveCacheConfig f (instID i);
            rep = (case reported of None \<Rightarrow> - 1 | Some st \<Rightarrow> sr_CacheSize st)
        in if rep = want \<or> \<not> hasToken i then net
           else fst (Client_SetCacheConfig (fe_client env) (in_client i) want net))"

definition maybePushUpstream :: "'w fleet_env \<Rightarrow> Fleet \<Rightarrow> StatsResponse option \<Rightarrow> Instance \<Rightarrow> 'w net \<Rightarrow> 'w net" where
  "maybePushUpstream env f reported i net =
     (case effectiveUpstream f (instID i) of (servers, routes, boot) \<Rightarrow>
        if servers = [] \<and> routes = [] then net
        else
          let wantHash = fe_upstreamHash env (servers, routes, boot);
              repHash = (case reported of None \<Rightarrow> []
                         | Some st \<Rightarrow> fe_upstreamHash env (sr_UpstreamServers st, sr_UpstreamRoutes st, sr_BootstrapServers st))
          in if wantHash = repHash \<or> \<not> hasToken i then net
             else fst (Client_SetUpstream (fe_client env) (in_client i) servers routes boot net))"

definition listDomains :: "'w fleet_env \<Rightarrow> Blocklist \<Rightarrow> string list" where
  "listDomains env b = Blocklist_List (fe_order env (bl_exact b)) (fe_order env (bl_wild b))"

definition listAllowed :: "'w fleet_env \<Rightarrow> Blocklist \<Rightarrow> string list" where
  "listAllowed env b = Blocklist_List (fe_order env (bl_allowExact b)) (fe_order env (bl_allowWild b))"

definition maybePushBlocklist ::
  "'w fleet_env \<Rightarrow> StatsResponse option \<Rightarrow> Fleet \<Rightarrow> Instance \<Rightarrow> 'w net \<Rightarrow> Fleet \<times> Instance \<times> 'w net" where
  "maybePushBlocklist env reported f0 i net =
     (if \<not> hasToken i \<or> fl_blLoading f0 then (f0, i, net)
      else
        let f = syncAllowed f0;
            hash = Blocklist_Checksum (fl_blocklist f);
            rep = reportedBlocklistHash reported
        in if rep = hash then (f, markBlocklistApplied hash i, net)
           else
             let i1 = (if rep \<noteq> in_blHash i then fst (foreignBlocklistDetected i) else i) in
             case tryBeginBlocklistPush (fe_now env (snd net)) i1 of
               (i2, False) \<Rightarrow> (f, i2, net)
             | (i2, True) \<Rightarrow>
                 (case Client_SetBlocklist (fe_client env) (in_client i2) (listDomains env (fl_blocklist f))
                         (listAllowed env (fl_blocklist f)) net of
                    (net1, err) \<Rightarrow> (f, finishBlocklistPush err hash (fe_now env (snd net1)) i2, net1)))"

definition maybePushRecords :: "'w fleet_env \<Rightarrow> Fleet \<Rightarrow> StatsResponse option \<Rightarrow> Instance \<Rightarrow> 'w net \<Rightarrow> 'w net" where
  "maybePushRecords env f reported i net =
     (let wantHash = Fleet_recordsHash f;
          repHash = (case reported of None \<Rightarrow> 0 | Some st \<Rightarrow> sr_RecordsHash st)
      in if repHash = wantHash \<or> \<not> hasToken i then net
         else fst (Client_SetRecords (fe_client env) (in_client i) (effectiveRecords f (instID i)) net))"

definition setAndApplyHA ::
  "'w fleet_env \<Rightarrow> Instance \<Rightarrow> HAConfig \<Rightarrow> 'w net \<Rightarrow> 'w net \<times> ClientError option" where
  "setAndApplyHA env i cfg net =
     (case Client_SetHAConfig (fe_client env) (in_client i) cfg net of
        (net1, Some e) \<Rightarrow> (net1, Some e)
      | (net1, None) \<Rightarrow> Client_ApplyHA (fe_client env) (in_client i) net1)"

definition maybePushHA :: "'w fleet_env \<Rightarrow> Fleet \<Rightarrow> Instance \<Rightarrow> 'w net \<Rightarrow> Instance \<times> 'w net" where
  "maybePushHA env f i net =
     (case effectiveHABConfig f (instID i) of
        None \<Rightarrow> (i, net)
      | Some cfg \<Rightarrow>
          if \<not> hasToken i then (i, net)
          else if uj_Running (fl_updateJob f) \<and> uj_Current (fl_updateJob f) = instID i then (i, net)
          else if haConfigApplied (haHashFor env f (instID i)) i then (i, net)
          else case setAndApplyHA env i cfg net of
                 (net1, Some _) \<Rightarrow> (i, net1)
               | (net1, None) \<Rightarrow> (markHAApplied (haHashFor env f (instID i)) i, net1))"

subsection \<open>The poll\<close>

definition recordPoll ::
  "(ClientError, reply) result \<Rightarrow> (ClientError, StatsResponse) result \<Rightarrow> time \<Rightarrow> int \<Rightarrow> Instance \<Rightarrow> Instance" where
  "recordPoll h s now latencyMs i =
     (let i1 = (case h of
                  Inr x \<Rightarrow> i\<lparr>in_online := True, in_health := Some x, in_last := now, in_err := None,
                            in_pingSamples := in_pingSamples i + 1, in_pingSumMs := in_pingSumMs i + latencyMs,
                            in_pingLastMs := latencyMs\<rparr>
                | Inl e \<Rightarrow> i\<lparr>in_online := False, in_err := Some e\<rparr>)
      in case s of Inr st \<Rightarrow> i1\<lparr>in_stats := Some st, in_lastUpstr := sr_Upstream st\<rparr> | Inl _ \<Rightarrow> i1)"

definition publish :: "Event \<Rightarrow> Fleet \<Rightarrow> Fleet" where
  "publish e f = f\<lparr>fl_bus := Publish e (fl_bus f)\<rparr>"

definition reconcile ::
  "'w fleet_env \<Rightarrow> StatsResponse option \<Rightarrow> Fleet \<Rightarrow> Instance \<Rightarrow> 'w net \<Rightarrow> Fleet \<times> Instance \<times> 'w net" where
  "reconcile env s f i net =
     (case maybePushConfig env f s i net of (i1, net1) \<Rightarrow>
      let net2 = maybePushDoH env f s i1 net1;
          net3 = maybePushRateLimit env f s i1 net2;
          net4 = maybePushCache env f s i1 net3;
          net5 = maybePushUpstream env f s i1 net4
      in case maybePushBlocklist env s f i1 net5 of (f1, i2, net6) \<Rightarrow>
         let net7 = maybePushRecords env f1 s i2 net6 in
         case maybePushHA env f1 i2 net7 of (i3, net8) \<Rightarrow> (f1, i3, net8))"

definition okOf :: "('e, 'a) result \<Rightarrow> 'a option" where
  "okOf x = (case x of Inl _ \<Rightarrow> None | Inr v \<Rightarrow> Some v)"

definition poll :: "'w fleet_env \<Rightarrow> Fleet \<Rightarrow> Instance \<Rightarrow> 'w net \<Rightarrow> Fleet \<times> Instance \<times> 'w net" where
  "poll env f i net =
     (case Client_Health (fe_client env) (in_client i) net of (net1, h) \<Rightarrow>
      case Client_Stats (fe_client env) (in_client i) net1 of (net2, s) \<Rightarrow>
      let now = fe_now env (snd net2);
          i1 = recordPoll h s now ((now - fe_now env (snd net)) div 1000000) i
      in case h of
           Inl _ \<Rightarrow> (f, i1, net2)
         | Inr x \<Rightarrow>
             reconcile env (okOf s)
               (publish (noEvent\<lparr>ev_InstanceID := instID i, ev_Instance := ic_Label (in_Config i), ev_Type := ''health'',
                   ev_At := now, ev_Health := Some x, ev_Stats := okOf s\<rparr>) f) i1 net2)"

subsection \<open>Status\<close>

record InstanceStatus =
  is_ID :: string
  is_Online :: bool
  is_Adopted :: bool
  is_ConfigSynced :: bool
  is_BlocklistSynced :: bool
  is_Err :: "ClientError option"
  is_PingSamples :: int

definition Instance_status :: "'w fleet_env \<Rightarrow> Fleet \<Rightarrow> Instance \<Rightarrow> InstanceStatus" where
  "Instance_status env f i =
     \<lparr>is_ID = instID i, is_Online = in_online i, is_Adopted = hasToken i,
      is_ConfigSynced =
        (case wantConfig env f (instID i) of
           None \<Rightarrow> True
         | Some (hash, upstr) \<Rightarrow>
             in_appliedHash i = hash \<and> \<not> (upstr \<noteq> [] \<and> in_lastUpstr i \<noteq> upstr)),
      is_BlocklistSynced =
        (Blocklist_Checksum (fl_blocklist f) \<noteq> 0
         \<and> Blocklist_Checksum (fl_blocklist f) = reportedBlocklistHash (in_stats i)),
      is_Err = in_err i, is_PingSamples = in_pingSamples i\<rparr>"

subsection \<open>Pushing to every instance\<close>

datatype pushResult = Ok | NotAdopted | NoConfig | NoUpstream | UnknownInstance | Failed string ClientError

text \<open>The loop all pushes share: one call per instance, outcomes collected by ID.\<close>

fun forInstances ::
  "(Instance \<Rightarrow> 'w net \<Rightarrow> Instance \<times> 'w net \<times> pushResult) \<Rightarrow> (string \<times> Instance) list \<Rightarrow> 'w net
   \<Rightarrow> (string \<times> Instance) list \<times> 'w net \<times> (string \<times> pushResult) list" where
  "forInstances g [] net = ([], net, [])"
| "forInstances g ((k, i) # is) net =
     (case g i net of (i1, net1, r) \<Rightarrow>
      case forInstances g is net1 of (is1, net2, rs) \<Rightarrow> ((k, i1) # is1, net2, (instID i, r) # rs))"

definition pushEach ::
  "(Instance \<Rightarrow> 'w net \<Rightarrow> Instance \<times> 'w net \<times> pushResult) \<Rightarrow> Fleet \<Rightarrow> 'w net
   \<Rightarrow> Fleet \<times> 'w net \<times> (string \<times> pushResult) list" where
  "pushEach g f net =
     (case forInstances g (fl_instances f) net of (is, net1, rs) \<Rightarrow> (f\<lparr>fl_instances := is\<rparr>, net1, rs))"

definition adoptedOnly ::
  "(Instance \<Rightarrow> 'w net \<Rightarrow> 'w net \<times> ClientError option) \<Rightarrow> Instance \<Rightarrow> 'w net \<Rightarrow> Instance \<times> 'w net \<times> pushResult" where
  "adoptedOnly call i net =
     (if \<not> hasToken i then (i, net, NotAdopted)
      else case call i net of (net1, Some e) \<Rightarrow> (i, net1, Failed [] e) | (net1, None) \<Rightarrow> (i, net1, Ok))"

definition pushRateLimit :: "'w fleet_env \<Rightarrow> Fleet \<Rightarrow> 'w net \<Rightarrow> Fleet \<times> 'w net \<times> (string \<times> pushResult) list" where
  "pushRateLimit env f =
     pushEach (adoptedOnly (\<lambda>i. Client_SetRateLimit (fe_client env) (in_client i) (effectiveRateLimitQPS f (instID i)) 0)) f"

definition pushDoH :: "'w fleet_env \<Rightarrow> Fleet \<Rightarrow> 'w net \<Rightarrow> Fleet \<times> 'w net \<times> (string \<times> pushResult) list" where
  "pushDoH env f =
     pushEach (adoptedOnly (\<lambda>i. Client_SetDoHHTTPAddr (fe_client env) (in_client i) (effectiveDoHHTTPAddr f (instID i)))) f"

definition pushCache :: "'w fleet_env \<Rightarrow> Fleet \<Rightarrow> 'w net \<Rightarrow> Fleet \<times> 'w net \<times> (string \<times> pushResult) list" where
  "pushCache env f =
     pushEach (adoptedOnly (\<lambda>i. Client_SetCacheConfig (fe_client env) (in_client i) (effectiveCacheConfig f (instID i)))) f"

definition pushRecords :: "'w fleet_env \<Rightarrow> Fleet \<Rightarrow> 'w net \<Rightarrow> Fleet \<times> 'w net \<times> (string \<times> pushResult) list" where
  "pushRecords env f =
     pushEach (adoptedOnly (\<lambda>i. Client_SetRecords (fe_client env) (in_client i) (effectiveRecords f (instID i)))) f"

definition pushUpstream :: "'w fleet_env \<Rightarrow> Fleet \<Rightarrow> 'w net \<Rightarrow> Fleet \<times> 'w net \<times> (string \<times> pushResult) list" where
  "pushUpstream env f =
     pushEach (\<lambda>i net.
       if \<not> hasToken i then (i, net, NotAdopted)
       else case effectiveUpstream f (instID i) of (servers, routes, boot) \<Rightarrow>
         if servers = [] \<and> routes = [] then (i, net, NoUpstream)
         else adoptedOnly (\<lambda>i. Client_SetUpstream (fe_client env) (in_client i) servers routes boot) i net) f"

definition pushConfigs :: "'w fleet_env \<Rightarrow> Fleet \<Rightarrow> 'w net \<Rightarrow> Fleet \<times> 'w net \<times> (string \<times> pushResult) list" where
  "pushConfigs env f =
     pushEach (\<lambda>i net.
       case effectivePolicy env f (instID i) of
         (None, _) \<Rightarrow> (i, net, NoConfig)
       | (Some eff, hash) \<Rightarrow>
           (case Client_SetPolicy (fe_client env) (in_client i) eff net of
              (net1, Some e) \<Rightarrow> (i, net1, Failed [] e)
            | (net1, None) \<Rightarrow> (markConfigAppliedWith hash (wp_Upstream eff) i, net1, Ok))) f"

definition pushBlocklist :: "'w fleet_env \<Rightarrow> Fleet \<Rightarrow> 'w net \<Rightarrow> Fleet \<times> 'w net \<times> (string \<times> pushResult) list" where
  "pushBlocklist env f0 net =
     (let f = syncAllowed f0; b = fl_blocklist f in
      pushEach (\<lambda>i net.
        if \<not> hasToken i then (i, net, NotAdopted)
        else case Client_SetBlocklist (fe_client env) (in_client i) (listDomains env b) (listAllowed env b) net of
               (net1, Some e) \<Rightarrow> (i, net1, Failed [] e)
             | (net1, None) \<Rightarrow> (markBlocklistApplied (Blocklist_Checksum b) i, net1, Ok)) f net)"

definition Fleet_PurgeCache :: "'w fleet_env \<Rightarrow> Fleet \<Rightarrow> 'w net \<Rightarrow> Fleet \<times> 'w net \<times> (string \<times> pushResult) list" where
  "Fleet_PurgeCache env f =
     pushEach (\<lambda>i net.
       if \<not> hasToken i then (i, net, NotAdopted)
       else case Client_PurgeCache (fe_client env) (in_client i) net of
              (net1, Inl e) \<Rightarrow> (i, net1, Failed [] e)
            | (net1, Inr n) \<Rightarrow> (i, net1, Ok)) f"

text \<open>One instance, every setting; the last failing call names the outcome, a refused policy ends it.\<close>

definition pushInstance :: "'w fleet_env \<Rightarrow> string \<Rightarrow> Fleet \<Rightarrow> 'w net \<Rightarrow> Fleet \<times> 'w net \<times> pushResult" where
  "pushInstance env k f net =
     (case map_of (fl_instances f) k of
        None \<Rightarrow> (f, net, UnknownInstance)
      | Some i \<Rightarrow>
          if \<not> hasToken i then (f, net, NotAdopted)
          else
            let cl = in_client i; ce = fe_client env;
                after = (\<lambda>label res (net', e). (net', case e of None \<Rightarrow> res | Some e \<Rightarrow> Failed label e));
                (n1, r1) = after ''doh'' Ok (Client_SetDoHHTTPAddr ce cl (effectiveDoHHTTPAddr f k) net);
                (n2, r2) = after ''cache'' r1 (Client_SetCacheConfig ce cl (effectiveCacheConfig f k) n1);
                (n3, r3) = after ''rate_limit'' r2 (Client_SetRateLimit ce cl (effectiveRateLimitQPS f k) 0 n2);
                (n4, r4) = after ''records'' r3 (Client_SetRecords ce cl (effectiveRecords f k) n3);
                upstream = (\<lambda>f n r.
                  case effectiveUpstream f k of (servers, routes, boot) \<Rightarrow>
                    if servers = [] \<and> routes = [] then (f, n, r)
                    else let (n', r') = after ''upstream'' r (Client_SetUpstream ce cl servers routes boot n) in (f, n', r'))
            in case effectivePolicy env f k of
                 (None, _) \<Rightarrow> upstream f n4 r4
               | (Some eff, hash) \<Rightarrow>
                   (case Client_SetPolicy ce cl eff n4 of
                      (n5, Some e) \<Rightarrow> (f, n5, Failed [] e)
                    | (n5, None) \<Rightarrow>
                        upstream (f\<lparr>fl_instances := AList.update k (markConfigAppliedWith hash (wp_Upstream eff) i) (fl_instances f)\<rparr>)
                          n5 r4))"

subsection \<open>Operator changes\<close>

definition SetDefaultPolicy ::
  "'w fleet_env \<Rightarrow> WirePolicy option \<Rightarrow> Fleet \<Rightarrow> 'w net \<Rightarrow> Fleet \<times> 'w net \<times> (string \<times> pushResult) list" where
  "SetDefaultPolicy env p f = pushConfigs env (savedQuietly env (SetDefault p f))"

definition SetInstanceOverride ::
  "'w fleet_env \<Rightarrow> string \<Rightarrow> InstanceOverride option \<Rightarrow> Fleet \<Rightarrow> 'w net \<Rightarrow> Fleet \<times> 'w net \<times> pushResult" where
  "SetInstanceOverride env k oo f =
     pushInstance env k (savedQuietly env
       (case oo of
          Some ov \<Rightarrow> if IsEmpty oo then f\<lparr>fl_overrides := AList.delete k (fl_overrides f)\<rparr>
                    else f\<lparr>fl_overrides := AList.update k ov (fl_overrides f)\<rparr>
        | None \<Rightarrow> f\<lparr>fl_overrides := AList.delete k (fl_overrides f)\<rparr>))"

definition Fleet_SetDoHHTTPAddr ::
  "'w fleet_env \<Rightarrow> string \<Rightarrow> Fleet \<Rightarrow> 'w net \<Rightarrow> Fleet \<times> 'w net \<times> (string \<times> pushResult) list" where
  "Fleet_SetDoHHTTPAddr env addr f = pushDoH env (savedQuietly env (SetDoHDefault addr f))"

definition SetRateLimitQPS ::
  "'w fleet_env \<Rightarrow> int \<Rightarrow> Fleet \<Rightarrow> 'w net \<Rightarrow> Fleet \<times> 'w net \<times> (string \<times> pushResult) list" where
  "SetRateLimitQPS env qps f = pushRateLimit env (savedQuietly env (SetRateLimitQPSDefault qps f))"

definition SetCache :: "'w fleet_env \<Rightarrow> int \<Rightarrow> Fleet \<Rightarrow> 'w net \<Rightarrow> Fleet \<times> 'w net \<times> (string \<times> pushResult) list" where
  "SetCache env n f = pushCache env (savedQuietly env (SetCacheDefault n f))"

definition Fleet_SetUpstream ::
  "'w fleet_env \<Rightarrow> UpstreamServer list \<Rightarrow> UpstreamRoute list \<Rightarrow> UpstreamServer list \<Rightarrow> Fleet \<Rightarrow> 'w net
   \<Rightarrow> Fleet \<times> 'w net \<times> (string \<times> pushResult) list" where
  "Fleet_SetUpstream env servers routes boot f =
     pushUpstream env (savedQuietly env (SetUpstreamDefault servers routes boot f))"

definition Fleet_SetRecords ::
  "'w fleet_env \<Rightarrow> RecordEntry list \<Rightarrow> Fleet \<Rightarrow> 'w net \<Rightarrow> Fleet \<times> 'w net \<times> (string \<times> pushResult) list" where
  "Fleet_SetRecords env recs f = pushRecords env (savedQuietly env (f\<lparr>fl_records := recs\<rparr>))"

subsection \<open>Membership and adoption\<close>

definition statusEvent :: "'w fleet_env \<Rightarrow> string \<Rightarrow> string \<Rightarrow> string \<Rightarrow> 'w net \<Rightarrow> Event" where
  "statusEvent env k label msg net =
     noEvent\<lparr>ev_InstanceID := k, ev_Instance := label, ev_Type := ''status'', ev_At := fe_now env (snd net), ev_Msg := msg\<rparr>"

definition setInstance :: "string \<Rightarrow> Instance \<Rightarrow> Fleet \<Rightarrow> Fleet" where
  "setInstance k i f = f\<lparr>fl_instances := AList.update k i (fl_instances f)\<rparr>"

datatype AdoptError = UnknownNode | CallFailed ClientError | Rejected string

definition Adopt :: "'w fleet_env \<Rightarrow> string \<Rightarrow> string \<Rightarrow> Fleet \<Rightarrow> 'w net \<Rightarrow> Fleet \<times> 'w net \<times> AdoptError option" where
  "Adopt env k code0 f net =
     (case map_of (fl_instances f) k of
        None \<Rightarrow> (f, net, Some UnknownNode)
      | Some i \<Rightarrow>
          let code = (if code0 = [] \<and> in_claimCode i \<noteq> [] then in_claimCode i else code0) in
          case Client_Adopt (fe_client env) (in_client i) code net of
            (net1, Inl e) \<Rightarrow> (f, net1, Some (CallFailed e))
          | (net1, Inr (adopted, tok, msg)) \<Rightarrow>
              if \<not> adopted then (f, net1, Some (Rejected msg))
              else if tok = [] then (publish (statusEvent env k (ic_Label (in_Config i)) ''adopted'' net1) f, net1, None)
              else
                let i1 = i\<lparr>in_Config := (in_Config i)\<lparr>ic_Token := tok\<rparr>, in_claimCode := [],
                           in_client := NewClient (ic_URL (in_Config i)) tok\<rparr>;
                    f1 = savedQuietly env (setInstance k i1 f)
                in case maybePushConfig env f1 None i1 net1 of (i2, net2) \<Rightarrow>
                   case maybePushBlocklist env None f1 i2 net2 of (f2, i3, net3) \<Rightarrow>
                     (publish (statusEvent env k (ic_Label (in_Config i)) ''adopted'' net3) (setInstance k i3 f2), net3, None))"

definition newInstance :: "InstanceConfig \<Rightarrow> time \<Rightarrow> Instance" where
  "newInstance cfg now =
     \<lparr>in_Config = cfg, in_client = NewClient (ic_URL cfg) (ic_Token cfg), in_claimCode = [], in_online = False,
      in_health = None, in_stats = None, in_last = now, in_err = None, in_pingSamples = 0, in_pingSumMs = 0,
      in_pingLastMs = 0, in_appliedHash = [], in_lastUpstr = [], in_blHash = 0, in_haHash = [], in_blPushing = False,
      in_blRetryAfter = 0, in_blForeign = False\<rparr>"

text \<open>The poll loop an added instance starts is a later step of its own.\<close>

definition Fleet_Add :: "'w fleet_env \<Rightarrow> InstanceConfig \<Rightarrow> Fleet \<Rightarrow> 'w net \<Rightarrow> Fleet \<times> 'w net \<times> string option" where
  "Fleet_Add env cfg0 f net =
     (if ic_ID cfg0 = [] then (f, net, Some ''controller: instance requires id'')
      else if ic_URL cfg0 = [] then (f, net, Some ''controller: instance requires url'')
      else
        let cfg = (if ic_Label cfg0 = [] then cfg0\<lparr>ic_Label := ic_ID cfg0\<rparr> else cfg0);
            f1 = savedQuietly env (setInstance (ic_ID cfg) (newInstance cfg (fe_now env (snd net))) f)
        in if ic_Claim cfg = [] then (f1, net, None)
           else case Adopt env (ic_ID cfg) (ic_Claim cfg) f1 net of
                  (f2, net1, None) \<Rightarrow> (f2, net1, None)
                | (f2, net1, Some _) \<Rightarrow>
                    (publish (statusEvent env (ic_ID cfg) (ic_Label cfg) ''adopt failed'' net1) f2, net1, None))"

definition Remove :: "'w fleet_env \<Rightarrow> string \<Rightarrow> Fleet \<Rightarrow> Fleet" where
  "Remove env k f = savedQuietly env (f\<lparr>fl_instances := AList.delete k (fl_instances f)\<rparr>)"

definition SetClaimCode :: "string \<Rightarrow> string \<Rightarrow> Fleet \<Rightarrow> Fleet" where
  "SetClaimCode k code f =
     (case map_of (fl_instances f) k of None \<Rightarrow> f | Some i \<Rightarrow> setInstance k (i\<lparr>in_claimCode := code\<rparr>) f)"

definition ResetAdoption :: "'w fleet_env \<Rightarrow> string \<Rightarrow> Fleet \<Rightarrow> 'w net \<Rightarrow> Fleet \<times> 'w net \<times> AdoptError option" where
  "ResetAdoption env k f net =
     (case map_of (fl_instances f) k of
        None \<Rightarrow> (f, net, Some UnknownNode)
      | Some i \<Rightarrow>
          (case Client_ResetAdoption (fe_client env) (in_client i) net of
             (net1, Some e) \<Rightarrow> (f, net1, Some (CallFailed e))
           | (net1, None) \<Rightarrow> (publish (statusEvent env k (ic_Label (in_Config i)) ''adoption reset'' net1) f, net1, None)))"

definition SetLabel :: "'w fleet_env \<Rightarrow> string \<Rightarrow> string \<Rightarrow> Fleet \<Rightarrow> 'w net \<Rightarrow> Fleet \<times> AdoptError option" where
  "SetLabel env k label f net =
     (case map_of (fl_instances f) k of
        None \<Rightarrow> (f, Some UnknownNode)
      | Some i \<Rightarrow>
          (publish (statusEvent env k label ''label updated'' net)
             (setInstance k (i\<lparr>in_Config := (in_Config i)\<lparr>ic_Label := label\<rparr>\<rparr>) f), None))"

definition RestartInstance :: "'w fleet_env \<Rightarrow> string \<Rightarrow> Fleet \<Rightarrow> 'w net \<Rightarrow> 'w net \<times> AdoptError option" where
  "RestartInstance env k f net =
     (case map_of (fl_instances f) k of
        None \<Rightarrow> (net, Some UnknownNode)
      | Some i \<Rightarrow>
          (case Client_Restart (fe_client env) (in_client i) net of
             (net1, Some e) \<Rightarrow> (net1, Some (CallFailed e))
           | (net1, None) \<Rightarrow> (net1, None)))"

end
