(* ===== verification/Blip_Converge.thy ===== *)
theory Blip_Converge
  imports Blip_Reconcile
begin

text \<open>
  Convergence of the controller and one instance: what a poll does to a reachable instance
  that accepts the desired settings, and what it does to one that already has them.
\<close>

subsection \<open>A reconciled setting\<close>

text \<open>
  What every setting the poll converges has in common: the instance reports it, the
  controller pushes it, and after a push the report is the wanted one.
\<close>

locale setting =
  fixes report :: "'s \<Rightarrow> 'r"
    and push :: "'v \<Rightarrow> 's \<Rightarrow> 's"
    and want :: "'v \<Rightarrow> 'r"
    and ok :: "'v \<Rightarrow> 's \<Rightarrow> bool"
  assumes pushed: "ok v c \<Longrightarrow> report (push v c) = want v"
begin

definition converge :: "'v \<Rightarrow> 's \<Rightarrow> 's" where
  "converge v c = (if report c = want v then c else push v c)"

lemma converge_report: "ok v c \<Longrightarrow> report (converge v c) = want v"
  by (simp add: converge_def pushed)

lemma converge_stable: "report c = want v \<Longrightarrow> converge v c = c"
  by (simp add: converge_def)

lemma converge_idem: "ok v c \<Longrightarrow> converge v (converge v c) = converge v c"
  by (rule converge_stable) (rule converge_report)

end

subsection \<open>Calls that arrive\<close>

definition clientPeer :: "'w client_env \<Rightarrow> string" where
  "clientPeer env = (case SplitHostPort (cl_addr env) of Some (h, _) \<Rightarrow> h | None \<Rightarrow> cl_addr env)"

definition manages :: "'w client_env \<Rightarrow> Client \<Rightarrow> Control \<Rightarrow> bool" where
  "manages env cl c \<longleftrightarrow> cc_token cl \<noteq> [] \<and> ct_token c = cc_token cl \<and> ct_wired c
     \<and> (ct_adoptedBy c = [] \<or> clientPeer env = ct_adoptedBy c \<or> IsLoopback (ParseIP (clientPeer env)))"

definition delivers :: "'w client_env \<Rightarrow> Client \<Rightarrow> bool" where
  "delivers env cl \<longleftrightarrow> (\<forall>w. snd (cl_transport env (cc_base cl) w) = Through)"

lemma clientRequest_sel [simp]:
  "hr_Method (clientRequest env cl m p q) = m" "hr_Path (clientRequest env cl m p q) = p"
  "hr_Query (clientRequest env cl m p q) = q" "hr_RemoteAddr (clientRequest env cl m p q) = cl_addr env"
  "hr_Header (clientRequest env cl m p q) = [(''Authorization'', ''Bearer '' @ cc_token cl)]"
  by (simp_all add: clientRequest_def)

lemma adoptIP_client [simp]: "adoptIP (clientRequest env cl m p q) = clientPeer env"
  by (simp add: adoptIP_def clientPeer_def split: option.splits)

lemma manages_gate:
  assumes "manages env cl c"
  shows "authGate c (clientRequest env cl m p q) = None"
proof -
  have "checkToken (''Bearer '' @ cc_token cl) (cc_token cl)"
    using assms by (simp add: checkToken_def manages_def)
  then show ?thesis using assms unfolding authGate_def manages_def by (auto simp: getOr_def)
qed

lemma manages_cong:
  "ct_token c' = ct_token c \<Longrightarrow> ct_wired c' = ct_wired c \<Longrightarrow> ct_adoptedBy c' = ct_adoptedBy c
   \<Longrightarrow> manages env cl c' = manages env cl c"
  by (simp add: manages_def)

lemma do_protected:
  assumes "delivers env cl" and "manages env cl (nodes (cc_base cl))" and "path \<in> set protectedPaths"
    and "cl_transport env (cc_base cl) w = (w1, d)"
    and "protected (cl_node env (cc_base cl)) (clientRequest env cl m path q) body (nodes (cc_base cl)) w1 = (c, w2, x)"
  shows "Client_do env cl m path q body (nodes, w)
    = ((nodes(cc_base cl := c), w2), if 400 \<le> replyStatus x then Inl (StatusError m path x) else Inr x)"
proof -
  have d: "d = Through" using assms(1)[unfolded delivers_def, rule_format, of w] assms(4) by simp
  have "path \<noteq> ''/api/v1/adopt/status''" "path \<noteq> ''/api/v1/adopt''"
    using assms(3) by (auto simp: protectedPaths_def)
  then show ?thesis
    using assms(3-5) d manages_gate [OF assms(2), of m path q] by (simp add: Client_do_def ctlHandler_def)
qed

text \<open>What a call achieves when the handler achieves it at every point in time.\<close>

lemma do_achieves:
  assumes "delivers env cl" and "manages env cl (nodes (cc_base cl))" and "path \<in> set protectedPaths"
    and "\<And>w. \<exists>c w' x. protected (cl_node env (cc_base cl)) (clientRequest env cl m path q) body (nodes (cc_base cl)) w = (c, w', x)
           \<and> replyStatus x < 400 \<and> P c x"
  shows "\<exists>c w' x. Client_do env cl m path q body (nodes, w) = ((nodes(cc_base cl := c), w'), Inr x) \<and> P c x"
proof -
  obtain w1 d where t: "cl_transport env (cc_base cl) w = (w1, d)" by force
  obtain c w' x where p: "protected (cl_node env (cc_base cl)) (clientRequest env cl m path q) body (nodes (cc_base cl)) w1 = (c, w', x)"
    "replyStatus x < 400" "P c x"
    using assms(4) by blast
  show ?thesis using do_protected [where nodes = nodes, OF assms(1-3) t p(1)] p(2,3) by auto
qed

subsection \<open>What the controller can observe and set\<close>

record view =
  v_default :: "Policy option"
  v_list :: "Blocklist option"
  v_pool :: "ResolverPool option"
  v_heap :: rheap
  v_legacy :: string
  v_doh :: string
  v_rl :: "rateLimiter option"
  v_rec :: "RecordStore option"
  v_csize :: int
  v_tok :: string
  v_wired :: bool
  v_by :: string

definition viewOf :: "Control \<Rightarrow> view" where
  "viewOf c = (let s = ct_srv c in
     \<lparr>v_default = fst (Store_All (s_Store s)), v_list = s_Blocklist s, v_pool = s_pool s, v_heap = s_heap s,
      v_legacy = s_Upstream s, v_doh = s_dohPlainAddr s, v_rl = s_rl s, v_rec = s_rec s, v_csize = s_cacheSize s,
      v_tok = ct_token c, v_wired = ct_wired c, v_by = ct_adoptedBy c\<rparr>)"

definition rPolicy :: "view \<Rightarrow> string" where
  "rPolicy v = (case v_default v of None \<Rightarrow> [] | Some d \<Rightarrow> p_Upstream d)"

definition rRate :: "view \<Rightarrow> int" where
  "rRate v = (case v_rl v of None \<Rightarrow> 0 | Some rl \<Rightarrow> rl_qps rl)"

definition rUpstream :: "view \<Rightarrow> UpstreamServer list \<times> UpstreamRoute list \<times> UpstreamServer list" where
  "rUpstream v = (case v_pool v of None \<Rightarrow> ([], [], []) | Some p \<Rightarrow> (pl_servers p, pl_routes p, pl_bootstrap p))"

definition rList :: "view \<Rightarrow> u64" where
  "rList v = (case v_list v of None \<Rightarrow> 0 | Some b \<Rightarrow> Blocklist_Checksum b)"

definition rRecords :: "view \<Rightarrow> u64" where
  "rRecords v = RecordsHash (case v_rec v of None \<Rightarrow> [] | Some rs \<Rightarrow> RecordStore_GetRecords rs)"

lemma statsOf_view:
  assumes "v_wired (viewOf c)"
  shows "sr_Upstream (statsOf c) = rPolicy (viewOf c)" "sr_DohHTTPAddr (statsOf c) = v_doh (viewOf c)"
    "sr_RateLimitQPS (statsOf c) = rRate (viewOf c)" "sr_CacheSize (statsOf c) = v_csize (viewOf c)"
    "(sr_UpstreamServers (statsOf c), sr_UpstreamRoutes (statsOf c), sr_BootstrapServers (statsOf c)) = rUpstream (viewOf c)"
    "sr_BlocklistHash (statsOf c) = rList (viewOf c)" "sr_RecordsHash (statsOf c) = rRecords (viewOf c)"
proof -
  have w: "ct_wired c" using assms by (simp add: viewOf_def Let_def)
  note d = viewOf_def Let_def rPolicy_def rRate_def rUpstream_def rList_def rRecords_def
  show "sr_DohHTTPAddr (statsOf c) = v_doh (viewOf c)" "sr_RateLimitQPS (statsOf c) = rRate (viewOf c)"
    "sr_CacheSize (statsOf c) = v_csize (viewOf c)" "sr_RecordsHash (statsOf c) = rRecords (viewOf c)"
    using statsOf_fields [OF w] by (simp_all add: d DoHHTTPAddr_def RateLimitQPS_def rateLimiter_qps_def CacheSize_def GetRecords_def
        split: option.splits)
  show "(sr_UpstreamServers (statsOf c), sr_UpstreamRoutes (statsOf c), sr_BootstrapServers (statsOf c)) = rUpstream (viewOf c)"
    using statsOf_fields(6) [OF w]
    by (simp add: d Upstream_def safePool_def ResolverPool_Servers_def ResolverPool_Routes_def ResolverPool_Bootstrap_def
        split: option.splits)
  show "sr_BlocklistHash (statsOf c) = rList (viewOf c)"
  proof (cases "s_Blocklist (ct_srv c)")
    case None
    then show ?thesis using w
      by (simp add: d statsOf_def handleStats_def addUpstreamStats_def Counters_Stats_def emptyStats_def split: prod.splits option.splits)
  next
    case (Some b)
    then show ?thesis using statsOf_fields(7) [OF w Some] by (simp add: d)
  qed
  show "sr_Upstream (statsOf c) = rPolicy (viewOf c)"
    using w by (simp add: d statsOf_def handleStats_def addUpstreamStats_def Counters_Stats_def emptyStats_def
        split: prod.splits option.splits)
qed

definition vPolicy :: "Policy \<Rightarrow> view \<Rightarrow> view" where
  "vPolicy p v = v\<lparr>v_default := Some p\<rparr>"

definition vDoH :: "string \<Rightarrow> view \<Rightarrow> view" where
  "vDoH addr v = v\<lparr>v_doh := addr\<rparr>"

definition vRate :: "int \<Rightarrow> view \<Rightarrow> view" where
  "vRate q v = v\<lparr>v_rl := map_option (rateLimiter_set q 0) (v_rl v)\<rparr>"

definition vCache :: "int \<Rightarrow> view \<Rightarrow> view" where
  "vCache n v = v\<lparr>v_csize := n\<rparr>"

definition vUpstream :: "UpstreamServer list \<times> UpstreamRoute list \<times> UpstreamServer list \<Rightarrow> view \<Rightarrow> view" where
  "vUpstream u v = (case u of (sv, rt, bt) \<Rightarrow>
     case NewPoolWithBootstrap sv rt (v_legacy v) bt (v_heap v) of
       (h, Inl e) \<Rightarrow> v | (h, Inr p) \<Rightarrow> v\<lparr>v_heap := h, v_pool := Some p\<rparr>)"

definition vList :: "string list \<times> string list \<Rightarrow> view \<Rightarrow> view" where
  "vList l v = v\<lparr>v_list := map_option (\<lambda>b. Blocklist_SetAllowed (snd l) (Blocklist_FromDomains (fst l) b)) (v_list v)\<rparr>"

definition vRecords :: "RecordEntry list \<Rightarrow> view \<Rightarrow> view" where
  "vRecords rs v = v\<lparr>v_rec := map_option (RecordStore_SetRecords rs) (v_rec v)\<rparr>"

definition upstreamOk :: "UpstreamServer list \<times> UpstreamRoute list \<times> UpstreamServer list \<Rightarrow> view \<Rightarrow> bool" where
  "upstreamOk u v = (case u of (sv, rt, bt) \<Rightarrow> \<not> isl (snd (NewPoolWithBootstrap sv rt (v_legacy v) bt (v_heap v))))"

interpretation policy: setting rPolicy vPolicy p_Upstream "\<lambda>_ _. True"
  by unfold_locales (simp add: rPolicy_def vPolicy_def)

interpretation doh: setting v_doh vDoH "\<lambda>a. a" "\<lambda>_ _. True"
  by unfold_locales (simp add: vDoH_def)

interpretation rate: setting rRate vRate "\<lambda>q. q" "\<lambda>q v. 0 \<le> q \<and> v_rl v \<noteq> None"
  by unfold_locales (auto simp: rRate_def vRate_def rateLimiter_set_def Let_def)

interpretation cache: setting v_csize vCache "\<lambda>n. n" "\<lambda>_ _. True"
  by unfold_locales (simp add: vCache_def)

interpretation ups: setting "\<lambda>v. fp (rUpstream v)" vUpstream fp upstreamOk
  for fp :: "UpstreamServer list \<times> UpstreamRoute list \<times> UpstreamServer list \<Rightarrow> string"
  by unfold_locales (auto simp: rUpstream_def vUpstream_def upstreamOk_def NewPoolWithBootstrap_def
      split: prod.splits sum.splits)

interpretation list: setting rList vList
  "\<lambda>l. Blocklist_Checksum (Blocklist_SetAllowed (snd l) (Blocklist_FromDomains (fst l) Blip_Blocklist.New))"
  "\<lambda>_ v. v_list v \<noteq> None"
  by unfold_locales (auto simp: rList_def vList_def intro!: arg_cong [where f = Blocklist_Checksum, OF pushed_blocklist])

interpretation records: setting rRecords vRecords "\<lambda>rs. RecordsHash (filter kept rs)" "\<lambda>_ v. v_rec v \<noteq> None"
  by unfold_locales (auto simp: rRecords_def vRecords_def intro!: RecordsHash_perm [OF SetRecords_mset])

subsection \<open>The calls\<close>

lemma manages_view: "manages env cl c \<longleftrightarrow> cc_token cl \<noteq> [] \<and> v_tok (viewOf c) = cc_token cl \<and> v_wired (viewOf c)
     \<and> (v_by (viewOf c) = [] \<or> clientPeer env = v_by (viewOf c) \<or> IsLoopback (ParseIP (clientPeer env)))"
  by (simp add: manages_def viewOf_def Let_def)

lemma manages_viewD: "manages env cl c \<Longrightarrow> v_tok (viewOf c') = v_tok (viewOf c) \<Longrightarrow> v_wired (viewOf c') = v_wired (viewOf c)
    \<Longrightarrow> v_by (viewOf c') = v_by (viewOf c) \<Longrightarrow> manages env cl c'"
  by (simp add: manages_view)

text \<open>One round trip: the instance behind the client ends up with the given view.\<close>

definition lands :: "Client \<Rightarrow> (string \<Rightarrow> Control) \<Rightarrow> 'w net \<Rightarrow> view \<Rightarrow> bool" where
  "lands cl nodes net v \<longleftrightarrow> (\<exists>c w. net = (nodes(cc_base cl := c), w) \<and> viewOf c = v)"

lemma call_lands:
  assumes "delivers env cl" and "manages env cl (nodes (cc_base cl))" and "path \<in> set protectedPaths"
    and "\<And>w. \<exists>c w' x. protected (cl_node env (cc_base cl)) (clientRequest env cl m path q) body (nodes (cc_base cl)) w = (c, w', x)
           \<and> replyStatus x < 400 \<and> viewOf c = v"
  shows "lands cl nodes (fst (ignoreReply (Client_do env cl m path q body (nodes, w)))) v
    \<and> snd (ignoreReply (Client_do env cl m path q body (nodes, w))) = None"
proof -
  obtain c w' x where "Client_do env cl m path q body (nodes, w) = ((nodes(cc_base cl := c), w'), Inr x)" "viewOf c = v"
    using do_achieves [where P = "\<lambda>c x. viewOf c = v" and w = w and nodes = nodes, OF assms] by blast
  then show ?thesis by (auto simp: lands_def ignoreReply_def)
qed

lemma protected_settings:
  "protected env (clientRequest ce cl m ''/api/v1/policy'' q) body c w
      = (case handlePolicy env (clientRequest ce cl m ''/api/v1/policy'' q) body c w of (c', x) \<Rightarrow> (c', w, x))"
    "protected env (clientRequest ce cl m ''/api/v1/blocklist'' q) body c w
      = (case handleBlocklist (clientRequest ce cl m ''/api/v1/blocklist'' q) body c of (c', x) \<Rightarrow> (c', w, x))"
    "protected env (clientRequest ce cl m ''/api/v1/doh'' q) body c w
      = ctl_handleDoH env (clientRequest ce cl m ''/api/v1/doh'' q) body c w"
    "protected env (clientRequest ce cl m ''/api/v1/ratelimit'' q) body c w
      = (case handleRateLimit (clientRequest ce cl m ''/api/v1/ratelimit'' q) body c of (c', x) \<Rightarrow> (c', w, x))"
    "protected env (clientRequest ce cl m ''/api/v1/cache'' q) body c w
      = (case handleCache (clientRequest ce cl m ''/api/v1/cache'' q) body c of (c', x) \<Rightarrow> (c', w, x))"
    "protected env (clientRequest ce cl m ''/api/v1/upstream'' q) body c w
      = (case handleUpstream (clientRequest ce cl m ''/api/v1/upstream'' q) body c of (c', x) \<Rightarrow> (c', w, x))"
    "protected env (clientRequest ce cl m ''/api/v1/records'' q) body c w
      = (case handleRecords (clientRequest ce cl m ''/api/v1/records'' q) body c of (c', x) \<Rightarrow> (c', w, x))"
    "protected env (clientRequest ce cl m ''/api/v1/health'' q) body c w = (c, w, handleHealth c)"
    "protected env (clientRequest ce cl m ''/api/v1/stats'' q) body c w = (c, w, handleStats c)"
  by (simp_all add: protected_def)

lemma path_protected:
  "''/api/v1/policy'' \<in> set protectedPaths" "''/api/v1/blocklist'' \<in> set protectedPaths"
  "''/api/v1/doh'' \<in> set protectedPaths" "''/api/v1/ratelimit'' \<in> set protectedPaths"
  "''/api/v1/cache'' \<in> set protectedPaths" "''/api/v1/upstream'' \<in> set protectedPaths"
  "''/api/v1/records'' \<in> set protectedPaths" "''/api/v1/health'' \<in> set protectedPaths"
  "''/api/v1/stats'' \<in> set protectedPaths" "''/api/v1/ha'' \<in> set protectedPaths" "''/api/v1/ha/apply'' \<in> set protectedPaths"
  by (simp_all add: protectedPaths_def)

lemma emptyBody_update [simp]:
  "dec_RateLimit (emptyBody\<lparr>dec_RateLimit := r\<rparr>) = r" "dec_Cache (emptyBody\<lparr>dec_Cache := n\<rparr>) = n"
  "dec_Records (emptyBody\<lparr>dec_Records := x\<rparr>) = x" "dec_Upstream (emptyBody\<lparr>dec_Upstream := u\<rparr>) = u"
  "dec_DoH (emptyBody\<lparr>dec_DoH := a\<rparr>) = a" "dec_Blocklist (emptyBody\<lparr>dec_Blocklist := l\<rparr>) = l"
  "dec_Policy (emptyBody\<lparr>dec_Policy := p\<rparr>) = p"
  by simp_all

definition onLine :: "'w client_env \<Rightarrow> Client \<Rightarrow> (string \<Rightarrow> Control) \<Rightarrow> Control \<Rightarrow> bool" where
  "onLine env cl nodes c \<longleftrightarrow> delivers env cl \<and> manages env cl c \<and> nodes (cc_base cl) = c"

lemma onLineD:
  assumes "onLine env cl nodes c"
  shows "delivers env cl" "manages env cl (nodes (cc_base cl))" "nodes (cc_base cl) = c" "ct_wired c"
  using assms by (simp_all add: onLine_def manages_def)

lemma call_rate:
  assumes "onLine env cl nodes c" and "0 \<le> q"
  shows "lands cl nodes (fst (Client_SetRateLimit env cl q 0 (nodes, w))) (vRate q (viewOf c))
    \<and> snd (Client_SetRateLimit env cl q 0 (nodes, w)) = None"
  unfolding Client_SetRateLimit_def
  by (rule call_lands [where nodes = nodes, OF onLineD(1,2) [OF assms(1)] path_protected(4)])
     (use assms(2) onLineD(3,4) [OF assms(1)] in \<open>auto simp: protected_settings handleRateLimit_def replyStatus_def onSrv_def
        viewOf_def vRate_def SetRateLimit_def Let_def split: option.splits\<close>)

lemma call_cache:
  assumes "onLine env cl nodes c" and "0 \<le> n"
  shows "lands cl nodes (fst (Client_SetCacheConfig env cl n (nodes, w))) (vCache n (viewOf c))
    \<and> snd (Client_SetCacheConfig env cl n (nodes, w)) = None"
  unfolding Client_SetCacheConfig_def
  by (rule call_lands [where nodes = nodes, OF onLineD(1,2) [OF assms(1)] path_protected(5)])
     (use assms(2) onLineD(3,4) [OF assms(1)] in \<open>auto simp: protected_settings handleCache_def replyStatus_def
        viewOf_def vCache_def SetCacheConfig_def Let_def\<close>)

lemma call_records:
  assumes "onLine env cl nodes c"
  shows "lands cl nodes (fst (Client_SetRecords env cl rs (nodes, w))) (vRecords rs (viewOf c))
    \<and> snd (Client_SetRecords env cl rs (nodes, w)) = None"
  unfolding Client_SetRecords_def
  by (rule call_lands [where nodes = nodes, OF onLineD(1,2) [OF assms(1)] path_protected(7)])
     (use onLineD(3,4) [OF assms(1)] in \<open>auto simp: protected_settings handleRecords_def replyStatus_def onSrv_def
        viewOf_def vRecords_def SetRecords_def Let_def split: option.splits\<close>)

lemma call_blocklist:
  assumes "onLine env cl nodes c" and "v_list (viewOf c) \<noteq> None"
  shows "lands cl nodes (fst (Client_SetBlocklist env cl ds al (nodes, w))) (vList (ds, al) (viewOf c))
    \<and> snd (Client_SetBlocklist env cl ds al (nodes, w)) = None"
proof -
  obtain b where b: "s_Blocklist (ct_srv c) = Some b" using assms(2) by (auto simp: viewOf_def Let_def)
  show ?thesis
    unfolding Client_SetBlocklist_def
    by (rule call_lands [where nodes = nodes, OF onLineD(1,2) [OF assms(1)] path_protected(2)])
       (use b onLineD(3,4) [OF assms(1)] in \<open>auto simp: protected_settings handleBlocklist_def replyStatus_def onSrv_def
          viewOf_def vList_def PurgeCache_def Let_def\<close>)
qed

lemma call_upstream:
  assumes "onLine env cl nodes c" and "upstreamOk (sv, rt, bt) (viewOf c)"
  shows "lands cl nodes (fst (Client_SetUpstream env cl sv rt bt (nodes, w))) (vUpstream (sv, rt, bt) (viewOf c))
    \<and> snd (Client_SetUpstream env cl sv rt bt (nodes, w)) = None"
proof -
  obtain h p where p: "NewPoolWithBootstrap sv rt (s_Upstream (ct_srv c)) bt (s_heap (ct_srv c)) = (h, Inr p)"
    using assms(2) by (cases "NewPoolWithBootstrap sv rt (s_Upstream (ct_srv c)) bt (s_heap (ct_srv c))"; cases "snd (NewPoolWithBootstrap sv rt (s_Upstream (ct_srv c)) bt (s_heap (ct_srv c)))")
      (auto simp: upstreamOk_def viewOf_def Let_def)
  show ?thesis
    unfolding Client_SetUpstream_def
    by (rule call_lands [where nodes = nodes, OF onLineD(1,2) [OF assms(1)] path_protected(6)])
       (use p onLineD(3,4) [OF assms(1)] in \<open>auto simp: protected_settings handleUpstream_def SetUpstream_def replyStatus_def
          viewOf_def vUpstream_def Let_def\<close>)
qed

text \<open>A plain-HTTP listener address the instance can serve.\<close>

definition listenable :: "'w client_env \<Rightarrow> Client \<Rightarrow> string \<Rightarrow> bool" where
  "listenable env cl addr \<longleftrightarrow> addr = []
     \<or> ((\<exists>h port. SplitHostPort addr = Some (h, port) \<and> port \<noteq> [])
        \<and> (\<forall>w. snd (so_listen (ce_ops (cl_node env (cc_base cl))) addr w) = None))"

lemma SetDoHHTTPAddr_listenable:
  assumes "addr = [] \<or> ((\<exists>h port. SplitHostPort addr = Some (h, port) \<and> port \<noteq> []) \<and> (\<forall>w. snd (so_listen ops addr w) = None))"
  shows "\<exists>d w'. SetDoHHTTPAddr ops addr s w = (s\<lparr>s_dohPlain := d, s_dohPlainAddr := addr\<rparr>, w', None)"
proof (cases "addr = s_dohPlainAddr s")
  case True
  then show ?thesis by (intro exI [of _ "s_dohPlain s"] exI [of _ w]) (simp add: SetDoHHTTPAddr_def)
next
  case False
  obtain w1 d1 where s1: "stopDoHPlainLocked ops s w = (s\<lparr>s_dohPlain := d1, s_dohPlainAddr := []\<rparr>, w1)"
    by (cases "s_dohPlain s") (auto simp: stopDoHPlainLocked_def intro: that [of "s_dohPlain s"])
  show ?thesis
  proof (cases "addr = []")
    case True
    then show ?thesis using False s1 by (auto simp: SetDoHHTTPAddr_def)
  next
    case addr: False
    obtain w2 e where l: "so_listen ops addr w1 = (w2, e)" by force
    have "snd (so_listen ops addr w1) = None" using assms addr by blast
    then show ?thesis using assms addr False s1 l by (auto simp: SetDoHHTTPAddr_def)
  qed
qed

lemma call_doh:
  assumes "onLine env cl nodes c" and "listenable env cl addr"
  shows "lands cl nodes (fst (Client_SetDoHHTTPAddr env cl addr (nodes, w))) (vDoH addr (viewOf c))
    \<and> snd (Client_SetDoHHTTPAddr env cl addr (nodes, w)) = None"
  unfolding Client_SetDoHHTTPAddr_def
proof (rule call_lands [where nodes = nodes, OF onLineD(1,2) [OF assms(1)] path_protected(3)])
  fix w
  let ?r = "clientRequest env cl ''PUT'' ''/api/v1/doh'' []"
  obtain d w' where s: "SetDoHHTTPAddr (ce_ops (cl_node env (cc_base cl))) addr (ct_srv c) w
      = ((ct_srv c)\<lparr>s_dohPlain := d, s_dohPlainAddr := addr\<rparr>, w', None)"
    using SetDoHHTTPAddr_listenable [OF assms(2) [unfolded listenable_def]] by blast
  have "\<not> (addr \<noteq> [] \<and> SplitHostPort addr = None)" using assms(2) by (auto simp: listenable_def)
  then show "\<exists>c' w' x. protected (cl_node env (cc_base cl)) ?r (emptyBody\<lparr>dec_DoH := Inr addr\<rparr>) (nodes (cc_base cl)) w = (c', w', x)
      \<and> replyStatus x < 400 \<and> viewOf c' = vDoH addr (viewOf c)"
    using s onLineD(3,4) [OF assms(1)]
    by (simp add: protected_settings ctl_handleDoH_def replyStatus_def viewOf_def vDoH_def Let_def)
qed

lemma call_policy:
  assumes "onLine env cl nodes c" and "wp_ID p = ''default''"
  shows "lands cl nodes (fst (Client_SetPolicy env cl p (nodes, w))) (vPolicy (toFilter p) (viewOf c))
    \<and> snd (Client_SetPolicy env cl p (nodes, w)) = None"
  unfolding Client_SetPolicy_def
  by (rule call_lands [where nodes = nodes, OF onLineD(1,2) [OF assms(1)] path_protected(1)])
     (use assms(2) onLineD(3,4) [OF assms(1)] in \<open>auto simp: protected_settings handlePolicy_def replyStatus_def onSrv_def setStore_def
        viewOf_def vPolicy_def srvNotify_def Store_SetDefault_def Store_All_def compile_def Let_def\<close>)

subsection \<open>The reconcilers on the view\<close>

definition authView :: "'w client_env \<Rightarrow> Client \<Rightarrow> view \<Rightarrow> bool" where
  "authView env cl v \<longleftrightarrow> cc_token cl \<noteq> [] \<and> v_tok v = cc_token cl \<and> v_wired v
     \<and> (v_by v = [] \<or> clientPeer env = v_by v \<or> IsLoopback (ParseIP (clientPeer env)))"

lemma onLine_view: "onLine env cl nodes c \<longleftrightarrow> delivers env cl \<and> authView env cl (viewOf c) \<and> nodes (cc_base cl) = c"
  by (simp add: onLine_def authView_def manages_view)

lemma lands_self: "onLine env cl nodes c \<Longrightarrow> lands cl nodes (nodes, w) (viewOf c)"
  unfolding lands_def by (intro exI [of _ c] exI [of _ w]) (simp add: onLine_def fun_upd_idem)

text \<open>Chaining: what lands is the next step's starting point.\<close>

lemma lands_next:
  assumes "lands cl nodes net v" and "delivers env cl" and "authView env cl v"
    and "\<And>nodes' c w. onLine env cl nodes' c \<Longrightarrow> viewOf c = v \<Longrightarrow> lands cl nodes' (g (nodes', w)) v'"
  shows "lands cl nodes (g net) v'"
proof -
  obtain c w where c: "net = (nodes(cc_base cl := c), w)" "viewOf c = v" using assms(1) by (auto simp: lands_def)
  have "onLine env cl (nodes(cc_base cl := c)) c" using assms(2,3) c by (simp add: onLine_view)
  from assms(4) [OF this c(2), of w] show ?thesis using c by (auto simp: lands_def)
qed

lemma converge_auth [simp]:
  "authView env cl (rate.converge q v) = authView env cl v" "authView env cl (doh.converge a v) = authView env cl v"
  "authView env cl (cache.converge n v) = authView env cl v" "authView env cl (ups.converge fp u v) = authView env cl v"
  "authView env cl (list.converge l v) = authView env cl v" "authView env cl (records.converge rs v) = authView env cl v"
  "authView env cl (vPolicy p v) = authView env cl v"
  by (auto simp: authView_def rate.converge_def vRate_def doh.converge_def vDoH_def cache.converge_def vCache_def
      ups.converge_def vUpstream_def list.converge_def vList_def records.converge_def vRecords_def vPolicy_def
      split: prod.splits sum.splits)

lemma step_doh:
  assumes "onLine (fe_client env) (in_client i) nodes c" and "hasToken i"
    and "listenable (fe_client env) (in_client i) (effectiveDoHHTTPAddr f (instID i))"
    and "sr_DohHTTPAddr st = v_doh (viewOf c)"
  shows "lands (in_client i) nodes (maybePushDoH env f (Some st) i (nodes, w))
    (doh.converge (effectiveDoHHTTPAddr f (instID i)) (viewOf c))"
  using call_doh [OF assms(1,3), of w] lands_self [OF assms(1), of w] assms(2,4)
  by (simp add: maybePushDoH_def Let_def doh.converge_def)

lemma step_rate:
  assumes "onLine (fe_client env) (in_client i) nodes c" and "hasToken i"
    and "0 \<le> effectiveRateLimitQPS f (instID i)" and "sr_RateLimitQPS st = rRate (viewOf c)"
  shows "lands (in_client i) nodes (maybePushRateLimit env f (Some st) i (nodes, w))
    (rate.converge (effectiveRateLimitQPS f (instID i)) (viewOf c))"
  using call_rate [OF assms(1,3), of w] lands_self [OF assms(1), of w] assms(2,4)
  by (simp add: maybePushRateLimit_def Let_def rate.converge_def)

lemma step_cache:
  assumes "onLine (fe_client env) (in_client i) nodes c" and "hasToken i" and "cacheConfiguredFor f (instID i)"
    and "0 \<le> effectiveCacheConfig f (instID i)" and "sr_CacheSize st = v_csize (viewOf c)"
  shows "lands (in_client i) nodes (maybePushCache env f (Some st) i (nodes, w))
    (cache.converge (effectiveCacheConfig f (instID i)) (viewOf c))"
  using call_cache [OF assms(1,4), of w] lands_self [OF assms(1), of w] assms(2,3,5)
  by (simp add: maybePushCache_def Let_def cache.converge_def)

lemma step_upstream:
  assumes "onLine (fe_client env) (in_client i) nodes c" and "hasToken i"
    and "effectiveUpstream f (instID i) = (sv, rt, bt)" and "\<not> (sv = [] \<and> rt = [])" and "upstreamOk (sv, rt, bt) (viewOf c)"
    and "(sr_UpstreamServers st, sr_UpstreamRoutes st, sr_BootstrapServers st) = rUpstream (viewOf c)"
  shows "lands (in_client i) nodes (maybePushUpstream env f (Some st) i (nodes, w))
    (ups.converge (fe_upstreamHash env) (sv, rt, bt) (viewOf c))"
  using call_upstream [OF assms(1,5), of w] lands_self [OF assms(1), of w] assms(2-4)
  unfolding maybePushUpstream_def Let_def ups.converge_def assms(6) [symmetric] by auto

lemma step_records:
  assumes "onLine (fe_client env) (in_client i) nodes c" and "hasToken i"
    and "io_Records (overrideOf f (instID i)) = None" and "filter kept (fl_records f) = fl_records f"
    and "sr_RecordsHash st = rRecords (viewOf c)"
  shows "lands (in_client i) nodes (maybePushRecords env f (Some st) i (nodes, w))
    (records.converge (fl_records f) (viewOf c))"
  using call_records [OF assms(1), of "fl_records f" w] lands_self [OF assms(1), of w] assms(2-5)
  by (simp add: maybePushRecords_def Let_def records.converge_def Fleet_recordsHash_def effectiveRecords_def)

text \<open>The bookkeeping a poll may change on the controller's side; identity and client stay.\<close>

definition sameInstance :: "Instance \<Rightarrow> Instance \<Rightarrow> bool" where
  "sameInstance i j \<longleftrightarrow> in_Config j = in_Config i \<and> in_client j = in_client i"

lemma sameInstanceD:
  assumes "sameInstance i j"
  shows "instID j = instID i" "hasToken j = hasToken i" "in_client j = in_client i"
  using assms by (simp_all add: sameInstance_def instID_def hasToken_def)

definition policySynced :: "'w fleet_env \<Rightarrow> Fleet \<Rightarrow> Instance \<Rightarrow> view \<Rightarrow> bool" where
  "policySynced env f i v \<longleftrightarrow>
     (case effectivePolicy env f (instID i) of
        (None, _) \<Rightarrow> True
      | (Some eff, hash) \<Rightarrow> hash = [] \<or> (in_appliedHash i = hash \<and> rPolicy v = wp_Upstream eff))"

definition defaultNamed :: "Fleet \<Rightarrow> bool" where
  "defaultNamed f \<longleftrightarrow> (\<forall>p. fl_defaultPolicy f = Some p \<longrightarrow> wp_ID p = ''default'')"

lemma effective_named: "defaultNamed f \<Longrightarrow> effectivePolicy env f k = (Some eff, h) \<Longrightarrow> wp_ID eff = ''default''"
  by (auto simp: defaultNamed_def effectivePolicy_def emptyPolicy_def Let_def split: option.splits)

lemma step_config:
  assumes on: "onLine (fe_client env) (in_client i) nodes c" and tok: "hasToken i" and named: "defaultNamed f"
    and rep: "sr_Upstream st = rPolicy (viewOf c)"
  obtains i1 net1 v1 where "maybePushConfig env f (Some st) i (nodes, w) = (i1, net1)"
    "lands (in_client i) nodes net1 v1" "v1 = viewOf c \<or> (\<exists>p. v1 = vPolicy p (viewOf c))" "sameInstance i i1"
    "policySynced env f i1 v1" "in_blPushing i1 = in_blPushing i" "in_blRetryAfter i1 = in_blRetryAfter i"
proof -
  note self = lands_self [OF on, of w]
  obtain e h where eh: "effectivePolicy env f (instID i) = (e, h)" by force
  show thesis
  proof (cases "e = None \<or> h = [] \<or> (in_appliedHash i = h \<and> rPolicy (viewOf c) = wp_Upstream (the e))")
    case True
    then have "maybePushConfig env f (Some st) i (nodes, w) = (i, (nodes, w))" "policySynced env f i (viewOf c)"
      using eh rep by (auto simp: maybePushConfig_def configApplied_def policySynced_def split: option.splits)
    then show thesis using that self by (simp add: sameInstance_def)
  next
    case False
    then obtain eff where eff: "e = Some eff" "h \<noteq> []" "\<not> (in_appliedHash i = h \<and> rPolicy (viewOf c) = wp_Upstream eff)" by auto
    obtain n where n: "Client_SetPolicy (fe_client env) (in_client i) eff (nodes, w) = (n, None)"
      "lands (in_client i) nodes n (vPolicy (toFilter eff) (viewOf c))"
      using call_policy [OF on effective_named [OF named eh [unfolded eff(1)]], of w] by (metis prod.collapse)
    let ?i = "markConfigAppliedWith h (wp_Upstream eff) i"
    have "maybePushConfig env f (Some st) i (nodes, w) = (?i, n)"
      using eh eff rep tok n(1) by (auto simp: maybePushConfig_def configApplied_def)
    moreover have "policySynced env f ?i (vPolicy (toFilter eff) (viewOf c))"
      using eh eff by (simp add: policySynced_def markConfigAppliedWith_def instID_def rPolicy_def vPolicy_def toFilter_def)
    ultimately show thesis
      using that [of ?i n "vPolicy (toFilter eff) (viewOf c)"] n(2)
      by (auto simp: sameInstance_def markConfigAppliedWith_def)
  qed
qed

text \<open>When the controller may push its merged list, and the list survives the trip.\<close>

definition listReady :: "'w fleet_env \<Rightarrow> Fleet \<Rightarrow> Instance \<Rightarrow> bool" where
  "listReady env f i \<longleftrightarrow>
     \<not> fl_blLoading f \<and> \<not> in_blPushing i \<and> (\<forall>w. in_blRetryAfter i \<le> fe_now env w)
     \<and> Blocklist_inv (fl_blocklist (syncAllowed f)) \<and> Blocklist_canonical (fl_blocklist (syncAllowed f))
     \<and> (\<forall>S \<in> {bl_exact (fl_blocklist (syncAllowed f)), bl_wild (fl_blocklist (syncAllowed f)),
              bl_allowExact (fl_blocklist (syncAllowed f)), bl_allowWild (fl_blocklist (syncAllowed f))}.
          enumerates (fe_order env S) S)"

definition fleetList :: "'w fleet_env \<Rightarrow> Fleet \<Rightarrow> string list \<times> string list" where
  "fleetList env f = (listDomains env (fl_blocklist (syncAllowed f)), listAllowed env (fl_blocklist (syncAllowed f)))"

lemma fleetList_want:
  assumes "listReady env f i"
  shows "Blocklist_Checksum (Blocklist_SetAllowed (snd (fleetList env f)) (Blocklist_FromDomains (fst (fleetList env f)) Blip_Blocklist.New))
    = Blocklist_Checksum (fl_blocklist (syncAllowed f))"
  using assms relist_same [of "fl_blocklist (syncAllowed f)"
      "fe_order env (bl_exact (fl_blocklist (syncAllowed f)))" "fe_order env (bl_wild (fl_blocklist (syncAllowed f)))"
      "fe_order env (bl_allowExact (fl_blocklist (syncAllowed f)))" "fe_order env (bl_allowWild (fl_blocklist (syncAllowed f)))"]
  by (simp add: listReady_def fleetList_def listDomains_def listAllowed_def)

lemma step_blocklist:
  assumes on: "onLine (fe_client env) (in_client i) nodes c" and tok: "hasToken i" and ready: "listReady env f i"
    and lst: "v_list (viewOf c) \<noteq> None" and rep: "sr_BlocklistHash st = rList (viewOf c)"
  obtains i1 net1 where "maybePushBlocklist env (Some st) f i (nodes, w) = (syncAllowed f, i1, net1)"
    "lands (in_client i) nodes net1 (list.converge (fleetList env f) (viewOf c))" "sameInstance i i1"
    "in_appliedHash i1 = in_appliedHash i" "in_haHash i1 = in_haHash i" "\<not> in_blPushing i1" "\<forall>w. in_blRetryAfter i1 \<le> fe_now env w \<or> in_blRetryAfter i1 = 0"
proof (cases "rList (viewOf c) = Blocklist_Checksum (fl_blocklist (syncAllowed f))")
  case True
  let ?i = "markBlocklistApplied (Blocklist_Checksum (fl_blocklist (syncAllowed f))) i"
  have "maybePushBlocklist env (Some st) f i (nodes, w) = (syncAllowed f, ?i, (nodes, w))"
    using True rep tok ready by (simp add: maybePushBlocklist_def reportedBlocklistHash_def listReady_def Let_def)
  moreover have "list.converge (fleetList env f) (viewOf c) = viewOf c"
    using True fleetList_want [OF ready] by (intro list.converge_stable) simp
  ultimately show thesis using that lands_self [OF on, of w] ready
    by (simp add: sameInstance_def markBlocklistApplied_def listReady_def)
next
  case False
  define i1 where "i1 = (if rList (viewOf c) \<noteq> in_blHash i then fst (foreignBlocklistDetected i) else i)"
  have i1: "\<not> in_blPushing i1" "\<forall>w. in_blRetryAfter i1 \<le> fe_now env w" "sameInstance i i1" "in_appliedHash i1 = in_appliedHash i" "in_haHash i1 = in_haHash i"
    using ready by (auto simp: i1_def foreignBlocklistDetected_def listReady_def sameInstance_def)
  let ?i2 = "i1\<lparr>in_blPushing := True\<rparr>"
  have slot: "tryBeginBlocklistPush (fe_now env w) i1 = (?i2, True)"
    using i1(1,2) by (simp add: tryBeginBlocklistPush_def not_less)
  have cl: "in_client i1 = in_client i" using i1(3) by (simp add: sameInstance_def)
  obtain n where n: "Client_SetBlocklist (fe_client env) (in_client i) (fst (fleetList env f)) (snd (fleetList env f)) (nodes, w) = (n, None)"
    "lands (in_client i) nodes n (vList (fleetList env f) (viewOf c))"
    using call_blocklist [OF on lst, of "fst (fleetList env f)" "snd (fleetList env f)" w] by (metis prod.collapse)
  have "maybePushBlocklist env (Some st) f i (nodes, w)
      = (syncAllowed f, finishBlocklistPush None (Blocklist_Checksum (fl_blocklist (syncAllowed f))) (fe_now env (snd n)) ?i2, n)"
    using False rep tok ready slot cl n(1)
    by (simp add: maybePushBlocklist_def reportedBlocklistHash_def listReady_def i1_def [symmetric] fleetList_def Let_def)
  moreover have "list.converge (fleetList env f) (viewOf c) = vList (fleetList env f) (viewOf c)"
    using False fleetList_want [OF ready] by (simp add: list.converge_def)
  ultimately show thesis
    using that n(2) i1 by (simp add: finishBlocklistPush_def sameInstance_def)
qed

lemma do_host:
  assumes "onLine env cl nodes c" and "path = ''/api/v1/ha'' \<or> path = ''/api/v1/ha/apply''"
  shows "\<exists>w'. fst (Client_do env cl m path q body (nodes, w)) = (nodes, w')"
proof -
  obtain w1 d where t: "cl_transport env (cc_base cl) w = (w1, d)" by force
  obtain w2 x where "protected (cl_node env (cc_base cl)) (clientRequest env cl m path q) body (nodes (cc_base cl)) w1
      = (nodes (cc_base cl), w2, x)"
  proof (cases "path = ''/api/v1/ha''")
    case True
    then show thesis using that
      by (cases "handleHAConfig (cl_node env (cc_base cl)) (clientRequest env cl m path q) body w1") (simp add: protected_def)
  next
    case False
    then show thesis using that assms(2)
      by (cases "handleHAApply (cl_node env (cc_base cl)) (clientRequest env cl m path q) w1") (simp add: protected_def)
  qed
  then show ?thesis
    using do_protected [where nodes = nodes, OF onLineD(1,2) [OF assms(1)] _ t, of path] assms(2) path_protected(10,11)
    by auto
qed

lemma step_ha:
  assumes "onLine (fe_client env) (in_client i) nodes c"
  obtains i1 w1 where "maybePushHA env f i (nodes, w) = (i1, (nodes, w1))" "sameInstance i i1"
    "in_appliedHash i1 = in_appliedHash i" "in_blPushing i1 = in_blPushing i" "in_blRetryAfter i1 = in_blRetryAfter i"
proof -
  have apply_keeps: "\<exists>w'. fst (setAndApplyHA env i cfg (nodes, w)) = (nodes, w')" for cfg
  proof -
    obtain n e where n: "Client_SetHAConfig (fe_client env) (in_client i) cfg (nodes, w) = (n, e)" by (metis surj_pair)
    obtain w1 where w1: "n = (nodes, w1)"
      using do_host [OF assms, of "''/api/v1/ha''" "''PUT''" "[]" "emptyBody\<lparr>dec_HA := Inr cfg\<rparr>" w] n
      by (auto simp: Client_SetHAConfig_def ignoreReply_def split: prod.splits sum.splits)
    show ?thesis
      using do_host [OF assms, of "''/api/v1/ha/apply''" "''POST''" "[]" emptyBody w1] n w1
      by (cases e) (auto simp: setAndApplyHA_def Client_ApplyHA_def ignoreReply_def split: prod.splits sum.splits)
  qed
  consider (idle) "maybePushHA env f i (nodes, w) = (i, (nodes, w))"
    | (call) cfg where "maybePushHA env f i (nodes, w)
        = (case setAndApplyHA env i cfg (nodes, w) of
             (net1, Some _) \<Rightarrow> (i, net1) | (net1, None) \<Rightarrow> (markHAApplied (haHashFor env f (instID i)) i, net1))"
  proof (cases "effectiveHABConfig f (instID i)")
    case None
    then show thesis using idle by (simp add: maybePushHA_def)
  next
    case (Some cfg)
    show thesis
    proof (cases "\<not> hasToken i \<or> (uj_Running (fl_updateJob f) \<and> uj_Current (fl_updateJob f) = instID i)
        \<or> haConfigApplied (haHashFor env f (instID i)) i")
      case True
      then have "maybePushHA env f i (nodes, w) = (i, (nodes, w))" using Some unfolding maybePushHA_def by auto
      then show thesis by (rule idle)
    next
      case False
      show thesis by (rule call [of cfg]) (use False Some in \<open>auto simp: maybePushHA_def\<close>)
    qed
  qed
  then show thesis
  proof cases
    case idle
    then show thesis using that by (simp add: sameInstance_def)
  next
    case call
    obtain n e where n: "setAndApplyHA env i cfg (nodes, w) = (n, e)" by (metis surj_pair)
    then obtain w1 where "n = (nodes, w1)" using apply_keeps [of cfg] by auto
    then show thesis using that call n by (cases e) (auto simp: sameInstance_def markHAApplied_def)
  qed
qed

subsection \<open>A whole reconciliation\<close>

lemma view_frames [simp]:
  "v_doh (vPolicy p v) = v_doh v" "v_rl (vPolicy p v) = v_rl v" "v_csize (vPolicy p v) = v_csize v"
  "v_pool (vPolicy p v) = v_pool v" "v_heap (vPolicy p v) = v_heap v" "v_legacy (vPolicy p v) = v_legacy v"
  "v_list (vPolicy p v) = v_list v" "v_rec (vPolicy p v) = v_rec v"
  "v_default (doh.converge a v) = v_default v" "v_rl (doh.converge a v) = v_rl v" "v_csize (doh.converge a v) = v_csize v"
  "v_pool (doh.converge a v) = v_pool v" "v_heap (doh.converge a v) = v_heap v" "v_legacy (doh.converge a v) = v_legacy v"
  "v_list (doh.converge a v) = v_list v" "v_rec (doh.converge a v) = v_rec v"
  "v_default (rate.converge q v) = v_default v" "v_doh (rate.converge q v) = v_doh v" "v_csize (rate.converge q v) = v_csize v"
  "v_pool (rate.converge q v) = v_pool v" "v_heap (rate.converge q v) = v_heap v" "v_legacy (rate.converge q v) = v_legacy v"
  "v_list (rate.converge q v) = v_list v" "v_rec (rate.converge q v) = v_rec v"
  "v_default (cache.converge n v) = v_default v" "v_doh (cache.converge n v) = v_doh v" "v_rl (cache.converge n v) = v_rl v"
  "v_pool (cache.converge n v) = v_pool v" "v_heap (cache.converge n v) = v_heap v" "v_legacy (cache.converge n v) = v_legacy v"
  "v_list (cache.converge n v) = v_list v" "v_rec (cache.converge n v) = v_rec v"
  "v_default (ups.converge fp u v) = v_default v" "v_doh (ups.converge fp u v) = v_doh v" "v_rl (ups.converge fp u v) = v_rl v"
  "v_csize (ups.converge fp u v) = v_csize v" "v_list (ups.converge fp u v) = v_list v" "v_rec (ups.converge fp u v) = v_rec v"
  "v_default (list.converge l v) = v_default v" "v_doh (list.converge l v) = v_doh v" "v_rl (list.converge l v) = v_rl v"
  "v_csize (list.converge l v) = v_csize v" "v_pool (list.converge l v) = v_pool v" "v_rec (list.converge l v) = v_rec v"
  "v_default (records.converge rs v) = v_default v" "v_doh (records.converge rs v) = v_doh v" "v_rl (records.converge rs v) = v_rl v"
  "v_csize (records.converge rs v) = v_csize v" "v_pool (records.converge rs v) = v_pool v" "v_list (records.converge rs v) = v_list v"
  by (auto simp: rate.converge_def vRate_def doh.converge_def vDoH_def cache.converge_def vCache_def
      ups.converge_def vUpstream_def list.converge_def vList_def records.converge_def vRecords_def vPolicy_def
      split: prod.splits sum.splits)

definition acceptable :: "'w fleet_env \<Rightarrow> Fleet \<Rightarrow> Instance \<Rightarrow> Control \<Rightarrow> bool" where
  "acceptable env f i c \<longleftrightarrow>
     hasToken i \<and> defaultNamed f \<and> listReady env f i
     \<and> listenable (fe_client env) (in_client i) (effectiveDoHHTTPAddr f (instID i))
     \<and> 0 \<le> effectiveRateLimitQPS f (instID i) \<and> v_rl (viewOf c) \<noteq> None
     \<and> (cacheConfiguredFor f (instID i) \<longrightarrow> 0 \<le> effectiveCacheConfig f (instID i))
     \<and> (case effectiveUpstream f (instID i) of (sv, rt, bt) \<Rightarrow> (sv = [] \<and> rt = []) \<or> upstreamOk (sv, rt, bt) (viewOf c))
     \<and> v_list (viewOf c) \<noteq> None
     \<and> io_Records (overrideOf f (instID i)) = None \<and> filter kept (fl_records f) = fl_records f \<and> v_rec (viewOf c) \<noteq> None"

definition wantCache :: "Fleet \<Rightarrow> string \<Rightarrow> view \<Rightarrow> view" where
  "wantCache f k v = (if cacheConfiguredFor f k then cache.converge (effectiveCacheConfig f k) v else v)"

definition wantUpstream :: "'w fleet_env \<Rightarrow> Fleet \<Rightarrow> string \<Rightarrow> view \<Rightarrow> view" where
  "wantUpstream env f k v =
     (case effectiveUpstream f k of (sv, rt, bt) \<Rightarrow>
        if sv = [] \<and> rt = [] then v else ups.converge (fe_upstreamHash env) (sv, rt, bt) v)"

lemma want_frames [simp]:
  "v_default (wantCache f k v) = v_default v" "v_doh (wantCache f k v) = v_doh v" "v_rl (wantCache f k v) = v_rl v"
  "v_pool (wantCache f k v) = v_pool v" "v_heap (wantCache f k v) = v_heap v" "v_legacy (wantCache f k v) = v_legacy v"
  "v_list (wantCache f k v) = v_list v" "v_rec (wantCache f k v) = v_rec v" "authView ce cl (wantCache f k v) = authView ce cl v"
  "v_default (wantUpstream env f k v) = v_default v" "v_doh (wantUpstream env f k v) = v_doh v"
  "v_rl (wantUpstream env f k v) = v_rl v" "v_csize (wantUpstream env f k v) = v_csize v"
  "v_list (wantUpstream env f k v) = v_list v" "v_rec (wantUpstream env f k v) = v_rec v"
  "authView ce cl (wantUpstream env f k v) = authView ce cl v"
  by (simp_all add: wantCache_def wantUpstream_def split: prod.splits)

text \<open>The five settings between the policy and the blocklist.\<close>

lemma settings_land:
  assumes on: "onLine (fe_client env) (in_client i) nodes c" and ok: "acceptable env f i c"
    and v: "v_doh (viewOf c) = v_doh v0" "v_rl (viewOf c) = v_rl v0" "v_csize (viewOf c) = v_csize v0" "v_pool (viewOf c) = v_pool v0"
    and st: "sr_DohHTTPAddr st = v_doh v0" "sr_RateLimitQPS st = rRate v0" "sr_CacheSize st = v_csize v0"
      "(sr_UpstreamServers st, sr_UpstreamRoutes st, sr_BootstrapServers st) = rUpstream v0"
  defines "k \<equiv> instID i"
  shows "lands (in_client i) nodes
     (maybePushUpstream env f (Some st) i (maybePushCache env f (Some st) i
       (maybePushRateLimit env f (Some st) i (maybePushDoH env f (Some st) i (nodes, w)))))
     (wantUpstream env f k (wantCache f k (rate.converge (effectiveRateLimitQPS f k) (doh.converge (effectiveDoHHTTPAddr f k) (viewOf c)))))"
proof -
  let ?ce = "fe_client env" and ?cl = "in_client i" and ?v = "viewOf c"
  have del: "delivers ?ce ?cl" and auth: "authView ?ce ?cl ?v" using on by (simp_all add: onLine_view)
  have tok: "hasToken i" and okv: "listenable ?ce ?cl (effectiveDoHHTTPAddr f k)" "0 \<le> effectiveRateLimitQPS f k"
    using ok by (simp_all add: acceptable_def k_def)
  have 1: "lands ?cl nodes (maybePushDoH env f (Some st) i (nodes, w)) (doh.converge (effectiveDoHHTTPAddr f k) ?v)"
    using step_doh [OF on tok okv(1) [unfolded k_def], of st w] st(1) v(1) by (simp add: k_def)
  have 2: "lands ?cl nodes (maybePushRateLimit env f (Some st) i (maybePushDoH env f (Some st) i (nodes, w)))
      (rate.converge (effectiveRateLimitQPS f k) (doh.converge (effectiveDoHHTTPAddr f k) ?v))" (is "lands _ _ _ ?v2")
  proof (rule lands_next [OF 1 del, of "maybePushRateLimit env f (Some st) i"])
    fix nodes' c' w' assume o: "onLine ?ce ?cl nodes' c'" and v': "viewOf c' = doh.converge (effectiveDoHHTTPAddr f k) ?v"
    show "lands ?cl nodes' (maybePushRateLimit env f (Some st) i (nodes', w')) ?v2"
      using step_rate [OF o tok okv(2) [unfolded k_def], of st w'] v' st(2) v(2) by (simp add: k_def rRate_def)
  qed (simp add: auth)
  have 3: "lands ?cl nodes (maybePushCache env f (Some st) i (maybePushRateLimit env f (Some st) i (maybePushDoH env f (Some st) i (nodes, w))))
      (wantCache f k ?v2)"
  proof (rule lands_next [OF 2 del, of "maybePushCache env f (Some st) i"])
    fix nodes' c' w' assume o: "onLine ?ce ?cl nodes' c'" and v': "viewOf c' = ?v2"
    show "lands ?cl nodes' (maybePushCache env f (Some st) i (nodes', w')) (wantCache f k ?v2)"
    proof (cases "cacheConfiguredFor f k")
      case True
      then have "0 \<le> effectiveCacheConfig f k" using ok by (simp add: acceptable_def k_def)
      then show ?thesis using step_cache [OF o tok, of f st w'] True v' st(3) v(3) by (simp add: k_def wantCache_def)
    next
      case False
      then show ?thesis using lands_self [OF o, of w'] v' by (simp add: k_def wantCache_def maybePushCache_def)
    qed
  qed (simp add: auth)
  show ?thesis
  proof (rule lands_next [OF 3 del, of "maybePushUpstream env f (Some st) i"])
    fix nodes' c' w' assume o: "onLine ?ce ?cl nodes' c'" and v': "viewOf c' = wantCache f k ?v2"
    obtain sv rt bt where u: "effectiveUpstream f (instID i) = (sv, rt, bt)" by (metis prod_cases3)
    show "lands ?cl nodes' (maybePushUpstream env f (Some st) i (nodes', w')) (wantUpstream env f k (wantCache f k ?v2))"
    proof (cases "sv = [] \<and> rt = []")
      case True
      then show ?thesis using lands_self [OF o, of w'] v' u by (simp add: k_def wantUpstream_def maybePushUpstream_def)
    next
      case False
      then have "upstreamOk (sv, rt, bt) (viewOf c')" using ok u v' by (auto simp: acceptable_def upstreamOk_def)
      moreover have "rUpstream (viewOf c') = rUpstream v0" using v(4) v' by (simp add: rUpstream_def)
      ultimately show ?thesis using step_upstream [OF o tok u False, of st w'] v' st(4) u False
        by (auto simp: k_def wantUpstream_def)
    qed
  qed (simp add: auth)
qed

text \<open>What an instance that agrees with the fleet reports.\<close>

definition synced :: "'w fleet_env \<Rightarrow> Fleet \<Rightarrow> Instance \<Rightarrow> StatsResponse \<Rightarrow> bool" where
  "synced env f i st \<longleftrightarrow> (let k = instID i in
     (case effectivePolicy env f k of
        (None, _) \<Rightarrow> True | (Some eff, hash) \<Rightarrow> hash = [] \<or> (in_appliedHash i = hash \<and> sr_Upstream st = wp_Upstream eff))
     \<and> sr_DohHTTPAddr st = effectiveDoHHTTPAddr f k
     \<and> sr_RateLimitQPS st = effectiveRateLimitQPS f k
     \<and> (cacheConfiguredFor f k \<longrightarrow> sr_CacheSize st = effectiveCacheConfig f k)
     \<and> (case effectiveUpstream f k of (sv, rt, bt) \<Rightarrow> (sv = [] \<and> rt = [])
          \<or> fe_upstreamHash env (sr_UpstreamServers st, sr_UpstreamRoutes st, sr_BootstrapServers st) = fe_upstreamHash env (sv, rt, bt))
     \<and> sr_BlocklistHash st = Blocklist_Checksum (fl_blocklist (syncAllowed f))
     \<and> sr_RecordsHash st = RecordsHash (effectiveRecords f k))"

lemma onList_settings [simp]:
  "effectivePolicy env (syncAllowed f) k = effectivePolicy env f k"
  "effectiveDoHHTTPAddr (syncAllowed f) k = effectiveDoHHTTPAddr f k" "effectiveRateLimitQPS (syncAllowed f) k = effectiveRateLimitQPS f k"
  "cacheConfiguredFor (syncAllowed f) k = cacheConfiguredFor f k" "effectiveCacheConfig (syncAllowed f) k = effectiveCacheConfig f k"
  "effectiveUpstream (syncAllowed f) k = effectiveUpstream f k" "effectiveRecords (syncAllowed f) k = effectiveRecords f k"
  "overrideOf (syncAllowed f) k = overrideOf f k" "fl_records (syncAllowed f) = fl_records f"
  "Fleet_recordsHash (syncAllowed f) = Fleet_recordsHash f" "AllowedDomains (syncAllowed f) = AllowedDomains f"
  by (simp_all add: syncAllowed_def onList_def effectivePolicy_def effectiveDoHHTTPAddr_def effectiveRateLimitQPS_def
      cacheConfiguredFor_def effectiveCacheConfig_def effectiveUpstream_def effectiveRecords_def overrideOf_def
      Fleet_recordsHash_def AllowedDomains_def split: option.splits)

lemma wantUpstream_report:
  assumes "effectiveUpstream f k = (sv, rt, bt)" and "\<not> (sv = [] \<and> rt = [])" and "upstreamOk (sv, rt, bt) v"
  shows "fe_upstreamHash env (rUpstream (wantUpstream env f k v)) = fe_upstreamHash env (sv, rt, bt)"
proof -
  have "wantUpstream env f k v = ups.converge (fe_upstreamHash env) (sv, rt, bt) v"
    using assms(1,2) by (auto simp: wantUpstream_def)
  then show ?thesis using ups.converge_report [OF assms(3), of "fe_upstreamHash env"] by simp
qed

lemma converged_synced:
  assumes ok: "acceptable env f i c" and wired: "v_wired (viewOf c')" and same: "sameInstance i i'"
    and pol: "policySynced env f i' v1"
    and v1: "v_rl v1 = v_rl (viewOf c)" "v_list v1 = v_list (viewOf c)" "v_rec v1 = v_rec (viewOf c)"
      "v_heap v1 = v_heap (viewOf c)" "v_legacy v1 = v_legacy (viewOf c)"
    and v5: "v5 = wantUpstream env f (instID i) (wantCache f (instID i) (rate.converge (effectiveRateLimitQPS f (instID i))
      (doh.converge (effectiveDoHHTTPAddr f (instID i)) v1)))"
    and c': "viewOf c' = records.converge (fl_records f) (list.converge (fleetList env f) v5)"
  shows "synced env f i' (statsOf c')"
proof -
  let ?k = "instID i" and ?v = "viewOf c'"
  have k: "instID i' = ?k" using same by (simp add: sameInstance_def instID_def)
  have rep: "sr_Upstream (statsOf c') = rPolicy ?v" "sr_DohHTTPAddr (statsOf c') = v_doh ?v"
    "sr_RateLimitQPS (statsOf c') = rRate ?v" "sr_CacheSize (statsOf c') = v_csize ?v"
    "(sr_UpstreamServers (statsOf c'), sr_UpstreamRoutes (statsOf c'), sr_BootstrapServers (statsOf c')) = rUpstream ?v"
    "sr_BlocklistHash (statsOf c') = rList ?v" "sr_RecordsHash (statsOf c') = rRecords ?v"
    by (simp_all add: statsOf_view [OF wired])
  have "rPolicy ?v = rPolicy v1" using c' v5 by (simp add: rPolicy_def)
  moreover have "v_doh ?v = effectiveDoHHTTPAddr f ?k" using c' v5 doh.converge_report by simp
  moreover have "rRate ?v = effectiveRateLimitQPS f ?k"
  proof -
    have "rRate ?v = rRate (rate.converge (effectiveRateLimitQPS f ?k) (doh.converge (effectiveDoHHTTPAddr f ?k) v1))"
      using c' v5 by (simp add: rRate_def)
    also have "\<dots> = effectiveRateLimitQPS f ?k" using ok v1 by (intro rate.converge_report) (simp add: acceptable_def)
    finally show ?thesis .
  qed
  moreover have "cacheConfiguredFor f ?k \<longrightarrow> v_csize ?v = effectiveCacheConfig f ?k"
    using c' v5 cache.converge_report by (simp add: wantCache_def)
  moreover have "(sv = [] \<and> rt = []) \<or> fe_upstreamHash env (rUpstream ?v) = fe_upstreamHash env (sv, rt, bt)"
    if u: "effectiveUpstream f ?k = (sv, rt, bt)" for sv rt bt
  proof (cases "sv = [] \<and> rt = []")
    case False
    have "rUpstream ?v = rUpstream v5" using c' by (simp add: rUpstream_def)
    moreover have "upstreamOk (sv, rt, bt) (wantCache f ?k (rate.converge (effectiveRateLimitQPS f ?k) (doh.converge (effectiveDoHHTTPAddr f ?k) v1)))"
      using ok u False v1 by (auto simp: acceptable_def upstreamOk_def)
    ultimately show ?thesis using wantUpstream_report [OF u False, where env = env] v5 by simp
  qed simp
  moreover have "rList ?v = Blocklist_Checksum (fl_blocklist (syncAllowed f))"
  proof -
    have "rList ?v = rList (list.converge (fleetList env f) v5)" using c' by (simp add: rList_def)
    also have "\<dots> = Blocklist_Checksum (fl_blocklist (syncAllowed f))"
      using ok v1 v5 fleetList_want [of env f i] list.converge_report [of v5 "fleetList env f"] by (simp add: acceptable_def)
    finally show ?thesis .
  qed
  moreover have "rRecords ?v = RecordsHash (fl_records f)"
    using ok v1 v5 c' records.converge_report [of "list.converge (fleetList env f) v5" "fl_records f"] by (simp add: acceptable_def)
  moreover have "effectiveRecords f ?k = fl_records f" using ok by (simp add: acceptable_def effectiveRecords_def)
  ultimately show ?thesis
    using pol unfolding synced_def policySynced_def Let_def k rep by (auto split: prod.splits option.splits)
qed

lemma reconcile_syncs:
  assumes on: "onLine (fe_client env) (in_client i) nodes c" and ok: "acceptable env f i c"
  obtains f' i' c' w' where "reconcile env (Some (statsOf c)) f i (nodes, w) = (f', i', (nodes(cc_base (in_client i) := c'), w'))"
    "f' = syncAllowed f" "sameInstance i i'" "synced env f i' (statsOf c')"
    "onLine (fe_client env) (in_client i') (nodes(cc_base (in_client i) := c')) c'"
proof -
  let ?ce = "fe_client env" and ?cl = "in_client i" and ?k = "instID i" and ?st = "statsOf c"
  have del: "delivers ?ce ?cl" and auth: "authView ?ce ?cl (viewOf c)" using on by (simp_all add: onLine_view)
  have st: "sr_Upstream ?st = rPolicy (viewOf c)" "sr_DohHTTPAddr ?st = v_doh (viewOf c)" "sr_RateLimitQPS ?st = rRate (viewOf c)"
    "sr_CacheSize ?st = v_csize (viewOf c)"
    "(sr_UpstreamServers ?st, sr_UpstreamRoutes ?st, sr_BootstrapServers ?st) = rUpstream (viewOf c)"
    "sr_BlocklistHash ?st = rList (viewOf c)" "sr_RecordsHash ?st = rRecords (viewOf c)"
    using statsOf_view auth by (simp_all add: authView_def)
  have acc: "hasToken i" "defaultNamed f" "listReady env f i" "v_rl (viewOf c) \<noteq> None" "v_list (viewOf c) \<noteq> None" "v_rec (viewOf c) \<noteq> None"
    "io_Records (overrideOf f ?k) = None" "filter kept (fl_records f) = fl_records f"
    "0 \<le> effectiveRateLimitQPS f ?k"
    using ok by (simp_all add: acceptable_def)
  obtain i1 net1 v1 where s1: "maybePushConfig env f (Some ?st) i (nodes, w) = (i1, net1)" "lands ?cl nodes net1 v1"
    "v1 = viewOf c \<or> (\<exists>p. v1 = vPolicy p (viewOf c))" "sameInstance i i1" "policySynced env f i1 v1"
    "in_blPushing i1 = in_blPushing i" "in_blRetryAfter i1 = in_blRetryAfter i"
    by (rule step_config [OF on acc(1,2) st(1)])
  then obtain c1 w1 where c1: "net1 = (nodes(cc_base ?cl := c1), w1)" "viewOf c1 = v1" by (auto simp: lands_def)
  have i1: "instID i1 = ?k" "hasToken i1 = hasToken i" "in_client i1 = ?cl" using sameInstanceD [OF s1(4)] by simp_all
  have v1: "authView ?ce ?cl v1" "v_doh v1 = v_doh (viewOf c)" "v_rl v1 = v_rl (viewOf c)" "v_csize v1 = v_csize (viewOf c)"
    "v_pool v1 = v_pool (viewOf c)" "v_heap v1 = v_heap (viewOf c)" "v_legacy v1 = v_legacy (viewOf c)"
    "v_list v1 = v_list (viewOf c)" "v_rec v1 = v_rec (viewOf c)"
    using s1(3) auth by auto
  have on1: "onLine ?ce (in_client i1) (nodes(cc_base ?cl := c1)) c1" using del v1(1) c1(2) i1(3) by (simp add: onLine_view)
  have ready1: "listReady env f i1" using acc(3) s1(6,7) by (simp add: listReady_def)
  have ok1: "acceptable env f i1 c1"
    using ok ready1 i1 v1 c1(2) by (simp add: acceptable_def upstreamOk_def)
  define net5 where "net5 = maybePushUpstream env f (Some ?st) i1 (maybePushCache env f (Some ?st) i1
      (maybePushRateLimit env f (Some ?st) i1 (maybePushDoH env f (Some ?st) i1 net1)))"
  define v5 where "v5 = wantUpstream env f ?k (wantCache f ?k (rate.converge (effectiveRateLimitQPS f ?k)
      (doh.converge (effectiveDoHHTTPAddr f ?k) v1)))"
  have "lands ?cl (nodes(cc_base ?cl := c1)) net5 v5"
    using settings_land [OF on1 ok1, of "viewOf c" ?st w1] st v1 c1 i1 by (simp add: net5_def v5_def)
  then obtain c5 w5 where c5: "net5 = (nodes(cc_base ?cl := c5), w5)" "viewOf c5 = v5" by (auto simp: lands_def)
  have v5: "authView ?ce ?cl v5" "v_list v5 = v_list (viewOf c)" "v_rec v5 = v_rec (viewOf c)"
    "v_default v5 = v_default v1" using v1 by (simp_all add: v5_def)
  have on5: "onLine ?ce (in_client i1) (nodes(cc_base ?cl := c5)) c5" using del v5(1) c5(2) i1(3) by (simp add: onLine_view)
  obtain i6 net6 where s6: "maybePushBlocklist env (Some ?st) f i1 (nodes(cc_base ?cl := c5), w5) = (syncAllowed f, i6, net6)"
    "lands (in_client i1) (nodes(cc_base ?cl := c5)) net6 (list.converge (fleetList env f) (viewOf c5))" "sameInstance i1 i6"
    "in_appliedHash i6 = in_appliedHash i1"
    by (rule step_blocklist [OF on5 _ ready1, of ?st w5]) (use acc i1 v5 c5 st in \<open>simp_all add: rList_def\<close>)
  then obtain c6 w6 where c6: "net6 = (nodes(cc_base ?cl := c6), w6)" "viewOf c6 = list.converge (fleetList env f) v5"
    using i1(3) c5(2) by (auto simp: lands_def)
  have i6: "instID i6 = ?k" "hasToken i6 = hasToken i" "in_client i6 = ?cl" using sameInstanceD [OF s6(3)] i1 by simp_all
  have on6: "onLine ?ce (in_client i6) (nodes(cc_base ?cl := c6)) c6" using del v5(1) c6(2) i6(3) by (simp add: onLine_view)
  have "lands ?cl (nodes(cc_base ?cl := c6)) (maybePushRecords env (syncAllowed f) (Some ?st) i6 (nodes(cc_base ?cl := c6), w6))
      (records.converge (fl_records f) (viewOf c6))"
    using step_records [OF on6, of "syncAllowed f" ?st w6] acc i6 st(7) c6(2) v5(3) by (simp add: rRecords_def)
  then obtain c7 w7 where c7: "maybePushRecords env (syncAllowed f) (Some ?st) i6 (nodes(cc_base ?cl := c6), w6) = (nodes(cc_base ?cl := c7), w7)"
    "viewOf c7 = records.converge (fl_records f) (list.converge (fleetList env f) v5)"
    using c6(2) by (auto simp: lands_def)
  have on7: "onLine ?ce (in_client i6) (nodes(cc_base ?cl := c7)) c7" using del v5(1) c7(2) i6(3) by (simp add: onLine_view)
  obtain i8 w8 where s8: "maybePushHA env (syncAllowed f) i6 (nodes(cc_base ?cl := c7), w7) = (i8, (nodes(cc_base ?cl := c7), w8))"
    "sameInstance i6 i8" "in_appliedHash i8 = in_appliedHash i6"
    by (rule step_ha [OF on7])
  have "reconcile env (Some ?st) f i (nodes, w) = (syncAllowed f, i8, (nodes(cc_base ?cl := c7), w8))"
    using s1(1) c5(1) s6(1) c6(1) c7(1) s8(1) by (simp add: reconcile_def net5_def Let_def)
  moreover have "sameInstance i i8" using s1(4) s6(3) s8(2) by (simp add: sameInstance_def)
  moreover have "synced env f i8 (statsOf c7)"
  proof (rule converged_synced [OF ok _ _ _ v1(3,8,9,6,7) v5_def c7(2)])
    show "v_wired (viewOf c7)" using on7 by (simp add: onLine_view authView_def)
    show "sameInstance i i8" using s1(4) s6(3) s8(2) by (simp add: sameInstance_def)
    have "in_appliedHash i8 = in_appliedHash i1" "instID i8 = instID i1"
      using s6(3,4) s8(2,3) by (simp_all add: sameInstance_def instID_def)
    then show "policySynced env f i8 v1" using s1(5) unfolding policySynced_def by presburger
  qed
  moreover have "onLine ?ce (in_client i8) (nodes(cc_base ?cl := c7)) c7" using on7 s8(2) by (simp add: sameInstance_def)
  ultimately show thesis using that by blast
qed

subsection \<open>The poll\<close>

lemma health_call:
  assumes "onLine env cl nodes c"
  shows "\<exists>w'. Client_Health env cl (nodes, w) = ((nodes, w'), Inr (handleHealth c))"
proof -
  have "\<exists>c' w' x. Client_do env cl ''GET'' ''/api/v1/health'' [] emptyBody (nodes, w) = ((nodes(cc_base cl := c'), w'), Inr x)
      \<and> (c' = c \<and> x = handleHealth c)"
    by (rule do_achieves [where nodes = nodes, OF onLineD(1,2) [OF assms] path_protected(8)])
       (use onLineD(3) [OF assms] in \<open>simp add: protected_settings handleHealth_def replyStatus_def\<close>)
  then show ?thesis using onLineD(3) [OF assms] by (auto simp: Client_Health_def fun_upd_idem)
qed

lemma stats_call:
  assumes "onLine env cl nodes c"
  shows "\<exists>w'. Client_Stats env cl (nodes, w) = ((nodes, w'), Inr (statsOf c))"
proof -
  have st: "handleStats c = Stats (statsOf c)" by (simp add: statsOf_def handleStats_def Let_def)
  have "\<exists>c' w' x. Client_do env cl ''GET'' ''/api/v1/stats'' [] emptyBody (nodes, w) = ((nodes(cc_base cl := c'), w'), Inr x)
      \<and> (c' = c \<and> x = Stats (statsOf c))"
    by (rule do_achieves [where nodes = nodes, OF onLineD(1,2) [OF assms] path_protected(9)])
       (use onLineD(3) [OF assms] st in \<open>simp add: protected_settings replyStatus_def\<close>)
  then show ?thesis using onLineD(3) [OF assms] by (auto simp: Client_Stats_def fun_upd_idem)
qed

lemma publish_settings [simp]:
  "effectivePolicy env (publish e f) k = effectivePolicy env f k"
  "effectiveDoHHTTPAddr (publish e f) k = effectiveDoHHTTPAddr f k" "effectiveRateLimitQPS (publish e f) k = effectiveRateLimitQPS f k"
  "cacheConfiguredFor (publish e f) k = cacheConfiguredFor f k" "effectiveCacheConfig (publish e f) k = effectiveCacheConfig f k"
  "effectiveUpstream (publish e f) k = effectiveUpstream f k" "effectiveRecords (publish e f) k = effectiveRecords f k"
  "overrideOf (publish e f) k = overrideOf f k" "fl_records (publish e f) = fl_records f" "fl_blLoading (publish e f) = fl_blLoading f"
  "fl_blocklist (syncAllowed (publish e f)) = fl_blocklist (syncAllowed f)" "defaultNamed (publish e f) = defaultNamed f"
  "Fleet_recordsHash (publish e f) = Fleet_recordsHash f"
  by (simp_all add: publish_def syncAllowed_def onList_def effectivePolicy_def effectiveDoHHTTPAddr_def effectiveRateLimitQPS_def
      cacheConfiguredFor_def effectiveCacheConfig_def effectiveUpstream_def effectiveRecords_def overrideOf_def
      AllowedDomains_def defaultNamed_def Fleet_recordsHash_def split: option.splits)

lemma poll_reaches:
  assumes "onLine (fe_client env) (in_client i) nodes c"
  obtains w' now ms e where
    "poll env f i (nodes, w) = reconcile env (Some (statsOf c)) (publish e f) (recordPoll (Inr (handleHealth c)) (Inr (statsOf c)) now ms i) (nodes, w')"
proof -
  obtain w1 where h: "Client_Health (fe_client env) (in_client i) (nodes, w) = ((nodes, w1), Inr (handleHealth c))"
    using health_call [OF assms] by blast
  obtain w2 where s: "Client_Stats (fe_client env) (in_client i) (nodes, w1) = ((nodes, w2), Inr (statsOf c))"
    using stats_call [OF assms] by blast
  show thesis by (rule that) (simp add: poll_def h s okOf_def Let_def)
qed

lemma recordPoll_keeps [simp]:
  "in_Config (recordPoll h s now ms i) = in_Config i" "in_client (recordPoll h s now ms i) = in_client i"
  "in_blPushing (recordPoll h s now ms i) = in_blPushing i" "in_blRetryAfter (recordPoll h s now ms i) = in_blRetryAfter i"
  "in_appliedHash (recordPoll h s now ms i) = in_appliedHash i" "in_blHash (recordPoll h s now ms i) = in_blHash i"
  "hasToken (recordPoll h s now ms i) = hasToken i" "instID (recordPoll h s now ms i) = instID i"
  by (simp_all add: recordPoll_def hasToken_def instID_def Let_def split: sum.splits)

lemma acceptable_poll: "acceptable env f i c \<Longrightarrow> acceptable env (publish e f) (recordPoll h s now ms i) c"
  by (simp add: acceptable_def listReady_def)

lemma synced_publish [simp]: "synced env (publish e f) i st = synced env f i st"
  by (simp add: synced_def)

lemma synced_recordPoll [simp]: "synced env f (recordPoll h s now ms i) st = synced env f i st"
  unfolding synced_def recordPoll_keeps ..

text \<open>An instance in agreement is left alone.\<close>

lemma reconcile_quiet:
  assumes on: "onLine (fe_client env) (in_client i) nodes c" and syn: "synced env f i (statsOf c)"
    and rec: "io_Records (overrideOf f (instID i)) = None" and tok: "hasToken i"
  obtains f' i' w' where "reconcile env (Some (statsOf c)) f i (nodes, w) = (f', i', (nodes, w'))" "sameInstance i i'"
proof -
  let ?st = "Some (statsOf c)"
  note s = syn [unfolded synced_def Let_def]
  have pol: "maybePushConfig env f ?st i net = (i, net)" for net
    using s [THEN conjunct1] by (auto simp: maybePushConfig_def configApplied_def split: prod.splits option.splits)
  have doh: "maybePushDoH env f ?st i net = net" and rate: "maybePushRateLimit env f ?st i net = net"
    and cch: "maybePushCache env f ?st i net = net" for net
    using s by (simp_all add: maybePushDoH_def maybePushRateLimit_def maybePushCache_def)
  have ups: "maybePushUpstream env f ?st i net = net" for net
    using s by (auto simp: maybePushUpstream_def Let_def split: prod.splits)
  define f' where "f' = (if fl_blLoading f then f else syncAllowed f)"
  define j where "j = (if fl_blLoading f then i else markBlocklistApplied (Blocklist_Checksum (fl_blocklist (syncAllowed f))) i)"
  have hash: "sr_BlocklistHash (statsOf c) = Blocklist_Checksum (fl_blocklist (syncAllowed f))" using s by simp
  have bl: "maybePushBlocklist env ?st f i net = (f', j, net)" for net
    using hash tok by (simp add: maybePushBlocklist_def reportedBlocklistHash_def f'_def j_def Let_def)
  have same: "sameInstance i j" by (simp add: j_def sameInstance_def markBlocklistApplied_def)
  have recs: "maybePushRecords env f' ?st j net = net" for net
    using s rec by (simp add: maybePushRecords_def Fleet_recordsHash_def effectiveRecords_def f'_def)
  have onj: "onLine (fe_client env) (in_client j) nodes c" using on same by (simp add: sameInstance_def)
  obtain i' w' where ha: "maybePushHA env f' j (nodes, w) = (i', (nodes, w'))" "sameInstance j i'"
    by (rule step_ha [OF onj])
  show thesis
    by (rule that) (use pol doh rate cch ups bl recs ha same in \<open>simp_all add: reconcile_def sameInstance_def\<close>)
qed

subsection \<open>Properties\<close>


definition sampleClientEnv :: "nat client_env" where
  "sampleClientEnv = \<lparr>cl_node = (\<lambda>_. sampleEnv), cl_transport = (\<lambda>_ w. (Suc w, Through)), cl_parseQuery = (\<lambda>_. []),
     cl_addr = ''198.51.100.9:50000''\<rparr>"

definition sampleFleetEnv :: "nat fleet_env" where
  "sampleFleetEnv = \<lparr>fe_client = sampleClientEnv, fe_now = (\<lambda>w. int w), fe_policyHash = wp_Upstream,
     fe_upstreamHash = (\<lambda>(sv, rt, bt). concat (map us_Address sv)), fe_haHash = hc_VirtualIP,
     fe_order = sorted_list_of_set, fe_writable = True\<rparr>"

definition sampleInstanceConfig :: InstanceConfig where
  "sampleInstanceConfig = \<lparr>ic_ID = ''a'', ic_URL = ''http://a:8444'', ic_Token = ''s3cret'', ic_Label = ''A'', ic_Claim = []\<rparr>"

definition sampleInstance :: Instance where
  "sampleInstance = newInstance sampleInstanceConfig 0"

definition sampleFleet :: Fleet where
  "sampleFleet = AddManualDomain ''ads.example.com'' (AddAllowedDomain ''ok.example.com'' (SetCacheDefault 64
     (SetRateLimitQPSDefault 20 (SetDoHDefault ''127.0.0.1:8080'' (SetDefault (Some (emptyPolicy\<lparr>wp_Upstream := ''192.0.2.9''\<rparr>))
       (NewFleet [] Missing))))))"

lemma sample_onLine: "onLine (fe_client sampleFleetEnv) (in_client sampleInstance) (\<lambda>_. sampleControl) sampleControl"
  unfolding onLine_def delivers_def
proof (intro conjI allI)
  show "manages (fe_client sampleFleetEnv) (in_client sampleInstance) sampleControl" by code_simp
qed (simp_all add: sampleFleetEnv_def sampleClientEnv_def)

lemma sample_listReady: "listReady sampleFleetEnv sampleFleet sampleInstance"
  unfolding listReady_def
proof (intro conjI allI)
  have inv: "Blocklist_inv (fl_blocklist (syncAllowed sampleFleet))"
    unfolding sampleFleet_def by (intro fleet_list_inv) (simp add: blip_inv)
  then show "Blocklist_inv (fl_blocklist (syncAllowed sampleFleet))" .
  show "Blocklist_canonical (fl_blocklist (syncAllowed sampleFleet))"
    unfolding Blocklist_canonical_def canonical_def by code_simp
  have "fe_order sampleFleetEnv = sorted_list_of_set" by (simp add: sampleFleetEnv_def)
  then show "\<forall>S \<in> {bl_exact (fl_blocklist (syncAllowed sampleFleet)), bl_wild (fl_blocklist (syncAllowed sampleFleet)),
      bl_allowExact (fl_blocklist (syncAllowed sampleFleet)), bl_allowWild (fl_blocklist (syncAllowed sampleFleet))}.
      enumerates (fe_order sampleFleetEnv S) S"
    using inv by (simp add: enumerates_def Blocklist_inv_def)
  show "\<not> fl_blLoading sampleFleet" by code_simp
  show "\<not> in_blPushing sampleInstance" by code_simp
  show "in_blRetryAfter sampleInstance \<le> fe_now sampleFleetEnv w" for w
    by (simp add: sampleInstance_def newInstance_def sampleFleetEnv_def)
qed

lemma sample_listenable: "listenable (fe_client sampleFleetEnv) (in_client sampleInstance) ''127.0.0.1:8080''"
  unfolding listenable_def
proof (intro disjI2 conjI allI)
  show "\<exists>h port. SplitHostPort ''127.0.0.1:8080'' = Some (h, port) \<and> port \<noteq> []"
    by (intro exI [of _ "''127.0.0.1''"] exI [of _ "''8080''"]) code_simp
qed (simp add: sampleFleetEnv_def sampleClientEnv_def sampleEnv_def sampleOpsNet_def)

lemma sample_acceptable: "acceptable sampleFleetEnv sampleFleet sampleInstance sampleControl"
  unfolding acceptable_def
proof (intro conjI)
  have "effectiveDoHHTTPAddr sampleFleet (instID sampleInstance) = ''127.0.0.1:8080''" by code_simp
  then show "listenable (fe_client sampleFleetEnv) (in_client sampleInstance) (effectiveDoHHTTPAddr sampleFleet (instID sampleInstance))"
    using sample_listenable by simp
  show "defaultNamed sampleFleet"
    by (simp add: defaultNamed_def sampleFleet_def AddManualDomain_def AddAllowedDomain_def Let_def onList_def SetCacheDefault_def
        SetRateLimitQPSDefault_def SetDoHDefault_def SetDefault_def)
  show "listReady sampleFleetEnv sampleFleet sampleInstance" by (rule sample_listReady)
  show "hasToken sampleInstance" by code_simp
  show "0 \<le> effectiveRateLimitQPS sampleFleet (instID sampleInstance)" by code_simp
  show "v_rl (viewOf sampleControl) \<noteq> None" by code_simp
  show "cacheConfiguredFor sampleFleet (instID sampleInstance) \<longrightarrow> 0 \<le> effectiveCacheConfig sampleFleet (instID sampleInstance)" by code_simp
  show "case effectiveUpstream sampleFleet (instID sampleInstance) of (sv, rt, bt) \<Rightarrow>
      (sv = [] \<and> rt = []) \<or> upstreamOk (sv, rt, bt) (viewOf sampleControl)" by code_simp
  show "v_list (viewOf sampleControl) \<noteq> None" by code_simp
  show "io_Records (overrideOf sampleFleet (instID sampleInstance)) = None" by code_simp
  show "filter kept (fl_records sampleFleet) = fl_records sampleFleet"
    by (simp add: sampleFleet_def AddManualDomain_def AddAllowedDomain_def Let_def onList_def SetCacheDefault_def
        SetRateLimitQPSDefault_def SetDoHDefault_def SetDefault_def NewFleet_def)
  show "v_rec (viewOf sampleControl) \<noteq> None" by code_simp
qed



definition quietControl :: Control where
  "quietControl = sampleControl\<lparr>ct_srv := sampleServer\<lparr>s_Blocklist := Some Blip_Blocklist.New\<rparr>\<rparr>"


text \<open>
  A records override does not converge. The reconciler compares the instance's record
  checksum with the checksum of the fleet-wide records, but pushes the override: an instance
  that already has exactly its override is sent it again on every poll, and an instance that
  still has the fleet-wide records is never sent its override.
\<close>
theorem records_override_diverges:
  assumes "hasToken i" and "io_Records (overrideOf f (instID i)) = Some rs" and "RecordsHash rs \<noteq> Fleet_recordsHash f"
  shows "(sr_RecordsHash st = RecordsHash rs
      \<longrightarrow> maybePushRecords env f (Some st) i net = fst (Client_SetRecords (fe_client env) (in_client i) rs net))
    \<and> (sr_RecordsHash st = Fleet_recordsHash f \<longrightarrow> maybePushRecords env f (Some st) i net = net)"
  using assms by (simp add: maybePushRecords_def effectiveRecords_def)

definition overrideFleet :: Fleet where
  "overrideFleet = SetOverride ''a'' (Some (noOverride\<lparr>io_Records := Some sampleRecords\<rparr>)) (NewFleet [] Missing)"

theorem records_override_diverges_witness:
  "snd (maybePushRecords sampleFleetEnv overrideFleet (Some (emptyStats\<lparr>sr_RecordsHash := RecordsHash sampleRecords\<rparr>)) sampleInstance
     (\<lambda>_. sampleControl, 5)) \<noteq> 5"
proof -
  have "hasToken sampleInstance" by code_simp
  moreover have "io_Records (overrideOf overrideFleet (instID sampleInstance)) = Some sampleRecords"
    by (simp add: overrideFleet_def SetOverride_def IsEmpty_def overrideOf_def noOverride_def NewFleet_def sampleInstance_def
        newInstance_def sampleInstanceConfig_def instID_def)
  moreover have "RecordsHash sampleRecords \<noteq> Fleet_recordsHash overrideFleet" by code_simp
  moreover have "snd (fst (Client_SetRecords (fe_client sampleFleetEnv) (in_client sampleInstance) sampleRecords (\<lambda>_. sampleControl, 5))) = 6"
    by code_simp
  ultimately show ?thesis
    using records_override_diverges [of sampleInstance overrideFleet sampleRecords
        "emptyStats\<lparr>sr_RecordsHash := RecordsHash sampleRecords\<rparr>" sampleFleetEnv "(\<lambda>_. sampleControl, 5)"] by simp
qed

end
