(* ===== verification/Blip_Startup.thy ===== *)
theory Blip_Startup
  imports Blip_Converge
begin

text \<open>
  The controller's start (\<open>src/cmd/blipc/main.go\<close>): the configuration file becomes the fleet's
  desired state, in the order \<open>main\<close> applies it, and what restarting does to the file. The
  blocklist database (SQLite), the web server and the signal handling are outside.
\<close>

definition provided :: "bool \<Rightarrow> ('a \<Rightarrow> 'a) \<Rightarrow> 'a \<Rightarrow> 'a" where
  "provided b g x = (if b then g x else x)"

text \<open>The settings \<open>main\<close> applies before the records, and after them.\<close>

definition startEarly :: "FullConfig \<Rightarrow> Fleet \<Rightarrow> Fleet" where
  "startEarly cfg f0 =
     (let f1 = provided (fc_DefaultPolicy cfg \<noteq> None) (SetDefault (fc_DefaultPolicy cfg)) f0;
          f2 = fold (\<lambda>(i, ov). SetOverride i (Some ov)) (fc_InstancePolicies cfg) f1;
          f3 = provided (fc_DoHHTTPAddr cfg \<noteq> []) (SetDoHDefault (fc_DoHHTTPAddr cfg)) f2;
          f4 = provided (0 < fc_RateLimitQPS cfg) (SetRateLimitQPSDefault (fc_RateLimitQPS cfg)) f3;
          f5 = provided (0 < fc_CacheSize cfg) (SetCacheDefault (fc_CacheSize cfg)) f4
      in SetQueryLogRetentionDefault (fc_QueryLogRetentionHours cfg) f5)"

definition startLate :: "FullConfig \<Rightarrow> Fleet \<Rightarrow> Fleet" where
  "startLate cfg f0 =
     (let f1 = provided (hl_Enabled (fc_HACluster cfg)) (\<lambda>f. fst (SetHAClusterDefault (fc_HACluster cfg) f)) f0;
          f2 = provided (fc_ReleaseChannel cfg \<noteq> []) (\<lambda>f. fst (SetReleaseChannelDefault (fc_ReleaseChannel cfg) f)) f1
      in provided (fc_UpstreamServers cfg \<noteq> [] \<or> fc_UpstreamRoutes cfg \<noteq> [])
           (SetUpstreamDefault (fc_UpstreamServers cfg) (fc_UpstreamRoutes cfg) (fc_UpstreamBootstrap cfg)) f2)"

definition addConfigured ::
  "'w fleet_env \<Rightarrow> (string \<Rightarrow> string option) \<Rightarrow> InstanceConfig \<Rightarrow> Fleet \<times> 'w net \<Rightarrow> Fleet \<times> 'w net" where
  "addConfigured env readFile ic st =
     (case st of (f, net) \<Rightarrow>
      case Fleet_Add env (ResolveTokenFile readFile ic) f net of (f1, net1, _) \<Rightarrow> (f1, net1))"

text \<open>\<open>load\<close>: a missing file is an empty configuration, an unreadable one is fatal.\<close>

definition loadConfig :: "yamlFile \<Rightarrow> FullConfig option" where
  "loadConfig y = (case y of Missing \<Rightarrow> Some (zeroConfig\<lparr>fc_Listen := ''0.0.0.0:8500''\<rparr>) | Garbled \<Rightarrow> None | Parsed c \<Rightarrow> Some c)"

definition startFrom ::
  "'w fleet_env \<Rightarrow> (string \<Rightarrow> string option) \<Rightarrow> FullConfig \<Rightarrow> Fleet \<Rightarrow> 'w net \<Rightarrow> Fleet \<times> 'w net" where
  "startFrom env readFile cfg f0 net =
     (case Fleet_SetRecords env (fc_Records cfg) (startEarly cfg f0) net of (f1, net1, _) \<Rightarrow>
      case fold (addConfigured env readFile) (fc_Instances cfg) (startLate cfg f1, net1) of (f2, net2) \<Rightarrow>
        let f3 = provided (0 < fc_BlocklistUpdateHours cfg) (SetAutoUpdateHours env (fc_BlocklistUpdateHours cfg)) f2;
            f4 = provided (fc_BlocklistSources cfg \<noteq> [])
                   (\<lambda>f. SetBlocklistSourcesDefault (fc_BlocklistSources cfg) (SetBlocklistDisabled (fc_BlocklistDisabled cfg) f)) f3
        in (f4, net2))"

definition blipcMain ::
  "'w fleet_env \<Rightarrow> (string \<Rightarrow> string option) \<Rightarrow> string \<Rightarrow> yamlFile \<Rightarrow> 'w net \<Rightarrow> (Fleet \<times> 'w net) option" where
  "blipcMain env readFile path file net =
     (case loadConfig file of
        None \<Rightarrow> None
      | Some cfg \<Rightarrow> Some (startFrom env readFile cfg (NewFleet path file) net))"

subsection \<open>What a start writes\<close>

text \<open>While \<open>main\<close> runs, every save happens before the sources are known to the fleet.\<close>

definition sourceless :: "Fleet \<Rightarrow> bool" where
  "sourceless f \<longleftrightarrow> fl_blocklistSources f = [] \<and> fl_blocklistDisabled f = [] \<and> fl_configPath f \<noteq> []
     \<and> (\<exists>cfg. fl_file f = Parsed cfg)"

definition fileSourceless :: "Fleet \<Rightarrow> bool" where
  "fileSourceless f \<longleftrightarrow> (\<exists>cfg. fl_file f = Parsed cfg \<and> fc_BlocklistSources cfg = [] \<and> fc_BlocklistDisabled cfg = [])"

lemma save_sourceless:
  assumes "sourceless f" and "fe_writable env"
  shows "sourceless (savedQuietly env f) \<and> fileSourceless (savedQuietly env f)"
  using assms by (auto simp: sourceless_def fileSourceless_def savedQuietly_def saveConfig_def configOf_def)

text \<open>The parts of the fleet the two predicates read.\<close>

definition fileView :: "Fleet \<Rightarrow> string list \<times> string list \<times> string \<times> yamlFile" where
  "fileView f = (fl_blocklistSources f, fl_blocklistDisabled f, fl_configPath f, fl_file f)"

lemma sourceless_cong: "fileView f = fileView g \<Longrightarrow> sourceless f = sourceless g \<and> fileSourceless f = fileSourceless g"
  by (simp add: fileView_def sourceless_def fileSourceless_def)

lemma fileView_simps [simp]:
  "fileView (publish e f) = fileView f" "fileView (setInstance k i f) = fileView f" "fileView (syncAllowed f) = fileView f"
  "fileView (SetDefault p f) = fileView f" "fileView (SetOverride k ov f) = fileView f" "fileView (SetDoHDefault a f) = fileView f"
  "fileView (SetRateLimitQPSDefault q f) = fileView f" "fileView (SetCacheDefault n f) = fileView f"
  "fileView (SetQueryLogRetentionDefault h f) = fileView f" "fileView (SetUpstreamDefault sv rt bt f) = fileView f"
  "fileView (f\<lparr>fl_records := rs\<rparr>) = fileView f" "fileView (f\<lparr>fl_instances := is\<rparr>) = fileView f"
  "fileView (f\<lparr>fl_autoUpdateHours := h\<rparr>) = fileView f"
  "fileView (fst (SetHAClusterDefault cl f)) = fileView f" "fileView (fst (SetReleaseChannelDefault ch f)) = fileView f"
  by (simp_all add: fileView_def publish_def setInstance_def syncAllowed_def onList_def SetDefault_def SetOverride_def SetDoHDefault_def
      SetRateLimitQPSDefault_def SetCacheDefault_def SetQueryLogRetentionDefault_def SetUpstreamDefault_def
      SetHAClusterDefault_def SetReleaseChannelDefault_def split: option.splits)

lemma provided_fileView: "(\<And>x. fileView (g x) = fileView x) \<Longrightarrow> fileView (provided b g f) = fileView f"
  by (simp add: provided_def)

lemma startEarly_fileView: "fileView (startEarly cfg f) = fileView f"
proof -
  have "fileView (fold (\<lambda>(i, ov). SetOverride i (Some ov)) ovs g) = fileView g" for ovs g
    by (induction ovs arbitrary: g) auto
  then show ?thesis by (simp add: startEarly_def provided_def Let_def)
qed

lemma startLate_fileView: "fileView (startLate cfg f) = fileView f"
  by (simp add: startLate_def provided_def Let_def)

text \<open>Adopting saves at most once, and only what the fleet holds.\<close>

definition keepsFile :: "Fleet \<Rightarrow> Fleet \<Rightarrow> bool" where
  "keepsFile f g \<longleftrightarrow> (sourceless f \<longrightarrow> sourceless g \<and> (fileSourceless f \<longrightarrow> fileSourceless g))"

lemma keepsFile_view: "fileView g = fileView f \<Longrightarrow> keepsFile f g"
  using sourceless_cong [of g f] by (simp add: keepsFile_def)

lemma keepsFile_save: "fe_writable env \<Longrightarrow> keepsFile f (savedQuietly env f)"
  using save_sourceless [of f env] by (simp add: keepsFile_def)

lemma keepsFile_trans: "keepsFile f g \<Longrightarrow> keepsFile g h \<Longrightarrow> keepsFile f h"
  by (simp add: keepsFile_def)

lemma maybePushBlocklist_view: "fileView (fst (maybePushBlocklist env rep f i net)) = fileView f"
  by (simp add: maybePushBlocklist_def Let_def split: prod.splits bool.splits)

lemma Adopt_shape:
  obtains (same) "fst (Adopt env k code f net) = f"
    | (published) e where "fst (Adopt env k code f net) = publish e f"
    | (adopted) e i1 i2 i3 net2 where "fst (Adopt env k code f net)
        = publish e (setInstance k i3 (fst (maybePushBlocklist env None (savedQuietly env (setInstance k i1 f)) i2 net2)))"
proof (cases "map_of (fl_instances f) k")
  case None
  then show ?thesis using same by (simp add: Adopt_def)
next
  case (Some i)
  let ?code = "if code = [] \<and> in_claimCode i \<noteq> [] then in_claimCode i else code"
  obtain net1 r where call: "Client_Adopt (fe_client env) (in_client i) ?code net = (net1, r)" by (metis surj_pair)
  show ?thesis
  proof (cases r)
    case (Inl e)
    then show ?thesis using Some call same by (simp add: Adopt_def)
  next
    case (Inr x)
    obtain claimed tok msg where x: "x = (claimed, tok, msg)" by (metis prod_cases3)
    show ?thesis
    proof (cases "claimed \<and> tok \<noteq> []")
      case False
      then show ?thesis using Some call Inr x same published by (cases claimed) (simp_all add: Adopt_def)
    next
      case True
      define i1 where "i1 = i\<lparr>in_Config := (in_Config i)\<lparr>ic_Token := tok\<rparr>, in_claimCode := [],
          in_client := NewClient (ic_URL (in_Config i)) tok\<rparr>"
      define f1 where "f1 = savedQuietly env (setInstance k i1 f)"
      obtain i2 net2 where c: "maybePushConfig env f1 None i1 net1 = (i2, net2)" by (metis surj_pair)
      obtain f2 i3 net3 where b: "maybePushBlocklist env None f1 i2 net2 = (f2, i3, net3)" by (metis surj_pair)
      show ?thesis
        by (rule adopted [of "statusEvent env k (ic_Label (in_Config i)) ''adopted'' net3" i3 i1 i2 net2]) (use Some call Inr x True c b in
            \<open>simp add: Adopt_def i1_def [symmetric] f1_def [symmetric] Let_def\<close>)
    qed
  qed
qed

lemma Adopt_keepsFile:
  assumes "fe_writable env"
  shows "keepsFile f (fst (Adopt env k code f net))"
proof (cases rule: Adopt_shape [of env k code f net])
  case same
  then show ?thesis by (simp add: keepsFile_def)
next
  case (published e)
  then show ?thesis using keepsFile_view [of "publish e f" f] by simp
next
  case (adopted e i1 i2 i3 net2)
  let ?g = "savedQuietly env (setInstance k i1 f)"
  have "fileView (fst (Adopt env k code f net)) = fileView ?g"
    using adopted maybePushBlocklist_view [of env None ?g i2 net2] by simp
  then show ?thesis
    using keepsFile_save [OF assms, of "setInstance k i1 f"] keepsFile_view [of "setInstance k i1 f" f]
    by (metis fileView_simps(2) keepsFile_trans keepsFile_view)
qed

lemma Fleet_Add_keepsFile:
  assumes "fe_writable env"
  shows "keepsFile f (fst (Fleet_Add env cfg f net))"
proof -
  define c where "c = (if ic_Label cfg = [] then cfg\<lparr>ic_Label := ic_ID cfg\<rparr> else cfg)"
  define f1 where "f1 = savedQuietly env (setInstance (ic_ID c) (newInstance c (fe_now env (snd net))) f)"
  have k1: "keepsFile f f1" unfolding f1_def by (rule keepsFile_trans [OF keepsFile_view keepsFile_save [OF assms]]) simp
  obtain f2 net1 e where a: "Adopt env (ic_ID c) (ic_Claim c) f1 net = (f2, net1, e)" by (metis prod_cases3)
  have "keepsFile f1 f2" using Adopt_keepsFile [OF assms, of f1 "ic_ID c" "ic_Claim c" net] a by simp
  then have "keepsFile f f2" "keepsFile f (publish ev f2)" for ev
    using keepsFile_trans k1 keepsFile_view [of "publish ev f2" f2] by (auto intro: keepsFile_trans)
  moreover have "fst (Fleet_Add env cfg f net) \<in> {f, f1, f2} \<union> range (\<lambda>ev. publish ev f2)"
    using a by (cases e) (auto simp: Fleet_Add_def c_def [symmetric] f1_def [symmetric] Let_def)
  moreover have "keepsFile f f" by (simp add: keepsFile_def)
  ultimately show ?thesis using k1 by auto
qed

lemma addAll_keepsFile:
  assumes "fe_writable env"
  shows "keepsFile f (fst (fold (addConfigured env readFile) ics (f, net)))"
proof (induction ics arbitrary: f net)
  case (Cons ic ics)
  obtain f1 net1 e where a: "Fleet_Add env (ResolveTokenFile readFile ic) f net = (f1, net1, e)" by (metis prod_cases3)
  then have "keepsFile f f1" using Fleet_Add_keepsFile [OF assms, of f "ResolveTokenFile readFile ic" net] by simp
  then show ?case using Cons.IH [of f1 net1] a by (auto simp: addConfigured_def intro: keepsFile_trans)
qed (simp add: keepsFile_def)

lemma start_forgets:
  assumes "fe_writable env" and "fl_instances f = []" and "sourceless f"
  shows "fileSourceless (fst (startFrom env readFile cfg f net))
    \<and> fl_blocklistSources (fst (startFrom env readFile cfg f net)) = cleanURLs (fc_BlocklistSources cfg)"
proof -
  have noinst: "fl_instances (startEarly cfg f) = []"
  proof -
    have "fl_instances (fold (\<lambda>(i, ov). SetOverride i (Some ov)) ovs g) = fl_instances g" for ovs g
      by (induction ovs arbitrary: g) (auto simp: SetOverride_def)
    then show ?thesis using assms(2)
      by (simp add: startEarly_def provided_def Let_def SetDefault_def SetDoHDefault_def SetRateLimitQPSDefault_def SetCacheDefault_def
          SetQueryLogRetentionDefault_def)
  qed
  let ?f0 = "(startEarly cfg f)\<lparr>fl_records := fc_Records cfg\<rparr>"
  obtain f1 net1 rs where r: "Fleet_SetRecords env (fc_Records cfg) (startEarly cfg f) net = (f1, net1, rs)" by (metis prod_cases3)
  have "sourceless ?f0" using sourceless_cong [of ?f0 f] assms(3) startEarly_fileView by simp
  then have s1: "sourceless (savedQuietly env ?f0) \<and> fileSourceless (savedQuietly env ?f0)" by (rule save_sourceless [OF _ assms(1)])
  have "fl_instances (savedQuietly env ?f0) = []"
    using noinst by (simp add: savedQuietly_def saveConfig_def Let_def split: yamlFile.splits)
  then have "fileView f1 = fileView (savedQuietly env ?f0)"
    using r by (auto simp: Fleet_SetRecords_def pushRecords_def pushEach_def)
  then have f1: "sourceless (startLate cfg f1)" "fileSourceless (startLate cfg f1)"
    using s1 sourceless_cong startLate_fileView by metis+
  obtain f2 net2 where a: "fold (addConfigured env readFile) (fc_Instances cfg) (startLate cfg f1, net1) = (f2, net2)" by (metis surj_pair)
  have f2: "sourceless f2" "fileSourceless f2"
    using addAll_keepsFile [OF assms(1), of "startLate cfg f1" readFile "fc_Instances cfg" net1] a f1 by (simp_all add: keepsFile_def)
  have "fileSourceless (provided (0 < fc_BlocklistUpdateHours cfg) (SetAutoUpdateHours env (fc_BlocklistUpdateHours cfg)) f2)
    \<and> sourceless (provided (0 < fc_BlocklistUpdateHours cfg) (SetAutoUpdateHours env (fc_BlocklistUpdateHours cfg)) f2)"
  proof (cases "0 < fc_BlocklistUpdateHours cfg")
    case True
    let ?g = "f2\<lparr>fl_autoUpdateHours := fc_BlocklistUpdateHours cfg\<rparr>"
    have "sourceless ?g" using sourceless_cong [of ?g f2] f2 by simp
    then show ?thesis using True save_sourceless [OF _ assms(1)] by (simp add: provided_def SetAutoUpdateHours_def)
  qed (simp add: provided_def f2)
  then show ?thesis
    using r a by (auto simp: startFrom_def provided_def fileSourceless_def sourceless_def SetBlocklistSourcesDefault_def
        SetBlocklistDisabled_def cleanURLs_def Let_def)
qed

subsection \<open>What a start restores\<close>

text \<open>A fleet whose settings are in the form the setters leave them in.\<close>

definition storedForm :: "Fleet \<Rightarrow> bool" where
  "storedForm f \<longleftrightarrow>
     defaultNamed f \<and> distinct (map fst (fl_overrides f)) \<and> (\<forall>ov \<in> snd ` set (fl_overrides f). \<not> IsEmpty (Some ov))
     \<and> 0 \<le> fl_rateLimitQPS f \<and> 0 \<le> fl_cacheSize f
     \<and> (fl_upstreamServers f = [] \<and> fl_upstreamRoutes f = [] \<longrightarrow> fl_upstreamBootstrap f = [])
     \<and> (hl_Enabled (fl_haCluster f) \<longrightarrow> validateHACluster (fl_haCluster f) = None)"

definition settings where
  "settings f = (fl_defaultPolicy f, fl_overrides f, fl_dohHTTPAddr f, fl_rateLimitQPS f, fl_cacheSize f, fl_upstreamServers f,
     fl_upstreamRoutes f, fl_upstreamBootstrap f, QueryLogRetentionHours f, fl_records f, ReleaseChannel f)"

lemma overrides_restored:
  assumes "distinct (map fst (acc @ ovs))" and "\<forall>ov \<in> snd ` set ovs. \<not> IsEmpty (Some ov)" and "fl_overrides f = acc"
  shows "fold (\<lambda>(i, ov). SetOverride i (Some ov)) ovs f = f\<lparr>fl_overrides := acc @ ovs\<rparr>"
  using assms
proof (induction ovs arbitrary: acc f)
  case (Cons x ovs)
  obtain i ov where x: "x = (i, ov)" by force
  have "AList.update i ov acc = acc @ [(i, ov)]"
    using Cons.prems(1) x by (intro update_fresh) auto
  then have s: "SetOverride i (Some ov) f = f\<lparr>fl_overrides := acc @ [(i, ov)]\<rparr>"
    using Cons.prems(2,3) x by (simp add: SetOverride_def)
  show ?case using Cons.IH [of "acc @ [(i, ov)]" "f\<lparr>fl_overrides := acc @ [(i, ov)]\<rparr>"] Cons.prems(1,2) s x by simp
qed simp

text \<open>What a start must restore, and no membership operation touches.\<close>

definition desired where
  "desired f = (settings f, fl_haCluster f)"

lemma saved_file: "savedQuietly env f = f\<lparr>fl_file := fl_file (savedQuietly env f)\<rparr>"
  by (simp add: savedQuietly_def saveConfig_def Let_def split: yamlFile.splits)

lemma desired_file: "desired (f\<lparr>fl_file := y\<rparr>) = desired f"
  by (simp add: desired_def settings_def QueryLogRetentionHours_def ReleaseChannel_def)

lemma desired_simps [simp]:
  "desired (publish e f) = desired f" "desired (setInstance k i f) = desired f" "desired (syncAllowed f) = desired f"
  "desired (f\<lparr>fl_instances := is\<rparr>) = desired f" "desired (f\<lparr>fl_autoUpdateHours := h\<rparr>) = desired f"
  "desired (SetBlocklistSourcesDefault us f) = desired f" "desired (SetBlocklistDisabled us f) = desired f"
  by (simp_all add: desired_def settings_def publish_def setInstance_def syncAllowed_def onList_def SetBlocklistSourcesDefault_def
      SetBlocklistDisabled_def QueryLogRetentionHours_def ReleaseChannel_def)

lemma desired_saved [simp]: "desired (savedQuietly env f) = desired f"
proof -
  have "desired (f\<lparr>fl_file := fl_file (savedQuietly env f)\<rparr>) = desired f" by (rule desired_file)
  then show ?thesis unfolding saved_file [of env f, symmetric] .
qed

lemma maybePushBlocklist_desired: "desired (fst (maybePushBlocklist env rep f i net)) = desired f"
  by (simp add: maybePushBlocklist_def Let_def split: prod.splits bool.splits)

lemma Adopt_desired: "desired (fst (Adopt env k code f net)) = desired f"
proof (cases rule: Adopt_shape [of env k code f net])
  case (adopted e i1 i2 i3 net2)
  then show ?thesis using maybePushBlocklist_desired [of env None "savedQuietly env (setInstance k i1 f)" i2 net2] by simp
qed simp_all

lemma Fleet_Add_desired: "desired (fst (Fleet_Add env cfg f net)) = desired f"
proof -
  define c where "c = (if ic_Label cfg = [] then cfg\<lparr>ic_Label := ic_ID cfg\<rparr> else cfg)"
  define f1 where "f1 = savedQuietly env (setInstance (ic_ID c) (newInstance c (fe_now env (snd net))) f)"
  obtain f2 net1 e where a: "Adopt env (ic_ID c) (ic_Claim c) f1 net = (f2, net1, e)" by (metis prod_cases3)
  have "desired f2 = desired f" using Adopt_desired [of env "ic_ID c" "ic_Claim c" f1 net] a by (simp add: f1_def)
  moreover have "desired f1 = desired f" by (simp add: f1_def)
  ultimately show ?thesis
    using a by (cases e) (auto simp: Fleet_Add_def c_def [symmetric] f1_def [symmetric] Let_def)
qed

lemma addAll_desired: "desired (fst (fold (addConfigured env readFile) ics (f, net))) = desired f"
proof (induction ics arbitrary: f net)
  case (Cons ic ics)
  obtain f1 net1 e where a: "Fleet_Add env (ResolveTokenFile readFile ic) f net = (f1, net1, e)" by (metis prod_cases3)
  then show ?case using Cons.IH [of f1 net1] Fleet_Add_desired [of env "ResolveTokenFile readFile ic" f net]
    by (simp add: addConfigured_def)
qed simp

lemma default_kept: "defaultNamed g \<Longrightarrow> map_option (\<lambda>q. q\<lparr>wp_ID := ''default''\<rparr>) (fl_defaultPolicy g) = fl_defaultPolicy g"
  by (cases "fl_defaultPolicy g") (auto simp: defaultNamed_def)

lemma provided_sel:
  "fl_dohHTTPAddr (provided b g x) = (if b then fl_dohHTTPAddr (g x) else fl_dohHTTPAddr x)"
  "fl_rateLimitQPS (provided b g x) = (if b then fl_rateLimitQPS (g x) else fl_rateLimitQPS x)"
  "fl_cacheSize (provided b g x) = (if b then fl_cacheSize (g x) else fl_cacheSize x)"
  "fl_defaultPolicy (provided b g x) = (if b then fl_defaultPolicy (g x) else fl_defaultPolicy x)"
  "fl_overrides (provided b g x) = (if b then fl_overrides (g x) else fl_overrides x)"
  "fl_upstreamServers (provided b g x) = (if b then fl_upstreamServers (g x) else fl_upstreamServers x)"
  "fl_upstreamRoutes (provided b g x) = (if b then fl_upstreamRoutes (g x) else fl_upstreamRoutes x)"
  "fl_upstreamBootstrap (provided b g x) = (if b then fl_upstreamBootstrap (g x) else fl_upstreamBootstrap x)"
  "fl_releaseChannel (provided b g x) = (if b then fl_releaseChannel (g x) else fl_releaseChannel x)"
  "fl_haCluster (provided b g x) = (if b then fl_haCluster (g x) else fl_haCluster x)"
  "fl_instances (provided b g x) = (if b then fl_instances (g x) else fl_instances x)"
  "fl_records (provided b g x) = (if b then fl_records (g x) else fl_records x)"
  "fl_qlRetentionHours (provided b g x) = (if b then fl_qlRetentionHours (g x) else fl_qlRetentionHours x)"
  by (simp_all add: provided_def)

lemmas setter_defs = SetDoHDefault_def SetRateLimitQPSDefault_def SetCacheDefault_def SetQueryLogRetentionDefault_def
  SetUpstreamDefault_def

lemma early_settings:
  assumes "storedForm g" and "cfg = configOf g old" and "f = startEarly cfg (NewFleet path yf)"
  shows "fl_defaultPolicy f = fl_defaultPolicy g \<and> fl_overrides f = fl_overrides g \<and> fl_dohHTTPAddr f = fl_dohHTTPAddr g
    \<and> fl_rateLimitQPS f = fl_rateLimitQPS g \<and> fl_cacheSize f = fl_cacheSize g \<and> QueryLogRetentionHours f = QueryLogRetentionHours g
    \<and> fl_upstreamServers f = [] \<and> fl_upstreamRoutes f = [] \<and> fl_upstreamBootstrap f = [] \<and> fl_releaseChannel f = [] \<and> fl_haCluster f = noCluster
    \<and> fl_instances f = []"
proof -
  let ?f1 = "provided (fc_DefaultPolicy cfg \<noteq> None) (SetDefault (fc_DefaultPolicy cfg)) (NewFleet path yf)"
  have c: "fc_DefaultPolicy cfg = fl_defaultPolicy g" "fc_InstancePolicies cfg = fl_overrides g" "fc_DoHHTTPAddr cfg = fl_dohHTTPAddr g"
    "fc_RateLimitQPS cfg = fl_rateLimitQPS g" "fc_CacheSize cfg = fl_cacheSize g" "fc_QueryLogRetentionHours cfg = QueryLogRetentionHours g"
    using assms(2) by (simp_all add: configOf_def)
  have f1: "fl_defaultPolicy ?f1 = fl_defaultPolicy g" "fl_overrides ?f1 = []"
    using assms(1) default_kept [of g] c(1) by (auto simp: provided_def storedForm_def SetDefault_def NewFleet_def)
  have ovs: "fold (\<lambda>(i, ov). SetOverride i (Some ov)) (fl_overrides g) ?f1 = ?f1\<lparr>fl_overrides := fl_overrides g\<rparr>"
    using overrides_restored [of "[]" "fl_overrides g" ?f1] assms(1) f1(2) by (simp add: storedForm_def)
  have z: "fl_dohHTTPAddr ?f1 = []" "fl_rateLimitQPS ?f1 = 0" "fl_cacheSize ?f1 = 0" "fl_upstreamServers ?f1 = []" "fl_upstreamRoutes ?f1 = []"
    "fl_upstreamBootstrap ?f1 = []" "fl_releaseChannel ?f1 = []" "fl_haCluster ?f1 = noCluster" "fl_instances ?f1 = []"
    by (simp_all add: provided_def SetDefault_def NewFleet_def)
  have q: "0 < QueryLogRetentionHours g" by (simp add: QueryLogRetentionHours_def)
  show ?thesis
    unfolding assms(3) startEarly_def Let_def c ovs [unfolded c] QueryLogRetentionHours_def [of "SetQueryLogRetentionDefault _ _"]
    using assms(1) f1 [unfolded c] z [unfolded c] q
    by (intro conjI) (simp_all add: setter_defs provided_sel storedForm_def)
qed

lemma ReleaseChannel_valid: "ValidUpdateChannel (ReleaseChannel g) \<and> ReleaseChannel g \<noteq> []"
  by (auto simp: ReleaseChannel_def ValidUpdateChannel_def)

lemma late_settings:
  assumes "storedForm g" and "cfg = configOf g old" and "fl_upstreamServers f = []" "fl_upstreamRoutes f = []" "fl_upstreamBootstrap f = []"
    and "h = startLate cfg f"
  shows "fl_upstreamServers h = fl_upstreamServers g \<and> fl_upstreamRoutes h = fl_upstreamRoutes g \<and> fl_upstreamBootstrap h = fl_upstreamBootstrap g
    \<and> ReleaseChannel h = ReleaseChannel g \<and> (hl_Enabled (fl_haCluster g) \<longrightarrow> fl_haCluster h = fl_haCluster g)
    \<and> fl_defaultPolicy h = fl_defaultPolicy f \<and> fl_overrides h = fl_overrides f \<and> fl_dohHTTPAddr h = fl_dohHTTPAddr f
    \<and> fl_rateLimitQPS h = fl_rateLimitQPS f \<and> fl_cacheSize h = fl_cacheSize f \<and> QueryLogRetentionHours h = QueryLogRetentionHours f
    \<and> fl_records h = fl_records f"
proof -
  have c: "fc_HACluster cfg = fl_haCluster g" "fc_ReleaseChannel cfg = ReleaseChannel g" "fc_UpstreamServers cfg = fl_upstreamServers g"
    "fc_UpstreamRoutes cfg = fl_upstreamRoutes g" "fc_UpstreamBootstrap cfg = fl_upstreamBootstrap g"
    using assms(2) by (simp_all add: configOf_def)
  have r: "ReleaseChannel (x\<lparr>fl_releaseChannel := ReleaseChannel g\<rparr>) = ReleaseChannel g" for x
    using ReleaseChannel_valid [of g] by (simp add: ReleaseChannel_def)
  have s: "SetReleaseChannelDefault (ReleaseChannel g) x = (x\<lparr>fl_releaseChannel := ReleaseChannel g\<rparr>, None)" for x
    using ReleaseChannel_valid [of g] by (simp add: SetReleaseChannelDefault_def)
  have hl: "fst (SetHAClusterDefault (fl_haCluster g) x) = x\<lparr>fl_haCluster := fl_haCluster g\<rparr>" if "hl_Enabled (fl_haCluster g)" for x
    using that assms(1) by (simp add: SetHAClusterDefault_def storedForm_def)
  have h: "h = provided (fl_upstreamServers g \<noteq> [] \<or> fl_upstreamRoutes g \<noteq> [])
      (SetUpstreamDefault (fl_upstreamServers g) (fl_upstreamRoutes g) (fl_upstreamBootstrap g))
      ((provided (hl_Enabled (fl_haCluster g)) (\<lambda>x. x\<lparr>fl_haCluster := fl_haCluster g\<rparr>) f)\<lparr>fl_releaseChannel := ReleaseChannel g\<rparr>)"
    unfolding assms(6) startLate_def c Let_def s
    using ReleaseChannel_valid [of g] hl by (simp add: provided_def)
  have rh: "ReleaseChannel h = ReleaseChannel g"
    using r unfolding h by (simp add: provided_def SetUpstreamDefault_def ReleaseChannel_def)
  have qh: "QueryLogRetentionHours h = QueryLogRetentionHours f"
    unfolding h QueryLogRetentionHours_def by (simp add: provided_sel SetUpstreamDefault_def)
  show ?thesis
    using assms(1,3-5) rh qh
    by (intro conjI) (simp_all add: h provided_sel SetUpstreamDefault_def storedForm_def)
qed

lemma start_settings:
  assumes "storedForm g" and "cfg = configOf g old"
  shows "settings (fst (startFrom env readFile cfg (NewFleet path yf) net)) = settings g
    \<and> (hl_Enabled (fl_haCluster g) \<longrightarrow> fl_haCluster (fst (startFrom env readFile cfg (NewFleet path yf) net)) = fl_haCluster g)"
proof -
  let ?e = "startEarly cfg (NewFleet path yf)"
  note e = early_settings [OF assms, where path = path and yf = yf, OF refl]
  obtain f1 net1 rs where r: "Fleet_SetRecords env (fc_Records cfg) ?e net = (f1, net1, rs)" by (metis prod_cases3)
  define y where "y = fl_file (savedQuietly env (?e\<lparr>fl_records := fc_Records cfg\<rparr>))"
  have sv: "savedQuietly env (?e\<lparr>fl_records := fc_Records cfg\<rparr>) = ?e\<lparr>fl_records := fc_Records cfg, fl_file := y\<rparr>"
    using saved_file [of env "?e\<lparr>fl_records := fc_Records cfg\<rparr>"] by (simp add: y_def)
  have f1: "f1 = ?e\<lparr>fl_records := fc_Records cfg, fl_file := y\<rparr>"
    using r sv e by (intro Fleet.equality) (auto simp: Fleet_SetRecords_def pushRecords_def pushEach_def)
  define h where "h = startLate cfg f1"
  have recs: "fc_Records cfg = fl_records g" using assms(2) by (simp add: configOf_def)
  have q: "QueryLogRetentionHours (x\<lparr>fl_records := rs, fl_file := yf\<rparr>) = QueryLogRetentionHours x" for x rs yf
    by (simp add: QueryLogRetentionHours_def)
  have h: "settings h = settings g \<and> (hl_Enabled (fl_haCluster g) \<longrightarrow> fl_haCluster h = fl_haCluster g)"
    using late_settings [OF assms _ _ _ h_def] e f1 recs q by (simp add: settings_def)
  obtain f2 net2 where a: "fold (addConfigured env readFile) (fc_Instances cfg) (h, net1) = (f2, net2)" by (metis surj_pair)
  have "desired f2 = desired h" using addAll_desired [of env readFile "fc_Instances cfg" h net1] a by simp
  moreover have "desired (fst (startFrom env readFile cfg (NewFleet path yf) net)) = desired f2"
    using r a by (simp add: startFrom_def h_def provided_def SetAutoUpdateHours_def Let_def)
  ultimately have "desired (fst (startFrom env readFile cfg (NewFleet path yf) net)) = desired h" by simp
  then show ?thesis using h by (simp add: desired_def)
qed

subsection \<open>Properties\<close>



text \<open>
  C35. Two restarts lose the blocklist sources. \<open>main\<close> saves the configuration while it applies it
  (setting the records saves, adding an instance saves) and tells the fleet the sources last, so
  starting up overwrites the file with an empty source list. The running controller still has
  the sources; the next start does not.
\<close>
theorem restart_loses_sources:
  assumes "fe_writable env" and "path \<noteq> []" and "blipcMain env readFile path (Parsed cfg) net = Some (f, net')"
  shows "fl_blocklistSources f = cleanURLs (fc_BlocklistSources cfg)
    \<and> (\<exists>f2 net2. blipcMain env readFile path (fl_file f) net' = Some (f2, net2) \<and> fl_blocklistSources f2 = [])"
proof -
  have start: "fileSourceless (fst (startFrom env readFile c (NewFleet path (Parsed c)) n))
      \<and> fl_blocklistSources (fst (startFrom env readFile c (NewFleet path (Parsed c)) n)) = cleanURLs (fc_BlocklistSources c)" for c n
    by (rule start_forgets [OF assms(1)]) (simp_all add: NewFleet_def sourceless_def assms(2))
  have f: "startFrom env readFile cfg (NewFleet path (Parsed cfg)) net = (f, net')"
    using assms(3) by (simp add: blipcMain_def loadConfig_def)
  obtain c2 where c2: "fl_file f = Parsed c2" "fc_BlocklistSources c2 = []"
    using start [of cfg net] f by (auto simp: fileSourceless_def)
  obtain f2 net2 where f2: "startFrom env readFile c2 (NewFleet path (Parsed c2)) net' = (f2, net2)" by (metis surj_pair)
  have "blipcMain env readFile path (fl_file f) net' = Some (f2, net2)"
    using c2(1) f2 by (simp add: blipcMain_def loadConfig_def)
  moreover have "fl_blocklistSources f2 = []" using start [of c2 net'] f2 c2(2) by (simp add: cleanURLs_def)
  ultimately show ?thesis using start [of cfg net] f by auto
qed

theorem restart_loses_sources_witness:
  "\<exists>f net'. blipcMain sampleFleetEnv (\<lambda>_. None) ''/etc/blipc.yaml'' (Parsed (zeroConfig\<lparr>fc_BlocklistSources := [''https://lists.example/big'']\<rparr>))
       (\<lambda>_. sampleControl, 5) = Some (f, net')
     \<and> fl_blocklistSources f = [''https://lists.example/big'']
     \<and> map_option (fl_blocklistSources \<circ> fst) (blipcMain sampleFleetEnv (\<lambda>_. None) ''/etc/blipc.yaml'' (fl_file f) net') = Some []"
proof -
  let ?cfg = "zeroConfig\<lparr>fc_BlocklistSources := [''https://lists.example/big'']\<rparr>"
  obtain f net' where m: "blipcMain sampleFleetEnv (\<lambda>_. None) ''/etc/blipc.yaml'' (Parsed ?cfg) (\<lambda>_. sampleControl, 5) = Some (f, net')"
    by (cases "startFrom sampleFleetEnv (\<lambda>_. None) ?cfg (NewFleet ''/etc/blipc.yaml'' (Parsed ?cfg)) (\<lambda>_. sampleControl, 5)")
       (auto simp: blipcMain_def loadConfig_def)
  have w: "fe_writable sampleFleetEnv" "''/etc/blipc.yaml'' \<noteq> []" by (simp_all add: sampleFleetEnv_def)
  have "cleanURLs [''https://lists.example/big''] = [''https://lists.example/big'']" by code_simp
  then have "fl_blocklistSources f = [''https://lists.example/big'']"
    using restart_loses_sources [OF w m] by simp
  moreover obtain f2 net2 where "blipcMain sampleFleetEnv (\<lambda>_. None) ''/etc/blipc.yaml'' (fl_file f) net' = Some (f2, net2)"
    "fl_blocklistSources f2 = []"
    using restart_loses_sources [OF w m] by blast
  ultimately show ?thesis using m by auto
qed

end
