(* ===== verification/Blip_Auth.thy ===== *)
theory Blip_Auth
  imports Blip_Converge
begin

text \<open>
  The operator's login to the controller (\<open>src/internal/controller/auth.go\<close> and the session
  handlers of \<open>src/internal/controller/server.go\<close>): credentials, sessions, expiring API keys, the
  lockout, the one-time setup.

  Parameters: the clock, \<open>crypto/rand\<close> and bcrypt. The session cookie appears as \<open>net/http\<close> hands
  it out, request bodies as they decode. A map iteration is the order of the association list.
\<close>

subsection \<open>Environment and state\<close>

datatype bcrypt = Matches | Mismatched | Malformed

record 'w auth_env =
  ae_now :: "'w \<Rightarrow> time"
  ae_rand :: "nat \<Rightarrow> 'w \<Rightarrow> 'w \<times> u8 list option"  \<comment> \<open>\<open>None\<close>: the read failed\<close>
  ae_compare :: "string \<Rightarrow> string \<Rightarrow> bcrypt"  \<comment> \<open>hash, password\<close>
  ae_generate :: "string \<Rightarrow> 'w \<Rightarrow> 'w \<times> string option"
  ae_writable :: bool  \<comment> \<open>the configuration file\<close>

record loginFails =
  lf_count :: int
  lf_windowStart :: time

record apiKey =
  ak_secret :: string
  ak_label :: string
  ak_created :: time
  ak_expires :: time

record Auth =
  au_username :: string
  au_passHash :: string
  au_configured :: bool
  au_sessions :: "(string \<times> time) list"
  au_keys :: "(string \<times> apiKey) list"
  au_fl :: "(string \<times> loginFails) list"

definition Hour :: time where "Hour = 3600000000000"
definition sessionTTL :: time where "sessionTTL = 24 * Hour"
definition maxLoginFails :: int where "maxLoginFails = 5"
definition loginLockWindow :: time where "loginLockWindow = 300000000000"
definition maxAPIKeyLabelLen :: nat where "maxAPIKeyLabelLen = 64"
definition maxAPIKeyTTL :: time where "maxAPIKeyTTL = 30 * 24 * Hour"

subsection \<open>Credentials\<close>

definition looksLikeBcryptHash :: "string \<Rightarrow> bool" where
  "looksLikeBcryptHash s \<longleftrightarrow> HasPrefix s ''$2a$'' \<or> HasPrefix s ''$2b$'' \<or> HasPrefix s ''$2y$''"

definition bcryptHashFor :: "'w auth_env \<Rightarrow> string \<Rightarrow> 'w \<Rightarrow> 'w \<times> string option" where
  "bcryptHashFor env password w =
     (if looksLikeBcryptHash password
      then (w, if ae_compare env password [] = Malformed then None else Some password)
      else ae_generate env password w)"

definition closedAuth :: Auth where
  "closedAuth = \<lparr>au_username = [], au_passHash = [], au_configured = False, au_sessions = [], au_keys = [], au_fl = []\<rparr>"

definition NewAuth :: "'w auth_env \<Rightarrow> string \<Rightarrow> string \<Rightarrow> 'w \<Rightarrow> Auth \<times> 'w" where
  "NewAuth env username password w =
     (if username = [] \<or> password = [] then (closedAuth, w)
      else case bcryptHashFor env password w of
             (w1, None) \<Rightarrow> (closedAuth, w1)
           | (w1, Some hash) \<Rightarrow> (closedAuth\<lparr>au_username := username, au_passHash := hash, au_configured := True\<rparr>, w1))"

definition Configure :: "'w auth_env \<Rightarrow> string \<Rightarrow> string \<Rightarrow> Auth \<Rightarrow> Auth \<times> bool" where
  "Configure env username passwordHash a =
     (if username = [] \<or> passwordHash = [] then (a, False)
      else if au_configured a then (a, False)
      else if ae_compare env passwordHash [] = Malformed then (a, False)
      else (a\<lparr>au_username := username, au_passHash := passwordHash, au_configured := True\<rparr>, True))"

definition verify :: "'w auth_env \<Rightarrow> string \<Rightarrow> string \<Rightarrow> Auth \<Rightarrow> bool" where
  "verify env user pass a \<longleftrightarrow> user = au_username a \<and> ae_compare env (au_passHash a) pass = Matches"

subsection \<open>Lockout\<close>

definition allowLogin :: "string \<Rightarrow> time \<Rightarrow> Auth \<Rightarrow> bool" where
  "allowLogin ip now a =
     (case map_of (au_fl a) ip of
        None \<Rightarrow> True
      | Some f \<Rightarrow> if lf_windowStart f + loginLockWindow < now then True else lf_count f < maxLoginFails)"

definition recordFail :: "string \<Rightarrow> time \<Rightarrow> Auth \<Rightarrow> Auth" where
  "recordFail ip now a =
     (let fresh = \<lparr>lf_count = 1, lf_windowStart = now\<rparr>;
          f' = (case map_of (au_fl a) ip of
                  None \<Rightarrow> fresh
                | Some f \<Rightarrow> if lf_windowStart f + loginLockWindow < now then fresh else f\<lparr>lf_count := lf_count f + 1\<rparr>)
      in a\<lparr>au_fl := AList.update ip f' (au_fl a)\<rparr>)"

definition clearFails :: "string \<Rightarrow> Auth \<Rightarrow> Auth" where
  "clearFails ip a = a\<lparr>au_fl := AList.delete ip (au_fl a)\<rparr>"

definition Sweep :: "time \<Rightarrow> Auth \<Rightarrow> Auth" where
  "Sweep now a =
     a\<lparr>au_sessions := filter (\<lambda>(_, expiry). \<not> expiry < now) (au_sessions a),
       au_keys := filter (\<lambda>(_, k). \<not> ak_expires k < now) (au_keys a),
       au_fl := filter (\<lambda>(_, f). \<not> lf_windowStart f + loginLockWindow < now) (au_fl a)\<rparr>"

subsection \<open>Sessions\<close>

definition newSessionID :: "'w auth_env \<Rightarrow> 'w \<Rightarrow> 'w \<times> string option" where
  "newSessionID env w = (case ae_rand env 32 w of (w1, ob) \<Rightarrow> (w1, map_option genToken ob))"

datatype LoginError = BadCreds | Locked | NoAuthCfg | RandFailed

definition Login ::
  "'w auth_env \<Rightarrow> string \<Rightarrow> string \<Rightarrow> string \<Rightarrow> Auth \<Rightarrow> 'w \<Rightarrow> Auth \<times> 'w \<times> (LoginError, string) result" where
  "Login env username password clientIP a w =
     (if \<not> au_configured a then (a, w, Inl NoAuthCfg)
      else if \<not> allowLogin clientIP (ae_now env w) a then (a, w, Inl Locked)
      else if \<not> verify env username password a then (recordFail clientIP (ae_now env w) a, w, Inl BadCreds)
      else
        let a1 = clearFails clientIP a in
        case newSessionID env w of
          (w1, None) \<Rightarrow> (a1, w1, Inl RandFailed)
        | (w1, Some sid) \<Rightarrow> (a1\<lparr>au_sessions := AList.update sid (ae_now env w1 + sessionTTL) (au_sessions a1)\<rparr>, w1, Inr sid))"

definition Authed :: "string option \<Rightarrow> time \<Rightarrow> Auth \<Rightarrow> Auth \<times> bool" where
  "Authed cookie now a =
     (case cookie of
        None \<Rightarrow> (a, False)
      | Some v \<Rightarrow>
          if v = [] then (a, False)
          else case map_of (au_sessions a) v of
                 None \<Rightarrow> (a, False)
               | Some expiry \<Rightarrow>
                   if expiry < now then (a\<lparr>au_sessions := AList.delete v (au_sessions a)\<rparr>, False) else (a, True))"

definition Destroy :: "string option \<Rightarrow> Auth \<Rightarrow> Auth" where
  "Destroy cookie a =
     (case cookie of None \<Rightarrow> a | Some v \<Rightarrow> a\<lparr>au_sessions := AList.delete v (au_sessions a)\<rparr>)"

subsection \<open>API keys\<close>

text \<open>\<open>time.Duration(h) * time.Hour\<close> wraps at 64 bits.\<close>

definition hoursToDuration :: "int \<Rightarrow> time" where
  "hoursToDuration h = sint (word_of_int (h * Hour) :: 64 word)"

definition CreateAPIKey ::
  "'w auth_env \<Rightarrow> string \<Rightarrow> time \<Rightarrow> Auth \<Rightarrow> 'w \<Rightarrow> Auth \<times> 'w \<times> (string, string \<times> string \<times> time) result" where
  "CreateAPIKey env label0 ttl a w =
     (let label = TrimSpace label0 in
      if label = [] \<or> maxAPIKeyLabelLen < length label then (a, w, Inl ''label must be 1-64 characters'')
      else if ttl \<le> 0 \<or> maxAPIKeyTTL < ttl then (a, w, Inl ''ttl must be positive and at most 30 days'')
      else case newSessionID env w of
             (w1, None) \<Rightarrow> (a, w1, Inl ''rand'')
           | (w1, Some raw) \<Rightarrow>
               (case ae_rand env 6 w1 of
                  (w2, None) \<Rightarrow> (a, w2, Inl ''rand'')
                | (w2, Some idRaw) \<Rightarrow>
                    let now = ae_now env w2;
                        k = \<lparr>ak_secret = ''blip_'' @ raw, ak_label = label, ak_created = now, ak_expires = now + ttl\<rparr>;
                        kid = genToken idRaw
                    in (a\<lparr>au_keys := AList.update kid k (au_keys a)\<rparr>, w2, Inr (kid, ak_secret k, ak_expires k))))"

definition ListAPIKeys :: "Auth \<Rightarrow> (string \<times> string \<times> time \<times> time) list" where
  "ListAPIKeys a = map (\<lambda>(kid, k). (kid, ak_label k, ak_created k, ak_expires k)) (au_keys a)"

definition RevokeAPIKey :: "string \<Rightarrow> Auth \<Rightarrow> Auth \<times> bool" where
  "RevokeAPIKey kid a =
     (if map_of (au_keys a) kid = None then (a, False) else (a\<lparr>au_keys := AList.delete kid (au_keys a)\<rparr>, True))"

definition validAPIKey :: "string \<Rightarrow> time \<Rightarrow> Auth \<Rightarrow> bool" where
  "validAPIKey secret now a =
     (if secret = [] then False
      else case find (\<lambda>(_, k). secret = ak_secret k) (au_keys a) of
             None \<Rightarrow> False
           | Some (_, k) \<Rightarrow> now < ak_expires k)"

subsection \<open>Requests\<close>

definition ClientIP :: "HTTPRequest \<Rightarrow> string" where
  "ClientIP r = (case SplitHostPort (hr_RemoteAddr r) of None \<Rightarrow> TrimSpace (hr_RemoteAddr r) | Some (host, _) \<Rightarrow> host)"

definition bearerToken :: "HTTPRequest \<Rightarrow> string" where
  "bearerToken r =
     (let h = getOr (hr_Header r) ''Authorization''
      in if 7 < length h \<and> ToLower (take 7 h) = ''bearer '' then drop 7 h else [])"

definition requireAuth :: "HTTPRequest \<Rightarrow> string option \<Rightarrow> time \<Rightarrow> Auth \<Rightarrow> Auth \<times> bool" where
  "requireAuth r cookie now a =
     (case Authed cookie now a of
        (a1, True) \<Rightarrow> (a1, True)
      | (a1, False) \<Rightarrow> (a1, validAPIKey (bearerToken r) now a1))"

record AuthBody =
  ab_login :: "(string, string \<times> string) result"
  ab_setup :: "(string, string \<times> string \<times> string \<times> string) result"  \<comment> \<open>token, username, password, confirmation\<close>
  ab_key :: "(string, string \<times> int) result"

datatype authReply =
    Refused string int
  | SignedIn string bool  \<comment> \<open>the cookie minted; whether it is marked \<open>Secure\<close>\<close>
  | SignedOut bool
  | Done
  | KeyList "(string \<times> string \<times> time \<times> time) list"
  | KeyMinted string string time

definition handleLogin :: "'w auth_env \<Rightarrow> HTTPRequest \<Rightarrow> AuthBody \<Rightarrow> Auth \<Rightarrow> 'w \<Rightarrow> Auth \<times> 'w \<times> authReply" where
  "handleLogin env r body a w =
     (if hr_Method r \<noteq> ''POST'' then (a, w, Refused ''method not allowed'' 405)
      else case ab_login body of
             Inl _ \<Rightarrow> (a, w, Refused ''bad request'' 400)
           | Inr (user, pass) \<Rightarrow>
               if \<not> au_configured a then (a, w, Refused ''authentication not configured'' 403)
               else case Login env user pass (ClientIP r) a w of
                      (a1, w1, Inl Locked) \<Rightarrow> (a1, w1, Refused ''too many attempts'' 429)
                    | (a1, w1, Inl _) \<Rightarrow> (a1, w1, Refused ''invalid credentials'' 401)
                    | (a1, w1, Inr sid) \<Rightarrow> (a1, w1, SignedIn sid (hr_TLS r)))"

text \<open>The credentials in the configuration file; everything else in it stays.\<close>

definition persistCredentials :: "bool \<Rightarrow> string \<Rightarrow> string \<Rightarrow> yamlFile \<Rightarrow> yamlFile option" where
  "persistCredentials writable username passwordHash y =
     (case y of
        Garbled \<Rightarrow> None
      | Missing \<Rightarrow> if writable then Some (Parsed (zeroConfig\<lparr>fc_Username := username, fc_PasswordHash := passwordHash\<rparr>)) else None
      | Parsed c \<Rightarrow>
          if writable then Some (Parsed (c\<lparr>fc_Username := username, fc_PasswordHash := passwordHash, fc_Password := []\<rparr>)) else None)"

definition handleSetup ::
  "'w auth_env \<Rightarrow> string \<Rightarrow> string \<Rightarrow> HTTPRequest \<Rightarrow> AuthBody \<Rightarrow> Auth \<Rightarrow> yamlFile \<Rightarrow> 'w
   \<Rightarrow> Auth \<times> yamlFile \<times> 'w \<times> authReply" where
  "handleSetup env configPath setupToken r body a y w =
     (if hr_Method r \<noteq> ''POST'' then (a, y, w, Refused ''method not allowed'' 405)
      else if au_configured a then (a, y, w, Refused ''setup already completed'' 403)
      else case ab_setup body of
             Inl _ \<Rightarrow> (a, y, w, Refused ''bad request'' 400)
           | Inr (token, user0, pass, confirm) \<Rightarrow>
               if setupToken = [] \<or> token \<noteq> setupToken then (a, y, w, Refused ''invalid setup token'' 403)
               else
                 let user = TrimSpace user0 in
                 if length user < 1 \<or> 64 < length user then (a, y, w, Refused ''username must be between 1 and 64 characters'' 400)
                 else if length pass < 8 \<or> 72 < length pass then (a, y, w, Refused ''password must be between 8 and 72 characters'' 400)
                 else if pass \<noteq> confirm then (a, y, w, Refused ''passwords do not match'' 400)
                 else case ae_generate env pass w of
                        (w1, None) \<Rightarrow> (a, y, w1, Refused ''could not secure password'' 500)
                      | (w1, Some hash) \<Rightarrow>
                          if configPath = [] then (a, y, w1, Refused ''setup persistence is unavailable'' 500)
                          else case persistCredentials (ae_writable env) user hash y of
                                 None \<Rightarrow> (a, y, w1, Refused ''could not save credentials'' 500)
                               | Some y1 \<Rightarrow>
                                   (case Configure env user hash a of
                                      (a1, False) \<Rightarrow> (a1, y1, w1, Refused ''setup already completed'' 403)
                                    | (a1, True) \<Rightarrow>
                                        (case Login env user pass (ClientIP r) a1 w1 of
                                           (a2, w2, Inl _) \<Rightarrow> (a2, y1, w2, Refused ''could not start session'' 500)
                                         | (a2, w2, Inr sid) \<Rightarrow> (a2, y1, w2, SignedIn sid (hr_TLS r)))))"

definition handleLogout :: "HTTPRequest \<Rightarrow> string option \<Rightarrow> Auth \<Rightarrow> Auth \<times> authReply" where
  "handleLogout r cookie a =
     (if hr_Method r \<noteq> ''POST'' then (a, Refused ''method not allowed'' 405)
      else (Destroy cookie a, SignedOut (hr_TLS r)))"

definition handleAPIKeys ::
  "'w auth_env \<Rightarrow> HTTPRequest \<Rightarrow> string option \<Rightarrow> AuthBody \<Rightarrow> Auth \<Rightarrow> 'w \<Rightarrow> Auth \<times> 'w \<times> authReply" where
  "handleAPIKeys env r cookie body a w =
     (case Authed cookie (ae_now env w) a of
        (a1, False) \<Rightarrow> (a1, w, Refused ''unauthorized'' 401)
      | (a1, True) \<Rightarrow>
          if hr_Method r = ''GET'' then (a1, w, KeyList (ListAPIKeys a1))
          else if hr_Method r = ''POST'' then
            (case ab_key body of
               Inl _ \<Rightarrow> (a1, w, Refused ''bad request'' 400)
             | Inr (label, ttlHours) \<Rightarrow>
                 (case CreateAPIKey env label (hoursToDuration ttlHours) a1 w of
                    (a2, w1, Inl e) \<Rightarrow> (a2, w1, Refused e 400)
                  | (a2, w1, Inr (kid, secret, expires)) \<Rightarrow> (a2, w1, KeyMinted kid secret expires)))
          else if hr_Method r = ''DELETE'' then
            (case RevokeAPIKey (getOr (hr_Query r) ''id'') a1 of
               (a2, False) \<Rightarrow> (a2, w, Refused ''unknown key'' 404)
             | (a2, True) \<Rightarrow> (a2, w, Done))
          else (a1, w, Refused ''method not allowed'' 405))"

subsection \<open>Histories\<close>

datatype authCall =
    CallLogin HTTPRequest AuthBody
  | CallSetup HTTPRequest AuthBody
  | CallLogout HTTPRequest "string option"
  | CallKeys HTTPRequest "string option" AuthBody
  | CallGate HTTPRequest "string option"
  | CallSweep

type_synonym 'w auth_state = "Auth \<times> yamlFile \<times> 'w"

definition auth_step ::
  "'w auth_env \<Rightarrow> string \<Rightarrow> string \<Rightarrow> authCall \<Rightarrow> 'w auth_state \<Rightarrow> 'w auth_state \<times> authReply" where
  "auth_step env path token c st =
     (case st of (a, y, w) \<Rightarrow>
      case c of
        CallLogin r body \<Rightarrow> (case handleLogin env r body a w of (a1, w1, x) \<Rightarrow> ((a1, y, w1), x))
      | CallSetup r body \<Rightarrow> (case handleSetup env path token r body a y w of (a1, y1, w1, x) \<Rightarrow> ((a1, y1, w1), x))
      | CallLogout r cookie \<Rightarrow> (case handleLogout r cookie a of (a1, x) \<Rightarrow> ((a1, y, w), x))
      | CallKeys r cookie body \<Rightarrow> (case handleAPIKeys env r cookie body a w of (a1, w1, x) \<Rightarrow> ((a1, y, w1), x))
      | CallGate r cookie \<Rightarrow>
          (case requireAuth r cookie (ae_now env w) a of (a1, ok) \<Rightarrow> ((a1, y, w), if ok then Done else Refused ''unauthorized'' 401))
      | CallSweep \<Rightarrow> ((Sweep (ae_now env w) a, y, w), Done))"

type_synonym auth_log = "(authCall \<times> authReply \<times> time) list"

text \<open>What has been asked and answered so far, with the time of the answer; the rest of the world may move in between.\<close>

inductive auth_hist ::
  "'w auth_env \<Rightarrow> string \<Rightarrow> string \<Rightarrow> 'w auth_state \<Rightarrow> 'w auth_state \<Rightarrow> auth_log \<Rightarrow> bool"
  for env path token st0 where
  init_log: "auth_hist env path token st0 st0 []"
| called: "auth_hist env path token st0 st lg \<Longrightarrow> auth_step env path token c st = ((a, y, w), x)
    \<Longrightarrow> auth_hist env path token st0 (a, y, w) (lg @ [(c, x, ae_now env w)])"
| moved: "auth_hist env path token st0 (a, y, w) lg \<Longrightarrow> auth_hist env path token st0 (a, y, w') lg"

subsection \<open>Where sessions and keys come from\<close>

definition signsIn :: "'w auth_env \<Rightarrow> string \<Rightarrow> Auth \<Rightarrow> authCall \<Rightarrow> bool" where
  "signsIn env token a c =
     (case c of
        CallLogin r body \<Rightarrow> (\<exists>user pass. ab_login body = Inr (user, pass) \<and> verify env user pass a)
      | CallSetup r body \<Rightarrow> token \<noteq> [] \<and> (\<exists>user pass confirm. ab_setup body = Inr (token, user, pass, confirm))
      | _ \<Rightarrow> False)"

definition leftOpen :: "string \<Rightarrow> auth_log \<Rightarrow> bool" where
  "leftOpen sid lg \<longleftrightarrow> (\<forall>r b t. (CallLogout r (Some sid), SignedOut b, t) \<notin> set lg)"

definition notRevoked :: "string \<Rightarrow> auth_log \<Rightarrow> bool" where
  "notRevoked kid lg \<longleftrightarrow>
     (\<forall>r cookie body t. hr_Method r = ''DELETE'' \<and> getOr (hr_Query r) ''id'' = kid \<longrightarrow> (CallKeys r cookie body, Done, t) \<notin> set lg)"

definition sessionTraced :: "'w auth_env \<Rightarrow> string \<Rightarrow> Auth \<Rightarrow> auth_log \<Rightarrow> string \<Rightarrow> time \<Rightarrow> bool" where
  "sessionTraced env token a lg sid expiry \<longleftrightarrow>
     (\<exists>log1 c b t log2. lg = log1 @ (c, SignedIn sid b, t) # log2 \<and> signsIn env token a c \<and> expiry = t + sessionTTL \<and> leftOpen sid log2)"

definition keyTraced :: "'w auth_env \<Rightarrow> string \<Rightarrow> Auth \<Rightarrow> auth_log \<Rightarrow> string \<Rightarrow> string \<Rightarrow> time \<Rightarrow> bool" where
  "keyTraced env token a lg kid secret expires \<longleftrightarrow>
     (\<exists>log1 r v body t log2. lg = log1 @ (CallKeys r (Some v) body, KeyMinted kid secret expires, t) # log2 \<and> notRevoked kid log2
        \<and> (\<exists>e. sessionTraced env token a log1 v e))"

definition creds :: "Auth \<Rightarrow> string \<times> string \<times> bool" where
  "creds a = (au_username a, au_passHash a, au_configured a)"

definition traced :: "'w auth_env \<Rightarrow> string \<Rightarrow> Auth \<Rightarrow> auth_log \<Rightarrow> bool" where
  "traced env token a lg \<longleftrightarrow>
     (\<forall>(sid, e) \<in> set (au_sessions a). sessionTraced env token a lg sid e)
     \<and> (\<forall>(kid, k) \<in> set (au_keys a). keyTraced env token a lg kid (ak_secret k) (ak_expires k))
     \<and> (\<not> au_configured a \<longrightarrow> au_sessions a = [] \<and> au_keys a = [])"

lemma signsIn_cong: "creds a = creds a' \<Longrightarrow> signsIn env token a c = signsIn env token a' c"
  by (simp add: signsIn_def verify_def creds_def split: authCall.splits)

lemma sessionTraced_cong: "creds a = creds a' \<Longrightarrow> sessionTraced env token a lg sid e = sessionTraced env token a' lg sid e"
  using signsIn_cong [of a a' env token] by (simp add: sessionTraced_def)

lemma keyTraced_cong: "creds a = creds a' \<Longrightarrow> keyTraced env token a lg kid s e = keyTraced env token a' lg kid s e"
  using sessionTraced_cong [of a a' env token] by (simp add: keyTraced_def)

text \<open>An entry that ends neither the session nor the key keeps them traced.\<close>

lemma sessionTraced_snoc:
  assumes "sessionTraced env token a lg sid e" and "leftOpen sid [entry]"
  shows "sessionTraced env token a (lg @ [entry]) sid e"
proof -
  obtain log1 c b t log2 where l: "lg = log1 @ (c, SignedIn sid b, t) # log2" "signsIn env token a c" "e = t + sessionTTL" "leftOpen sid log2"
    using assms(1) by (auto simp: sessionTraced_def)
  have "leftOpen sid (log2 @ [entry])" using l(4) assms(2) by (auto simp: leftOpen_def)
  then show ?thesis using l by (auto simp: sessionTraced_def intro!: exI [of _ log1])
qed

lemma keyTraced_snoc:
  assumes "keyTraced env token a lg kid s e" and "notRevoked kid [entry]"
  shows "keyTraced env token a (lg @ [entry]) kid s e"
proof -
  obtain log1 r v body t log2 e' where l: "lg = log1 @ (CallKeys r (Some v) body, KeyMinted kid s e, t) # log2" "notRevoked kid log2"
    "sessionTraced env token a log1 v e'"
    using assms(1) unfolding keyTraced_def by (elim exE conjE) (rule that; assumption)
  have "notRevoked kid (log2 @ [entry])" using l(2) assms(2) by (auto simp: notRevoked_def)
  then show ?thesis using l by (auto simp: keyTraced_def intro!: exI [of _ log1] exI [of _ e'])
qed

text \<open>A step that only drops sessions and keys, at least those it ends.\<close>

lemma traced_shrink:
  assumes "traced env token a lg" and "creds a' = creds a"
    and "set (au_sessions a') \<subseteq> set (au_sessions a)" and "set (au_keys a') \<subseteq> set (au_keys a)"
    and "\<forall>sid \<in> fst ` set (au_sessions a'). leftOpen sid [entry]" and "\<forall>kid \<in> fst ` set (au_keys a'). notRevoked kid [entry]"
  shows "traced env token a' (lg @ [entry])"
proof -
  have "sessionTraced env token a' (lg @ [entry]) sid e" if "(sid, e) \<in> set (au_sessions a')" for sid e
    using that assms sessionTraced_snoc [of env token a lg sid e entry] sessionTraced_cong [OF assms(2), of env token]
    by (force simp: traced_def)
  moreover have "keyTraced env token a' (lg @ [entry]) kid (ak_secret k) (ak_expires k)" if "(kid, k) \<in> set (au_keys a')" for kid k
    using that assms keyTraced_snoc [of env token a lg kid "ak_secret k" "ak_expires k" entry] keyTraced_cong [OF assms(2), of env token]
    by (force simp: traced_def)
  moreover have "\<not> au_configured a' \<longrightarrow> au_sessions a' = [] \<and> au_keys a' = []"
    using assms(1-4) by (auto simp: traced_def creds_def)
  ultimately show ?thesis by (auto simp: traced_def)
qed

lemma update_entries: "set (AList.update k v al) \<subseteq> insert (k, v) (set al)"
  by (induction al) auto

lemma delete_entries: "set (AList.delete k al) = {e \<in> set al. fst e \<noteq> k}"
  by (auto simp: AList.delete_eq)

lemma leftOpen_entry: "(\<And>b. x \<noteq> SignedOut b) \<Longrightarrow> leftOpen sid [(c, x, t)]"
  by (auto simp: leftOpen_def)

lemma notRevoked_entry: "x \<noteq> Done \<Longrightarrow> notRevoked kid [(c, x, t)]"
  by (auto simp: notRevoked_def)

lemma traced_none:
  assumes "au_sessions a = []" and "au_keys a = []"
  shows "traced env token a lg"
  using assms by (simp add: traced_def)

lemma traced_session:
  assumes "traced env token a lg" and "creds a' = creds a" and "au_sessions a' = AList.update sid (t + sessionTTL) (au_sessions a)"
    and "au_keys a' = au_keys a" and "signsIn env token a c" and "au_configured a"
  shows "traced env token a' (lg @ [(c, SignedIn sid b, t)])"
proof -
  let ?entry = "(c, SignedIn sid b, t)"
  have new: "sessionTraced env token a (lg @ [?entry]) sid (t + sessionTTL)"
    using assms(5) by (auto simp: sessionTraced_def leftOpen_def intro!: exI [of _ lg])
  have "sessionTraced env token a (lg @ [?entry]) s e" if "(s, e) \<in> set (au_sessions a')" for s e
    using that assms(1,3) update_entries [of sid "t + sessionTTL" "au_sessions a"] new
      sessionTraced_snoc [of env token a lg s e ?entry] leftOpen_entry [of "SignedIn sid b"]
    by (force simp: traced_def)
  moreover have "keyTraced env token a (lg @ [?entry]) kid (ak_secret k) (ak_expires k)" if "(kid, k) \<in> set (au_keys a')" for kid k
    using that assms(1,4) keyTraced_snoc [of env token a lg kid "ak_secret k" "ak_expires k" ?entry] notRevoked_entry [of "SignedIn sid b"]
    by (force simp: traced_def)
  ultimately show ?thesis
    using assms(2,6) sessionTraced_cong [OF assms(2), of env token] keyTraced_cong [OF assms(2), of env token]
    by (auto simp: traced_def creds_def)
qed

lemma traced_key:
  assumes "traced env token a lg" and "creds a' = creds a" and "au_sessions a' = au_sessions a"
    and "au_keys a' = AList.update kid k (au_keys a)" and "map_of (au_sessions a) v = Some e" and "au_configured a"
  shows "traced env token a' (lg @ [(CallKeys r (Some v) body, KeyMinted kid (ak_secret k) (ak_expires k), t)])"
proof -
  let ?entry = "(CallKeys r (Some v) body, KeyMinted kid (ak_secret k) (ak_expires k), t)"
  have "sessionTraced env token a lg v e" using assms(1) map_of_SomeD [OF assms(5)] by (auto simp: traced_def)
  then have new: "keyTraced env token a (lg @ [?entry]) kid (ak_secret k) (ak_expires k)"
    by (auto simp: keyTraced_def notRevoked_def intro!: exI [of _ lg])
  have "keyTraced env token a (lg @ [?entry]) i (ak_secret h) (ak_expires h)" if "(i, h) \<in> set (au_keys a')" for i h
    using that assms(1,4) update_entries [of kid k "au_keys a"] new
      keyTraced_snoc [of env token a lg i "ak_secret h" "ak_expires h" ?entry] notRevoked_entry [of "KeyMinted kid (ak_secret k) (ak_expires k)"]
    by (force simp: traced_def)
  moreover have "sessionTraced env token a (lg @ [?entry]) s x" if "(s, x) \<in> set (au_sessions a')" for s x
    using that assms(1,3) sessionTraced_snoc [of env token a lg s x ?entry] leftOpen_entry [of "KeyMinted kid (ak_secret k) (ak_expires k)"]
    by (force simp: traced_def)
  ultimately show ?thesis
    using assms(2,6) sessionTraced_cong [OF assms(2), of env token] keyTraced_cong [OF assms(2), of env token]
    by (auto simp: traced_def creds_def)
qed

text \<open>Any other answer leaves the credentials alone and adds nothing.\<close>

definition onlyDrops :: "Auth \<Rightarrow> Auth \<Rightarrow> bool" where
  "onlyDrops a a' \<longleftrightarrow> creds a' = creds a \<and> set (au_sessions a') \<subseteq> set (au_sessions a) \<and> set (au_keys a') \<subseteq> set (au_keys a)"

lemma traced_drops:
  assumes "traced env token a lg" and "onlyDrops a a'" and "\<And>b. x \<noteq> SignedOut b" and "x \<noteq> Done \<or> (\<forall>r k body. c \<noteq> CallKeys r k body)"
  shows "traced env token a' (lg @ [(c, x, t)])"
proof (rule traced_shrink [OF assms(1)])
  show "\<forall>sid \<in> fst ` set (au_sessions a'). leftOpen sid [(c, x, t)]" using leftOpen_entry [OF assms(3)] by blast
  show "\<forall>kid \<in> fst ` set (au_keys a'). notRevoked kid [(c, x, t)]" using assms(4) by (auto simp: notRevoked_def)
qed (use assms(2) in \<open>auto simp: onlyDrops_def\<close>)

lemma onlyDrops_refl [simp]: "onlyDrops a a"
  by (simp add: onlyDrops_def)

lemma drops_simps [simp]:
  "onlyDrops a (recordFail ip now a)" "onlyDrops a (clearFails ip a)" "onlyDrops a (Sweep now a)"
  by (auto simp: onlyDrops_def recordFail_def clearFails_def Sweep_def creds_def Let_def)

lemma Destroy_drops [simp]: "onlyDrops a (Destroy cookie a)"
  by (cases cookie) (auto simp: onlyDrops_def Destroy_def creds_def delete_entries)

lemma Authed_drops: "Authed cookie now a = (a1, ok) \<Longrightarrow> onlyDrops a a1"
  by (auto simp: onlyDrops_def Authed_def creds_def delete_entries split: option.splits if_splits)

lemma Authed_valid_shape:
  "Authed cookie now a = (a1, True) \<Longrightarrow> \<exists>v e. cookie = Some v \<and> map_of (au_sessions a) v = Some e \<and> now \<le> e \<and> a1 = a"
  by (auto simp: Authed_def split: option.splits if_splits)

lemma Login_shape:
  assumes "Login env u p ip a w = (a', w', z)"
  shows "(\<exists>e. z = Inl e) \<and> onlyDrops a a'
    \<or> (\<exists>sid. z = Inr sid \<and> au_configured a \<and> verify env u p a \<and> creds a' = creds a \<and> au_keys a' = au_keys a
        \<and> au_sessions a' = AList.update sid (ae_now env w' + sessionTTL) (au_sessions a))"
proof (cases "newSessionID env w")
  case (Pair w1 o1)
  then show ?thesis
    using assms by (cases o1) (auto simp: Login_def Let_def creds_def clearFails_def onlyDrops_def recordFail_def split: if_splits)
qed

lemma Login_cases:
  assumes "Login env u p ip a w = (a', w', z)"
  obtains (refused) e where "z = Inl e" "onlyDrops a a'"
  | (signed_in) sid where "z = Inr sid" "au_configured a" "verify env u p a" "creds a' = creds a" "au_keys a' = au_keys a"
      "au_sessions a' = AList.update sid (ae_now env w' + sessionTTL) (au_sessions a)"
  using Login_shape [OF assms] by blast

lemma handleLogin_traced:
  assumes "traced env token a lg" and "handleLogin env r body a w = (a', w', x)"
  shows "traced env token a' (lg @ [(CallLogin r body, x, ae_now env w')])"
proof (cases "\<exists>user pass. hr_Method r = ''POST'' \<and> ab_login body = Inr (user, pass) \<and> au_configured a")
  case False
  then have "a' = a \<and> (\<exists>msg n. x = Refused msg n)"
    using assms(2) by (auto simp: handleLogin_def split: if_splits sum.splits prod.splits)
  then show ?thesis using traced_drops [OF assms(1) onlyDrops_refl, of x] by auto
next
  case True
  then obtain user pass where go: "hr_Method r = ''POST''" "ab_login body = Inr (user, pass)" "au_configured a" by blast
  obtain a1 w1 z where L: "Login env user pass (ClientIP r) a w = (a1, w1, z)" using prod_cases3 by blast
  have end_state: "a' = a1 \<and> w' = w1 \<and> (case z of Inl _ \<Rightarrow> \<exists>msg n. x = Refused msg n | Inr sid \<Rightarrow> x = SignedIn sid (hr_TLS r))"
    using assms(2) go L by (auto simp: handleLogin_def split: sum.splits LoginError.splits)
  from L show ?thesis
  proof (cases rule: Login_cases)
    case (refused e)
    then show ?thesis using end_state traced_drops [OF assms(1), of a1 x] by auto
  next
    case (signed_in sid)
    have "signsIn env token a (CallLogin r body)" using go(2) signed_in(3) by (simp add: signsIn_def)
    then show ?thesis using end_state signed_in traced_session [OF assms(1), of a1 sid "ae_now env w1"] by auto
  qed
qed

lemma Configure_fresh:
  assumes "Configure env u h a = (a', True)"
  shows "\<not> au_configured a" "au_sessions a' = au_sessions a" "au_keys a' = au_keys a" "au_configured a'"
    "au_fl a' = au_fl a" "au_username a' = u" "au_passHash a' = h" "u \<noteq> []" "ae_compare env h [] \<noteq> Malformed" "h \<noteq> []"
  using assms by (auto simp: Configure_def split: if_splits)

lemma Configure_refused: "Configure env u h a = (a', False) \<Longrightarrow> a' = a"
  by (auto simp: Configure_def split: if_splits)

text \<open>Setup either leaves the credentials alone and refuses, or installs them with the token and signs in.\<close>

lemma handleSetup_shape:
  assumes "handleSetup env path token r body a y w = (a', y', w', x)"
  shows "a' = a \<and> (\<exists>msg n. x = Refused msg n)
    \<or> (\<exists>user0 pass a1 w1 z hash.
         \<not> au_configured a \<and> token \<noteq> [] \<and> ab_setup body = Inr (token, user0, pass, pass) \<and> 8 \<le> length pass \<and> length pass \<le> 72
         \<and> TrimSpace user0 \<noteq> [] \<and> length (TrimSpace user0) \<le> 64
         \<and> ae_generate env pass w = (w1, Some hash)
         \<and> Configure env (TrimSpace user0) hash a = (a1, True) \<and> persistCredentials (ae_writable env) (TrimSpace user0) hash y = Some y'
         \<and> Login env (TrimSpace user0) pass (ClientIP r) a1 w1 = (a', w', z)
         \<and> x = (case z of Inl _ \<Rightarrow> Refused ''could not start session'' 500 | Inr sid \<Rightarrow> SignedIn sid (hr_TLS r)))"
proof (cases "hr_Method r \<noteq> ''POST'' \<or> au_configured a \<or> (\<exists>e. ab_setup body = Inl e)")
  case True
  then show ?thesis using assms by (auto simp: handleSetup_def split: if_splits)
next
  case False
  then obtain t user0 pass confirm where b: "ab_setup body = Inr (t, user0, pass, confirm)" "hr_Method r = ''POST''" "\<not> au_configured a"
    by (cases "ab_setup body") (auto)
  show ?thesis
  proof (cases "token = [] \<or> t \<noteq> token \<or> length (TrimSpace user0) < 1 \<or> 64 < length (TrimSpace user0)
      \<or> length pass < 8 \<or> 72 < length pass \<or> pass \<noteq> confirm")
    case True
    then show ?thesis using assms b by (auto simp: handleSetup_def Let_def split: if_splits)
  next
    case ok: False
    obtain w1 oh where g: "ae_generate env pass w = (w1, oh)" by fastforce
    show ?thesis
    proof (cases "oh = None \<or> path = [] \<or> persistCredentials (ae_writable env) (TrimSpace user0) (the oh) y = None")
      case True
      then show ?thesis using assms b ok g by (cases oh) (auto simp: handleSetup_def Let_def split: if_splits)
    next
      case False
      then obtain hash y1 where h: "oh = Some hash" "persistCredentials (ae_writable env) (TrimSpace user0) hash y = Some y1" "path \<noteq> []" by auto
      obtain a1 done1 where c: "Configure env (TrimSpace user0) hash a = (a1, done1)" by fastforce
      obtain a2 w2 z where L: "Login env (TrimSpace user0) pass (ClientIP r) a1 w1 = (a2, w2, z)" using prod_cases3 by blast
      show ?thesis
        using assms b ok g h c L Configure_refused [of env "TrimSpace user0" hash a a1]
        by (cases done1; cases z) (auto simp: handleSetup_def Let_def)
    qed
  qed
qed

lemma handleSetup_traced:
  assumes "traced env token a lg" and "handleSetup env path token r body a y w = (a', y', w', x)"
  shows "traced env token a' (lg @ [(CallSetup r body, x, ae_now env w')])"
  using handleSetup_shape [OF assms(2)]
proof (elim disjE exE conjE)
  fix msg n assume "a' = a" "x = Refused msg n"
  then show ?thesis using traced_drops [OF assms(1) onlyDrops_refl, of x] by auto
next
  fix user0 pass a1 w1 z hash
  assume b: "\<not> au_configured a" "token \<noteq> []" "ab_setup body = Inr (token, user0, pass, pass)"
    and c: "Configure env (TrimSpace user0) hash a = (a1, True)"
    and L: "Login env (TrimSpace user0) pass (ClientIP r) a1 w1 = (a', w', z)"
    and x: "x = (case z of Inl _ \<Rightarrow> Refused ''could not start session'' 500 | Inr sid \<Rightarrow> SignedIn sid (hr_TLS r))"
  have "au_sessions a = [] \<and> au_keys a = []" using assms(1) b(1) by (simp add: traced_def)
  then have a1: "traced env token a1 lg" using Configure_fresh [OF c] by (simp add: traced_none)
  from L show ?thesis
  proof (cases rule: Login_cases)
    case (refused e)
    then show ?thesis using x traced_drops [OF a1, of a' x] by auto
  next
    case (signed_in sid)
    have "signsIn env token a1 (CallSetup r body)" using b by (simp add: signsIn_def)
    then show ?thesis using x signed_in traced_session [OF a1, of a' sid "ae_now env w'"] by auto
  qed
qed

lemma handleLogout_traced:
  assumes "traced env token a lg" and "handleLogout r cookie a = (a', x)"
  shows "traced env token a' (lg @ [(CallLogout r cookie, x, t)])"
proof (cases "hr_Method r = ''POST''")
  case False
  then show ?thesis using assms(2) traced_drops [OF assms(1) onlyDrops_refl, of x] by (auto simp: handleLogout_def)
next
  case True
  then have a': "a' = Destroy cookie a" using assms(2) by (simp add: handleLogout_def)
  have "\<forall>sid \<in> fst ` set (au_sessions a'). leftOpen sid [(CallLogout r cookie, x, t)]"
    unfolding a' by (cases cookie) (auto simp: Destroy_def leftOpen_def delete_entries)
  moreover have "\<forall>kid \<in> fst ` set (au_keys a'). notRevoked kid [(CallLogout r cookie, x, t)]" by (simp add: notRevoked_def)
  ultimately show ?thesis
    using traced_shrink [OF assms(1), of a'] Destroy_drops [of a cookie] unfolding a' by (simp add: onlyDrops_def)
qed

lemma CreateAPIKey_shape:
  assumes "CreateAPIKey env label ttl a w = (a', w', z)"
  shows "(\<exists>e. z = Inl e) \<and> a' = a
    \<or> (\<exists>kid k. z = Inr (kid, ak_secret k, ak_expires k) \<and> a' = a\<lparr>au_keys := AList.update kid k (au_keys a)\<rparr>
        \<and> (\<exists>w1 raw idRaw. newSessionID env w = (w1, Some raw) \<and> ae_rand env 6 w1 = (w', Some idRaw)
            \<and> ak_secret k = ''blip_'' @ raw \<and> kid = genToken idRaw)
        \<and> ak_label k = TrimSpace label \<and> ak_label k \<noteq> [] \<and> length (ak_label k) \<le> maxAPIKeyLabelLen
        \<and> 0 < ttl \<and> ttl \<le> maxAPIKeyTTL \<and> ak_created k = ae_now env w' \<and> ak_expires k = ae_now env w' + ttl)"
proof (cases "newSessionID env w")
  case (Pair w1 o1)
  obtain w2 o2 where r: "ae_rand env 6 w1 = (w2, o2)" by fastforce
  show ?thesis
  proof (cases "\<exists>e. z = Inl e")
    case True
    then show ?thesis using assms Pair r by (cases o1; cases o2) (auto simp: CreateAPIKey_def Let_def split: if_splits)
  next
    case False
    then obtain raw idRaw where o: "o1 = Some raw" "o2 = Some idRaw"
      using assms Pair r by (cases o1; cases o2) (auto simp: CreateAPIKey_def Let_def split: if_splits)
    show ?thesis
      using assms Pair r o False
      by (intro disjI2 exI [of _ "genToken idRaw"] exI [of _ "\<lparr>ak_secret = ''blip_'' @ raw, ak_label = TrimSpace label,
            ak_created = ae_now env w', ak_expires = ae_now env w' + ttl\<rparr>"])
        (auto simp: CreateAPIKey_def Let_def split: if_splits)
  qed
qed

lemma RevokeAPIKey_drops: "RevokeAPIKey kid a = (a', ok) \<Longrightarrow> onlyDrops a a' \<and> (ok \<longrightarrow> kid \<notin> fst ` set (au_keys a'))"
  by (auto simp: RevokeAPIKey_def onlyDrops_def creds_def delete_entries split: if_splits)

lemma handleAPIKeys_shape:
  assumes "handleAPIKeys env r cookie body a w = (a', w', x)"
  shows "onlyDrops a a' \<and> (\<forall>b. x \<noteq> SignedOut b)
      \<and> (x = Done \<and> hr_Method r = ''DELETE'' \<longrightarrow> getOr (hr_Query r) ''id'' \<notin> fst ` set (au_keys a'))
    \<or> (\<exists>v e label h kid k. cookie = Some v \<and> map_of (au_sessions a) v = Some e \<and> ae_now env w \<le> e
        \<and> CreateAPIKey env label h a w = (a', w', Inr (kid, ak_secret k, ak_expires k))
        \<and> a' = a\<lparr>au_keys := AList.update kid k (au_keys a)\<rparr> \<and> x = KeyMinted kid (ak_secret k) (ak_expires k))"
proof (cases "Authed cookie (ae_now env w) a")
  case (Pair a1 ok)
  show ?thesis
  proof (cases "ok \<and> hr_Method r = ''POST'' \<and> (\<exists>q. ab_key body = Inr q)")
    case False
    obtain a2 ok2 where "RevokeAPIKey (getOr (hr_Query r) ''id'') a1 = (a2, ok2)" by fastforce
    then show ?thesis
      using assms Pair False Authed_drops [OF Pair] Authed_valid_shape [of cookie "ae_now env w" a a1]
        RevokeAPIKey_drops [of "getOr (hr_Query r) ''id''" a1 a2 ok2]
      by (cases ok; cases ok2; cases "ab_key body") (auto simp: handleAPIKeys_def split: if_splits)
  next
    case True
    then obtain label hours where q: "ok" "hr_Method r = ''POST''" "ab_key body = Inr (label, hours)" by auto
    obtain v e where v: "cookie = Some v" "map_of (au_sessions a) v = Some e" "ae_now env w \<le> e" "a1 = a"
      using Authed_valid_shape [of cookie "ae_now env w" a a1] Pair q(1) by auto
    obtain a2 w2 z where C: "CreateAPIKey env label (hoursToDuration hours) a w = (a2, w2, z)" using prod_cases3 by blast
    have end_state: "a' = a2 \<and> w' = w2 \<and> (case z of Inl msg \<Rightarrow> x = Refused msg 400 | Inr (i, s, e') \<Rightarrow> x = KeyMinted i s e')"
      using assms Pair q v(4) C by (auto simp: handleAPIKeys_def split: sum.splits)
    from CreateAPIKey_shape [OF C] show ?thesis
    proof (elim disjE exE conjE)
      fix msg assume "z = Inl msg" "a2 = a"
      then show ?thesis using end_state by auto
    next
      fix kid k
      assume "z = Inr (kid, ak_secret k, ak_expires k)" "a2 = a\<lparr>au_keys := AList.update kid k (au_keys a)\<rparr>"
      then show ?thesis using end_state v C by auto
    qed
  qed
qed

lemma handleAPIKeys_traced:
  assumes "traced env token a lg" and "handleAPIKeys env r cookie body a w = (a', w', x)"
  shows "traced env token a' (lg @ [(CallKeys r cookie body, x, t)])"
  using handleAPIKeys_shape [OF assms(2)]
proof (elim disjE exE conjE)
  assume d: "onlyDrops a a'" "\<forall>b. x \<noteq> SignedOut b"
    "x = Done \<and> hr_Method r = ''DELETE'' \<longrightarrow> getOr (hr_Query r) ''id'' \<notin> fst ` set (au_keys a')"
  have "\<forall>kid \<in> fst ` set (au_keys a'). notRevoked kid [(CallKeys r cookie body, x, t)]"
    using d(3) by (auto simp: notRevoked_def)
  then show ?thesis
    using d traced_shrink [OF assms(1), of a'] leftOpen_entry [of x] by (simp add: onlyDrops_def)
next
  fix v e label h kid k
  assume v: "cookie = Some v" "map_of (au_sessions a) v = Some e"
    and a': "a' = a\<lparr>au_keys := AList.update kid k (au_keys a)\<rparr>" and x: "x = KeyMinted kid (ak_secret k) (ak_expires k)"
  have "au_configured a" using assms(1) v(2) by (auto simp: traced_def)
  then show ?thesis using traced_key [OF assms(1), of a' kid k v e] v a' x by (simp add: creds_def)
qed

lemma requireAuth_drops: "requireAuth r cookie now a = (a', ok) \<Longrightarrow> onlyDrops a a'"
  using Authed_drops [of cookie now a] by (auto simp: requireAuth_def split: prod.splits bool.splits)

lemma auth_step_traced:
  assumes "traced env token a lg" and "auth_step env path token c (a, y, w) = ((a', y', w'), x)"
  shows "traced env token a' (lg @ [(c, x, ae_now env w')])"
proof (cases c)
  case (CallLogin r body)
  then show ?thesis using assms(2) handleLogin_traced [OF assms(1), of r body w] by (auto simp: auth_step_def split: prod.splits)
next
  case (CallSetup r body)
  then show ?thesis using assms(2) handleSetup_traced [OF assms(1), of path r body y w] by (auto simp: auth_step_def split: prod.splits)
next
  case (CallLogout r cookie)
  then show ?thesis using assms(2) handleLogout_traced [OF assms(1), of r cookie] by (auto simp: auth_step_def split: prod.splits)
next
  case (CallKeys r cookie body)
  then show ?thesis using assms(2) handleAPIKeys_traced [OF assms(1), of r cookie body w] by (auto simp: auth_step_def split: prod.splits)
next
  case (CallGate r cookie)
  then show ?thesis
    using assms(2) requireAuth_drops [of r cookie "ae_now env w" a] traced_drops [OF assms(1), of a' x c]
    by (auto simp: auth_step_def split: prod.splits if_splits)
next
  case CallSweep
  then show ?thesis using assms(2) traced_drops [OF assms(1), of a' x c] by (auto simp: auth_step_def)
qed

lemma NewAuth_empty: "au_sessions (fst (NewAuth env u p w)) = []" "au_keys (fst (NewAuth env u p w)) = []" "au_fl (fst (NewAuth env u p w)) = []"
  by (auto simp: NewAuth_def closedAuth_def split: prod.splits option.splits)

lemma auth_hist_traced:
  assumes "auth_hist env path token st0 st lg" and "fst st0 = fst (NewAuth env u p w0)"
  shows "traced env token (fst st) lg"
  using assms
proof (induction rule: auth_hist.induct)
  case init_log
  then show ?case by (simp add: traced_none NewAuth_empty)
next
  case (called st lg c a y w x)
  then show ?case using auth_step_traced [of env token "fst st" lg path c "fst (snd st)" "snd (snd st)"] by simp
next
  case (moved a y w lg w')
  then show ?case by simp
qed

subsection \<open>Password guessing\<close>

definition loginFrom :: "string \<Rightarrow> authCall \<Rightarrow> bool" where
  "loginFrom ip c = (case c of CallLogin r body \<Rightarrow> ClientIP r = ip | _ \<Rightarrow> False)"

definition guesses :: "string \<Rightarrow> auth_log \<Rightarrow> nat" where
  "guesses ip lg = length (filter (\<lambda>(c, x, t). loginFrom ip c \<and> x = Refused ''invalid credentials'' 401) lg)"

definition guessedRight :: "'w auth_env \<Rightarrow> Auth \<Rightarrow> string \<Rightarrow> authCall \<Rightarrow> bool" where
  "guessedRight env a ip c =
     (case c of
        CallLogin r body \<Rightarrow> ClientIP r = ip \<and> (case ab_login body of Inl _ \<Rightarrow> False | Inr (user, pass) \<Rightarrow> verify env user pass a)
      | _ \<Rightarrow> False)"

definition lastTime :: "time \<Rightarrow> auth_log \<Rightarrow> time" where
  "lastTime t0 lg = (if lg = [] then t0 else snd (snd (last lg)))"

text \<open>
  After \<open>n\<close> wrong guesses: the current window opened at \<open>ws\<close> and holds \<open>cnt\<close> of them; each earlier window
  holds at most five and lasts \<open>loginLockWindow\<close>.
\<close>

definition guessBudget :: "string \<Rightarrow> time \<Rightarrow> Auth \<Rightarrow> nat \<Rightarrow> time \<Rightarrow> bool" where
  "guessBudget ip t0 a n now \<longleftrightarrow>
     n = 0 \<and> map_of (au_fl a) ip = None
     \<or> (\<exists>ws cnt. t0 \<le> ws \<and> ws \<le> now \<and> 0 \<le> cnt \<and> cnt \<le> maxLoginFails
          \<and> int n \<le> maxLoginFails * ((ws - t0) div loginLockWindow) + cnt
          \<and> (map_of (au_fl a) ip = Some \<lparr>lf_count = cnt, lf_windowStart = ws\<rparr>
             \<or> map_of (au_fl a) ip = None \<and> ws + loginLockWindow < now))"

lemma guessBudget_later: "guessBudget ip t0 a n now \<Longrightarrow> now \<le> now' \<Longrightarrow> guessBudget ip t0 a n now'"
  by (force simp: guessBudget_def)

lemma guessBudget_cong: "map_of (au_fl a') ip = map_of (au_fl a) ip \<Longrightarrow> guessBudget ip t0 a' n now = guessBudget ip t0 a n now"
  by (simp add: guessBudget_def)

lemma next_window:
  assumes "t0 \<le> ws" and "ws + loginLockWindow < now"
  shows "(ws - t0) div loginLockWindow + 1 \<le> (now - t0) div loginLockWindow"
proof -
  have "(ws - t0) div loginLockWindow + 1 = (ws - t0 + loginLockWindow) div loginLockWindow"
    by (simp add: loginLockWindow_def)
  also have "\<dots> \<le> (now - t0) div loginLockWindow" by (rule zdiv_mono1) (use assms in \<open>auto simp: loginLockWindow_def\<close>)
  finally show ?thesis .
qed

text \<open>A new window opens only once the old one is over.\<close>

lemma guessBudget_opens:
  assumes "guessBudget ip t0 a n now" and "now \<le> t" and "t0 \<le> t"
    and "\<And>f. map_of (au_fl a) ip = Some f \<Longrightarrow> lf_windowStart f + loginLockWindow < t"
    and "map_of (au_fl a') ip = Some \<lparr>lf_count = 1, lf_windowStart = t\<rparr>"
  shows "guessBudget ip t0 a' (Suc n) t"
proof -
  have "int n \<le> maxLoginFails * ((t - t0) div loginLockWindow)"
  proof (cases "n = 0")
    case True
    then show ?thesis using assms(3) by (simp add: maxLoginFails_def loginLockWindow_def pos_imp_zdiv_nonneg_iff)
  next
    case False
    then obtain ws cnt where w: "t0 \<le> ws" "cnt \<le> maxLoginFails" "int n \<le> maxLoginFails * ((ws - t0) div loginLockWindow) + cnt"
        "map_of (au_fl a) ip = Some \<lparr>lf_count = cnt, lf_windowStart = ws\<rparr> \<or> map_of (au_fl a) ip = None \<and> ws + loginLockWindow < now"
      using assms(1) by (auto simp: guessBudget_def)
    have "ws + loginLockWindow < t" using w(4) assms(2) assms(4) by fastforce
    from next_window [OF w(1) this] show ?thesis using w(2,3) by (simp add: maxLoginFails_def)
  qed
  then show ?thesis using assms(3,5) by (auto simp: guessBudget_def maxLoginFails_def)
qed

lemma guessBudget_fail:
  assumes "guessBudget ip t0 a n now" and "now \<le> t" and "t0 \<le> t" and "allowLogin ip t a"
  shows "guessBudget ip t0 (recordFail ip t a) (Suc n) t"
proof (cases "\<exists>f. map_of (au_fl a) ip = Some f \<and> \<not> lf_windowStart f + loginLockWindow < t")
  case False
  then show ?thesis
    by (intro guessBudget_opens [OF assms(1-3)]) (auto simp: recordFail_def Let_def update_conv' split: option.splits)
next
  case True
  then obtain f where f: "map_of (au_fl a) ip = Some f" "\<not> lf_windowStart f + loginLockWindow < t" by blast
  then have "lf_count f < maxLoginFails" using assms(4) by (simp add: allowLogin_def)
  moreover have "map_of (au_fl (recordFail ip t a)) ip = Some (f\<lparr>lf_count := lf_count f + 1\<rparr>)"
    using f by (simp add: recordFail_def Let_def update_conv')
  ultimately show ?thesis using assms(1,2) f by (cases f) (auto simp: guessBudget_def)
qed

lemma Sweep_fl: "map_of (au_fl (Sweep t a)) ip = map_of (au_fl a) ip
    \<or> map_of (au_fl (Sweep t a)) ip = None \<and> (\<exists>f. map_of (au_fl a) ip = Some f \<and> lf_windowStart f + loginLockWindow < t)"
  if "distinct (map fst (au_fl a))"
proof -
  have "map_of (filter (\<lambda>(_, f). \<not> lf_windowStart f + loginLockWindow < t) l) ip
      = (case map_of l ip of None \<Rightarrow> None | Some f \<Rightarrow> if lf_windowStart f + loginLockWindow < t then None else Some f)"
    if "distinct (map fst l)" for l
    using that
  proof (induction l)
    case Nil
    then show ?case by simp
  next
    case (Cons e l)
    then show ?case by (cases e) (auto simp: map_of_eq_None_iff split: option.splits)
  qed
  from this [OF that] show ?thesis by (auto simp: Sweep_def split: option.splits)
qed

lemma guessBudget_sweep:
  assumes "guessBudget ip t0 a n now" and "now \<le> t" and "distinct (map fst (au_fl a))"
  shows "guessBudget ip t0 (Sweep t a) n t"
  using Sweep_fl [OF assms(3), of t ip]
proof
  assume "map_of (au_fl (Sweep t a)) ip = map_of (au_fl a) ip"
  then show ?thesis using guessBudget_later [OF assms(1,2)] guessBudget_cong by blast
next
  assume "map_of (au_fl (Sweep t a)) ip = None \<and> (\<exists>f. map_of (au_fl a) ip = Some f \<and> lf_windowStart f + loginLockWindow < t)"
  then show ?thesis using assms(1,2) by (auto simp: guessBudget_def)
qed

lemma fl_distinct [simp]:
  assumes "distinct (map fst (au_fl a))"
  shows "distinct (map fst (au_fl (recordFail ip t a)))" "distinct (map fst (au_fl (clearFails ip a)))" "distinct (map fst (au_fl (Sweep t a)))"
  using assms by (simp_all add: recordFail_def clearFails_def Sweep_def Let_def distinct_update distinct_delete distinct_map_filter)

lemma Login_fl:
  assumes "Login env u p ip a w = (a', w', z)"
  shows "a' = a \<and> (z = Inl NoAuthCfg \<and> \<not> au_configured a \<or> z = Inl Locked \<and> au_configured a)
    \<or> au_configured a \<and> allowLogin ip (ae_now env w) a \<and> \<not> verify env u p a \<and> a' = recordFail ip (ae_now env w) a \<and> w' = w \<and> z = Inl BadCreds
    \<or> au_configured a \<and> allowLogin ip (ae_now env w) a \<and> verify env u p a \<and> au_fl a' = au_fl (clearFails ip a)"
proof (cases "newSessionID env w")
  case (Pair w1 o1)
  then show ?thesis using assms by (cases o1) (auto simp: Login_def Let_def split: if_splits)
qed

lemma fl_elsewhere:
  "ip \<noteq> ip' \<Longrightarrow> map_of (au_fl (recordFail ip' t a)) ip = map_of (au_fl a) ip"
  "ip \<noteq> ip' \<Longrightarrow> au_fl a' = au_fl (clearFails ip' a) \<Longrightarrow> map_of (au_fl a') ip = map_of (au_fl a) ip"
  by (auto simp: recordFail_def clearFails_def Let_def update_conv' delete_conv')

lemma handleLogin_guess:
  assumes "handleLogin env r body a w = (a', w', x)" and "\<not> guessedRight env a ip (CallLogin r body)"
  shows "map_of (au_fl a') ip = map_of (au_fl a) ip \<and> \<not> (ClientIP r = ip \<and> x = Refused ''invalid credentials'' 401)
    \<or> ClientIP r = ip \<and> x = Refused ''invalid credentials'' 401 \<and> allowLogin ip (ae_now env w) a \<and> a' = recordFail ip (ae_now env w) a \<and> w' = w"
proof (cases "\<exists>user pass. hr_Method r = ''POST'' \<and> ab_login body = Inr (user, pass) \<and> au_configured a")
  case False
  then show ?thesis using assms(1) by (auto simp: handleLogin_def split: if_splits sum.splits prod.splits)
next
  case True
  then obtain user pass where go: "hr_Method r = ''POST''" "ab_login body = Inr (user, pass)" "au_configured a" by blast
  obtain a1 w1 z where L: "Login env user pass (ClientIP r) a w = (a1, w1, z)" using prod_cases3 by blast
  show ?thesis
  proof (cases "ClientIP r = ip")
    case True
    then have "\<not> verify env user pass a" using assms(2) go(2) by (simp add: guessedRight_def)
    then show ?thesis using assms(1) go True L Login_fl [OF L] by (auto simp: handleLogin_def)
  next
    case False
    have "a' = a1" using assms(1) go L by (auto simp: handleLogin_def split: sum.splits LoginError.splits)
    then show ?thesis using False Login_fl [OF L] fl_elsewhere [of ip "ClientIP r"] by auto
  qed
qed

lemma handleLogin_fl:
  assumes "handleLogin env r body a w = (a', w', x)"
  shows "creds a' = creds a" "distinct (map fst (au_fl a)) \<Longrightarrow> distinct (map fst (au_fl a'))"
    "\<not> au_configured a \<Longrightarrow> a' = a \<and> x \<noteq> Refused ''invalid credentials'' 401"
proof -
  have "a' = a \<or> (\<exists>user pass w1 z. Login env user pass (ClientIP r) a w = (a', w1, z))"
  proof (cases "\<exists>user pass. hr_Method r = ''POST'' \<and> ab_login body = Inr (user, pass) \<and> au_configured a")
    case False
    then show ?thesis using assms by (auto simp: handleLogin_def split: if_splits sum.splits prod.splits)
  next
    case True
    then obtain user pass where go: "hr_Method r = ''POST''" "ab_login body = Inr (user, pass)" "au_configured a" by blast
    obtain a1 w1 z where L: "Login env user pass (ClientIP r) a w = (a1, w1, z)" using prod_cases3 by blast
    then show ?thesis using assms go by (auto simp: handleLogin_def split: sum.splits LoginError.splits)
  qed
  then show "creds a' = creds a" "distinct (map fst (au_fl a)) \<Longrightarrow> distinct (map fst (au_fl a'))"
    using Login_fl Login_shape by (fastforce simp: onlyDrops_def)+
  show "\<not> au_configured a \<Longrightarrow> a' = a \<and> x \<noteq> Refused ''invalid credentials'' 401"
    using assms by (auto simp: handleLogin_def split: if_splits sum.splits)
qed

definition guessInv :: "'w auth_env \<Rightarrow> string \<Rightarrow> time \<Rightarrow> Auth \<Rightarrow> auth_log \<Rightarrow> bool" where
  "guessInv env ip t0 a lg \<longleftrightarrow>
     distinct (map fst (au_fl a)) \<and> (\<not> au_configured a \<longrightarrow> au_fl a = [] \<and> guesses ip lg = 0)
     \<and> ((\<forall>e \<in> set lg. \<not> guessedRight env a ip (fst e)) \<longrightarrow> guessBudget ip t0 a (guesses ip lg) (lastTime t0 lg))"

lemma guess_snoc [simp]:
  "lastTime t0 (lg @ [(c, x, t)]) = t"
  "guesses ip (lg @ [(c, x, t)]) = guesses ip lg + (if loginFrom ip c \<and> x = Refused ''invalid credentials'' 401 then 1 else 0)"
  by (simp_all add: lastTime_def guesses_def)

lemma guessedRight_cong: "creds a' = creds a \<Longrightarrow> guessedRight env a' ip c = guessedRight env a ip c"
  by (simp add: guessedRight_def verify_def creds_def split: authCall.splits sum.splits)

lemma loginFrom_simps [simp]:
  "loginFrom ip (CallLogin r b) = (ClientIP r = ip)" "\<not> loginFrom ip (CallSetup r b)" "\<not> loginFrom ip (CallLogout r k)"
  "\<not> loginFrom ip (CallKeys r k b)" "\<not> loginFrom ip (CallGate r k)" "\<not> loginFrom ip CallSweep"
  by (simp_all add: loginFrom_def)

lemma guessInv_quiet:
  assumes "guessInv env ip t0 a lg" and "lastTime t0 lg \<le> t" and "creds a' = creds a" and "au_fl a' = au_fl a" and "\<not> loginFrom ip c"
  shows "guessInv env ip t0 a' (lg @ [(c, x, t)])"
  using assms guessBudget_later [of ip t0 a _ "lastTime t0 lg" t] guessBudget_cong [of a' ip a t0]
  by (auto simp: guessInv_def guessedRight_cong [OF assms(3)] creds_def)

lemma guessInv_login:
  assumes "guessInv env ip t0 a lg" and "lastTime t0 lg \<le> ae_now env w'" and "t0 \<le> ae_now env w'"
    and "handleLogin env r body a w = (a', w', x)"
  shows "guessInv env ip t0 a' (lg @ [(CallLogin r body, x, ae_now env w')])"
proof -
  note fl = handleLogin_fl [OF assms(4)]
  have conf: "au_configured a' = au_configured a" using fl(1) by (simp add: creds_def)
  have "guessBudget ip t0 a' (guesses ip (lg @ [(CallLogin r body, x, ae_now env w')])) (ae_now env w')"
    if none: "\<forall>e \<in> set lg. \<not> guessedRight env a ip (fst e)" "\<not> guessedRight env a ip (CallLogin r body)"
  proof -
    have budget: "guessBudget ip t0 a (guesses ip lg) (lastTime t0 lg)" using assms(1) none(1) by (simp add: guessInv_def)
    show ?thesis
      using handleLogin_guess [OF assms(4) none(2)] guessBudget_fail [OF budget] guessBudget_later [OF budget] assms(2,3)
        guessBudget_cong [of a' ip a t0]
      by (elim disjE conjE) auto
  qed
  then show ?thesis
    using assms(1) fl conf by (auto simp: guessInv_def guessedRight_cong [OF fl(1)] split: if_splits)
qed

lemma guessInv_setup:
  assumes "guessInv env ip t0 a lg" and "lastTime t0 lg \<le> ae_now env w'" and "t0 \<le> ae_now env w'"
    and "handleSetup env path token r body a y w = (a', y', w', x)"
  shows "guessInv env ip t0 a' (lg @ [(CallSetup r body, x, ae_now env w')])"
  using handleSetup_shape [OF assms(4)]
proof (elim disjE exE conjE)
  assume "a' = a"
  then show ?thesis using guessInv_quiet [OF assms(1,2)] by simp
next
  fix user0 pass a1 w1 z hash
  assume n: "\<not> au_configured a" and c: "Configure env (TrimSpace user0) hash a = (a1, True)"
    and L: "Login env (TrimSpace user0) pass (ClientIP r) a1 w1 = (a', w', z)"
  have "au_fl a1 = [] \<and> guesses ip lg = 0 \<and> au_configured a1" using assms(1) n Configure_fresh [OF c] by (simp add: guessInv_def)
  moreover from this have "au_fl a' = [] \<or> au_fl a' = [(ClientIP r, \<lparr>lf_count = 1, lf_windowStart = ae_now env w'\<rparr>)]" "au_configured a'"
    using Login_fl [OF L] Login_shape [OF L] by (auto simp: recordFail_def clearFails_def Let_def onlyDrops_def creds_def)
  ultimately show ?thesis
    using assms(3) by (auto simp: guessInv_def guessBudget_def maxLoginFails_def loginLockWindow_def pos_imp_zdiv_nonneg_iff)
      (metis order_refl)
qed

lemma fl_untouched:
  "handleLogout r cookie a = (a', x) \<Longrightarrow> creds a' = creds a \<and> au_fl a' = au_fl a"
  "requireAuth r cookie now a = (a', ok) \<Longrightarrow> creds a' = creds a \<and> au_fl a' = au_fl a"
  "Authed cookie now a = (a', ok) \<Longrightarrow> creds a' = creds a \<and> au_fl a' = au_fl a"
  by (auto simp: handleLogout_def Destroy_def requireAuth_def Authed_def creds_def split: option.splits if_splits prod.splits bool.splits)

lemma handleAPIKeys_fl:
  assumes "handleAPIKeys env r cookie body a w = (a', w', x)"
  shows "creds a' = creds a \<and> au_fl a' = au_fl a"
proof (cases "Authed cookie (ae_now env w) a")
  case (Pair a1 ok)
  note A = fl_untouched(3) [OF Pair]
  obtain a2 ok2 where R: "RevokeAPIKey (getOr (hr_Query r) ''id'') a1 = (a2, ok2)" by fastforce
  have "creds a2 = creds a1 \<and> au_fl a2 = au_fl a1" using R by (auto simp: RevokeAPIKey_def creds_def split: if_splits)
  moreover have "creds a3 = creds a1 \<and> au_fl a3 = au_fl a1" if "CreateAPIKey env l h a1 w = (a3, w3, z)" for l h a3 w3 z
    using CreateAPIKey_shape [OF that] by (auto simp: creds_def)
  ultimately show ?thesis
    using assms Pair R A by (cases ok; cases ok2) (auto simp: handleAPIKeys_def split: if_splits sum.splits prod.splits)
qed

lemma auth_step_guess:
  assumes "guessInv env ip t0 a lg" and "lastTime t0 lg \<le> ae_now env w'" and "t0 \<le> ae_now env w'"
    and "auth_step env path token c (a, y, w) = ((a', y', w'), x)"
  shows "guessInv env ip t0 a' (lg @ [(c, x, ae_now env w')])"
proof (cases c)
  case (CallLogin r body)
  then show ?thesis using assms(4) guessInv_login [OF assms(1-3), of r body w a' x] by (auto simp: auth_step_def split: prod.splits)
next
  case (CallSetup r body)
  then show ?thesis using assms(4) guessInv_setup [OF assms(1-3), of path token r body y w a' y' x] by (auto simp: auth_step_def split: prod.splits)
next
  case (CallLogout r cookie)
  then show ?thesis
    using assms(4) guessInv_quiet [OF assms(1,2), of a' c x] fl_untouched(1) [of r cookie a] by (auto simp: auth_step_def split: prod.splits)
next
  case (CallKeys r cookie body)
  then show ?thesis
    using assms(4) guessInv_quiet [OF assms(1,2), of a' c x] handleAPIKeys_fl [of env r cookie body a w]
    by (auto simp: auth_step_def split: prod.splits)
next
  case (CallGate r cookie)
  then show ?thesis
    using assms(4) guessInv_quiet [OF assms(1,2), of a' c x] fl_untouched(2) [of r cookie "ae_now env w" a]
    by (auto simp: auth_step_def split: prod.splits)
next
  case CallSweep
  then have s: "a' = Sweep (ae_now env w') a" using assms(4) by (auto simp: auth_step_def)
  then have k: "creds a' = creds a" "au_fl a = [] \<Longrightarrow> au_fl a' = []" by (simp_all add: Sweep_def creds_def)
  have "distinct (map fst (au_fl a'))" using assms(1) by (simp add: s guessInv_def)
  moreover have "guessBudget ip t0 a' (guesses ip lg) (ae_now env w')" if "\<forall>e \<in> set lg. \<not> guessedRight env a ip (fst e)"
    unfolding s by (rule guessBudget_sweep [of _ _ _ _ "lastTime t0 lg"]) (use that assms(1,2) in \<open>auto simp: guessInv_def\<close>)
  ultimately show ?thesis
    using CallSweep assms(1) k(2) guessedRight_cong [OF k(1), of env ip] k(1) by (simp add: guessInv_def creds_def)
qed

lemma auth_hist_guess:
  assumes "auth_hist env path token st0 st lg" and "fst st0 = fst (NewAuth env u p w0)"
    and "sorted (map (snd \<circ> snd) lg)" and "\<forall>e \<in> set lg. t0 \<le> snd (snd e)"
  shows "guessInv env ip t0 (fst st) lg"
  using assms
proof (induction rule: auth_hist.induct)
  case init_log
  then show ?case by (simp add: guessInv_def guessBudget_def guesses_def NewAuth_empty)
next
  case (called st lg c a y w x)
  have "lastTime t0 lg \<le> ae_now env w" using called.prems by (auto simp: lastTime_def sorted_append)
  then show ?case
    using called auth_step_guess [of env ip t0 "fst st" lg w path token c "fst (snd st)" "snd (snd st)" a y x] by (simp add: sorted_append)
next
  case (moved a y w lg w')
  then show ?case by simp
qed

subsection \<open>Sessions, keys and guesses over a history\<close>

text \<open>
  C10. A request is let past the gate of the dashboard's interface only on the strength of a sign-in: it carries a
  session cookie that a login with the right credentials (or the setup with the setup token) was answered with, at most
  24 hours ago and not logged out since, or a bearer key that the holder of such a session minted, that has not
  expired and was not revoked since.
\<close>

theorem session_authentic:
  assumes "auth_hist env path token (fst (NewAuth env u p w0), y0, w1) (a, y, w) lg"
    and "requireAuth r cookie (ae_now env w) a = (a', True)"
  shows "(\<exists>v e. cookie = Some v \<and> ae_now env w \<le> e \<and> sessionTraced env token a lg v e)
    \<or> (\<exists>kid e. ae_now env w < e \<and> keyTraced env token a lg kid (bearerToken r) e)"
proof -
  have T: "traced env token a lg" using auth_hist_traced [OF assms(1)] by simp
  obtain a1 ok where A: "Authed cookie (ae_now env w) a = (a1, ok)" by fastforce
  show ?thesis
  proof (cases ok)
    case True
    then obtain v e where "cookie = Some v" "map_of (au_sessions a) v = Some e" "ae_now env w \<le> e"
      using Authed_valid_shape [of cookie "ae_now env w" a a1] A by auto
    then show ?thesis using T by (auto simp: traced_def dest!: map_of_SomeD)
  next
    case False
    then have "validAPIKey (bearerToken r) (ae_now env w) a1" using assms(2) A by (auto simp: requireAuth_def)
    then obtain kid k where "(kid, k) \<in> set (au_keys a1)" "bearerToken r = ak_secret k" "ae_now env w < ak_expires k"
      by (auto simp: validAPIKey_def find_Some_iff split: if_splits option.splits)
        (metis in_set_conv_nth)
    moreover from this have "keyTraced env token a lg kid (ak_secret k) (ak_expires k)"
      using T Authed_drops [OF A] by (fastforce simp: traced_def onlyDrops_def)
    ultimately show ?thesis by auto
  qed
qed


subsection \<open>The state is well formed\<close>

definition hexOfLen :: "nat \<Rightarrow> string \<Rightarrow> bool" where
  "hexOfLen n s \<longleftrightarrow> length s = n \<and> list_all isHex s"

definition keyTyped :: "string \<times> apiKey \<Rightarrow> bool" where
  "keyTyped e =
     (case e of (kid, k) \<Rightarrow>
        hexOfLen 12 kid \<and> take 5 (ak_secret k) = ''blip_'' \<and> hexOfLen 64 (drop 5 (ak_secret k))
        \<and> 1 \<le> length (ak_label k) \<and> length (ak_label k) \<le> 64
        \<and> ak_created k < ak_expires k \<and> ak_expires k \<le> ak_created k + maxAPIKeyTTL)"

definition failsTyped :: "string \<times> loginFails \<Rightarrow> bool" where
  "failsTyped e \<longleftrightarrow> 1 \<le> lf_count (snd e) \<and> lf_count (snd e) \<le> maxLoginFails"

definition authTyped :: "'w auth_env \<Rightarrow> Auth \<Rightarrow> bool" where
  "authTyped env a \<longleftrightarrow>
     distinct (map fst (au_sessions a)) \<and> list_all (hexOfLen 64 \<circ> fst) (au_sessions a)
     \<and> distinct (map fst (au_keys a)) \<and> list_all keyTyped (au_keys a)
     \<and> distinct (map fst (au_fl a)) \<and> list_all failsTyped (au_fl a)
     \<and> (if au_configured a then au_username a \<noteq> [] \<and> ae_compare env (au_passHash a) [] \<noteq> Malformed
        else au_sessions a = [] \<and> au_keys a = [] \<and> au_fl a = [])"

definition randFills :: "'w auth_env \<Rightarrow> bool" where
  "randFills env \<longleftrightarrow> (\<forall>n w w' bs. ae_rand env n w = (w', Some bs) \<longrightarrow> length bs = n)"

definition hashWellFormed :: "'w auth_env \<Rightarrow> bool" where
  "hashWellFormed env \<longleftrightarrow> (\<forall>pass w w' h. ae_generate env pass w = (w', Some h) \<longrightarrow> ae_compare env h [] \<noteq> Malformed)"

lemma hexDigit_isHex: "n < 16 \<Longrightarrow> isHex (hexDigit n)"
  by (auto simp: isHex_def hexVal_def hexDigit_def isDigit_def Let_def)

lemma genToken_hex: "hexOfLen (2 * length bs) (genToken bs)"
proof (induction bs)
  case Nil
  then show ?case by (simp add: hexOfLen_def genToken_def)
next
  case (Cons b bs)
  have "unat b < 256" using unsigned_less [of b] by simp
  then have "isHex (hexDigit (unat b div 16))" "isHex (hexDigit (unat b mod 16))" by (auto intro!: hexDigit_isHex)
  then show ?case using Cons by (simp add: hexOfLen_def genToken_def)
qed

lemma newSessionID_hex: "randFills env \<Longrightarrow> newSessionID env w = (w', Some sid) \<Longrightarrow> hexOfLen 64 sid"
proof (cases "ae_rand env 32 w")
  case (Pair w1 ob)
  assume r: "randFills env" and n: "newSessionID env w = (w', Some sid)"
  then obtain bs where b: "ob = Some bs" "sid = genToken bs" using Pair by (auto simp: newSessionID_def)
  then have "length bs = 32" using r Pair by (auto simp: randFills_def)
  then show ?thesis using genToken_hex [of bs] b by simp
qed

lemma list_all_update: "list_all P al \<Longrightarrow> P (k, v) \<Longrightarrow> list_all P (AList.update k v al)"
  using update_entries [of k v al] by (auto simp: list_all_iff)

lemma list_all_delete: "list_all P al \<Longrightarrow> list_all P (AList.delete k al)"
  by (auto simp: list_all_iff delete_entries)

lemma list_all_filter: "list_all P al \<Longrightarrow> list_all P (filter Q al)"
  by (auto simp: list_all_iff)

lemmas auth_lists = list_all_update list_all_delete list_all_filter distinct_update distinct_delete distinct_map_filter

lemma NewAuth_typed: "hashWellFormed env \<Longrightarrow> authTyped env (fst (NewAuth env u p w))"
  by (auto simp: authTyped_def NewAuth_def closedAuth_def bcryptHashFor_def hashWellFormed_def split: prod.splits option.splits if_splits)

lemma forget_typed:
  assumes "authTyped env a"
  shows "authTyped env (clearFails ip a)" "authTyped env (Sweep t a)" "authTyped env (Destroy cookie a)" "authTyped env (fst (Authed cookie now a))"
    "authTyped env (fst (RevokeAPIKey kid a))"
proof -
  show "authTyped env (clearFails ip a)" using assms by (auto simp: authTyped_def clearFails_def auth_lists)
  show "authTyped env (Sweep t a)" using assms by (auto simp: authTyped_def Sweep_def auth_lists)
  show "authTyped env (Destroy cookie a)" using assms by (cases cookie) (auto simp: authTyped_def Destroy_def auth_lists)
  have drop: "authTyped env (a\<lparr>au_sessions := AList.delete v (au_sessions a)\<rparr>)" for v using assms by (auto simp: authTyped_def auth_lists)
  show "authTyped env (fst (Authed cookie now a))"
    using assms drop by (auto simp: Authed_def split: option.splits)
  show "authTyped env (fst (RevokeAPIKey kid a))" using assms by (auto simp: authTyped_def RevokeAPIKey_def auth_lists)
qed

lemma recordFail_typed:
  assumes "authTyped env a" and "allowLogin ip now a" and "au_configured a"
  shows "authTyped env (recordFail ip now a)"
proof -
  let ?fresh = "\<lparr>lf_count = 1, lf_windowStart = now\<rparr>"
  define f' where "f' = (case map_of (au_fl a) ip of
      None \<Rightarrow> ?fresh | Some f \<Rightarrow> if lf_windowStart f + loginLockWindow < now then ?fresh else f\<lparr>lf_count := lf_count f + 1\<rparr>)"
  have "failsTyped (ip, f')"
  proof (cases "map_of (au_fl a) ip")
    case None
    then show ?thesis by (simp add: f'_def failsTyped_def maxLoginFails_def)
  next
    case (Some f)
    then have "failsTyped (ip, f)" using assms(1) by (auto simp: authTyped_def list_all_iff dest: map_of_SomeD)
    then show ?thesis using Some assms(2) by (auto simp: f'_def failsTyped_def allowLogin_def maxLoginFails_def split: if_splits)
  qed
  moreover have "recordFail ip now a = a\<lparr>au_fl := AList.update ip f' (au_fl a)\<rparr>" by (simp add: recordFail_def f'_def Let_def)
  ultimately show ?thesis using assms(1,3) by (simp add: authTyped_def auth_lists)
qed

lemma Login_typed:
  assumes "randFills env" and "authTyped env a" and "Login env u p ip a w = (a', w', z)"
  shows "authTyped env a'"
proof (cases "newSessionID env w")
  case (Pair w1 o1)
  have new: "authTyped env (b\<lparr>au_sessions := AList.update sid e (au_sessions b)\<rparr>)"
    if "o1 = Some sid" "authTyped env b" "au_configured b" for b sid e
    using that newSessionID_hex [OF assms(1), of w w1 sid] Pair by (simp add: authTyped_def auth_lists)
  show ?thesis
    using assms(2,3) Pair new [OF _ forget_typed(1) [OF assms(2), of ip]] recordFail_typed [OF assms(2)] forget_typed(1) [OF assms(2), of ip]
    by (cases o1) (auto simp: Login_def Let_def clearFails_def split: if_splits)
qed

lemma CreateAPIKey_typed:
  assumes "randFills env" and "authTyped env a" and "au_configured a" and "CreateAPIKey env label ttl a w = (a', w', z)"
  shows "authTyped env a'"
  using CreateAPIKey_shape [OF assms(4)]
proof (elim disjE exE conjE)
  assume "a' = a"
  then show ?thesis using assms(2) by simp
next
  fix kid k w1 raw idRaw
  assume k: "a' = a\<lparr>au_keys := AList.update kid k (au_keys a)\<rparr>" "newSessionID env w = (w1, Some raw)" "ae_rand env 6 w1 = (w', Some idRaw)"
    "ak_secret k = ''blip_'' @ raw" "kid = genToken idRaw" "ak_label k \<noteq> []" "length (ak_label k) \<le> maxAPIKeyLabelLen"
    "0 < ttl" "ttl \<le> maxAPIKeyTTL" "ak_created k = ae_now env w'" "ak_expires k = ae_now env w' + ttl"
  have "length idRaw = 6" using assms(1) k(3) by (auto simp: randFills_def)
  then have "keyTyped (kid, k)"
    using k genToken_hex [of idRaw] newSessionID_hex [OF assms(1) k(2)]
    by (cases "ak_label k") (auto simp: keyTyped_def maxAPIKeyLabelLen_def)
  then show ?thesis using assms(2,3) k(1) by (simp add: authTyped_def auth_lists)
qed

lemma handleLogin_typed:
  assumes "randFills env" and "authTyped env a" and "handleLogin env r body a w = (a', w', x)"
  shows "authTyped env a'"
proof (cases "\<exists>user pass. hr_Method r = ''POST'' \<and> ab_login body = Inr (user, pass) \<and> au_configured a")
  case False
  then have "a' = a" using assms(3) by (auto simp: handleLogin_def split: if_splits sum.splits prod.splits)
  then show ?thesis using assms(2) by simp
next
  case True
  then obtain user pass where go: "hr_Method r = ''POST''" "ab_login body = Inr (user, pass)" "au_configured a" by blast
  obtain a1 w1 z where L: "Login env user pass (ClientIP r) a w = (a1, w1, z)" using prod_cases3 by blast
  have "a' = a1" using assms(3) go L by (auto simp: handleLogin_def split: sum.splits LoginError.splits)
  then show ?thesis using Login_typed [OF assms(1,2) L] by simp
qed

lemma handleSetup_typed:
  assumes "randFills env" and "authTyped env a" and "handleSetup env path token r body a y w = (a', y', w', x)"
  shows "authTyped env a'"
  using handleSetup_shape [OF assms(3)]
proof (elim disjE exE conjE)
  assume "a' = a"
  then show ?thesis using assms(2) by simp
next
  fix user0 pass a1 w1 z hash
  assume c: "Configure env (TrimSpace user0) hash a = (a1, True)" and L: "Login env (TrimSpace user0) pass (ClientIP r) a1 w1 = (a', w', z)"
  have "authTyped env a1" using assms(2) Configure_fresh [OF c] by (simp add: authTyped_def)
  then show ?thesis using Login_typed [OF assms(1) _ L] by simp
qed

lemma handleAPIKeys_typed:
  assumes "randFills env" and "authTyped env a" and "handleAPIKeys env r cookie body a w = (a', w', x)"
  shows "authTyped env a'"
proof (cases "Authed cookie (ae_now env w) a")
  case (Pair a1 ok)
  have a1: "authTyped env a1" using forget_typed(4) [OF assms(2), of cookie "ae_now env w"] Pair by simp
  obtain a2 ok2 where R: "RevokeAPIKey (getOr (hr_Query r) ''id'') a1 = (a2, ok2)" by fastforce
  have a2: "authTyped env a2" using forget_typed(5) [OF a1, of "getOr (hr_Query r) ''id''"] R by simp
  have live: "au_configured a1" if ok
    using that Authed_valid_shape [of cookie "ae_now env w" a a1] Pair assms(2) by (auto simp: authTyped_def split: if_splits)
  have "authTyped env a3" if "CreateAPIKey env l h a1 w = (a3, w3, z)" "ok" for l h a3 w3 z
    using CreateAPIKey_typed [OF assms(1) a1 _ that(1)] live that(2) by simp
  then show ?thesis
    using assms(3) Pair R a1 a2 by (cases ok; cases ok2) (auto simp: handleAPIKeys_def split: if_splits sum.splits prod.splits)
qed

lemma auth_step_typed:
  assumes "randFills env" and "authTyped env a" and "auth_step env path token c (a, y, w) = ((a', y', w'), x)"
  shows "authTyped env a'"
proof (cases c)
  case (CallLogin r body)
  then show ?thesis using assms(3) handleLogin_typed [OF assms(1,2), of r body w] by (auto simp: auth_step_def split: prod.splits)
next
  case (CallSetup r body)
  then show ?thesis using assms(3) handleSetup_typed [OF assms(1,2), of path token r body y w] by (auto simp: auth_step_def split: prod.splits)
next
  case (CallLogout r cookie)
  then show ?thesis
    using assms(3) assms(2) forget_typed(3) [OF assms(2), of cookie] by (auto simp: auth_step_def handleLogout_def split: prod.splits if_splits)
next
  case (CallKeys r cookie body)
  then show ?thesis using assms(3) handleAPIKeys_typed [OF assms(1,2), of r cookie body w] by (auto simp: auth_step_def split: prod.splits)
next
  case (CallGate r cookie)
  obtain a1 ok where A: "Authed cookie (ae_now env w) a = (a1, ok)" by fastforce
  then have "a' = a1" using CallGate assms(3) by (cases ok) (auto simp: auth_step_def requireAuth_def)
  then show ?thesis using forget_typed(4) [OF assms(2), of cookie "ae_now env w"] A by simp
next
  case CallSweep
  then show ?thesis using assms(3) forget_typed(2) [OF assms(2)] by (auto simp: auth_step_def)
qed

subsection \<open>The first credentials\<close>

text \<open>\<open>main\<close> of the controller: environment variables fill in what the file leaves empty; the hash wins over a plaintext password.\<close>

definition bootCredentials :: "(string \<Rightarrow> string) \<Rightarrow> FullConfig \<Rightarrow> FullConfig" where
  "bootCredentials getenv cfg =
     cfg\<lparr>fc_Username := (if fc_Username cfg = [] then getenv ''BLIPC_USER'' else fc_Username cfg),
         fc_Password := (if fc_Password cfg = [] then getenv ''BLIPC_PASS'' else fc_Password cfg),
         fc_PasswordHash := (if fc_PasswordHash cfg = [] then getenv ''BLIPC_PASS_HASH'' else fc_PasswordHash cfg)\<rparr>"

definition bootAuth :: "'w auth_env \<Rightarrow> (string \<Rightarrow> string) \<Rightarrow> FullConfig \<Rightarrow> 'w \<Rightarrow> Auth \<times> 'w" where
  "bootAuth env getenv file_cfg w =
     (let cfg = bootCredentials getenv file_cfg;
          authPass = (if fc_PasswordHash cfg = [] then fc_Password cfg else fc_PasswordHash cfg)
      in NewAuth env (fc_Username cfg) authPass w)"

definition hashRecognised :: "'w auth_env \<Rightarrow> bool" where
  "hashRecognised env \<longleftrightarrow> (\<forall>pass w w' h. ae_generate env pass w = (w', Some h) \<longrightarrow> looksLikeBcryptHash h)"

lemma saveConfig_keeps_login:
  assumes "fl_file f = Parsed c0" and "fl_file (savedQuietly fenv f) = Parsed c"
  shows "fc_Username c = fc_Username c0" "fc_PasswordHash c = fc_PasswordHash c0"
  using assms by (auto simp: savedQuietly_def saveConfig_def configOf_def Let_def split: if_splits)

lemma persistCredentials_file:
  assumes "persistCredentials wr u h y = Some y'"
  obtains c where "y' = Parsed c" "fc_Username c = u" "fc_PasswordHash c = h" "fc_Password c = []"
  using assms that by (cases y) (auto simp: persistCredentials_def zeroConfig_def split: if_splits)

lemma NewAuth_creds:
  assumes "u \<noteq> []" and "looksLikeBcryptHash h" and "ae_compare env h [] \<noteq> Malformed"
  shows "creds (fst (NewAuth env u h w)) = (u, h, True)"
proof -
  have "h \<noteq> []" using assms(2) by (auto simp: looksLikeBcryptHash_def HasPrefix_def)
  then show ?thesis using assms by (simp add: NewAuth_def bcryptHashFor_def creds_def)
qed

subsection \<open>Examples and the remaining properties\<close>

fun auth_run ::
  "'w auth_env \<Rightarrow> string \<Rightarrow> string \<Rightarrow> authCall list \<Rightarrow> 'w auth_state \<Rightarrow> auth_log \<Rightarrow> 'w auth_state \<times> auth_log" where
  "auth_run env path token [] st lg = (st, lg)"
| "auth_run env path token (c # cs) st lg =
     (case auth_step env path token c st of ((a, y, w), x) \<Rightarrow> auth_run env path token cs (a, y, w) (lg @ [(c, x, ae_now env w)]))"

lemma auth_run_hist:
  "auth_hist env path token st0 st lg
   \<Longrightarrow> auth_hist env path token st0 (fst (auth_run env path token cs st lg)) (snd (auth_run env path token cs st lg))"
proof (induction cs arbitrary: st lg)
  case Nil
  then show ?case by simp
next
  case (Cons c cs)
  obtain a y w x where s: "auth_step env path token c st = ((a, y, w), x)" by (metis prod.exhaust)
  then show ?case using Cons.IH [OF auth_hist.called [OF Cons.prems s]] by simp
qed

definition sampleAuth :: "nat auth_env" where
  "sampleAuth =
     \<lparr>ae_now = (\<lambda>w. int w * 1000000000), ae_rand = (\<lambda>n w. (w + 1, Some (replicate n (word_of_nat w)))),
      ae_compare = (\<lambda>h p. if take 4 h = ''$2a$'' then (if drop 4 h = p then Matches else Mismatched) else Malformed),
      ae_generate = (\<lambda>p w. (w + 1, Some (''$2a$'' @ p))), ae_writable = True\<rparr>"

definition samplePost :: HTTPRequest where
  "samplePost = sampleRequest\<lparr>hr_Method := ''POST''\<rparr>"

definition sampleLoginBody :: AuthBody where
  "sampleLoginBody =
     \<lparr>ab_login = Inr (''root'', ''correct horse''), ab_setup = Inr (''tok'', '' root '', ''correct horse'', ''correct horse''),
      ab_key = Inr (''laptop'', 24)\<rparr>"

definition sampleRun :: "authCall list \<Rightarrow> nat auth_state \<times> auth_log" where
  "sampleRun cs = auth_run sampleAuth ''/etc/blipc.yaml'' ''tok'' cs (fst (NewAuth sampleAuth ''root'' ''correct horse'' 0), Missing, 7) []"

definition sampleSid :: string where "sampleSid = genToken (replicate 32 7)"

lemma sampleRun_hist:
  "auth_hist sampleAuth ''/etc/blipc.yaml'' ''tok'' (fst (NewAuth sampleAuth ''root'' ''correct horse'' 0), Missing, 7)
     (fst (sampleRun cs)) (snd (sampleRun cs))"
  unfolding sampleRun_def by (rule auth_run_hist) (rule auth_hist.init_log)

theorem session_authentic_witness:
  "case sampleRun [CallLogin samplePost sampleLoginBody] of ((a, y, w), lg) \<Rightarrow>
     snd (requireAuth sampleRequest (Some sampleSid) (ae_now sampleAuth w) a)
     \<and> ((\<exists>v e. Some sampleSid = Some v \<and> ae_now sampleAuth w \<le> e \<and> sessionTraced sampleAuth ''tok'' a lg v e)
        \<or> (\<exists>kid e. ae_now sampleAuth w < e \<and> keyTraced sampleAuth ''tok'' a lg kid (bearerToken sampleRequest) e))"
proof (cases "sampleRun [CallLogin samplePost sampleLoginBody]")
  case (Pair st lg)
  obtain a y w where st: "st = (a, y, w)" by (cases st)
  have "(case fst (sampleRun [CallLogin samplePost sampleLoginBody]) of (a, y, w) \<Rightarrow>
      snd (requireAuth sampleRequest (Some sampleSid) (ae_now sampleAuth w) a))" by code_simp
  then have ok: "snd (requireAuth sampleRequest (Some sampleSid) (ae_now sampleAuth w) a)" by (simp add: Pair st)
  then obtain a' where "requireAuth sampleRequest (Some sampleSid) (ae_now sampleAuth w) a = (a', True)"
    by (cases "requireAuth sampleRequest (Some sampleSid) (ae_now sampleAuth w) a") auto
  moreover have "auth_hist sampleAuth ''/etc/blipc.yaml'' ''tok'' (fst (NewAuth sampleAuth ''root'' ''correct horse'' 0), Missing, 7) (a, y, w) lg"
    using sampleRun_hist [of "[CallLogin samplePost sampleLoginBody]"] by (simp add: Pair st)
  ultimately show ?thesis using ok session_authentic [of sampleAuth "''/etc/blipc.yaml''" "''tok''" "''root''" "''correct horse''" 0 Missing 7 a y w lg
      sampleRequest "Some sampleSid" a'] by (simp add: Pair st)
qed

definition wrongTries :: "authCall list" where
  "wrongTries = replicate 7 (CallLogin samplePost (sampleLoginBody\<lparr>ab_login := Inr (''root'', ''guess'')\<rparr>))"


text \<open>
  C36. The state of the login gate is well formed at every moment: session ids are 64 hexadecimal digits, key ids 12, key
  secrets \<open>blip_\<close> and 64 more; labels have 1 to 64 characters; a key expires after it was made and at
  most 30 days later, however many hours were asked for; an address has between 1 and 5 failures; and while no
  credentials are configured there is no session, key or failure at all. (\<open>crypto/rand\<close> fills the buffer it is given, bcrypt
  recognises its own hashes.)
\<close>

theorem auth_state_typed:
  assumes "randFills env" and "hashWellFormed env" and "auth_hist env path token (fst (NewAuth env u p w0), y0, w1) st lg"
  shows "authTyped env (fst st)"
  using assms(3)
proof (induction rule: auth_hist.induct)
  case init_log
  then show ?case using NewAuth_typed [OF assms(2)] by simp
next
  case (called st lg c a y w x)
  then show ?case using auth_step_typed [OF assms(1), of "fst st" path token c "fst (snd st)" "snd (snd st)"] by simp
next
  case (moved a y w lg w')
  then show ?case by simp
qed

theorem auth_state_typed_witness:
  "authTyped sampleAuth (fst (fst (sampleRun [CallLogin samplePost sampleLoginBody, CallKeys samplePost (Some sampleSid) sampleLoginBody])))
   \<and> length (au_keys (fst (fst (sampleRun [CallLogin samplePost sampleLoginBody, CallKeys samplePost (Some sampleSid) sampleLoginBody])))) = 1"
proof
  have "randFills sampleAuth" "hashWellFormed sampleAuth" by (simp_all add: randFills_def hashWellFormed_def sampleAuth_def)
  then show "authTyped sampleAuth (fst (fst (sampleRun [CallLogin samplePost sampleLoginBody, CallKeys samplePost (Some sampleSid) sampleLoginBody])))"
    by (rule auth_state_typed [OF _ _ sampleRun_hist])
qed code_simp

text \<open>
  The account the setup creates is the account after a restart: once the setup has signed the operator in, the file
  the fleet saves next still carries the user name and the hash, and a controller started from it, whatever its
  environment variables say, has exactly the credentials the running one has. (bcrypt hashes begin with a \<open>$2\<close> prefix.)
\<close>

theorem setup_survives:
  assumes "hashRecognised env" and "handleSetup env path token r body a y w = (a', y', w', SignedIn sid secure)"
    and "fl_file f = y'" and "fl_file (savedQuietly fenv f) = Parsed c"
  shows "creds (fst (bootAuth env getenv c w2)) = creds a' \<and> au_configured a'"
  using handleSetup_shape [OF assms(2)]
proof (elim disjE exE conjE)
  fix user0 pass a1 w1 z hash
  let ?user = "TrimSpace user0"
  assume g: "ae_generate env pass w = (w1, Some hash)" and co: "Configure env ?user hash a = (a1, True)"
    and p: "persistCredentials (ae_writable env) ?user hash y = Some y'" and L: "Login env ?user pass (ClientIP r) a1 w1 = (a', w', z)"
  note fresh = Configure_fresh [OF co]
  have "creds a' = creds a1" using Login_shape [OF L] by (auto simp: onlyDrops_def)
  then have a': "creds a' = (?user, hash, True)" using fresh by (simp add: creds_def)
  obtain c0 where "y' = Parsed c0" "fc_Username c0 = ?user" "fc_PasswordHash c0 = hash" using persistCredentials_file [OF p] by metis
  then have "fc_Username c = ?user" "fc_PasswordHash c = hash" using saveConfig_keeps_login [of f c0 fenv c] assms(3,4) by auto
  then have "bootAuth env getenv c w2 = NewAuth env ?user hash w2" using fresh by (simp add: bootAuth_def bootCredentials_def)
  moreover have "looksLikeBcryptHash hash" using assms(1) g by (auto simp: hashRecognised_def)
  ultimately have "creds (fst (bootAuth env getenv c w2)) = (?user, hash, True)"
    using NewAuth_creds [of ?user hash env w2] fresh by simp
  then show ?thesis using a' by (simp add: creds_def)
qed simp

definition sampleSetup :: "Auth \<times> yamlFile \<times> nat \<times> authReply" where
  "sampleSetup = handleSetup sampleAuth ''/etc/blipc.yaml'' ''tok'' samplePost sampleLoginBody closedAuth Missing 7"

definition sampleSaved :: yamlFile where
  "sampleSaved = fl_file (savedQuietly sampleFleetEnv (NewFleet ''/etc/blipc.yaml'' (fst (snd sampleSetup))))"

theorem setup_survives_witness:
  "\<exists>c. sampleSaved = Parsed c \<and> creds (fst (bootAuth sampleAuth (\<lambda>_. ''other'') c 0)) = (''root'', ''$2a$correct horse'', True)"
proof -
  have reply: "snd (snd (snd sampleSetup)) = SignedIn (genToken (replicate 32 8)) True" by code_simp
  have sc: "creds (fst sampleSetup) = (''root'', ''$2a$correct horse'', True)" by code_simp
  have "\<not> (case sampleSaved of Parsed c \<Rightarrow> False | _ \<Rightarrow> True)" by code_simp
  then obtain c where c: "sampleSaved = Parsed c" by (cases sampleSaved) auto
  have hr: "hashRecognised sampleAuth" by (simp add: hashRecognised_def looksLikeBcryptHash_def HasPrefix_def sampleAuth_def)
  obtain a' y' w' where s: "sampleSetup = (a', y', w', SignedIn (genToken (replicate 32 8)) True)"
    using reply by (metis prod.collapse)
  have saved: "fl_file (savedQuietly sampleFleetEnv (NewFleet ''/etc/blipc.yaml'' y')) = Parsed c" using c unfolding sampleSaved_def s by simp
  have f: "fl_file (NewFleet ''/etc/blipc.yaml'' y') = y'" by (simp add: NewFleet_def)
  have "creds (fst (bootAuth sampleAuth (\<lambda>_. ''other'') c 0)) = creds a'"
    using setup_survives [OF hr s [unfolded sampleSetup_def] f saved, of "\<lambda>_. ''other''" 0] by simp
  then show ?thesis using c sc unfolding s by (intro exI [of _ c] conjI) simp_all
qed

end
