(* ===== verification/Blip_Import.thy ===== *)
theory Blip_Import
  imports Blip_Auth
begin

text \<open>
  The controller's blocklist store (\<open>src/internal/controller/blocklistdb.go\<close>) and the import of the
  source lists (\<open>src/internal/controller/fleet.go\<close>): download, fallback to the last good snapshot,
  merge, persist, distribute.

  A table is the list of its rows. \<open>ie_dbOK\<close> says which statements SQLite accepts; a refused transaction
  leaves its tables alone. Between two looks at the generation counter an import is one step, and the
  downloads, which run side by side, are taken in the order of the sources: each result has its own
  slot. Log lines are left out. Error texts are kept as the values they are made from.
\<close>

subsection \<open>The store\<close>

record SourceMeta =
  sm_URL :: string
  sm_Domains :: int
  sm_LastUpdate :: "time option"
  sm_Error :: "BlError option"
  sm_ETag :: string
  sm_LastModified :: string

record BlocklistStore =
  st_blocklist :: "string list"
  st_manual :: "string list"
  st_manualAllow :: "string list"
  st_sourceDomains :: "(string \<times> string) list"
  st_meta :: "(string \<times> SourceMeta) list"

definition emptyStore :: BlocklistStore where
  "emptyStore = \<lparr>st_blocklist = [], st_manual = [], st_manualAllow = [], st_sourceDomains = [], st_meta = []\<rparr>"

definition insertBatch :: nat where "insertBatch = 500"

function insertChunked :: "('row list \<Rightarrow> 's \<Rightarrow> 's option) \<Rightarrow> 'row list \<Rightarrow> 's \<Rightarrow> 's option" where
  "insertChunked exec rows s =
     (if rows = [] then Some s
      else case exec (take insertBatch rows) s of
             None \<Rightarrow> None
           | Some s1 \<Rightarrow> insertChunked exec (drop insertBatch rows) s1)"
  by auto
termination by (relation "measure (length \<circ> fst \<circ> snd)") (auto simp: insertBatch_def)

declare insertChunked.simps [simp del]

text \<open>One multi-row \<open>INSERT\<close> under a primary key, and its \<open>OR IGNORE\<close> form.\<close>

definition insertRows :: "'row list \<Rightarrow> 'row list \<Rightarrow> 'row list option" where
  "insertRows rows table = (if distinct (table @ rows) then Some (table @ rows) else None)"

definition insertOrIgnore :: "'row list \<Rightarrow> 'row list \<Rightarrow> 'row list option" where
  "insertOrIgnore rows table = Some (fold List.insert rows table)"

definition ReplaceAll :: "bool \<Rightarrow> string list \<Rightarrow> BlocklistStore \<Rightarrow> BlocklistStore \<times> bool" where
  "ReplaceAll ok domains s =
     (if \<not> ok then (s, False)
      else case insertChunked insertRows domains [] of
             None \<Rightarrow> (s, False)
           | Some rows \<Rightarrow> (s\<lparr>st_blocklist := rows\<rparr>, True))"

definition LoadSet :: "bool \<Rightarrow> BlocklistStore \<Rightarrow> string list option" where
  "LoadSet ok s = (if ok then Some (st_blocklist s) else None)"

datatype handTable = ManualTable | AllowTable

definition handRows :: "handTable \<Rightarrow> BlocklistStore \<Rightarrow> string list" where
  "handRows t s = (case t of ManualTable \<Rightarrow> st_manual s | AllowTable \<Rightarrow> st_manualAllow s)"

definition replaceDomainSet :: "bool \<Rightarrow> handTable \<Rightarrow> string list \<Rightarrow> BlocklistStore \<Rightarrow> BlocklistStore \<times> bool" where
  "replaceDomainSet ok t domains s =
     (if \<not> ok \<or> \<not> distinct domains then (s, False)
      else (case t of ManualTable \<Rightarrow> s\<lparr>st_manual := domains\<rparr> | AllowTable \<Rightarrow> s\<lparr>st_manualAllow := domains\<rparr>, True))"

definition loadDomainSet :: "bool \<Rightarrow> handTable \<Rightarrow> BlocklistStore \<Rightarrow> string list option" where
  "loadDomainSet ok t s = (if ok then Some (handRows t s) else None)"

definition ReplaceSourceDomains :: "bool \<Rightarrow> string \<Rightarrow> string list \<Rightarrow> BlocklistStore \<Rightarrow> BlocklistStore \<times> bool" where
  "ReplaceSourceDomains ok url domains s =
     (if \<not> ok then (s, False)
      else case insertChunked insertOrIgnore (map (Pair url) domains) (filter (\<lambda>(u, d). u \<noteq> url) (st_sourceDomains s)) of
             None \<Rightarrow> (s, False)
           | Some rows \<Rightarrow> (s\<lparr>st_sourceDomains := rows\<rparr>, True))"

definition LoadSourceDomains :: "bool \<Rightarrow> string \<Rightarrow> BlocklistStore \<Rightarrow> string list option" where
  "LoadSourceDomains ok url s = (if ok then Some (map snd (filter (\<lambda>(u, d). u = url) (st_sourceDomains s))) else None)"

text \<open>Times are stored in RFC 3339, to the second.\<close>

definition toSecond :: "time \<Rightarrow> time" where
  "toSecond t = t div 1000000000 * 1000000000"

definition ReplaceSourceMeta :: "bool \<Rightarrow> SourceMeta \<Rightarrow> BlocklistStore \<Rightarrow> BlocklistStore \<times> bool" where
  "ReplaceSourceMeta ok m s =
     (if \<not> ok then (s, False)
      else (s\<lparr>st_meta := AList.update (sm_URL m) (m\<lparr>sm_LastUpdate := map_option toSecond (sm_LastUpdate m)\<rparr>) (st_meta s)\<rparr>, True))"

definition LoadSourceMeta :: "bool \<Rightarrow> BlocklistStore \<Rightarrow> (string \<times> SourceMeta) list option" where
  "LoadSourceMeta ok s = (if ok then Some (st_meta s) else None)"

text \<open>Two statements, without a transaction around them.\<close>

definition PruneSources :: "bool \<Rightarrow> bool \<Rightarrow> string list \<Rightarrow> BlocklistStore \<Rightarrow> BlocklistStore \<times> bool" where
  "PruneSources ok1 ok2 keep s =
     (if \<not> ok1 then (s, False)
      else
        let s1 = s\<lparr>st_sourceDomains := filter (\<lambda>(u, d). u \<in> set keep) (st_sourceDomains s)\<rparr> in
        if \<not> ok2 then (s1, False)
        else (s1\<lparr>st_meta := filter (\<lambda>(u, m). u \<in> set keep) (st_meta s1)\<rparr>, True))"

definition BlockSourceLabel :: "bool \<Rightarrow> string \<Rightarrow> BlocklistStore \<Rightarrow> string option" where
  "BlockSourceLabel ok domain s =
     (if \<not> ok then None
      else if domain \<in> set (st_manual s) then Some ''manual''
      else Some (Join (sort (map fst (filter (\<lambda>(u, d). d = domain) (st_sourceDomains s)))) '', ''))"

definition resolveBlockList :: "bool \<Rightarrow> string \<Rightarrow> string \<Rightarrow> BlocklistStore option \<Rightarrow> string" where
  "resolveBlockList ok src domain db =
     (if src = [] \<or> src = ''global'' then
        (case Option.bind db (BlockSourceLabel ok domain) of
           Some label \<Rightarrow> if label \<noteq> [] then label else ''global blocklist''
         | None \<Rightarrow> ''global blocklist'')
      else src)"

subsection \<open>State of an import\<close>

datatype dbOp = DbReplaceAll | DbHand handTable | DbLoadSet | DbSource string | DbLoadSource string | DbMeta string | DbLoadMeta
  | DbPruneDomains | DbPruneMeta

record 'w import_env =
  ie_fleet :: "'w fleet_env"
  ie_parseURL :: "string \<Rightarrow> URL option"
  ie_do :: "'w \<Rightarrow> Request \<Rightarrow> (string, Response) result"
  ie_ctxErr :: "'w \<Rightarrow> nat \<Rightarrow> string option"
  ie_after :: "string \<Rightarrow> 'w \<Rightarrow> 'w"  \<comment> \<open>once the URL has been fetched\<close>
  ie_dbOK :: "dbOp \<Rightarrow> 'w \<Rightarrow> bool"

record SourceStat =
  ss_URL :: string
  ss_Domains :: int
  ss_LastUpdate :: "time option"
  ss_Error :: "BlError option"

datatype importError = NoSources | NothingFetched int | Distribution "(string \<times> pushResult) list"

record BlocklistStatus =
  bt_Running :: bool
  bt_SourceTotal :: int
  bt_SourceDone :: int
  bt_CurrentURL :: string
  bt_Domains :: int
  bt_LastUpdate :: "time option"
  bt_Errors :: "importError list"

datatype dbJob = PersistManual | PersistAllowed | PersistBlocklist

record Importer =
  im_fleet :: Fleet
  im_db :: "BlocklistStore option"
  im_gen :: int
  im_running :: bool
  im_status :: BlocklistStatus
  im_sourceStats :: "SourceStat list"
  im_jobs :: "dbJob list"  \<comment> \<open>background writes not yet done\<close>

definition onDB :: "(BlocklistStore \<Rightarrow> BlocklistStore \<times> bool) \<Rightarrow> Importer \<Rightarrow> Importer" where
  "onDB g st = st\<lparr>im_db := map_option (fst \<circ> g) (im_db st)\<rparr>"

definition onFleet :: "(Fleet \<Rightarrow> Fleet) \<Rightarrow> Importer \<Rightarrow> Importer" where
  "onFleet g st = st\<lparr>im_fleet := g (im_fleet st)\<rparr>"

definition onStatus :: "(BlocklistStatus \<Rightarrow> BlocklistStatus) \<Rightarrow> Importer \<Rightarrow> Importer" where
  "onStatus g st = st\<lparr>im_status := g (im_status st)\<rparr>"

definition enqueue :: "dbJob \<Rightarrow> Importer \<Rightarrow> Importer" where
  "enqueue j st = (if im_db st = None then st else st\<lparr>im_jobs := im_jobs st @ [j]\<rparr>)"

definition persistManual :: "Importer \<Rightarrow> Importer" where "persistManual = enqueue PersistManual"
definition persistAllowed :: "Importer \<Rightarrow> Importer" where "persistAllowed = enqueue PersistAllowed"
definition persistBlocklist :: "Importer \<Rightarrow> Importer" where "persistBlocklist = enqueue PersistBlocklist"

text \<open>The body of a background write, whenever it gets to run.\<close>

definition runJob :: "'w import_env \<Rightarrow> dbJob \<Rightarrow> 'w \<Rightarrow> Importer \<Rightarrow> Importer" where
  "runJob env j w st =
     (case j of
        PersistManual \<Rightarrow> onDB (replaceDomainSet (ie_dbOK env (DbHand ManualTable) w) ManualTable (ManualDomains (im_fleet st))) st
      | PersistAllowed \<Rightarrow> onDB (replaceDomainSet (ie_dbOK env (DbHand AllowTable) w) AllowTable (AllowedDomains (im_fleet st))) st
      | PersistBlocklist \<Rightarrow>
          onDB (ReplaceAll (ie_dbOK env DbReplaceAll w) (listDomains (ie_fleet env) (fl_blocklist (im_fleet st)))) st)"

subsection \<open>Hand edits\<close>

definition AddManual :: "string \<Rightarrow> Importer \<Rightarrow> Importer" where
  "AddManual domain st =
     (if normalizeDomain domain = [] then st
      else persistBlocklist (persistManual (onFleet (AddManualDomain domain) st)))"

definition RemoveManual :: "string \<Rightarrow> Importer \<Rightarrow> Importer" where
  "RemoveManual domain st =
     (if normalizeDomain domain = [] \<or> normalizeDomain domain \<notin> set (fl_manualDomains (im_fleet st)) then st
      else persistBlocklist (persistManual (onFleet (RemoveManualDomain domain) st)))"

definition ClearManual :: "Importer \<Rightarrow> Importer" where
  "ClearManual st = persistBlocklist (persistManual (onFleet ClearManualDomains st))"

definition AddAllowed :: "string \<Rightarrow> Importer \<Rightarrow> Importer" where
  "AddAllowed domain st =
     (if normalizeDomain domain = [] then st else persistAllowed (onFleet (AddAllowedDomain domain) st))"

definition RemoveAllowed :: "string \<Rightarrow> Importer \<Rightarrow> Importer" where
  "RemoveAllowed domain st =
     (if normalizeDomain domain = [] \<or> normalizeDomain domain \<notin> set (fl_manualAllowed (im_fleet st)) then st
      else persistAllowed (onFleet (RemoveAllowedDomain domain) st))"

definition ClearAllowed :: "Importer \<Rightarrow> Importer" where
  "ClearAllowed st = persistAllowed (onFleet ClearAllowedDomains st)"

subsection \<open>Restoring at start\<close>

definition LoadManualDomains :: "'w import_env \<Rightarrow> 'w \<Rightarrow> Importer \<Rightarrow> Importer" where
  "LoadManualDomains env w st =
     (case Option.bind (im_db st) (loadDomainSet (ie_dbOK env (DbHand ManualTable) w) ManualTable) of
        None \<Rightarrow> st
      | Some m \<Rightarrow> onFleet (\<lambda>f. f\<lparr>fl_manualDomains := m\<rparr>) st)"

definition LoadAllowedDomains :: "'w import_env \<Rightarrow> 'w \<Rightarrow> Importer \<Rightarrow> Importer" where
  "LoadAllowedDomains env w st =
     (case Option.bind (im_db st) (loadDomainSet (ie_dbOK env (DbHand AllowTable) w) AllowTable) of
        None \<Rightarrow> st
      | Some m \<Rightarrow> onFleet (\<lambda>f. syncAllowed (f\<lparr>fl_manualAllowed := m\<rparr>)) st)"

text \<open>The two halves of the background load of the merged list.\<close>

definition LoadBlocklistCache_begin :: "Importer \<Rightarrow> Importer" where
  "LoadBlocklistCache_begin st = (if im_db st = None then st else onFleet (\<lambda>f. f\<lparr>fl_blLoading := True\<rparr>) st)"

definition LoadBlocklistCache_finish :: "'w import_env \<Rightarrow> 'w \<Rightarrow> Importer \<Rightarrow> Importer" where
  "LoadBlocklistCache_finish env w st =
     onFleet (\<lambda>f. f\<lparr>fl_blLoading := False\<rparr>)
       (case Option.bind (im_db st) (LoadSet (ie_dbOK env DbLoadSet w)) of
          None \<Rightarrow> st
        | Some rows \<Rightarrow>
            let st1 = (if rows \<noteq> [] \<and> Blocklist_Count (fl_blocklist (im_fleet st)) = 0
                       then onFleet (onList (Blocklist_FromDomainsMap rows)) st else st)
            in onStatus (\<lambda>b. b\<lparr>bt_Domains := Blocklist_Count (fl_blocklist (im_fleet st1))\<rparr>) st1)"

definition statOf :: "SourceMeta \<Rightarrow> SourceStat" where
  "statOf m = \<lparr>ss_URL = sm_URL m, ss_Domains = sm_Domains m, ss_LastUpdate = sm_LastUpdate m, ss_Error = sm_Error m\<rparr>"

definition laterOf :: "time option \<Rightarrow> time option \<Rightarrow> time option" where
  "laterOf a b = (case (a, b) of (None, _) \<Rightarrow> b | (_, None) \<Rightarrow> a | (Some x, Some y) \<Rightarrow> Some (max x y))"

definition LoadSourceStats :: "'w import_env \<Rightarrow> 'w \<Rightarrow> Importer \<Rightarrow> Importer" where
  "LoadSourceStats env w st =
     (case Option.bind (im_db st) (LoadSourceMeta (ie_dbOK env DbLoadMeta w)) of
        None \<Rightarrow> st
      | Some m \<Rightarrow>
          let configured = List.map_filter (map_of m) (remdups (fl_blocklistSources (im_fleet st)));
              latest = fold laterOf (map sm_LastUpdate configured) None;
              st1 = st\<lparr>im_sourceStats := sort_key ss_URL (map statOf (map snd m))\<rparr>
          in if latest = None then st1 else onStatus (\<lambda>b. b\<lparr>bt_LastUpdate := latest\<rparr>) st1)"

subsection \<open>Starting an import\<close>

definition newStatus :: "int \<Rightarrow> BlocklistStatus" where
  "newStatus n = \<lparr>bt_Running = True, bt_SourceTotal = n, bt_SourceDone = 0, bt_CurrentURL = [], bt_Domains = 0,
     bt_LastUpdate = None, bt_Errors = []\<rparr>"

text \<open>The new generation supersedes an import under way.\<close>

definition startBlocklistImport :: "Importer \<Rightarrow> Importer" where
  "startBlocklistImport st =
     st\<lparr>im_gen := im_gen st + 1, im_running := True,
        im_status := newStatus (int (length (EnabledBlocklistSources (im_fleet st))))\<rparr>"

definition SetBlocklistSources :: "'w import_env \<Rightarrow> string list \<Rightarrow> Importer \<Rightarrow> Importer" where
  "SetBlocklistSources env urls st =
     (let clean = cleanURLs urls;
          f = im_fleet st;
          f1 = f\<lparr>fl_blocklistSources := clean,
                 fl_blocklistDisabled := filter (\<lambda>u. u \<in> set clean) (fl_blocklistDisabled f)\<rparr>
      in startBlocklistImport (st\<lparr>im_fleet := savedQuietly (ie_fleet env) f1\<rparr>))"

definition SetBlocklistSourceEnabled :: "'w import_env \<Rightarrow> string \<Rightarrow> bool \<Rightarrow> Importer \<Rightarrow> Importer" where
  "SetBlocklistSourceEnabled env url enabled st =
     (let f = im_fleet st;
          f1 = f\<lparr>fl_blocklistDisabled :=
                 (if enabled then removeAll url (fl_blocklistDisabled f) else List.insert url (fl_blocklistDisabled f))\<rparr>
      in startBlocklistImport (st\<lparr>im_fleet := savedQuietly (ie_fleet env) f1\<rparr>))"

text \<open>One tick of the auto-updater.\<close>

definition autoDue :: "time \<Rightarrow> Importer \<Rightarrow> bool" where
  "autoDue now st \<longleftrightarrow>
     0 < fl_autoUpdateHours (im_fleet st) \<and> fl_blocklistSources (im_fleet st) \<noteq> [] \<and> \<not> im_running st
     \<and> (case bt_LastUpdate (im_status st) of
          None \<Rightarrow> True
        | Some t \<Rightarrow> hoursToDuration (fl_autoUpdateHours (im_fleet st)) \<le> now - t)"

definition autoTick :: "time \<Rightarrow> Importer \<Rightarrow> Importer" where
  "autoTick now st = (if autoDue now st then startBlocklistImport st else st)"

subsection \<open>Running an import\<close>

definition distribute :: "'w import_env \<Rightarrow> Importer \<Rightarrow> 'w net \<Rightarrow> Importer \<times> 'w net \<times> (string \<times> pushResult) list" where
  "distribute env st net =
     (case pushBlocklist (ie_fleet env) (im_fleet st) net of (f, net1, rs) \<Rightarrow> (st\<lparr>im_fleet := f\<rparr>, net1, rs))"

text \<open>The deferred function; it does nothing once a newer import owns the status.\<close>

definition finishImport :: "'w import_env \<Rightarrow> int \<Rightarrow> bool \<Rightarrow> 'w \<Rightarrow> Importer \<Rightarrow> Importer" where
  "finishImport env gen applied w st =
     (if im_gen st \<noteq> gen then st
      else
        let now = fe_now (ie_fleet env) w;
            st1 = onStatus (\<lambda>b. b\<lparr>bt_Running := False, bt_Domains := Blocklist_Count (fl_blocklist (im_fleet st)),
                                  bt_LastUpdate := (if applied then Some now else bt_LastUpdate b)\<rparr>) (st\<lparr>im_running := False\<rparr>)
        in onFleet (publish (noEvent\<lparr>ev_Type := ''status'', ev_At := now, ev_Msg := ''blocklist update finished''\<rparr>)) st1)"

record ImportPlan =
  ip_all :: "string list"
  ip_urls :: "string list"
  ip_prev :: "(string \<times> SourceMeta) list"
  ip_manual :: "string list"

definition pruned :: "'w import_env \<Rightarrow> string list \<Rightarrow> 'w \<Rightarrow> Importer \<Rightarrow> Importer" where
  "pruned env keep w = onDB (PruneSources (ie_dbOK env DbPruneDomains w) (ie_dbOK env DbPruneMeta w) keep)"

definition prevMeta :: "'w import_env \<Rightarrow> 'w \<Rightarrow> Importer \<Rightarrow> (string \<times> SourceMeta) list" where
  "prevMeta env w st =
     (case Option.bind (im_db st) (LoadSourceMeta (ie_dbOK env DbLoadMeta w)) of None \<Rightarrow> [] | Some m \<Rightarrow> m)"

text \<open>Up to the downloads; without an enabled source the import ends here.\<close>

definition planImport :: "'w import_env \<Rightarrow> int \<Rightarrow> Importer \<Rightarrow> 'w net \<Rightarrow> Importer \<times> 'w net \<times> ImportPlan option" where
  "planImport env gen st net =
     (let allURLs = fl_blocklistSources (im_fleet st); urls = EnabledBlocklistSources (im_fleet st); w = snd net in
      if allURLs = [] then
        let st1 = onStatus (\<lambda>b. b\<lparr>bt_Errors := [NoSources]\<rparr>) (st\<lparr>im_sourceStats := []\<rparr>) in
        case distribute env (pruned env [] w st1) net of
          (st2, net1, _) \<Rightarrow> (finishImport env gen False (snd net1) (persistBlocklist st2), net1, None)
      else if urls = [] then
        let st1 = persistBlocklist (onFleet (onList (Blocklist_FromDomainsMap (fl_manualDomains (im_fleet st)))) st) in
        case distribute env st1 net of
          (st2, net1, _) \<Rightarrow> (finishImport env gen False (snd net1) st2, net1, None)
      else
        (st, net, Some \<lparr>ip_all = allURLs, ip_urls = urls, ip_prev = prevMeta env w st, ip_manual = fl_manualDomains (im_fleet st)\<rparr>))"

datatype fetchOutcome = Fetched "string list" | Unchanged | FetchFailed BlError

type_synonym blSourceResult = "fetchOutcome \<times> Validators"

definition storedValidators :: "(string \<times> SourceMeta) list \<Rightarrow> string \<Rightarrow> Validators" where
  "storedValidators prev u =
     (case map_of prev u of
        None \<Rightarrow> \<lparr>v_ETag = [], v_LastModified = []\<rparr>
      | Some pm \<Rightarrow> \<lparr>v_ETag = sm_ETag pm, v_LastModified = sm_LastModified pm\<rparr>)"

definition fetchOne :: "'w import_env \<Rightarrow> (string \<times> SourceMeta) list \<Rightarrow> string \<Rightarrow> 'w \<Rightarrow> blSourceResult" where
  "fetchOne env prev u w =
     (let v = storedValidators prev u in
      case FetchSource (ie_parseURL env) (ie_do env w) (ie_ctxErr env w) u v of
        Inl e \<Rightarrow> (FetchFailed e, v)
      | Inr fr \<Rightarrow>
          let nv = (if v_ETag (fr_Validators fr) = [] \<and> v_LastModified (fr_Validators fr) = [] then v else fr_Validators fr)
          in (if fr_NotModified fr then Unchanged else Fetched (fr_Domains fr), nv))"

fun fetchAll :: "'w import_env \<Rightarrow> (string \<times> SourceMeta) list \<Rightarrow> string list \<Rightarrow> 'w \<Rightarrow> blSourceResult list \<times> 'w" where
  "fetchAll env prev [] w = ([], w)"
| "fetchAll env prev (u # us) w =
     (case fetchAll env prev us (ie_after env u w) of (rs, w1) \<Rightarrow> (fetchOne env prev u w # rs, w1))"

record Merge =
  mg_merged :: "string list"
  mg_stats :: "SourceStat list"
  mg_failed :: int
  mg_db :: "BlocklistStore option"

definition prevStat :: "(string \<times> SourceMeta) list \<Rightarrow> string \<Rightarrow> (SourceMeta \<Rightarrow> 'a) \<Rightarrow> 'a \<Rightarrow> 'a" where
  "prevStat prev u sel d = (case map_of prev u of None \<Rightarrow> d | Some m \<Rightarrow> sel m)"

definition snapshotOf :: "'w import_env \<Rightarrow> string \<Rightarrow> 'w \<Rightarrow> BlocklistStore option \<Rightarrow> string list" where
  "snapshotOf env u w db =
     (case Option.bind db (LoadSourceDomains (ie_dbOK env (DbLoadSource u) w) u) of None \<Rightarrow> [] | Some ds \<Rightarrow> ds)"

text \<open>What a source adds to the list, and the snapshot a download leaves behind.\<close>

definition contribution :: "'w import_env \<Rightarrow> string \<Rightarrow> blSourceResult \<Rightarrow> 'w \<Rightarrow> BlocklistStore option \<Rightarrow> string list" where
  "contribution env u r w db = (case fst r of Fetched ds \<Rightarrow> ds | _ \<Rightarrow> snapshotOf env u w db)"

definition statFor ::
  "'w import_env \<Rightarrow> (string \<times> SourceMeta) list \<Rightarrow> string \<Rightarrow> blSourceResult \<Rightarrow> 'w \<Rightarrow> BlocklistStore option \<Rightarrow> SourceStat" where
  "statFor env prev u r w db =
     (let now = fe_now (ie_fleet env) w;
          n = int (length (contribution env u r w db));
          n' = (if n = 0 then prevStat prev u sm_Domains 0 else n)
      in case fst r of
           FetchFailed e \<Rightarrow> \<lparr>ss_URL = u, ss_Domains = n', ss_LastUpdate = prevStat prev u sm_LastUpdate None, ss_Error = Some e\<rparr>
         | Unchanged \<Rightarrow> \<lparr>ss_URL = u, ss_Domains = n', ss_LastUpdate = Some now, ss_Error = None\<rparr>
         | Fetched ds \<Rightarrow> \<lparr>ss_URL = u, ss_Domains = n, ss_LastUpdate = Some now, ss_Error = None\<rparr>)"

definition keepSnapshot :: "'w import_env \<Rightarrow> string \<Rightarrow> blSourceResult \<Rightarrow> 'w \<Rightarrow> BlocklistStore \<Rightarrow> BlocklistStore" where
  "keepSnapshot env u r w s =
     (case fst r of Fetched ds \<Rightarrow> fst (ReplaceSourceDomains (ie_dbOK env (DbSource u) w) u ds s) | _ \<Rightarrow> s)"

definition metaFor :: "SourceStat \<Rightarrow> Validators \<Rightarrow> SourceMeta" where
  "metaFor st v =
     \<lparr>sm_URL = ss_URL st, sm_Domains = ss_Domains st, sm_LastUpdate = ss_LastUpdate st, sm_Error = ss_Error st,
      sm_ETag = v_ETag v, sm_LastModified = v_LastModified v\<rparr>"

definition mergeSource ::
  "'w import_env \<Rightarrow> (string \<times> SourceMeta) list \<Rightarrow> string \<Rightarrow> blSourceResult \<Rightarrow> 'w \<Rightarrow> Merge \<Rightarrow> Merge" where
  "mergeSource env prev u r w m =
     (let st = statFor env prev u r w (mg_db m) in
      \<lparr>mg_merged = fold List.insert (contribution env u r w (mg_db m)) (mg_merged m),
       mg_stats = mg_stats m @ [st],
       mg_failed = (case fst r of FetchFailed _ \<Rightarrow> mg_failed m + 1 | _ \<Rightarrow> mg_failed m),
       mg_db = map_option (\<lambda>s. fst (ReplaceSourceMeta (ie_dbOK env (DbMeta u) w) (metaFor st (snd r)) (keepSnapshot env u r w s)))
                 (mg_db m)\<rparr>)"

text \<open>The loop over the results; \<open>None\<close> when a newer import has taken over.\<close>

definition mergeStep ::
  "'w import_env \<Rightarrow> int \<Rightarrow> ImportPlan \<Rightarrow> string \<Rightarrow> blSourceResult \<Rightarrow> 'w \<Rightarrow> Merge \<Rightarrow> Importer \<Rightarrow> Importer \<times> Merge option" where
  "mergeStep env gen plan u r w m st =
     (let m1 = mergeSource env (ip_prev plan) u r w (m\<lparr>mg_db := im_db st\<rparr>);
          st1 = st\<lparr>im_db := mg_db m1\<rparr>
      in if im_gen st1 \<noteq> gen then (st1, None)
         else
           (onStatus (\<lambda>b. b\<lparr>bt_CurrentURL := u, bt_SourceDone := int (length (mg_stats m1)),
                            bt_SourceTotal := int (length (ip_urls plan)), bt_Domains := int (length (mg_merged m1))\<rparr>)
              (st1\<lparr>im_sourceStats := mg_stats m1\<rparr>), Some m1))"

fun mergeAll ::
  "'w import_env \<Rightarrow> int \<Rightarrow> ImportPlan \<Rightarrow> (string \<times> blSourceResult) list \<Rightarrow> 'w \<Rightarrow> Merge \<Rightarrow> Importer \<Rightarrow> Importer \<times> Merge option" where
  "mergeAll env gen plan [] w m st = (st, Some m)"
| "mergeAll env gen plan ((u, r) # urs) w m st =
     (case mergeStep env gen plan u r w m st of
        (st1, None) \<Rightarrow> (st1, None)
      | (st1, Some m1) \<Rightarrow> mergeAll env gen plan urs w m1 st1)"

definition distributionErrors :: "(string \<times> pushResult) list \<Rightarrow> importError list" where
  "distributionErrors rs = (let bad = filter (\<lambda>(k, r). r \<noteq> Ok) rs in if bad = [] then [] else [Distribution bad])"

text \<open>The last part: install the merged list, forget dropped sources, persist and push if anything changed.\<close>

definition applyImport :: "'w import_env \<Rightarrow> int \<Rightarrow> ImportPlan \<Rightarrow> Merge \<Rightarrow> Importer \<Rightarrow> 'w net \<Rightarrow> Importer \<times> 'w net" where
  "applyImport env gen plan m st net =
     (if im_gen st \<noteq> gen then (st, net)
      else if mg_merged m = [] then
        (finishImport env gen False (snd net)
           (onStatus (\<lambda>b. b\<lparr>bt_Errors := bt_Errors b @ [NothingFetched (mg_failed m)]\<rparr>) (st\<lparr>im_sourceStats := mg_stats m\<rparr>)), net)
      else
        let prevHash = Blocklist_Checksum (fl_blocklist (im_fleet st));
            st1 = onFleet (onList (Blocklist_FromDomainsMap (mg_merged m))) st;
            st2 = pruned env (ip_all plan) (snd net) st1
        in if Blocklist_Checksum (fl_blocklist (im_fleet st1)) = prevHash then (finishImport env gen True (snd net) st2, net)
           else case distribute env (persistBlocklist st2) net of (st3, net1, rs) \<Rightarrow>
             (finishImport env gen True (snd net1) (onStatus (\<lambda>b. b\<lparr>bt_Errors := bt_Errors b @ distributionErrors rs\<rparr>) st3), net1))"

definition startMerge :: "ImportPlan \<Rightarrow> Importer \<Rightarrow> Merge" where
  "startMerge plan st = \<lparr>mg_merged = ip_manual plan, mg_stats = [], mg_failed = 0, mg_db = im_db st\<rparr>"

definition finishRun ::
  "'w import_env \<Rightarrow> int \<Rightarrow> ImportPlan \<Rightarrow> blSourceResult list \<Rightarrow> Importer \<Rightarrow> 'w net \<Rightarrow> Importer \<times> 'w net" where
  "finishRun env gen plan rs st net =
     (if im_gen st \<noteq> gen then (st, net)
      else case mergeAll env gen plan (zip (ip_urls plan) rs) (snd net) (startMerge plan st) st of
             (st1, None) \<Rightarrow> (st1, net)
           | (st1, Some m) \<Rightarrow> applyImport env gen plan m st1 net)"

text \<open>An import with nothing happening beside it.\<close>

definition runBlocklistImport :: "'w import_env \<Rightarrow> int \<Rightarrow> Importer \<Rightarrow> 'w net \<Rightarrow> Importer \<times> 'w net" where
  "runBlocklistImport env gen st net =
     (case planImport env gen st net of
        (st1, net1, None) \<Rightarrow> (st1, net1)
      | (st1, net1, Some plan) \<Rightarrow>
          (case fetchAll env (ip_prev plan) (ip_urls plan) (snd net1) of
             (rs, w) \<Rightarrow> finishRun env gen plan rs st1 (fst net1, w)))"

subsection \<open>The store keeps what it is given\<close>

text \<open>Batches are only a matter of size.\<close>

lemma insertChunked_Nil [simp]: "insertChunked exec [] s = Some s"
  by (simp add: insertChunked.simps)

lemma insertChunked_step:
  "rows \<noteq> [] \<Longrightarrow> insertChunked exec rows s
     = (case exec (take insertBatch rows) s of None \<Rightarrow> None | Some s1 \<Rightarrow> insertChunked exec (drop insertBatch rows) s1)"
  by (subst insertChunked.simps) simp

lemma insertChunked_rows: "distinct table \<Longrightarrow> insertChunked insertRows rows table = insertRows rows table"
proof (induction "length rows" arbitrary: rows table rule: less_induct)
  case less
  show ?case
  proof (cases "rows = []")
    case True
    then show ?thesis using less.prems by (simp add: insertRows_def)
  next
    case False
    have "length (drop insertBatch rows) < length rows" using False by (cases rows) (simp_all add: insertBatch_def)
    note IH = less.hyps [OF this]
    let ?now = "take insertBatch rows" and ?later = "drop insertBatch rows"
    have whole: "insertRows ?later (table @ ?now) = insertRows rows table"
      unfolding insertRows_def append_assoc append_take_drop_id ..
    show ?thesis
    proof (cases "distinct (table @ ?now)")
      case True
      then have "insertRows ?now table = Some (table @ ?now)" by (simp only: insertRows_def if_True)
      then show ?thesis using IH [OF True] False whole by (simp add: insertChunked_step)
    next
      case no: False
      then have "insertRows ?now table = None" by (simp only: insertRows_def if_False)
      moreover have "insertRows rows table = None"
        using no set_take_subset [of insertBatch rows] by (auto simp: insertRows_def)
      ultimately show ?thesis using False by (simp add: insertChunked_step)
    qed
  qed
qed

lemma insertChunked_ignore: "insertChunked insertOrIgnore rows table = Some (fold List.insert rows table)"
proof (induction "length rows" arbitrary: rows table rule: less_induct)
  case less
  show ?case
  proof (cases "rows = []")
    case False
    then have "length (drop insertBatch rows) < length rows" by (cases rows) (simp_all add: insertBatch_def)
    from less.hyps [OF this] show ?thesis
      using False fold_append [of List.insert "take insertBatch rows" "drop insertBatch rows"]
      by (simp add: insertChunked_step insertOrIgnore_def)
  qed simp
qed

lemma ReplaceAll_spec: "ReplaceAll ok ds s = (if ok \<and> distinct ds then (s\<lparr>st_blocklist := ds\<rparr>, True) else (s, False))"
  by (simp add: ReplaceAll_def insertChunked_rows insertRows_def)

lemma set_fold_insert [simp]: "set (fold List.insert xs ys) = set ys \<union> set xs"
  by (induction xs arbitrary: ys) auto

lemma distinct_fold_insert: "distinct ys \<Longrightarrow> distinct (fold List.insert xs ys)"
  by (induction xs arbitrary: ys) auto

text \<open>A keyed store of snapshots; what the import relies on.\<close>

locale snapshots =
  fixes put :: "'k \<Rightarrow> 'v list \<Rightarrow> 's \<Rightarrow> 's" and get :: "'k \<Rightarrow> 's \<Rightarrow> 'v set"
  assumes get_put: "get k (put k vs s) = set vs"
    and get_other: "k' \<noteq> k \<Longrightarrow> get k' (put k vs s) = get k' s"
begin

lemma get_puts_other: "k \<notin> fst ` set kvs \<Longrightarrow> get k (fold (\<lambda>(k, vs). put k vs) kvs s) = get k s"
  by (induction kvs arbitrary: s) (auto simp: get_other)

lemma get_puts:
  assumes "distinct (map fst kvs)" and "(k, vs) \<in> set kvs"
  shows "get k (fold (\<lambda>(k, vs). put k vs) kvs s) = set vs"
  using assms
proof (induction kvs arbitrary: s)
  case (Cons e kvs)
  show ?case
  proof (cases "e = (k, vs)")
    case True
    then have "k \<notin> fst ` set kvs" using Cons.prems(1) by auto
    then show ?thesis using True get_puts_other by (simp add: get_put)
  next
    case False
    then show ?thesis using Cons.IH Cons.prems by (cases e) auto
  qed
qed simp

end

definition storedDomains :: "string \<Rightarrow> BlocklistStore \<Rightarrow> string set" where
  "storedDomains u s = set (map snd (filter (\<lambda>(v, d). v = u) (st_sourceDomains s)))"

definition storeDomains :: "string \<Rightarrow> string list \<Rightarrow> BlocklistStore \<Rightarrow> BlocklistStore" where
  "storeDomains u ds s = fst (ReplaceSourceDomains True u ds s)"

lemma ReplaceSourceDomains_fields:
  "st_sourceDomains (fst (ReplaceSourceDomains ok u ds s))
     = (if ok then fold List.insert (map (Pair u) ds) (filter (\<lambda>(v, d). v \<noteq> u) (st_sourceDomains s)) else st_sourceDomains s)"
  by (simp add: ReplaceSourceDomains_def insertChunked_ignore)

interpretation src: snapshots storeDomains storedDomains
proof
  show "storedDomains k (storeDomains k vs s) = set vs" for k vs s
    by (force simp: storedDomains_def storeDomains_def ReplaceSourceDomains_fields)
  show "storedDomains k' (storeDomains k vs s) = storedDomains k' s" if "k' \<noteq> k" for k k' vs s
    using that by (force simp: storedDomains_def storeDomains_def ReplaceSourceDomains_fields)
qed

lemma storedDomains_meta [simp]: "storedDomains u (fst (ReplaceSourceMeta ok m s)) = storedDomains u s"
  by (simp add: storedDomains_def ReplaceSourceMeta_def)

lemma storedDomains_replace:
  "storedDomains u (fst (ReplaceSourceDomains ok v ds s)) = (if ok \<and> u = v then set ds else storedDomains u s)"
  using src.get_put [of u ds s] src.get_other [of u v ds s]
  by (cases ok) (auto simp: storeDomains_def ReplaceSourceDomains_def)

lemma snapshotOf_stored: "set (snapshotOf env u w db) = (case db of Some s \<Rightarrow> if ie_dbOK env (DbLoadSource u) w then storedDomains u s else {} | None \<Rightarrow> {})"
  by (simp add: snapshotOf_def LoadSourceDomains_def storedDomains_def split: option.splits)

subsection \<open>What an import installs\<close>

definition dbAllOK :: "'w import_env \<Rightarrow> bool" where
  "dbAllOK env \<longleftrightarrow> (\<forall>op w. ie_dbOK env op w)"

text \<open>The snapshots after a round of merging.\<close>

definition newSnapshot :: "'w import_env \<Rightarrow> 'w \<Rightarrow> (string \<times> blSourceResult) list \<Rightarrow> string \<Rightarrow> string set \<Rightarrow> string set" where
  "newSnapshot env w urs v old =
     (case map_of urs v of
        Some (Fetched ds, _) \<Rightarrow> if ie_dbOK env (DbSource v) w then set ds else old
      | _ \<Rightarrow> old)"

lemma storedDomains_keep:
  "storedDomains v (keepSnapshot env u r w s)
     = (case fst r of Fetched ds \<Rightarrow> if ie_dbOK env (DbSource u) w \<and> v = u then set ds else storedDomains v s | _ \<Rightarrow> storedDomains v s)"
  by (simp add: keepSnapshot_def storedDomains_replace split: fetchOutcome.splits)

lemma mergeStep_current:
  assumes "im_gen st = gen"
  obtains st1 m1 where "mergeStep env gen plan u r w m st = (st1, Some m1)" "im_gen st1 = gen" "im_fleet st1 = im_fleet st"
    "im_running st1 = im_running st" "im_jobs st1 = im_jobs st" "bt_LastUpdate (im_status st1) = bt_LastUpdate (im_status st)"
    "bt_Errors (im_status st1) = bt_Errors (im_status st)"
    "set (mg_merged m1) = set (mg_merged m) \<union> set (contribution env u r w (im_db st))"
    "im_db st1 = map_option (\<lambda>s. fst (ReplaceSourceMeta (ie_dbOK env (DbMeta u) w)
        (metaFor (statFor env (ip_prev plan) u r w (im_db st)) (snd r)) (keepSnapshot env u r w s))) (im_db st)"
  using assms that by (simp add: mergeStep_def mergeSource_def onStatus_def Let_def)

lemma contribution_other:
  assumes "u \<noteq> v"
    and "db' = map_option (\<lambda>s. fst (ReplaceSourceMeta ok meta (keepSnapshot env u r w s))) db"
  shows "set (contribution env v q w db') = set (contribution env v q w db)"
proof (cases "fst q")
  case (Fetched ds)
  then show ?thesis by (simp add: contribution_def)
qed (use assms in \<open>auto simp: contribution_def snapshotOf_stored storedDomains_keep split: option.splits fetchOutcome.splits\<close>)

lemma mergeAll_current:
  assumes "im_gen st = gen" and "distinct (map fst urs)"
  shows "\<exists>st' m'. mergeAll env gen plan urs w m st = (st', Some m') \<and> im_gen st' = gen \<and> im_fleet st' = im_fleet st
    \<and> im_running st' = im_running st \<and> im_jobs st' = im_jobs st \<and> bt_LastUpdate (im_status st') = bt_LastUpdate (im_status st)
    \<and> set (mg_merged m') = set (mg_merged m) \<union> (\<Union>(u, r) \<in> set urs. set (contribution env u r w (im_db st)))
    \<and> (case im_db st of
         None \<Rightarrow> im_db st' = None
       | Some s \<Rightarrow> \<exists>s'. im_db st' = Some s' \<and> (\<forall>v. storedDomains v s' = newSnapshot env w urs v (storedDomains v s)))"
  using assms
proof (induction urs arbitrary: m st)
  case Nil
  then show ?case by (cases "im_db st") (simp_all add: newSnapshot_def)
next
  case (Cons e urs)
  obtain u r where e: "e = (u, r)" by (metis surj_pair)
  obtain st1 m1 where s1: "mergeStep env gen plan u r w m st = (st1, Some m1)" "im_gen st1 = gen" "im_fleet st1 = im_fleet st"
      "im_running st1 = im_running st" "im_jobs st1 = im_jobs st" "bt_LastUpdate (im_status st1) = bt_LastUpdate (im_status st)"
      "set (mg_merged m1) = set (mg_merged m) \<union> set (contribution env u r w (im_db st))"
    and db1: "im_db st1 = map_option (\<lambda>s. fst (ReplaceSourceMeta (ie_dbOK env (DbMeta u) w)
        (metaFor (statFor env (ip_prev plan) u r w (im_db st)) (snd r)) (keepSnapshot env u r w s))) (im_db st)"
    using Cons.prems(1) by (rule mergeStep_current)
  have fresh: "u \<notin> fst ` set urs" "distinct (map fst urs)" using Cons.prems(2) e by auto
  obtain st' m' where IH: "mergeAll env gen plan urs w m1 st1 = (st', Some m')" "im_gen st' = gen" "im_fleet st' = im_fleet st1"
      "im_running st' = im_running st1" "im_jobs st' = im_jobs st1" "bt_LastUpdate (im_status st') = bt_LastUpdate (im_status st1)"
      "set (mg_merged m') = set (mg_merged m1) \<union> (\<Union>(u, r) \<in> set urs. set (contribution env u r w (im_db st1)))"
      "case im_db st1 of None \<Rightarrow> im_db st' = None
       | Some s \<Rightarrow> \<exists>s'. im_db st' = Some s' \<and> (\<forall>v. storedDomains v s' = newSnapshot env w urs v (storedDomains v s))"
    using Cons.IH [OF s1(2) fresh(2), of m1] by blast
  have same: "set (contribution env v q w (im_db st1)) = set (contribution env v q w (im_db st))" if "(v, q) \<in> set urs" for v q
    using that fresh(1) by (intro contribution_other [OF _ db1]) force
  then have "(\<Union>(v, q) \<in> set urs. set (contribution env v q w (im_db st1))) = (\<Union>(v, q) \<in> set urs. set (contribution env v q w (im_db st)))"
    by fastforce
  moreover have "case im_db st of None \<Rightarrow> im_db st' = None
       | Some s \<Rightarrow> \<exists>s'. im_db st' = Some s' \<and> (\<forall>v. storedDomains v s' = newSnapshot env w (e # urs) v (storedDomains v s))"
  proof (cases "im_db st")
    case None
    then show ?thesis using IH(8) db1 by simp
  next
    case (Some s)
    have none: "map_of urs u = None" using fresh(1) by (simp add: map_of_eq_None_iff)
    have "newSnapshot env w urs v (storedDomains v (keepSnapshot env u r w s)) = newSnapshot env w (e # urs) v (storedDomains v s)" for v
      using none by (cases "v = u") (auto simp: newSnapshot_def storedDomains_keep e split: fetchOutcome.splits prod.splits option.splits)
    then show ?thesis using IH(8) db1 Some by auto
  qed
  ultimately show ?case using s1 IH by (simp add: e Un_assoc)
qed

lemma finishImport_fields [simp]:
  "fl_blocklist (im_fleet (finishImport env gen ap w st)) = fl_blocklist (im_fleet st)"
  "fl_blocklistSources (im_fleet (finishImport env gen ap w st)) = fl_blocklistSources (im_fleet st)"
  "fl_blocklistDisabled (im_fleet (finishImport env gen ap w st)) = fl_blocklistDisabled (im_fleet st)"
  "fl_manualDomains (im_fleet (finishImport env gen ap w st)) = fl_manualDomains (im_fleet st)"
  "fl_autoUpdateHours (im_fleet (finishImport env gen ap w st)) = fl_autoUpdateHours (im_fleet st)"
  "im_db (finishImport env gen ap w st) = im_db st" "im_gen (finishImport env gen ap w st) = im_gen st"
  "im_running (finishImport env gen ap w st) = (im_running st \<and> im_gen st \<noteq> gen)"
  "bt_LastUpdate (im_status (finishImport env gen ap w st))
     = (if ap \<and> im_gen st = gen then Some (fe_now (ie_fleet env) w) else bt_LastUpdate (im_status st))"
  by (auto simp: finishImport_def onFleet_def onStatus_def publish_def Let_def)

lemma importer_simps [simp]:
  "im_fleet (persistBlocklist st) = im_fleet st" "im_gen (persistBlocklist st) = im_gen st" "im_db (persistBlocklist st) = im_db st"
  "im_running (persistBlocklist st) = im_running st" "im_status (persistBlocklist st) = im_status st"
  "im_fleet (pruned env keep w st) = im_fleet st" "im_gen (pruned env keep w st) = im_gen st" "im_running (pruned env keep w st) = im_running st"
  "im_status (pruned env keep w st) = im_status st"
  "im_fleet (onStatus g st) = im_fleet st" "im_gen (onStatus g st) = im_gen st" "im_db (onStatus g st) = im_db st"
  "im_running (onStatus g st) = im_running st" "im_status (onStatus g st) = g (im_status st)"
  "im_fleet (onFleet h st) = h (im_fleet st)" "im_gen (onFleet h st) = im_gen st" "im_db (onFleet h st) = im_db st"
  "im_running (onFleet h st) = im_running st" "im_status (onFleet h st) = im_status st"
  by (simp_all add: persistBlocklist_def enqueue_def pruned_def onDB_def onStatus_def onFleet_def)

lemma onList_fields [simp]:
  "fl_blocklist (onList g f) = g (fl_blocklist f)" "fl_blocklistSources (onList g f) = fl_blocklistSources f"
  "fl_blocklistDisabled (onList g f) = fl_blocklistDisabled f" "fl_manualDomains (onList g f) = fl_manualDomains f"
  "fl_autoUpdateHours (onList g f) = fl_autoUpdateHours f"
  by (simp_all add: onList_def)

lemma distribute_fields:
  assumes "distribute env st net = (st', net', rs)"
  shows "im_db st' = im_db st" "im_gen st' = im_gen st" "im_running st' = im_running st" "im_status st' = im_status st"
    "bl_exact (fl_blocklist (im_fleet st')) = bl_exact (fl_blocklist (im_fleet st))"
    "bl_wild (fl_blocklist (im_fleet st')) = bl_wild (fl_blocklist (im_fleet st))"
    "fl_blocklistSources (im_fleet st') = fl_blocklistSources (im_fleet st)"
    "fl_blocklistDisabled (im_fleet st') = fl_blocklistDisabled (im_fleet st)"
    "fl_manualDomains (im_fleet st') = fl_manualDomains (im_fleet st)"
    "fl_autoUpdateHours (im_fleet st') = fl_autoUpdateHours (im_fleet st)"
  using assms
  by (auto simp: distribute_def pushBlocklist_def pushEach_def syncAllowed_def SetAllowed_fields Let_def split: prod.splits)

text \<open>The four parts of the controller an import leaves alone.\<close>

definition sourceConfig :: "Importer \<Rightarrow> string list \<times> string list \<times> string list \<times> int" where
  "sourceConfig st = (fl_blocklistSources (im_fleet st), fl_blocklistDisabled (im_fleet st), fl_manualDomains (im_fleet st),
     fl_autoUpdateHours (im_fleet st))"

lemma applyImport_spec:
  assumes "im_gen st = gen" and "applyImport env gen plan m st net = (st', net')"
  shows "\<not> im_running st'" "sourceConfig st' = sourceConfig st" "im_gen st' = gen"
    "mg_merged m = [] \<Longrightarrow> fl_blocklist (im_fleet st') = fl_blocklist (im_fleet st) \<and> net' = net
       \<and> bt_LastUpdate (im_status st') = bt_LastUpdate (im_status st) \<and> im_db st' = im_db st"
    "mg_merged m \<noteq> [] \<Longrightarrow> bl_exact (fl_blocklist (im_fleet st')) = \<Union> (entryExact ` set (mg_merged m))
       \<and> bl_wild (fl_blocklist (im_fleet st')) = \<Union> (entryWild ` set (mg_merged m))
       \<and> bt_LastUpdate (im_status st') = Some (fe_now (ie_fleet env) (snd net'))
       \<and> im_db st' = map_option (\<lambda>s. fst (PruneSources (ie_dbOK env DbPruneDomains (snd net)) (ie_dbOK env DbPruneMeta (snd net)) (ip_all plan) s)) (im_db st)
       \<and> (Blocklist_Checksum (Blocklist_FromDomainsMap (mg_merged m) (fl_blocklist (im_fleet st)))
            = Blocklist_Checksum (fl_blocklist (im_fleet st)) \<longrightarrow> net' = net)"
proof -
  let ?st1 = "onFleet (onList (Blocklist_FromDomainsMap (mg_merged m))) st"
  obtain st3 net1 rs where d: "distribute env (persistBlocklist (pruned env (ip_all plan) (snd net) ?st1)) net = (st3, net1, rs)"
    using prod_cases3 by blast
  note df = distribute_fields [OF d]
  have db: "im_db (pruned env keep w x) = map_option (\<lambda>s. fst (PruneSources (ie_dbOK env DbPruneDomains w) (ie_dbOK env DbPruneMeta w) keep s)) (im_db x)"
    for keep w x by (simp add: pruned_def onDB_def comp_def)
  have "\<not> im_running st' \<and> sourceConfig st' = sourceConfig st \<and> im_gen st' = gen"
    using assms df by (auto simp: applyImport_def sourceConfig_def d Let_def split: if_splits)
  then show "\<not> im_running st'" "sourceConfig st' = sourceConfig st" "im_gen st' = gen" by auto
  show "mg_merged m = [] \<Longrightarrow> fl_blocklist (im_fleet st') = fl_blocklist (im_fleet st) \<and> net' = net
       \<and> bt_LastUpdate (im_status st') = bt_LastUpdate (im_status st) \<and> im_db st' = im_db st"
    using assms by (auto simp: applyImport_def)
  assume ne: "mg_merged m \<noteq> []"
  show "bl_exact (fl_blocklist (im_fleet st')) = \<Union> (entryExact ` set (mg_merged m))
       \<and> bl_wild (fl_blocklist (im_fleet st')) = \<Union> (entryWild ` set (mg_merged m))
       \<and> bt_LastUpdate (im_status st') = Some (fe_now (ie_fleet env) (snd net'))
       \<and> im_db st' = map_option (\<lambda>s. fst (PruneSources (ie_dbOK env DbPruneDomains (snd net)) (ie_dbOK env DbPruneMeta (snd net)) (ip_all plan) s)) (im_db st)
       \<and> (Blocklist_Checksum (Blocklist_FromDomainsMap (mg_merged m) (fl_blocklist (im_fleet st)))
            = Blocklist_Checksum (fl_blocklist (im_fleet st)) \<longrightarrow> net' = net)"
    using assms ne df by (auto simp: applyImport_def d Let_def FromDomainsMap_fields db split: if_splits)
qed

text \<open>The domains an import brings together: the hand-added ones and each source's share.\<close>

definition gathered :: "'w import_env \<Rightarrow> Importer \<Rightarrow> blSourceResult list \<Rightarrow> 'w \<Rightarrow> string set" where
  "gathered env st rs w =
     set (fl_manualDomains (im_fleet st))
     \<union> (\<Union>(u, r) \<in> set (zip (EnabledBlocklistSources (im_fleet st)) rs). set (contribution env u r w (im_db st)))"

lemma fetchAll_length: "fetchAll env prev us w = (rs, w') \<Longrightarrow> length rs = length us"
  by (induction us arbitrary: w rs) (auto split: prod.splits)

lemma map_fst_zip_urls: "length rs = length us \<Longrightarrow> map fst (zip us rs) = us"
  by simp

lemma runBlocklistImport_parts:
  assumes "im_gen st = gen" and "EnabledBlocklistSources (im_fleet st) \<noteq> []" and "distinct (EnabledBlocklistSources (im_fleet st))"
    and "fetchAll env (prevMeta env (snd net) st) (EnabledBlocklistSources (im_fleet st)) (snd net) = (rs, w)"
    and "runBlocklistImport env gen st net = (st', net')"
  obtains plan m st1 where "applyImport env gen plan m st1 (fst net, w) = (st', net')" "im_gen st1 = gen" "im_fleet st1 = im_fleet st"
    "bt_LastUpdate (im_status st1) = bt_LastUpdate (im_status st)" "set (mg_merged m) = gathered env st rs w"
    "ip_all plan = fl_blocklistSources (im_fleet st)"
    "case im_db st of None \<Rightarrow> im_db st1 = None
     | Some s \<Rightarrow> \<exists>s'. im_db st1 = Some s'
         \<and> (\<forall>v. storedDomains v s' = newSnapshot env w (zip (EnabledBlocklistSources (im_fleet st)) rs) v (storedDomains v s))"
proof -
  let ?urls = "EnabledBlocklistSources (im_fleet st)"
  define plan where "plan = \<lparr>ip_all = fl_blocklistSources (im_fleet st), ip_urls = ?urls, ip_prev = prevMeta env (snd net) st,
    ip_manual = fl_manualDomains (im_fleet st)\<rparr>"
  have "fl_blocklistSources (im_fleet st) \<noteq> []" using assms(2) by (auto simp: EnabledBlocklistSources_def)
  then have "planImport env gen st net = (st, net, Some plan)" using assms(2) by (simp add: planImport_def plan_def Let_def)
  then have run: "finishRun env gen plan rs st (fst net, w) = (st', net')"
    using assms(4,5) by (simp add: runBlocklistImport_def plan_def)
  have "distinct (map fst (zip ?urls rs))" using assms(3) fetchAll_length [OF assms(4)] by simp
  then obtain st1 m where M: "mergeAll env gen plan (zip ?urls rs) w (startMerge plan st) st = (st1, Some m)" "im_gen st1 = gen"
      "im_fleet st1 = im_fleet st" "bt_LastUpdate (im_status st1) = bt_LastUpdate (im_status st)"
      "set (mg_merged m) = set (mg_merged (startMerge plan st)) \<union> (\<Union>(u, r) \<in> set (zip ?urls rs). set (contribution env u r w (im_db st)))"
      "case im_db st of None \<Rightarrow> im_db st1 = None
       | Some s \<Rightarrow> \<exists>s'. im_db st1 = Some s' \<and> (\<forall>v. storedDomains v s' = newSnapshot env w (zip ?urls rs) v (storedDomains v s))"
    using mergeAll_current [OF assms(1), of "zip ?urls rs" env plan w "startMerge plan st"] by blast
  have "applyImport env gen plan m st1 (fst net, w) = (st', net')" using run assms(1) M(1) by (simp add: finishRun_def plan_def)
  moreover have "set (mg_merged m) = gathered env st rs w" using M(5) by (simp add: gathered_def startMerge_def plan_def)
  moreover have "ip_all plan = fl_blocklistSources (im_fleet st)" by (simp add: plan_def)
  ultimately show ?thesis using that M(2-4,6) by blast
qed

text \<open>The merged list is that of the hand-added domains and the last good snapshots.\<close>

definition listInSync :: "Importer \<Rightarrow> bool" where
  "listInSync st \<longleftrightarrow>
     (\<exists>s. im_db st = Some s \<and>
        (let D = set (fl_manualDomains (im_fleet st)) \<union> (\<Union>u \<in> set (EnabledBlocklistSources (im_fleet st)). storedDomains u s)
         in bl_exact (fl_blocklist (im_fleet st)) = \<Union> (entryExact ` D) \<and> bl_wild (fl_blocklist (im_fleet st)) = \<Union> (entryWild ` D)))"

lemma gathered_stored:
  assumes "dbAllOK env" and "im_db st = Some s" and "distinct (EnabledBlocklistSources (im_fleet st))"
    and "length rs = length (EnabledBlocklistSources (im_fleet st))"
    and "\<forall>v. storedDomains v s' = newSnapshot env w (zip (EnabledBlocklistSources (im_fleet st)) rs) v (storedDomains v s)"
  shows "gathered env st rs w
    = set (fl_manualDomains (im_fleet st)) \<union> (\<Union>u \<in> set (EnabledBlocklistSources (im_fleet st)). storedDomains u s')"
proof -
  let ?urls = "EnabledBlocklistSources (im_fleet st)"
  have d: "distinct (map fst (zip ?urls rs))" using assms(3,4) by simp
  have each: "set (contribution env u r w (im_db st)) = storedDomains u s'" if "(u, r) \<in> set (zip ?urls rs)" for u r
  proof -
    have "map_of (zip ?urls rs) u = Some r" using d that by (rule map_of_is_SomeI)
    then show ?thesis
      using assms(1,2,5)
      by (cases r) (auto simp: contribution_def snapshotOf_stored newSnapshot_def dbAllOK_def split: fetchOutcome.splits)
  qed
  have "(\<Union>(u, r) \<in> set (zip ?urls rs). set (contribution env u r w (im_db st))) = (\<Union>u \<in> fst ` set (zip ?urls rs). storedDomains u s')"
    using each by fastforce
  also have "fst ` set (zip ?urls rs) = set ?urls" using assms(4) by (metis list.set_map map_fst_zip_urls)
  finally show ?thesis by (simp add: gathered_def)
qed

lemma storedDomains_prune: "u \<in> set keep \<Longrightarrow> storedDomains u (fst (PruneSources ok1 ok2 keep s)) = storedDomains u s"
  by (auto simp: storedDomains_def PruneSources_def Let_def)

lemma inv_checksum:
  assumes "Blocklist_inv b" and "Blocklist_inv b'" and "bl_exact b' = bl_exact b" and "bl_wild b' = bl_wild b"
    and "bl_allowExact b' = bl_allowExact b" and "bl_allowWild b' = bl_allowWild b"
  shows "Blocklist_Checksum b' = Blocklist_Checksum b"
  using assms by (simp add: Blocklist_inv_def Blocklist_Checksum_def)

text \<open>
  C11. An undisturbed import with at least one enabled source installs exactly the hand-added domains together with
  every source's share: what was downloaded, or the last good snapshot when the download failed or the server reports no change.
  When that is nothing at all the old list stays. Either way the import is over afterwards, and the sources, the
  disabled ones and the hand-added domains are what they were.
\<close>

theorem import_installs:
  assumes "im_gen st = gen" and "EnabledBlocklistSources (im_fleet st) \<noteq> []" and "distinct (EnabledBlocklistSources (im_fleet st))"
    and "fetchAll env (prevMeta env (snd net) st) (EnabledBlocklistSources (im_fleet st)) (snd net) = (rs, w)"
    and "runBlocklistImport env gen st net = (st', net')"
  shows "\<not> im_running st' \<and> sourceConfig st' = sourceConfig st
    \<and> (if gathered env st rs w = {} then fl_blocklist (im_fleet st') = fl_blocklist (im_fleet st)
       else bl_exact (fl_blocklist (im_fleet st')) = \<Union> (entryExact ` gathered env st rs w)
         \<and> bl_wild (fl_blocklist (im_fleet st')) = \<Union> (entryWild ` gathered env st rs w)
         \<and> bt_LastUpdate (im_status st') = Some (fe_now (ie_fleet env) (snd net')))"
proof -
  obtain plan m st1 where p: "applyImport env gen plan m st1 (fst net, w) = (st', net')" "im_gen st1 = gen" "im_fleet st1 = im_fleet st"
      "set (mg_merged m) = gathered env st rs w"
    by (rule runBlocklistImport_parts [OF assms])
  note spec = applyImport_spec [OF p(2,1)]
  have "sourceConfig st1 = sourceConfig st" using p(3) by (simp add: sourceConfig_def)
  then show ?thesis
    using spec(1,2) spec(4,5) p(3,4) by (cases "mg_merged m = []") auto
qed


subsection \<open>Imports side by side\<close>

datatype importPhase =
    Queued
  | Downloading ImportPlan
  | Merging ImportPlan "(string \<times> blSourceResult) list" Merge

datatype handEdit = EditAdd string | EditRemove string | EditClear | EditAllow string | EditDisallow string | EditClearAllowed

definition editOp :: "handEdit \<Rightarrow> Importer \<Rightarrow> Importer" where
  "editOp e =
     (case e of EditAdd d \<Rightarrow> AddManual d | EditRemove d \<Rightarrow> RemoveManual d | EditClear \<Rightarrow> ClearManual
      | EditAllow d \<Rightarrow> AddAllowed d | EditDisallow d \<Rightarrow> RemoveAllowed d | EditClearAllowed \<Rightarrow> ClearAllowed)"

datatype trigger = NewSources "string list" | Toggle string bool

definition triggerOp :: "'w import_env \<Rightarrow> trigger \<Rightarrow> Importer \<Rightarrow> Importer" where
  "triggerOp env t = (case t of NewSources urls \<Rightarrow> SetBlocklistSources env urls | Toggle u on \<Rightarrow> SetBlocklistSourceEnabled env u on)"

type_synonym 'w imp_state = "Importer \<times> 'w net \<times> (int \<times> importPhase) list"

text \<open>
  Requests, ticks of the auto-updater, hand edits, background writes and the steps of every import still alive, in any order.
\<close>

inductive imp_reach :: "'w import_env \<Rightarrow> 'w imp_state \<Rightarrow> bool" for env where
  init_imp: "\<not> im_running st \<Longrightarrow> imp_reach env (st, net, [])"
| triggered: "imp_reach env (st, net, js) \<Longrightarrow> imp_reach env (triggerOp env t st, net, js @ [(im_gen (triggerOp env t st), Queued)])"
| ticked: "imp_reach env (st, net, js) \<Longrightarrow> autoDue now st
    \<Longrightarrow> imp_reach env (startBlocklistImport st, net, js @ [(im_gen (startBlocklistImport st), Queued)])"
| edited: "imp_reach env (st, net, js) \<Longrightarrow> imp_reach env (editOp e st, net, js)"
| written: "imp_reach env (st, net, js) \<Longrightarrow> imp_reach env (runJob env j w st, net, js)"
| moved_on: "imp_reach env (st, net, js) \<Longrightarrow> imp_reach env (st, net', js)"
| planned: "imp_reach env (st, net, js1 @ (g, Queued) # js2) \<Longrightarrow> planImport env g st net = (st', net', op)
    \<Longrightarrow> imp_reach env (st', net', js1 @ (case op of None \<Rightarrow> [] | Some plan \<Rightarrow> [(g, Downloading plan)]) @ js2)"
| downloaded: "imp_reach env (st, net, js1 @ (g, Downloading plan) # js2)
    \<Longrightarrow> list_all2 (\<lambda>u r. \<exists>w. r = fetchOne env (ip_prev plan) u w) (ip_urls plan) rs
    \<Longrightarrow> imp_reach env (st, net, js1 @ (if im_gen st = g then [(g, Merging plan (zip (ip_urls plan) rs) (startMerge plan st))] else []) @ js2)"
| merged: "imp_reach env (st, net, js1 @ (g, Merging plan ((u, r) # urs) m) # js2) \<Longrightarrow> mergeStep env g plan u r w m st = (st', om)
    \<Longrightarrow> imp_reach env (st', net, js1 @ (case om of None \<Rightarrow> [] | Some m' \<Rightarrow> [(g, Merging plan urs m')]) @ js2)"
| installed: "imp_reach env (st, net, js1 @ (g, Merging plan [] m) # js2) \<Longrightarrow> applyImport env g plan m st net = (st', net')
    \<Longrightarrow> imp_reach env (st', net', js1 @ js2)"

lemma quiet_ops [simp]:
  "im_gen (editOp e st) = im_gen st" "im_running (editOp e st) = im_running st"
  "im_gen (runJob env j w st) = im_gen st" "im_running (runJob env j w st) = im_running st"
  by (simp_all add: editOp_def AddManual_def RemoveManual_def ClearManual_def AddAllowed_def RemoveAllowed_def ClearAllowed_def
      persistBlocklist_def persistManual_def persistAllowed_def enqueue_def onFleet_def runJob_def onDB_def split: handEdit.split dbJob.split)

lemma start_ops [simp]:
  "im_gen (startBlocklistImport st) = im_gen st + 1" "im_running (startBlocklistImport st)"
  "im_gen (triggerOp env t st) = im_gen st + 1" "im_running (triggerOp env t st)"
  by (simp_all add: startBlocklistImport_def triggerOp_def SetBlocklistSources_def SetBlocklistSourceEnabled_def Let_def split: trigger.split)

lemma planImport_gen:
  assumes "planImport env g st net = (st', net', op)"
  shows "im_gen st' = im_gen st" "op = None \<Longrightarrow> im_running st' = (im_running st \<and> im_gen st \<noteq> g)" "op \<noteq> None \<Longrightarrow> st' = st"
proof -
  have d: "\<exists>st2 net2 rs. distribute env x net = (st2, net2, rs) \<and> im_gen st2 = im_gen x \<and> im_running st2 = im_running x" for x
    using distribute_fields(2,3) by (metis prod_cases3)
  show "im_gen st' = im_gen st" "op = None \<Longrightarrow> im_running st' = (im_running st \<and> im_gen st \<noteq> g)" "op \<noteq> None \<Longrightarrow> st' = st"
    using assms d [of "pruned env [] (snd net) (onStatus (\<lambda>b. b\<lparr>bt_Errors := [NoSources]\<rparr>) (st\<lparr>im_sourceStats := []\<rparr>))"]
      d [of "persistBlocklist (onFleet (onList (Blocklist_FromDomainsMap (fl_manualDomains (im_fleet st)))) st)"]
    by (auto simp: planImport_def Let_def split: if_splits)
qed

lemma mergeStep_gen:
  assumes "mergeStep env g plan u r w m st = (st', om)"
  shows "im_gen st' = im_gen st" "im_running st' = im_running st" "om = None \<longleftrightarrow> im_gen st \<noteq> g"
  using assms by (auto simp: mergeStep_def Let_def onStatus_def split: if_splits)

lemma applyImport_gen:
  assumes "applyImport env g plan m st net = (st', net')"
  shows "im_gen st' = im_gen st" "im_running st' = (im_running st \<and> im_gen st \<noteq> g)"
  using assms applyImport_spec(1,3) [OF _ assms] by (cases "im_gen st = g"; simp add: applyImport_def)+

definition onlyNewest :: "'w imp_state \<Rightarrow> bool" where
  "onlyNewest s =
     (case s of (st, net, js) \<Rightarrow>
        distinct (map fst js) \<and> (\<forall>g \<in> fst ` set js. g \<le> im_gen st) \<and> (im_running st \<longleftrightarrow> im_gen st \<in> fst ` set js))"

lemma imp_reach_onlyNewest: "imp_reach env s \<Longrightarrow> onlyNewest s"
proof (induction rule: imp_reach.induct)
  case (triggered st net js t)
  then show ?case by (force simp: onlyNewest_def)
next
  case (ticked st net js now)
  then show ?case by (force simp: onlyNewest_def)
next
  case (planned st net js1 g js2 st' net' op)
  then show ?case using planImport_gen [OF planned.hyps(2)] by (cases op) (auto simp: onlyNewest_def)
next
  case (merged st net js1 g plan u r urs m js2 w st' om)
  then show ?case using mergeStep_gen [OF merged.hyps(2)] by (cases om) (auto simp: onlyNewest_def)
next
  case (installed st net js1 g plan m js2 st' net')
  then show ?case using applyImport_gen [OF installed.hyps(2)] by (auto simp: onlyNewest_def)
qed (auto simp: onlyNewest_def)


subsection \<open>Two defects\<close>

lemma finishRun_installed:
  assumes "im_gen st = gen" and "distinct (ip_urls plan)" and "length rs = length (ip_urls plan)"
    and "finishRun env gen plan rs st net = (st', net')"
    and "set (ip_manual plan) \<union> (\<Union>(u, r) \<in> set (zip (ip_urls plan) rs). set (contribution env u r (snd net) (im_db st))) = D" and "D \<noteq> {}"
  shows "bl_exact (fl_blocklist (im_fleet st')) = \<Union> (entryExact ` D)" "sourceConfig st' = sourceConfig st"
proof -
  have "distinct (map fst (zip (ip_urls plan) rs))" using assms(2,3) by simp
  then obtain st1 m where M: "mergeAll env gen plan (zip (ip_urls plan) rs) (snd net) (startMerge plan st) st = (st1, Some m)" "im_gen st1 = gen"
      "im_fleet st1 = im_fleet st"
      "set (mg_merged m) = set (mg_merged (startMerge plan st))
         \<union> (\<Union>(u, r) \<in> set (zip (ip_urls plan) rs). set (contribution env u r (snd net) (im_db st)))"
    using mergeAll_current [OF assms(1), of "zip (ip_urls plan) rs" env plan "snd net" "startMerge plan st"] by blast
  have A: "applyImport env gen plan m st1 net = (st', net')" using assms(1,4) M(1) by (simp add: finishRun_def)
  have "set (mg_merged m) = D" using M(4) assms(5) by (simp add: startMerge_def)
  moreover from this have "mg_merged m \<noteq> []" using assms(6) by auto
  ultimately show "bl_exact (fl_blocklist (im_fleet st')) = \<Union> (entryExact ` D)" using applyImport_spec(5) [OF M(2) A] by simp
  show "sourceConfig st' = sourceConfig st" using applyImport_spec(2) [OF M(2) A] M(3) by (simp add: sourceConfig_def)
qed

text \<open>
  A domain blocked by hand while an import downloads is blocked at once, and unblocked again by that very import: the
  hand-added domains were copied before the downloads. It stays listed as hand-added and is not in the merged list.
\<close>

theorem manual_add_lost:
  assumes "im_gen st = gen" and "planImport env gen st net0 = (st, net0, Some plan)"
    and "distinct (ip_urls plan)" and "length rs = length (ip_urls plan)"
    and "canonical d" and "d \<notin> \<Union> (entryExact ` gathered env st rs (snd net))" and "gathered env st rs (snd net) \<noteq> {}"
    and "finishRun env gen plan rs (AddManual d st) net = (st', net')"
  shows "d \<in> bl_exact (fl_blocklist (im_fleet (AddManual d st)))
    \<and> d \<in> set (fl_manualDomains (im_fleet st')) \<and> d \<notin> bl_exact (fl_blocklist (im_fleet st'))"
proof -
  have d: "normalizeDomain d = d" "d \<noteq> []" using assms(5) by (simp_all add: canonical_def)
  let ?st = "AddManual d st"
  have plan: "ip_manual plan = fl_manualDomains (im_fleet st)" "ip_urls plan = EnabledBlocklistSources (im_fleet st)"
    using assms(2) by (auto simp: planImport_def Let_def split: if_splits prod.splits)
  have add: "im_gen ?st = gen" "im_db ?st = im_db st" "fl_manualDomains (im_fleet ?st) = List.insert d (fl_manualDomains (im_fleet st))"
    "fl_blocklist (im_fleet ?st) = Blocklist_Add d (fl_blocklist (im_fleet st))"
    using assms(1) d by (simp_all add: AddManual_def AddManualDomain_def persistManual_def enqueue_def onFleet_def onList_def Let_def)
  have "set (ip_manual plan) \<union> (\<Union>(u, r) \<in> set (zip (ip_urls plan) rs). set (contribution env u r (snd net) (im_db ?st))) = gathered env st rs (snd net)"
    by (simp add: gathered_def plan add(2))
  note F = finishRun_installed [OF add(1) assms(3,4,8) this assms(7)]
  have "fl_manualDomains (im_fleet st') = fl_manualDomains (im_fleet ?st)" using F(2) by (simp add: sourceConfig_def)
  then have "d \<in> set (fl_manualDomains (im_fleet st'))" using add(3) by simp
  moreover have "d \<in> bl_exact (fl_blocklist (im_fleet ?st))" using d unfolding add(4) by (simp add: Blocklist_Add_def Let_def)
  ultimately show ?thesis using F(1) assms(6) by simp
qed

text \<open>
  With every source disabled and automatic updates on, an import is due again at the very next tick, and at every
  later one: starting an import forgets when the last one was, and this kind of import never records a time. Each run rebuilds the
  list and sends it to all instances, every minute instead of every so many hours.
\<close>

theorem auto_update_storm:
  assumes "fl_blocklistSources (im_fleet st) \<noteq> []" and "EnabledBlocklistSources (im_fleet st) = []" and "0 < fl_autoUpdateHours (im_fleet st)"
    and "runBlocklistImport env (im_gen st + 1) (startBlocklistImport st) net = (st', net')"
  shows "autoDue now st' \<and> fl_blocklistSources (im_fleet st') \<noteq> [] \<and> EnabledBlocklistSources (im_fleet st') = []
    \<and> 0 < fl_autoUpdateHours (im_fleet st') \<and> (\<exists>f1. net' = fst (snd (pushBlocklist (ie_fleet env) f1 net)))"
proof -
  let ?st = "startBlocklistImport st"
  let ?st1 = "persistBlocklist (onFleet (onList (Blocklist_FromDomainsMap (fl_manualDomains (im_fleet st)))) ?st)"
  have s: "im_fleet ?st = im_fleet st" "bt_LastUpdate (im_status ?st) = None" by (simp_all add: startBlocklistImport_def newStatus_def)
  obtain st2 net2 rs where d: "distribute env ?st1 net = (st2, net2, rs)" using prod_cases3 by blast
  note df = distribute_fields [OF d]
  have st': "st' = finishImport env (im_gen st + 1) False (snd net2) st2" "net' = net2"
    using assms(1,2,4) d by (auto simp: runBlocklistImport_def planImport_def s Let_def)
  have "net2 = fst (snd (pushBlocklist (ie_fleet env) (im_fleet ?st1) net))" using d by (auto simp: distribute_def split: prod.splits)
  moreover have "EnabledBlocklistSources (im_fleet st') = EnabledBlocklistSources (im_fleet st)"
    using st' df by (simp add: EnabledBlocklistSources_def s)
  ultimately show ?thesis using assms(1-3) st' df s by (auto simp: autoDue_def)
qed

subsection \<open>Examples\<close>

definition sampleImport :: "nat import_env" where
  "sampleImport =
     \<lparr>ie_fleet = sampleFleetEnv, ie_parseURL = (\<lambda>u. Some \<lparr>u_Scheme = ''https'', u_Host = ''lists.example.org'', u_Hostname = ''lists.example.org''\<rparr>),
      ie_do = (\<lambda>w rq. if w = 0 then Inr \<lparr>rs_StatusCode = 200, rs_ETag = ''v1'', rs_LastModified = [], rs_Body = ''ads.example.net''\<rparr>
                      else Inl ''timeout''),
      ie_ctxErr = (\<lambda>_ _. None), ie_after = (\<lambda>_ w. w + 1), ie_dbOK = (\<lambda>_ _. True)\<rparr>"

definition sampleURL :: string where "sampleURL = ''https://lists.example.org/ads''"

definition sampleImporter :: Importer where
  "sampleImporter =
     \<lparr>im_fleet = SetBlocklistSourcesDefault [sampleURL] (NewFleet [] Missing), im_db = Some emptyStore, im_gen = 1,
      im_running = True, im_status = newStatus 1, im_sourceStats = [], im_jobs = []\<rparr>"

definition sampleNet :: "nat net" where "sampleNet = (\<lambda>_. sampleControl, 0)"

definition sampleFetch :: "blSourceResult list \<times> nat" where
  "sampleFetch = fetchAll sampleImport (prevMeta sampleImport (snd sampleNet) sampleImporter) (EnabledBlocklistSources (im_fleet sampleImporter)) (snd sampleNet)"

definition sampleImported :: "Importer \<times> nat net" where
  "sampleImported = runBlocklistImport sampleImport 1 sampleImporter sampleNet"

lemma sampleFetch_eval:
  "EnabledBlocklistSources (im_fleet sampleImporter) = [sampleURL]" "distinct (EnabledBlocklistSources (im_fleet sampleImporter))"
  "im_gen sampleImporter = 1" "fl_manualDomains (im_fleet sampleImporter) = []" "im_db sampleImporter = Some emptyStore"
  by code_simp+

lemma sampleFetch_result: "sampleFetch = ([(Fetched [''ads.example.net''], \<lparr>v_ETag = ''v1'', v_LastModified = []\<rparr>)], 1)"
proof -
  have v: "validateSourceURL (ie_parseURL sampleImport) sampleURL = None" by code_simp
  have t: "take maxSourceBytes ''ads.example.net'' = ''ads.example.net''" by (simp add: maxSourceBytes_def)
  have s: "scanSource (ie_parseURL sampleImport) (ie_ctxErr sampleImport 0) 0 (scanLines ''ads.example.net'') [] = Inr [''ads.example.net'']" by code_simp
  have p: "prevMeta sampleImport 0 sampleImporter = []" by code_simp
  show ?thesis
    using v t s unfolding sampleFetch_def sampleFetch_eval(1) sampleNet_def snd_conv p
    by (simp add: fetchOne_def FetchSource_def storedValidators_def sampleImport_def Let_def)
qed

lemma sample_gathered: "gathered sampleImport sampleImporter (fst sampleFetch) (snd sampleFetch) = {''ads.example.net''}"
  by (simp add: gathered_def sampleFetch_eval sampleFetch_result contribution_def)

theorem import_installs_witness:
  "\<not> im_running (fst sampleImported)
   \<and> bl_exact (fl_blocklist (im_fleet (fst sampleImported))) = \<Union> (entryExact ` {''ads.example.net''})"
  using import_installs [of sampleImporter 1 sampleImport sampleNet "fst sampleFetch" "snd sampleFetch" "fst sampleImported" "snd sampleImported"]
    sample_gathered sampleFetch_eval(1-3)
  by (simp add: sampleFetch_def sampleImported_def)



definition samplePlan :: ImportPlan where
  "samplePlan = \<lparr>ip_all = [sampleURL], ip_urls = [sampleURL], ip_prev = [], ip_manual = []\<rparr>"

theorem manual_add_lost_witness:
  "''late.example.com'' \<in> bl_exact (fl_blocklist (im_fleet (AddManual ''late.example.com'' sampleImporter)))
   \<and> ''late.example.com'' \<notin> bl_exact (fl_blocklist (im_fleet
        (fst (finishRun sampleImport 1 samplePlan (fst sampleFetch) (AddManual ''late.example.com'' sampleImporter) (fst sampleNet, 1)))))"
proof -
  have p: "planImport sampleImport 1 sampleImporter sampleNet = (sampleImporter, sampleNet, Some samplePlan)"
  proof -
    have "fl_blocklistSources (im_fleet sampleImporter) = [sampleURL]" "prevMeta sampleImport 0 sampleImporter = []" by code_simp+
    then show ?thesis using sampleFetch_eval by (simp add: planImport_def samplePlan_def sampleNet_def Let_def)
  qed
  have c: "canonical ''late.example.com''" by code_simp
  have n: "''late.example.com'' \<notin> \<Union> (entryExact ` {''ads.example.net''})" by code_simp
  have g: "gathered sampleImport sampleImporter (fst sampleFetch) 1 = {''ads.example.net''}" using sample_gathered by (simp add: sampleFetch_result)
  let ?R = "finishRun sampleImport 1 samplePlan (fst sampleFetch) (AddManual ''late.example.com'' sampleImporter) (fst sampleNet, 1)"
  show ?thesis
    using manual_add_lost [OF sampleFetch_eval(3) p, of "fst sampleFetch" "''late.example.com''" "(fst sampleNet, 1)" "fst ?R" "snd ?R"] c n g
    by (simp add: samplePlan_def sampleFetch_result)
qed

theorem auto_update_storm_witness:
  "autoDue 99 (fst (runBlocklistImport sampleImport 2 (startBlocklistImport
     (onFleet (\<lambda>f. f\<lparr>fl_blocklistDisabled := [sampleURL], fl_autoUpdateHours := 24\<rparr>) sampleImporter)) sampleNet))"
proof -
  let ?st = "onFleet (\<lambda>f. f\<lparr>fl_blocklistDisabled := [sampleURL], fl_autoUpdateHours := 24\<rparr>) sampleImporter"
  have "fl_blocklistSources (im_fleet ?st) \<noteq> []" "EnabledBlocklistSources (im_fleet ?st) = []" "0 < fl_autoUpdateHours (im_fleet ?st)" "im_gen ?st + 1 = 2"
    by code_simp+
  then show ?thesis
    using auto_update_storm [of ?st sampleImport sampleNet "fst (runBlocklistImport sampleImport 2 (startBlocklistImport ?st) sampleNet)"
        "snd (runBlocklistImport sampleImport 2 (startBlocklistImport ?st) sampleNet)" 99] by simp
qed

end
