(* ===== verification/Blip_HA.thy ===== *)
theory Blip_HA
  imports Blip_Control
begin

text \<open>
  The keepalived manager of an instance (\<open>src/internal/ha/manager.go\<close>), the implementation behind
  the \<open>HAController\<close> interface of the management API: validation of a node's VRRP settings, the
  generated configuration text, the persisted settings, and the commands it runs.

  The host is a record: the files by path, the interfaces with their addresses, and what the
  commands it may run would answer. Its answers may change between operations. The JSON state
  file is represented by the value it decodes to. Paths are clean, so \<open>filepath.Dir\<close> cuts at the
  last slash.
\<close>

subsection \<open>State\<close>

record Host =
  h_state :: "string \<Rightarrow> HAConfig option"  \<comment> \<open>state files that decode\<close>
  h_conf :: "string \<Rightarrow> string option"  \<comment> \<open>keepalived configurations\<close>
  h_io :: "string \<Rightarrow> string option"  \<comment> \<open>why a file at this path cannot be replaced\<close>
  h_chmod :: "string \<Rightarrow> string option"
  h_tmp :: string  \<comment> \<open>the next temporary file name\<close>
  h_iface :: "string \<Rightarrow> (string, IP list) result option"  \<comment> \<open>\<open>None\<close>: no such interface\<close>
  h_hostAddrs :: "IP list"
  h_installed :: bool
  h_check :: "string \<Rightarrow> (string \<times> string) option"  \<comment> \<open>keepalived's verdict on a text: output and error\<close>
  h_run :: "string list \<Rightarrow> (string \<times> string) option"  \<comment> \<open>output and error of a failing command\<close>
  h_ran :: "string list list"  \<comment> \<open>the commands run so far\<close>
  h_certRefreshes :: nat

record Manager =
  m_cfg :: HAConfig
  m_path :: string
  m_statePath :: string
  m_lastError :: string
  m_updating :: "bool option"  \<comment> \<open>\<open>None\<close>: no update controller\<close>
  m_certRefresher :: bool

definition noHAConfig :: HAConfig where
  "noHAConfig = \<lparr>hc_Enabled = False, hc_Mode = [], hc_NodeRole = [], hc_Interface = [], hc_SourceIP = [], hc_PeerIP = [],
     hc_VirtualIP = [], hc_VirtualRouterID = 0, hc_Priority = 0, hc_AdvertIntervalSec = 0, hc_AuthPass = []\<rparr>"

definition defaultConfigPath :: string where
  "defaultConfigPath = ''/var/lib/blipd/keepalived.conf''"

definition defaultStatePath :: string where
  "defaultStatePath = ''/var/lib/blipd/ha.json''"

subsection \<open>Validation\<close>

definition isAlnum :: "char \<Rightarrow> bool" where
  "isAlnum c \<longleftrightarrow> isDigit c \<or> (let n = (of_char c :: nat) in 65 \<le> n \<and> n \<le> 90 \<or> 97 \<le> n \<and> n \<le> 122)"

definition interfacePattern :: "string \<Rightarrow> bool" where
  "interfacePattern s \<longleftrightarrow> s \<noteq> [] \<and> length s \<le> 32 \<and> list_all (\<lambda>c. isAlnum c \<or> c \<in> set ''_.:-'') s"

definition rolePattern :: "string \<Rightarrow> bool" where
  "rolePattern s \<longleftrightarrow> s = ''primary'' \<or> s = ''secondary''"

definition authPassPattern :: "string \<Rightarrow> bool" where
  "authPassPattern s \<longleftrightarrow> s \<noteq> [] \<and> length s \<le> 8 \<and> list_all isAlnum s"

definition interfaceHasIP :: "Host \<Rightarrow> string \<Rightarrow> IP \<Rightarrow> string option" where
  "interfaceHasIP h name want =
     (case h_iface h name of
        None \<Rightarrow> Some (''network interface \"'' @ name @ ''\" was not found'')
      | Some (Inl e) \<Rightarrow> Some (''read addresses for interface \"'' @ name @ ''\": '' @ e)
      | Some (Inr addrs) \<Rightarrow>
          if list_ex (\<lambda>ip. ip \<noteq> [] \<and> IP_Equal ip want) addrs then None
          else Some (''source_ip '' @ IP_String want @ '' is not assigned to interface \"'' @ name @ ''\"''))"

definition sameFamily :: "IP \<Rightarrow> IP \<Rightarrow> bool" where
  "sameFamily a b \<longleftrightarrow> (To4 a \<noteq> []) = (To4 b \<noteq> [])"

definition validatePeer :: "HAConfig \<Rightarrow> IP \<Rightarrow> IPNet \<Rightarrow> IP \<Rightarrow> string option" where
  "validatePeer cfg vip network source =
     (if hc_Mode cfg \<noteq> ''unicast'' then None
      else
        let peer = ParseIP (hc_PeerIP cfg) in
        if peer = [] \<or> \<not> sameFamily peer vip then Some ''peer_ip and virtual_ip must use the same address family''
        else if \<not> IPNet_Contains network peer then Some ''peer_ip must be on the virtual IP network''
        else if IP_Equal peer source then Some ''peer_ip must differ from source_ip''
        else None)"

definition validateRanges :: "HAConfig \<Rightarrow> string option" where
  "validateRanges cfg =
     (if hc_VirtualRouterID cfg < 1 \<or> 255 < hc_VirtualRouterID cfg then Some ''virtual_router_id must be between 1 and 255''
      else if hc_Priority cfg < 1 \<or> 254 < hc_Priority cfg then Some ''priority must be between 1 and 254''
      else if hc_AdvertIntervalSec cfg < 1 \<or> 60 < hc_AdvertIntervalSec cfg then Some ''advert_interval_sec must be between 1 and 60''
      else None)"

definition validate :: "Host \<Rightarrow> HAConfig \<Rightarrow> string option" where
  "validate h cfg =
     (if \<not> hc_Enabled cfg then None
      else if hc_Mode cfg \<noteq> ''unicast'' \<and> hc_Mode cfg \<noteq> ''multicast'' then Some ''mode must be unicast or multicast''
      else if \<not> rolePattern (hc_NodeRole cfg) then Some ''node_role must be primary or secondary''
      else if \<not> interfacePattern (hc_Interface cfg) then Some ''invalid network interface''
      else if hc_AuthPass cfg \<noteq> [] \<and> \<not> authPassPattern (hc_AuthPass cfg) then Some ''auth_pass must be 1-8 letters or numbers''
      else if ParseIP (hc_SourceIP cfg) = [] then Some ''source_ip must be an IP address''
      else if hc_Mode cfg = ''unicast'' \<and> ParseIP (hc_PeerIP cfg) = [] then Some ''peer_ip must be an IP address in unicast mode''
      else case ParseCIDR (hc_VirtualIP cfg) of
             None \<Rightarrow> Some ''virtual_ip must be an IP address with CIDR prefix''
           | Some (vip, network) \<Rightarrow>
               let source = ParseIP (hc_SourceIP cfg) in
               if \<not> sameFamily source vip then Some ''source_ip and virtual_ip must use the same address family''
               else if \<not> IPNet_Contains network source then Some ''source_ip must be on the virtual IP network''
               else case validatePeer cfg vip network source of
                      Some e \<Rightarrow> Some e
                    | None \<Rightarrow>
                        (case interfaceHasIP h (hc_Interface cfg) source of
                           Some e \<Rightarrow> Some e
                         | None \<Rightarrow> validateRanges cfg))"

text \<open>What can be checked before the interface is up: syntax and ranges.\<close>

definition validateStoredConfig :: "HAConfig \<Rightarrow> string option" where
  "validateStoredConfig cfg =
     (if \<not> hc_Enabled cfg then None
      else if hc_Mode cfg \<noteq> ''unicast'' \<and> hc_Mode cfg \<noteq> ''multicast'' then Some ''invalid mode''
      else if \<not> rolePattern (hc_NodeRole cfg) \<or> \<not> interfacePattern (hc_Interface cfg) then Some ''invalid node role or interface''
      else if ParseIP (hc_SourceIP cfg) = [] then Some ''invalid source address''
      else if ParseCIDR (hc_VirtualIP cfg) = None then Some ''invalid virtual address''
      else if hc_Mode cfg = ''unicast'' \<and> ParseIP (hc_PeerIP cfg) = [] then Some ''invalid peer''
      else if hc_VirtualRouterID cfg < 1 \<or> 255 < hc_VirtualRouterID cfg \<or> hc_Priority cfg < 1 \<or> 254 < hc_Priority cfg
        \<or> hc_AdvertIntervalSec cfg < 1 \<or> 60 < hc_AdvertIntervalSec cfg then Some ''invalid VRRP range''
      else if hc_AuthPass cfg \<noteq> [] \<and> \<not> authPassPattern (hc_AuthPass cfg) then Some ''invalid auth pass''
      else None)"

subsection \<open>The generated configuration\<close>

definition newline :: char where
  "newline = CHR 0x0A"

definition line :: "string \<Rightarrow> string" where
  "line s = s @ [newline]"

definition renderUnicast :: "HAConfig \<Rightarrow> string" where
  "renderUnicast cfg =
     (if hc_Mode cfg \<noteq> ''unicast'' then []
      else line (''    unicast_src_ip '' @ hc_SourceIP cfg) @ line ''    unicast_peer {''
        @ line (''        '' @ hc_PeerIP cfg) @ line ''    }'')"

definition renderAuth :: "HAConfig \<Rightarrow> string" where
  "renderAuth cfg =
     (if hc_AuthPass cfg = [] then []
      else line ''    authentication {'' @ line ''        auth_type PASS'' @ line (''        auth_pass '' @ hc_AuthPass cfg) @ line ''    }'')"

definition render :: "HAConfig \<Rightarrow> string" where
  "render cfg =
     (let state = (if hc_NodeRole cfg = ''primary'' then ''MASTER'' else ''BACKUP'') in
      line ''global_defs {'' @ line ''    router_id blipd-ha'' @ line ''    enable_script_security'' @ line ''}'' @ line []
      @ line ''vrrp_script chk_blipd {'' @ line ''    script \"/usr/bin/systemctl is-active --quiet blipd\"'' @ line ''    user blip''
      @ line ''    interval 2'' @ line ''    fall 2'' @ line ''    rise 2'' @ line ''    weight -20'' @ line ''}'' @ line []
      @ line ''vrrp_instance BLIPDNS {'' @ line (''    state '' @ state) @ line (''    interface '' @ hc_Interface cfg)
      @ line (''    virtual_router_id '' @ Itoa (hc_VirtualRouterID cfg)) @ line (''    priority '' @ Itoa (hc_Priority cfg))
      @ line (''    advert_int '' @ Itoa (hc_AdvertIntervalSec cfg))
      @ renderUnicast cfg @ renderAuth cfg
      @ line ''    virtual_ipaddress {'' @ line (''        '' @ hc_VirtualIP cfg @ '' dev '' @ hc_Interface cfg) @ line ''    }''
      @ line ''    track_script {'' @ line ''        chk_blipd'' @ line ''    }'' @ line ''}'')"

subsection \<open>Commands and files\<close>

definition runCommand :: "string list \<Rightarrow> (string \<times> string) option \<Rightarrow> Host \<Rightarrow> Host \<times> string option" where
  "runCommand argv answer h =
     (h\<lparr>h_ran := h_ran h @ [argv]\<rparr>,
      case answer of
        None \<Rightarrow> None
      | Some (out, e) \<Rightarrow>
          let msg = TrimSpace out
          in Some (if msg \<noteq> [] then hd argv @ '': '' @ msg @ '': '' @ e else hd argv @ '': '' @ e))"

definition commandSucceeds :: "string list \<Rightarrow> Host \<Rightarrow> Host \<times> bool" where
  "commandSucceeds argv h = (h\<lparr>h_ran := h_ran h @ [argv]\<rparr>, h_run h argv = None)"

definition hostOwnsIP :: "IP \<Rightarrow> Host \<Rightarrow> bool" where
  "hostOwnsIP ip h = list_ex (\<lambda>candidate. candidate \<noteq> [] \<and> IP_Equal candidate ip) (h_hostAddrs h)"

text \<open>The first command that succeeds ends the search.\<close>

fun firstSuccess :: "string list list \<Rightarrow> Host \<Rightarrow> Host \<times> bool" where
  "firstSuccess [] h = (h, False)"
| "firstSuccess (argv # rest) h =
     (case commandSucceeds argv h of (h1, True) \<Rightarrow> (h1, True) | (h1, False) \<Rightarrow> firstSuccess rest h1)"

definition reloadCmds :: "string list list" where
  "reloadCmds = [[''/usr/bin/sudo'', ''-n'', ''/usr/bin/systemctl'', ''reload'', ''keepalived''],
                 [''sudo'', ''-n'', ''systemctl'', ''reload'', ''keepalived'']]"

definition hupCmds :: "string list list" where
  "hupCmds = [[''/usr/bin/sudo'', ''-n'', ''/usr/bin/pkill'', ''-HUP'', ''keepalived''],
              [''sudo'', ''-n'', ''pkill'', ''-HUP'', ''keepalived'']]"

definition plainHup :: "string list" where
  "plainHup = [''pkill'', ''-HUP'', ''keepalived'']"

definition validateRendered :: "Manager \<Rightarrow> HAConfig \<Rightarrow> Host \<Rightarrow> Host \<times> string option" where
  "validateRendered m cfg h =
     (case h_io h (m_path m) of
        Some e \<Rightarrow> (h, Some e)
      | None \<Rightarrow>
          (case runCommand [''keepalived'', ''-t'', ''-f'', h_tmp h] (h_check h (render cfg)) h of
             (h1, None) \<Rightarrow> (h1, None)
           | (h1, Some e) \<Rightarrow> (h1, Some (''keepalived configuration validation failed: '' @ e))))"

definition persistState :: "Manager \<Rightarrow> HAConfig \<Rightarrow> Host \<Rightarrow> Host \<times> string option" where
  "persistState m cfg h =
     (if m_statePath m = [] then (h, None)
      else case h_io h (m_statePath m) of
             Some e \<Rightarrow> (h, Some e)
           | None \<Rightarrow> (h\<lparr>h_state := (h_state h)(m_statePath m \<mapsto> cfg)\<rparr>, None))"

definition loadState :: "Host \<Rightarrow> Manager \<Rightarrow> Manager" where
  "loadState h m =
     (if m_statePath m = [] then m
      else case h_state h (m_statePath m) of
             None \<Rightarrow> m
           | Some cfg \<Rightarrow> if validateStoredConfig cfg \<noteq> None then m else m\<lparr>m_cfg := cfg\<rparr>)"

subsection \<open>Operations\<close>

definition fpDir :: "string \<Rightarrow> string" where
  "fpDir p = (case LastIndexByte p (CHR ''/'') of None \<Rightarrow> ''.'' | Some i \<Rightarrow> if i = 0 then ''/'' else take i p)"

definition NewManagerWithState :: "string \<Rightarrow> string \<Rightarrow> Host \<Rightarrow> Manager" where
  "NewManagerWithState path0 adoptionStatePath h =
     (let path = (if path0 = [] then defaultConfigPath else path0);
          statePath = (if adoptionStatePath \<noteq> []
                         then (let d = fpDir adoptionStatePath in if d = ''/'' then ''/ha.json'' else if d = ''.'' then ''ha.json'' else d @ ''/ha.json'')
                       else if path \<noteq> defaultConfigPath then path @ ''.state''
                       else defaultStatePath)
      in loadState h \<lparr>m_cfg = noHAConfig, m_path = path, m_statePath = statePath, m_lastError = [], m_updating = None,
           m_certRefresher = False\<rparr>)"

definition NewManager :: "string \<Rightarrow> Host \<Rightarrow> Manager" where
  "NewManager path = NewManagerWithState path []"

type_synonym ha_world = "Manager \<times> Host"

definition SetHAConfig :: "HAConfig \<Rightarrow> ha_world \<Rightarrow> ha_world \<times> string option" where
  "SetHAConfig cfg w =
     (case w of (m, h) \<Rightarrow>
      case validate h cfg of
        Some e \<Rightarrow> (w, Some e)
      | None \<Rightarrow>
          (case persistState m cfg h of
             (h1, Some e) \<Rightarrow> ((m, h1), Some (''save high availability configuration: '' @ e))
           | (h1, None) \<Rightarrow>
               ((m\<lparr>m_cfg := cfg, m_lastError := []\<rparr>,
                 if m_certRefresher m then h1\<lparr>h_certRefreshes := h_certRefreshes h1 + 1\<rparr> else h1), None)))"

definition SetCertRefresher :: "bool \<Rightarrow> ha_world \<Rightarrow> ha_world" where
  "SetCertRefresher b w = (case w of (m, h) \<Rightarrow> (m\<lparr>m_certRefresher := b\<rparr>, h))"

definition SetUpdateController :: "bool \<Rightarrow> ha_world \<Rightarrow> ha_world" where
  "SetUpdateController running w = (case w of (m, h) \<Rightarrow> (m\<lparr>m_updating := Some running\<rparr>, h))"

definition isUpdating :: "Manager \<Rightarrow> bool" where
  "isUpdating m = (case m_updating m of None \<Rightarrow> False | Some b \<Rightarrow> b)"

definition VirtualIP :: "Manager \<Rightarrow> string" where
  "VirtualIP m = (case ParseCIDR (hc_VirtualIP (m_cfg m)) of None \<Rightarrow> [] | Some (ip, _) \<Rightarrow> IP_String ip)"

definition isActiveCmd :: "string list" where
  "isActiveCmd = [''systemctl'', ''is-active'', ''--quiet'', ''keepalived'']"

definition Manager_HAStatus :: "ha_world \<Rightarrow> ha_world \<times> HAStatus" where
  "Manager_HAStatus w =
     (case w of (m, h) \<Rightarrow>
      let cfg = m_cfg m; configured = (h_conf h (m_path m) \<noteq> None); installed = h_installed h in
      case (if installed then commandSucceeds isActiveCmd h else (h, False)) of (h1, active) \<Rightarrow>
      let vipOwned = (case ParseCIDR (hc_VirtualIP cfg) of None \<Rightarrow> False | Some (ip, _) \<Rightarrow> hostOwnsIP ip h);
          state = (if active then (if vipOwned then ''MASTER'' else ''BACKUP'') else if hc_Enabled cfg then ''FAULT'' else ''DISABLED'');
          msg = (if hc_Enabled cfg \<and> \<not> installed then ''keepalived is not installed''
                 else if hc_Enabled cfg \<and> \<not> configured then ''keepalived configuration has not been applied'' else [])
      in ((m, h1), \<lparr>hs_Installed = installed, hs_Configured = configured, hs_Active = active, hs_VIPOwned = vipOwned, hs_State = state,
            hs_Message = msg, hs_LastError = m_lastError m, hs_Updating = isUpdating m\<rparr>))"

definition ValidateHA :: "ha_world \<Rightarrow> ha_world \<times> string option" where
  "ValidateHA w =
     (case w of (m, h) \<Rightarrow>
      case validate h (m_cfg m) of
        Some e \<Rightarrow> (w, Some e)
      | None \<Rightarrow>
          if \<not> hc_Enabled (m_cfg m) then (w, None)
          else if \<not> h_installed h then (w, Some ''keepalived is not installed; install it first'')
          else (case validateRendered m (m_cfg m) h of (h1, e) \<Rightarrow> ((m, h1), e)))"

definition notThroughAPI :: string where
  "notThroughAPI = ''disabling keepalived is intentionally not performed through the API; stop it with the host service manager''"

definition recordError :: "string \<Rightarrow> Manager \<Rightarrow> Manager" where
  "recordError e m = m\<lparr>m_lastError := e\<rparr>"

definition clearError :: "Manager \<Rightarrow> Manager" where
  "clearError m = m\<lparr>m_lastError := []\<rparr>"

text \<open>Make keepalived read the new file: reload it, else signal it, else signal it without \<open>sudo\<close>.\<close>

definition reloadKeepalived :: "ha_world \<Rightarrow> ha_world \<times> string option" where
  "reloadKeepalived w =
     (case w of (m, h) \<Rightarrow>
      case firstSuccess reloadCmds h of
        (h1, True) \<Rightarrow> ((clearError m, h1), None)
      | (h1, False) \<Rightarrow>
          (case firstSuccess hupCmds h1 of
             (h2, True) \<Rightarrow> ((clearError m, h2), None)
           | (h2, False) \<Rightarrow>
               (case runCommand plainHup (h_run h2 plainHup) h2 of
                  (h3, Some e) \<Rightarrow> ((recordError e m, h3), Some e)
                | (h3, None) \<Rightarrow> ((clearError m, h3), None))))"

definition ApplyHA :: "ha_world \<Rightarrow> ha_world \<times> string option" where
  "ApplyHA w =
     (case w of (m, h) \<Rightarrow>
      let cfg = m_cfg m in
      case validate h cfg of
        Some e \<Rightarrow> (w, Some e)
      | None \<Rightarrow>
          if \<not> hc_Enabled cfg then (w, Some notThroughAPI)
          else if \<not> h_installed h then (w, Some ''keepalived is not installed; install it first'')
          else case validateRendered m cfg h of
                 (h1, Some e) \<Rightarrow> ((recordError e m, h1), Some e)
               | (h1, None) \<Rightarrow>
                   (case h_io h1 (m_path m) of
                      Some e \<Rightarrow> ((m, h1), Some e)
                    | None \<Rightarrow>
                        let h2 = h1\<lparr>h_conf := (h_conf h1)(m_path m \<mapsto> render cfg)\<rparr> in
                        (case h_chmod h2 (m_path m) of
                           Some e \<Rightarrow> ((m, h2), Some e)
                         | None \<Rightarrow> reloadKeepalived (m, h2))))"

definition DisableHA :: "ha_world \<Rightarrow> ha_world \<times> string option" where
  "DisableHA w = (w, Some notThroughAPI)"

text \<open>The manager as the interface the management API calls.\<close>

definition managerController :: "ha_world HAController" where
  "managerController = \<lparr>ha_Set = SetHAConfig, ha_Status = Manager_HAStatus, ha_Validate = ValidateHA, ha_Apply = ApplyHA,
     ha_Disable = DisableHA\<rparr>"

subsection \<open>Address texts are single words\<close>

definition addrChar :: "char \<Rightarrow> bool" where
  "addrChar c \<longleftrightarrow> isHex c \<or> c = CHR ''.'' \<or> c = CHR '':''"

text \<open>What may be written into the configuration: a nonempty run of these bytes is one word of one line.\<close>

definition wordChar :: "char \<Rightarrow> bool" where
  "wordChar c \<longleftrightarrow> isAlnum c \<or> c \<in> set ''_.:-/''"

definition isWord :: "string \<Rightarrow> bool" where
  "isWord s \<longleftrightarrow> s \<noteq> [] \<and> list_all wordChar s"

lemma digit_hex: "isDigit c \<Longrightarrow> isHex c"
  by (simp add: isDigit_def isHex_def hexVal_def Let_def)

lemma addrChar_word: "addrChar c \<Longrightarrow> wordChar c"
  by (auto simp: addrChar_def wordChar_def isAlnum_def isHex_def hexVal_def isDigit_def Let_def split: if_splits)

lemma digit_word: "isDigit c \<Longrightarrow> wordChar c"
  by (simp add: wordChar_def isAlnum_def)

lemma wordChar_no_space:
  assumes "wordChar c"
  shows "c \<notin> set asciiSpaces"
proof -
  have "\<not> wordChar (char_of n)" if "n \<in> {9, 10, 11, 12, 13, 32}" for n :: nat
    using that by (auto simp: wordChar_def isAlnum_def isDigit_def Let_def char_of_def)
  then show ?thesis using assms unfolding asciiSpaces_def by force
qed

lemma parseIPv4Fields_chars: "parseIPv4Fields s pd v n fs = Some r \<Longrightarrow> \<forall>c \<in> set s. addrChar c"
proof (induction s arbitrary: pd v n fs)
  case (Cons c cs)
  then show ?case
    by (auto simp: Let_def addrChar_def digit_hex split: if_splits)
qed simp

lemma finishIPv6_rest: "finishIPv6 s ip ell = Some r \<Longrightarrow> s = []"
  by (simp add: finishIPv6_def split: if_splits)

lemma parseIPv6Groups_chars: "parseIPv6Groups s ip ell = Some r \<Longrightarrow> \<forall>c \<in> set s. addrChar c"
proof (induction s ip ell rule: parseIPv6Groups.induct)
  case (1 s ip ell)
  let ?ds = "takeWhile isHex s" and ?rest = "dropWhile isHex s"
  let ?ip = "ip @ [of_nat (hexGroup ?ds div 256), of_nat (hexGroup ?ds)]"
  have ds: "\<forall>c \<in> set ?ds. addrChar c" by (auto simp: addrChar_def dest: set_takeWhileD)
  have split: "set s = set ?ds \<union> set ?rest" by (metis set_append takeWhile_dropWhile_id)
  note p = 1(3) [unfolded parseIPv6Groups.simps [of s ip ell] Let_def]
  consider "16 \<le> length ip" | "length ip < 16" "?rest \<noteq> [] \<and> hd ?rest = CHR ''.''" | "length ip < 16" "?rest = []"
    | x xs where "length ip < 16" "?rest = x # xs" "x \<noteq> CHR ''.''"
    by (cases "16 \<le> length ip"; cases ?rest; force)
  then show ?case
  proof cases
    case 1
    then show ?thesis using p finishIPv6_rest by fastforce
  next
    case 2
    then show ?thesis using p by (auto simp: parseIPv4_def dest!: parseIPv4Fields_chars split: if_splits option.splits)
  next
    case 3
    then show ?thesis by (auto simp: addrChar_def)
  next
    case (4 x xs)
    then have ok: "\<not> (?ds = [] \<or> 4 < length ?ds)" "x = CHR '':''" "xs \<noteq> []" using p by (auto split: if_splits)
    have xs: "\<forall>c \<in> set xs. addrChar c"
    proof (cases "hd xs = CHR '':''")
      case True
      have e: "ell = None" using p ok 4 True by (auto split: if_splits)
      have "\<forall>c \<in> set (tl xs). addrChar c"
      proof (cases "tl xs = []")
        case False
        have "parseIPv6Groups (tl xs) ?ip (Some (length ?ip)) = Some r" using p ok 4 True False e by (auto split: if_splits)
        then show ?thesis using 1(1) 4 ok True False e by (simp add: not_le)
      qed simp
      then show ?thesis using True ok(3) by (cases xs) (auto simp: addrChar_def)
    next
      case False
      have "parseIPv6Groups xs ?ip ell = Some r" using p ok 4 False by (auto split: if_splits)
      then show ?thesis using 1(2) 4 ok False by (simp add: not_le)
    qed
    then show ?thesis using split ds 4(2) ok(2) by (auto simp: addrChar_def)
  qed
qed

lemma parseAddr_word: "parseAddr s = Some a \<Longrightarrow> isWord s"
proof -
  assume a: "parseAddr s = Some a"
  have "s \<noteq> []" using a by (auto simp: parseAddr_def IndexAny_def)
  moreover have "\<forall>c \<in> set s. addrChar c"
  proof -
    consider "parseIPv4 s = Some a" | "parseIPv6 s = Some a"
      using a by (auto simp: parseAddr_def split: if_splits option.splits)
    then show ?thesis
    proof cases
      case 1
      then show ?thesis using parseIPv4Fields_chars by (simp add: parseIPv4_def)
    next
      case 2
      show ?thesis
      proof (cases "HasPrefix s ''::''")
        case True
        then obtain t where t: "s = ''::'' @ t" by (auto simp: HasPrefix_iff)
        then show ?thesis using 2 True parseIPv6Groups_chars
          by (auto simp: parseIPv6_def addrChar_def split: if_splits)
      next
        case False
        then show ?thesis using 2 parseIPv6Groups_chars by (simp add: parseIPv6_def)
      qed
    qed
  qed
  ultimately show ?thesis using addrChar_word by (auto simp: isWord_def list_all_iff)
qed

lemma ParseIP_word: "ParseIP s \<noteq> [] \<Longrightarrow> isWord s"
  by (auto simp: ParseIP_def parseAddr_word split: option.splits)

lemma ParseCIDR_word: "ParseCIDR s = Some r \<Longrightarrow> isWord s"
proof -
  assume "ParseCIDR s = Some r"
  then obtain i a where i: "IndexByte s (CHR ''/'') = Some i" and a: "parseAddr (take i s) = Some a"
    and m: "list_all isDigit (drop (Suc i) s)"
    by (auto simp: ParseCIDR_def Let_def split: option.splits if_splits)
  have s: "s = take i s @ CHR ''/'' # drop (Suc i) s" using IndexByte_split [OF i] by simp
  have "list_all wordChar (take i s @ CHR ''/'' # drop (Suc i) s)"
    using parseAddr_word [OF a] m digit_word by (auto simp: isWord_def list_all_iff wordChar_def)
  then show "isWord s" using s by (auto simp: isWord_def)
qed

lemma Itoa_word: "0 \<le> n \<Longrightarrow> isWord (Itoa n)"
  using Itoa_nat_digits [of n] digit_word by (auto simp: isWord_def list_all_iff Itoa_def ItoaNat.simps [of "nat n"] split: if_splits)

subsection \<open>The lines and words of the generated file\<close>

text \<open>What keepalived reads: the words of each line, every setting one word.\<close>

definition scriptUnicast :: "HAConfig \<Rightarrow> string list list" where
  "scriptUnicast cfg =
     (if hc_Mode cfg \<noteq> ''unicast'' then []
      else [[''unicast_src_ip'', hc_SourceIP cfg], [''unicast_peer'', ''{''], [hc_PeerIP cfg], [''}'']])"

definition scriptAuth :: "HAConfig \<Rightarrow> string list list" where
  "scriptAuth cfg =
     (if hc_AuthPass cfg = [] then []
      else [[''authentication'', ''{''], [''auth_type'', ''PASS''], [''auth_pass'', hc_AuthPass cfg], [''}'']])"

definition script :: "HAConfig \<Rightarrow> string list list" where
  "script cfg =
     [[''global_defs'', ''{''], [''router_id'', ''blipd-ha''], [''enable_script_security''], [''}''], [],
      [''vrrp_script'', ''chk_blipd'', ''{''], [''script'', ''\"/usr/bin/systemctl'', ''is-active'', ''--quiet'', ''blipd\"''],
      [''user'', ''blip''], [''interval'', ''2''], [''fall'', ''2''], [''rise'', ''2''], [''weight'', ''-20''], [''}''], [],
      [''vrrp_instance'', ''BLIPDNS'', ''{''], [''state'', if hc_NodeRole cfg = ''primary'' then ''MASTER'' else ''BACKUP''],
      [''interface'', hc_Interface cfg], [''virtual_router_id'', Itoa (hc_VirtualRouterID cfg)], [''priority'', Itoa (hc_Priority cfg)],
      [''advert_int'', Itoa (hc_AdvertIntervalSec cfg)]]
     @ scriptUnicast cfg @ scriptAuth cfg
     @ [[''virtual_ipaddress'', ''{''], [hc_VirtualIP cfg, ''dev'', hc_Interface cfg], [''}''],
        [''track_script'', ''{''], [''chk_blipd''], [''}''], [''}''], []]"

definition words :: "string \<Rightarrow> string list list" where
  "words s = map Fields (Split s newline)"

lemma newline_space: "newline \<in> set asciiSpaces"
  by code_simp

lemma words_line: "newline \<notin> set l \<Longrightarrow> words (line l @ t) = Fields l # words t"
  by (simp add: words_def line_def Split_append_sep Split_no_sep_id)

lemma isWord_fields: "isWord w \<Longrightarrow> Fields w = [w]"
  using FieldsFunc_word [of w "\<lambda>c. c \<in> set asciiSpaces" "[]" "[]"] wordChar_no_space
  by (auto simp: Fields_def FieldsFunc_def isWord_def list_all_iff)

lemma FieldsFunc_sep: "P c \<Longrightarrow> FieldsFunc_aux P (s @ c # t) acc = FieldsFunc_aux P (s @ [c]) acc @ FieldsFunc_aux P t []"
  by (induction s arbitrary: acc) auto

lemma Fields_sep: "c \<in> set asciiSpaces \<Longrightarrow> Fields (s @ c # t) = Fields (s @ [c]) @ Fields t"
  unfolding Fields_def FieldsFunc_def by (rule FieldsFunc_sep)

lemma space_space: "CHR '' '' \<in> set asciiSpaces"
  by code_simp

lemma Fields_setting: "isWord w \<Longrightarrow> Fields (s @ CHR '' '' # w) = Fields (s @ '' '') @ [w]"
  using Fields_sep [OF space_space, of s w] isWord_fields [of w] by simp

lemma isWord_newline: "isWord w \<Longrightarrow> newline \<notin> set w"
  using wordChar_no_space newline_space by (auto simp: isWord_def list_all_iff)

lemma asciiSpaces_chars: "asciiSpaces = [CHR 0x09, CHR 0x0A, CHR 0x0B, CHR 0x0C, CHR 0x0D, CHR '' '']"
  by code_simp

text \<open>The words of a fixed text, by evaluation.\<close>

lemmas fixed_words = Fields_def FieldsFunc_def asciiSpaces_chars newline_def

lemma words_nil: "words [] = [[]]"
  by (simp add: words_def Fields_def FieldsFunc_def)

lemma setting_line:
  assumes "isWord w" and "newline \<notin> set s" and "Fields (s @ '' '') = ks"
  shows "words (line (s @ CHR '' '' # w) @ t) = (ks @ [w]) # words t"
  using assms isWord_newline [OF assms(1)] Fields_setting [OF assms(1), of s]
  by (subst words_line) (auto simp: newline_def)

lemma setting_words:
  assumes "isWord w"
  shows "words (line (''    interface '' @ w) @ t) = [''interface'', w] # words t"
    "words (line (''    virtual_router_id '' @ w) @ t) = [''virtual_router_id'', w] # words t"
    "words (line (''    priority '' @ w) @ t) = [''priority'', w] # words t"
    "words (line (''    advert_int '' @ w) @ t) = [''advert_int'', w] # words t"
    "words (line (''    unicast_src_ip '' @ w) @ t) = [''unicast_src_ip'', w] # words t"
    "words (line (''        '' @ w) @ t) = [w] # words t"
    "words (line (''        auth_pass '' @ w) @ t) = [''auth_pass'', w] # words t"
  using setting_line [OF assms, of "''    interface''" "[''interface'']" t]
    setting_line [OF assms, of "''    virtual_router_id''" "[''virtual_router_id'']" t]
    setting_line [OF assms, of "''    priority''" "[''priority'']" t]
    setting_line [OF assms, of "''    advert_int''" "[''advert_int'']" t]
    setting_line [OF assms, of "''    unicast_src_ip''" "[''unicast_src_ip'']" t]
    setting_line [OF assms, of "''       ''" "[]" t]
    setting_line [OF assms, of "''        auth_pass''" "[''auth_pass'']" t]
  by (simp_all add: fixed_words)

lemma address_words:
  assumes "isWord v" and "isWord w"
  shows "words (line (''        '' @ v @ '' dev '' @ w) @ t) = [v, ''dev'', w] # words t"
proof -
  have "Fields (''        '' @ v @ '' dev '') = Fields (''       '' @ '' '') @ Fields (v @ '' dev '')"
    using Fields_sep [OF space_space, of "''       ''" "v @ '' dev ''"] by simp
  also have "Fields (''       '' @ '' '') = []" by (simp add: fixed_words)
  also have "Fields (v @ '' dev '') = Fields (v @ '' '') @ Fields ''dev ''"
    using Fields_sep [OF space_space, of v "''dev ''"] by simp
  also have "Fields (v @ '' '') = [v]"
    using FieldsFunc_word [of v "\<lambda>c. c \<in> set asciiSpaces" "'' ''" "[]"] assms(1) wordChar_no_space space_space
    by (auto simp: Fields_def FieldsFunc_def isWord_def list_all_iff)
  also have "Fields ''dev '' = [''dev'']" by (simp add: fixed_words)
  finally have f: "Fields ((''        '' @ v @ '' dev'') @ '' '') = [v, ''dev'']" by simp
  have n: "newline \<notin> set (''        '' @ v @ '' dev'')" using isWord_newline [OF assms(1)] by (simp add: newline_def)
  show ?thesis using setting_line [OF assms(2) n f, of t] by simp
qed

text \<open>Accepted settings are words, and their ranges make the numbers plain digits.\<close>

lemma stored_words:
  assumes "validateStoredConfig cfg = None" and "hc_Enabled cfg"
  shows "isWord (hc_Interface cfg)" "isWord (hc_SourceIP cfg)" "isWord (hc_VirtualIP cfg)"
    "hc_Mode cfg = ''unicast'' \<Longrightarrow> isWord (hc_PeerIP cfg)" "hc_AuthPass cfg \<noteq> [] \<Longrightarrow> isWord (hc_AuthPass cfg)"
    "isWord (Itoa (hc_VirtualRouterID cfg))" "isWord (Itoa (hc_Priority cfg))" "isWord (Itoa (hc_AdvertIntervalSec cfg))"
proof -
  show "isWord (hc_Interface cfg)"
    using assms by (auto simp: validateStoredConfig_def interfacePattern_def isWord_def wordChar_def list_all_iff split: if_splits)
  show "isWord (hc_SourceIP cfg)" using assms ParseIP_word by (auto simp: validateStoredConfig_def split: if_splits)
  show "isWord (hc_VirtualIP cfg)" using assms ParseCIDR_word by (fastforce simp: validateStoredConfig_def split: if_splits)
  show "isWord (hc_PeerIP cfg)" if "hc_Mode cfg = ''unicast''"
    using assms that ParseIP_word by (auto simp: validateStoredConfig_def split: if_splits)
  show "isWord (hc_AuthPass cfg)" if "hc_AuthPass cfg \<noteq> []"
    using assms that by (auto simp: validateStoredConfig_def authPassPattern_def isWord_def wordChar_def list_all_iff split: if_splits)
  have "1 \<le> hc_VirtualRouterID cfg" "1 \<le> hc_Priority cfg" "1 \<le> hc_AdvertIntervalSec cfg"
    using assms by (auto simp: validateStoredConfig_def split: if_splits)
  then show "isWord (Itoa (hc_VirtualRouterID cfg))" "isWord (Itoa (hc_Priority cfg))" "isWord (Itoa (hc_AdvertIntervalSec cfg))"
    by (simp_all add: Itoa_word)
qed

lemma unicast_words:
  assumes "validateStoredConfig cfg = None" and "hc_Enabled cfg"
  shows "words (renderUnicast cfg @ t) = scriptUnicast cfg @ words t"
  using stored_words [OF assms]
  by (simp add: renderUnicast_def scriptUnicast_def setting_words [simplified] words_line fixed_words)

lemma auth_words:
  assumes "validateStoredConfig cfg = None" and "hc_Enabled cfg"
  shows "words (renderAuth cfg @ t) = scriptAuth cfg @ words t"
  using stored_words [OF assms]
  by (simp add: renderAuth_def scriptAuth_def setting_words [simplified] words_line fixed_words)

lemma head_words:
  "words (line ''global_defs {'' @ line ''    router_id blipd-ha'' @ line ''    enable_script_security'' @ line ''}'' @ line []
      @ line ''vrrp_script chk_blipd {'' @ line ''    script \"/usr/bin/systemctl is-active --quiet blipd\"'' @ line ''    user blip''
      @ line ''    interval 2'' @ line ''    fall 2'' @ line ''    rise 2'' @ line ''    weight -20'' @ line ''}'' @ line []
      @ line ''vrrp_instance BLIPDNS {'' @ t)
   = [[''global_defs'', ''{''], [''router_id'', ''blipd-ha''], [''enable_script_security''], [''}''], [],
      [''vrrp_script'', ''chk_blipd'', ''{''], [''script'', ''\"/usr/bin/systemctl'', ''is-active'', ''--quiet'', ''blipd\"''],
      [''user'', ''blip''], [''interval'', ''2''], [''fall'', ''2''], [''rise'', ''2''], [''weight'', ''-20''], [''}''], [],
      [''vrrp_instance'', ''BLIPDNS'', ''{'']] @ words t"
  by (simp add: words_line fixed_words)

lemma tail_words:
  "words (line ''    virtual_ipaddress {'' @ t) = [''virtual_ipaddress'', ''{''] # words t"
  "words (line ''    }'' @ line ''    track_script {'' @ line ''        chk_blipd'' @ line ''    }'' @ line ''}'')
   = [[''}''], [''track_script'', ''{''], [''chk_blipd''], [''}''], [''}''], []]"
  using words_line [of "''}''" "[]"] by (simp_all add: words_line words_nil fixed_words)

lemma state_words:
  "words (line (''    state '' @ (if b then ''MASTER'' else ''BACKUP'')) @ t) = [''state'', if b then ''MASTER'' else ''BACKUP''] # words t"
  by (simp add: words_line fixed_words)

lemma render_script:
  assumes "validateStoredConfig cfg = None" and "hc_Enabled cfg"
  shows "words (render cfg) = script cfg"
  unfolding render_def Let_def script_def head_words state_words
    setting_words(1) [OF stored_words(1) [OF assms]] setting_words(2) [OF stored_words(6) [OF assms]]
    setting_words(3) [OF stored_words(7) [OF assms]] setting_words(4) [OF stored_words(8) [OF assms]]
    unicast_words [OF assms] auth_words [OF assms] tail_words(1)
    address_words [OF stored_words(3) [OF assms] stored_words(1) [OF assms]] tail_words(2)
  by simp

subsection \<open>What every operation keeps\<close>

lemma validate_stored: "validate h cfg = None \<Longrightarrow> validateStoredConfig cfg = None"
  by (auto simp: validate_def validateStoredConfig_def validateRanges_def Let_def split: if_splits option.splits prod.splits)

text \<open>The commands the manager may run: nothing a caller sends becomes part of one.\<close>

definition haCommand :: "string list \<Rightarrow> bool" where
  "haCommand argv \<longleftrightarrow> argv \<in> set (plainHup # isActiveCmd # reloadCmds @ hupCmds) \<or> (\<exists>tmp. argv = [''keepalived'', ''-t'', ''-f'', tmp])"

text \<open>The commands run are permitted ones, and the file is the old one or generated from accepted settings.\<close>

definition generated :: "string option \<Rightarrow> bool" where
  "generated x \<longleftrightarrow> (\<exists>cfg. x = Some (render cfg) \<and> hc_Enabled cfg \<and> validateStoredConfig cfg = None)"

definition ha_inv :: "Host \<Rightarrow> ha_world \<Rightarrow> bool" where
  "ha_inv h0 w \<longleftrightarrow>
     (case w of (m, h) \<Rightarrow>
        validateStoredConfig (m_cfg m) = None
        \<and> (h_conf h (m_path m) = h_conf h0 (m_path m) \<or> generated (h_conf h (m_path m)))
        \<and> (\<forall>p. p \<noteq> m_path m \<longrightarrow> h_conf h p = h_conf h0 p)
        \<and> (\<exists>cmds. h_ran h = h_ran h0 @ cmds \<and> list_all haCommand cmds))"

lemma run_fields:
  "runCommand argv a h = (h', e) \<Longrightarrow> h' = h\<lparr>h_ran := h_ran h @ [argv]\<rparr>"
  "commandSucceeds argv h = (h', b) \<Longrightarrow> h' = h\<lparr>h_ran := h_ran h @ [argv]\<rparr>"
  by (simp_all add: runCommand_def commandSucceeds_def)

lemma ha_inv_ran: "ha_inv h0 (m, h) \<Longrightarrow> list_all haCommand cmds \<Longrightarrow> ha_inv h0 (m, h\<lparr>h_ran := h_ran h @ cmds\<rparr>)"
  unfolding ha_inv_def by (auto intro: exI [of _ "_ @ cmds"])

lemma ha_inv_manager: "ha_inv h0 (m, h) \<Longrightarrow> m_cfg m' = m_cfg m \<Longrightarrow> m_path m' = m_path m \<Longrightarrow> ha_inv h0 (m', h)"
  by (simp add: ha_inv_def)

lemma firstSuccess_ran:
  "firstSuccess cs h = (h', b) \<Longrightarrow> \<exists>n. h' = h\<lparr>h_ran := h_ran h @ take n cs\<rparr> \<and> (b \<longrightarrow> 0 < n \<and> n \<le> length cs \<and> h_run h (cs ! (n - 1)) = None)"
proof (induction cs arbitrary: h)
  case (Cons c cs)
  let ?h = "h\<lparr>h_ran := h_ran h @ [c]\<rparr>"
  show ?case
  proof (cases "h_run h c = None")
    case True
    then show ?thesis using Cons.prems by (auto simp: commandSucceeds_def intro!: exI [of _ 1])
  next
    case False
    then have "firstSuccess cs ?h = (h', b)" using Cons.prems by (auto simp: commandSucceeds_def split: bool.splits)
    from Cons.IH [OF this] obtain n where "h' = ?h\<lparr>h_ran := h_ran ?h @ take n cs\<rparr>"
      "b \<longrightarrow> 0 < n \<and> n \<le> length cs \<and> h_run ?h (cs ! (n - 1)) = None" by blast
    then show ?thesis by (intro exI [of _ "Suc n"]) auto
  qed
qed auto

lemma commands_permitted: "list_all haCommand (take n reloadCmds)" "list_all haCommand (take n hupCmds)"
  by (auto simp: list_all_iff haCommand_def dest: in_set_takeD)

definition mgrPaths :: "Manager \<Rightarrow> string \<times> string" where
  "mgrPaths m = (m_path m, m_statePath m)"

lemma reload_shape:
  "\<exists>cmds m'. fst (reloadKeepalived (m, h)) = (m', h\<lparr>h_ran := h_ran h @ cmds\<rparr>) \<and> list_all haCommand cmds \<and> m_cfg m' = m_cfg m \<and> mgrPaths m' = mgrPaths m
     \<and> (snd (reloadKeepalived (m, h)) = None \<longrightarrow> m_lastError m' = [] \<and> (\<exists>c \<in> set cmds. h_run h c = None))"
proof -
  obtain h1 b1 where f1: "firstSuccess reloadCmds h = (h1, b1)" by (metis surj_pair)
  obtain n1 where n1: "h1 = h\<lparr>h_ran := h_ran h @ take n1 reloadCmds\<rparr>"
    "b1 \<longrightarrow> 0 < n1 \<and> n1 \<le> length reloadCmds \<and> h_run h (reloadCmds ! (n1 - 1)) = None"
    using firstSuccess_ran [OF f1] by blast
  obtain h2 b2 where f2: "firstSuccess hupCmds h1 = (h2, b2)" by (metis surj_pair)
  obtain n2 where n2: "h2 = h1\<lparr>h_ran := h_ran h1 @ take n2 hupCmds\<rparr>"
    "b2 \<longrightarrow> 0 < n2 \<and> n2 \<le> length hupCmds \<and> h_run h1 (hupCmds ! (n2 - 1)) = None"
    using firstSuccess_ran [OF f2] by blast
  have hit: "xs ! (n - 1) \<in> set (take n xs)" if "0 < n" "n \<le> length xs" for n and xs :: "string list list"
    using that by (metis One_nat_def Suc_pred diff_less length_take lessI min.absorb2 nth_mem nth_take zero_less_one)
  show ?thesis
  proof (cases b1)
    case True
    then show ?thesis using f1 n1 commands_permitted(1) [of n1] hit [of n1 reloadCmds]
      by (auto simp: reloadKeepalived_def mgrPaths_def clearError_def intro!: exI [of _ "take n1 reloadCmds"] bexI [of _ "reloadCmds ! (n1 - 1)"])
  next
    case b1: False
    show ?thesis
    proof (cases b2)
      case True
      then show ?thesis using f1 f2 n1 n2 b1 commands_permitted(1) [of n1] commands_permitted(2) [of n2] hit [of n2 hupCmds]
        by (auto simp: reloadKeepalived_def mgrPaths_def clearError_def intro!: exI [of _ "take n1 reloadCmds @ take n2 hupCmds"] bexI [of _ "hupCmds ! (n2 - 1)"])
    next
      case False
      have "haCommand plainHup" by (simp add: haCommand_def)
      then show ?thesis using f1 f2 n1 n2 b1 False commands_permitted(1) [of n1] commands_permitted(2) [of n2]
        by (auto simp: reloadKeepalived_def mgrPaths_def clearError_def recordError_def runCommand_def Let_def split: option.splits
            intro!: exI [of _ "take n1 reloadCmds @ take n2 hupCmds @ [plainHup]"])
    qed
  qed
qed

lemma rendered_shape: "\<exists>cmds. fst (validateRendered m cfg h) = h\<lparr>h_ran := h_ran h @ cmds\<rparr> \<and> list_all haCommand cmds
    \<and> (snd (validateRendered m cfg h) = None \<longrightarrow> h_check h (render cfg) = None)"
  by (auto simp: validateRendered_def runCommand_def haCommand_def Let_def split: option.splits
      intro: exI [of _ "[]"] exI [of _ "[[''keepalived'', ''-t'', ''-f'', h_tmp h]]"])

lemma persist_shape: "h_conf (fst (persistState m cfg h)) = h_conf h \<and> h_ran (fst (persistState m cfg h)) = h_ran h"
  by (simp add: persistState_def split: option.splits)

lemma SetHAConfig_inv: "ha_inv h0 w \<Longrightarrow> ha_inv h0 (fst (SetHAConfig cfg w))"
  using validate_stored [of "snd w" cfg] persist_shape [of "fst w" cfg "snd w"]
  by (auto simp: SetHAConfig_def ha_inv_def split: prod.splits option.splits)

lemma ValidateHA_inv: "ha_inv h0 w \<Longrightarrow> ha_inv h0 (fst (ValidateHA w))"
proof (cases w)
  case (Pair m h)
  assume "ha_inv h0 w"
  then show ?thesis using Pair rendered_shape [of m "m_cfg m" h] ha_inv_ran [of h0 m h]
    by (auto simp: ValidateHA_def split: prod.splits option.splits)
qed

lemma HAStatus_inv: "ha_inv h0 w \<Longrightarrow> ha_inv h0 (fst (Manager_HAStatus w))"
proof (cases w)
  case (Pair m h)
  assume "ha_inv h0 w"
  moreover have "list_all haCommand [isActiveCmd]" by (simp add: haCommand_def)
  ultimately show ?thesis using Pair ha_inv_ran [of h0 m h "[isActiveCmd]"]
    by (auto simp: Manager_HAStatus_def commandSucceeds_def Let_def)
qed

text \<open>An application either stops before the file or writes the rendering of the current settings.\<close>

lemma ApplyHA_shape:
  obtains (same) m' cmds where "fst (ApplyHA (m, h)) = (m', h\<lparr>h_ran := h_ran h @ cmds\<rparr>)" "m_cfg m' = m_cfg m" "mgrPaths m' = mgrPaths m"
      "list_all haCommand cmds" "snd (ApplyHA (m, h)) \<noteq> None"
  | (written) m' cmds where
      "fst (ApplyHA (m, h)) = (m', h\<lparr>h_conf := (h_conf h)(m_path m \<mapsto> render (m_cfg m)), h_ran := h_ran h @ cmds\<rparr>)"
      "m_cfg m' = m_cfg m" "mgrPaths m' = mgrPaths m" "list_all haCommand cmds" "hc_Enabled (m_cfg m)" "validate h (m_cfg m) = None"
      "h_check h (render (m_cfg m)) = None"
      "snd (ApplyHA (m, h)) = None \<longrightarrow> m_lastError m' = [] \<and> (\<exists>c \<in> set cmds. h_run h c = None)"
proof -
  obtain h1 e where vr: "validateRendered m (m_cfg m) h = (h1, e)" by (metis surj_pair)
  obtain c1 where c1: "h1 = h\<lparr>h_ran := h_ran h @ c1\<rparr>" "list_all haCommand c1" "e = None \<longrightarrow> h_check h (render (m_cfg m)) = None"
    using rendered_shape [of m "m_cfg m" h] vr by auto
  define h2 where "h2 = h1\<lparr>h_conf := (h_conf h1)(m_path m \<mapsto> render (m_cfg m))\<rparr>"
  obtain c2 m2 where c2: "fst (reloadKeepalived (m, h2)) = (m2, h2\<lparr>h_ran := h_ran h2 @ c2\<rparr>)" "list_all haCommand c2"
    "m_cfg m2 = m_cfg m" "mgrPaths m2 = mgrPaths m"
    "snd (reloadKeepalived (m, h2)) = None \<longrightarrow> m_lastError m2 = [] \<and> (\<exists>c \<in> set c2. h_run h2 c = None)"
    using reload_shape [of m h2] by (elim exE conjE) (rule that; assumption)
  have ap: "ApplyHA (m, h) = (case validate h (m_cfg m) of
       Some e' \<Rightarrow> ((m, h), Some e')
     | None \<Rightarrow> if \<not> hc_Enabled (m_cfg m) then ((m, h), Some notThroughAPI)
         else if \<not> h_installed h then ((m, h), Some ''keepalived is not installed; install it first'')
         else case e of
             Some e' \<Rightarrow> ((m\<lparr>m_lastError := e'\<rparr>, h1), Some e')
           | None \<Rightarrow> (case h_io h1 (m_path m) of
                 Some e' \<Rightarrow> ((m, h1), Some e')
               | None \<Rightarrow> (case h_chmod h2 (m_path m) of Some e' \<Rightarrow> ((m, h2), Some e') | None \<Rightarrow> reloadKeepalived (m, h2))))"
    using vr by (simp add: ApplyHA_def h2_def recordError_def Let_def split: option.splits)
  consider (early) e' where "ApplyHA (m, h) = ((m, h), Some e')"
    | (checked) m' e' where "ApplyHA (m, h) = ((m', h1), Some e')" "m_cfg m' = m_cfg m" "mgrPaths m' = mgrPaths m"
    | (chmod) e' where "ApplyHA (m, h) = ((m, h2), Some e')" "hc_Enabled (m_cfg m)" "validate h (m_cfg m) = None" "e = None"
    | (reloaded) "ApplyHA (m, h) = reloadKeepalived (m, h2)" "hc_Enabled (m_cfg m)" "validate h (m_cfg m) = None" "e = None"
    using ap by (auto simp: mgrPaths_def split: option.splits if_splits)
  then show thesis
  proof cases
    case early
    then show thesis by (intro same [of m "[]"]) simp_all
  next
    case (checked m' e')
    then show thesis using c1 by (intro same [of m' c1]) simp_all
  next
    case chmod
    then show thesis using c1 by (intro written [of m c1]) (simp_all add: h2_def)
  next
    case reloaded
    then show thesis using c1 c2 by (intro written [of m2 "c1 @ c2"]) (auto simp: h2_def)
  qed
qed

lemma ApplyHA_inv: "ha_inv h0 w \<Longrightarrow> ha_inv h0 (fst (ApplyHA w))"
proof (cases w)
  case (Pair m h)
  assume inv: "ha_inv h0 w"
  then have i: "ha_inv h0 (m, h)" using Pair by simp
  show ?thesis
  proof (cases rule: ApplyHA_shape [of m h])
    case same
    then show ?thesis using Pair ha_inv_manager [OF ha_inv_ran [OF i]] by (simp add: mgrPaths_def)
  next
    case (written m' cmds)
    have "generated (Some (render (m_cfg m)))" using written(5,6) validate_stored by (auto simp: generated_def)
    then show ?thesis using Pair written(1-4) i unfolding ha_inv_def mgrPaths_def by (auto intro: exI [of _ "_ @ cmds"])
  qed
qed

subsection \<open>Histories\<close>

text \<open>
  What can happen to a manager: the calls of the interface in any order, changes of the host that
  leave its files and the record of commands alone, and restarts of the process.
\<close>

definition hostChange :: "Host \<Rightarrow> Host \<Rightarrow> bool" where
  "hostChange h h' \<longleftrightarrow> h_state h' = h_state h \<and> h_conf h' = h_conf h \<and> h_ran h' = h_ran h"

inductive ha_reach :: "string \<Rightarrow> string \<Rightarrow> Host \<Rightarrow> ha_world \<Rightarrow> bool" for path adoption h0 where
  start: "ha_reach path adoption h0 (NewManagerWithState path adoption h0, h0)"
| set_config: "ha_reach path adoption h0 w \<Longrightarrow> ha_reach path adoption h0 (fst (SetHAConfig cfg w))"
| validated: "ha_reach path adoption h0 w \<Longrightarrow> ha_reach path adoption h0 (fst (ValidateHA w))"
| applied: "ha_reach path adoption h0 w \<Longrightarrow> ha_reach path adoption h0 (fst (ApplyHA w))"
| disabled: "ha_reach path adoption h0 w \<Longrightarrow> ha_reach path adoption h0 (fst (DisableHA w))"
| status: "ha_reach path adoption h0 w \<Longrightarrow> ha_reach path adoption h0 (fst (Manager_HAStatus w))"
| wired: "ha_reach path adoption h0 w \<Longrightarrow> ha_reach path adoption h0 (SetCertRefresher b (SetUpdateController u w))"
| host: "ha_reach path adoption h0 (m, h) \<Longrightarrow> hostChange h h' \<Longrightarrow> ha_reach path adoption h0 (m, h')"
| restarted: "ha_reach path adoption h0 (m, h) \<Longrightarrow> ha_reach path adoption h0 (NewManagerWithState path adoption h, h)"

lemma loadState_fields: "m_path (loadState h m) = m_path m" "m_statePath (loadState h m) = m_statePath m"
  "validateStoredConfig (m_cfg m) = None \<Longrightarrow> validateStoredConfig (m_cfg (loadState h m)) = None"
  by (auto simp: loadState_def split: option.splits)

lemma NewManager_fields:
  "m_path (NewManagerWithState path ad h) = m_path (NewManagerWithState path ad h')"
  "m_statePath (NewManagerWithState path ad h) = m_statePath (NewManagerWithState path ad h')"
  "validateStoredConfig (m_cfg (NewManagerWithState path ad h)) = None"
proof -
  have "validateStoredConfig noHAConfig = None" by (simp add: validateStoredConfig_def noHAConfig_def)
  then show "validateStoredConfig (m_cfg (NewManagerWithState path ad h)) = None"
    unfolding NewManagerWithState_def Let_def by (intro loadState_fields(3)) simp
qed (simp_all add: NewManagerWithState_def Let_def loadState_fields(1,2))

lemma op_paths:
  "mgrPaths (fst (fst (SetHAConfig cfg w))) = mgrPaths (fst w)" "mgrPaths (fst (fst (ValidateHA w))) = mgrPaths (fst w)"
  "mgrPaths (fst (fst (Manager_HAStatus w))) = mgrPaths (fst w)" "mgrPaths (fst (fst (ApplyHA w))) = mgrPaths (fst w)"
proof -
  obtain m h where w: "w = (m, h)" by (metis surj_pair)
  show "mgrPaths (fst (fst (SetHAConfig cfg w))) = mgrPaths (fst w)"
    unfolding w SetHAConfig_def mgrPaths_def by (simp split: option.splits prod.splits)
  show "mgrPaths (fst (fst (ValidateHA w))) = mgrPaths (fst w)"
    unfolding w ValidateHA_def by (simp split: option.splits prod.splits)
  show "mgrPaths (fst (fst (Manager_HAStatus w))) = mgrPaths (fst w)"
    unfolding w Manager_HAStatus_def Let_def by (cases "h_installed h") (simp_all add: commandSucceeds_def)
  show "mgrPaths (fst (fst (ApplyHA w))) = mgrPaths (fst w)"
    unfolding w by (cases rule: ApplyHA_shape [of m h]) simp_all
qed

lemma reach_paths: "ha_reach path ad h0 w \<Longrightarrow> mgrPaths (fst w) = mgrPaths (NewManagerWithState path ad h0)"
proof (induction rule: ha_reach.induct)
  case (restarted m h)
  show ?case using NewManager_fields(1,2) [of path ad h h0] by (simp add: mgrPaths_def)
next
  case (wired w b u)
  then show ?case by (cases w) (simp add: SetCertRefresher_def SetUpdateController_def mgrPaths_def)
qed (simp_all add: op_paths DisableHA_def)

lemma reach_inv: "ha_reach path ad h0 w \<Longrightarrow> ha_inv h0 w"
proof (induction rule: ha_reach.induct)
  case start
  show ?case by (simp add: ha_inv_def NewManager_fields(3))
next
  case (host m h h')
  then show ?case by (simp add: ha_inv_def hostChange_def)
next
  case (restarted m h)
  have "m_path (NewManagerWithState path ad h) = m_path m"
    using reach_paths [OF restarted.hyps] NewManager_fields(1) [of path ad h h0] by (simp add: mgrPaths_def)
  then show ?case using restarted.IH by (simp add: ha_inv_def NewManager_fields(3))
next
  case (wired w b u)
  then show ?case
    by (cases w) (auto simp: SetCertRefresher_def SetUpdateController_def intro: ha_inv_manager)
qed (simp_all add: SetHAConfig_inv ValidateHA_inv ApplyHA_inv HAStatus_inv DisableHA_def)

lemma statePath_nonempty: "m_statePath (NewManagerWithState path ad h) \<noteq> []"
  by (simp add: NewManagerWithState_def loadState_fields(2) defaultStatePath_def Let_def)

lemma SetHAConfig_stored:
  assumes "SetHAConfig cfg (m, h) = ((m', h'), None)" and "m_statePath m \<noteq> []"
  shows "h_state h' (m_statePath m) = Some cfg \<and> validateStoredConfig cfg = None \<and> m_cfg m' = cfg"
  using assms validate_stored [of h cfg]
  by (auto simp: SetHAConfig_def persistState_def split: option.splits if_splits)

lemma NewManager_loads:
  assumes "h_state h (m_statePath (NewManagerWithState path ad h')) = Some cfg" and "validateStoredConfig cfg = None"
  shows "m_cfg (NewManagerWithState path ad h) = cfg"
proof -
  obtain m0 where m0: "\<And>x. NewManagerWithState path ad x = loadState x m0"
    using that unfolding NewManagerWithState_def Let_def by blast
  have "m_statePath m0 \<noteq> []" using statePath_nonempty [of path ad h] by (simp add: m0 loadState_fields(2))
  then show ?thesis using assms by (simp add: m0 loadState_fields(2)) (simp add: loadState_def)
qed

subsection \<open>Properties\<close>


definition sampleHA :: HAConfig where
  "sampleHA = \<lparr>hc_Enabled = True, hc_Mode = ''unicast'', hc_NodeRole = ''primary'', hc_Interface = ''eth0'', hc_SourceIP = ''192.168.1.2'',
     hc_PeerIP = ''192.168.1.3'', hc_VirtualIP = ''192.168.1.9/24'', hc_VirtualRouterID = 51, hc_Priority = 150, hc_AdvertIntervalSec = 1,
     hc_AuthPass = ''s3cret''\<rparr>"

definition sampleHost :: Host where
  "sampleHost = \<lparr>h_state = Map.empty, h_conf = Map.empty, h_io = (\<lambda>_. None), h_chmod = (\<lambda>_. None), h_tmp = ''/tmp/k'',
     h_iface = (\<lambda>n. if n = ''eth0'' then Some (Inr [IPv4 192 168 1 2]) else None), h_hostAddrs = [], h_installed = True,
     h_check = (\<lambda>_. None), h_run = (\<lambda>_. None), h_ran = [], h_certRefreshes = 0\<rparr>"

definition sampleApplied :: ha_world where
  "sampleApplied = fst (ApplyHA (fst (SetHAConfig sampleHA (NewManagerWithState ''/k.conf'' [] sampleHost, sampleHost))))"


text \<open>
  Accepted settings survive and are what is applied. When a call to save settings succeeds,
  the process can be restarted at any later time on the same files and has them; and when
  applying them then succeeds, keepalived's own check accepted the text, the file holds exactly
  the rendering of these settings, one of the reload commands succeeded, and no error is left.
\<close>
theorem ha_settings_survive:
  assumes "ha_reach path ad h0 (m, h)" and "SetHAConfig cfg (m, h) = ((m1, h1), None)" and "hostChange h1 h2"
    and "m2 = NewManagerWithState path ad h2"
  shows "m_cfg m2 = cfg
    \<and> (\<forall>m3 h3. ApplyHA (m2, h2) = ((m3, h3), None) \<longrightarrow>
         h_conf h3 (m_path m2) = Some (render cfg) \<and> h_check h2 (render cfg) = None \<and> m_lastError m3 = []
         \<and> (\<exists>c \<in> set (drop (length (h_ran h2)) (h_ran h3)). haCommand c \<and> h_run h2 c = None))"
proof -
  have sp: "m_statePath m = m_statePath (NewManagerWithState path ad h0)"
    using reach_paths [OF assms(1)] by (simp add: mgrPaths_def)
  have st: "h_state h1 (m_statePath m) = Some cfg \<and> validateStoredConfig cfg = None \<and> m_cfg m1 = cfg"
    by (rule SetHAConfig_stored [OF assms(2)]) (simp add: sp statePath_nonempty)
  have cfg: "m_cfg m2 = cfg"
    unfolding assms(4) using st assms(3) sp by (intro NewManager_loads [where h' = h0]) (simp_all add: hostChange_def)
  show ?thesis
  proof (intro conjI allI impI cfg)
    fix m3 h3
    assume ap: "ApplyHA (m2, h2) = ((m3, h3), None)"
    show "h_conf h3 (m_path m2) = Some (render cfg)" "h_check h2 (render cfg) = None" "m_lastError m3 = []"
      "\<exists>c \<in> set (drop (length (h_ran h2)) (h_ran h3)). haCommand c \<and> h_run h2 c = None"
      by (cases rule: ApplyHA_shape [of m2 h2]; use ap cfg in \<open>auto simp: list_all_iff\<close>)+
  qed
qed

theorem ha_settings_survive_witness:
  "\<exists>m1 h1. SetHAConfig sampleHA (NewManagerWithState ''/k.conf'' [] sampleHost, sampleHost) = ((m1, h1), None)
     \<and> m_cfg (NewManagerWithState ''/k.conf'' [] h1) = sampleHA"
proof -
  let ?w = "(NewManagerWithState ''/k.conf'' [] sampleHost, sampleHost)"
  obtain m1 h1 where s: "fst (SetHAConfig sampleHA ?w) = (m1, h1)" by (metis surj_pair)
  have "snd (SetHAConfig sampleHA ?w) = None" by code_simp
  then have s: "SetHAConfig sampleHA ?w = ((m1, h1), None)" using s by (metis prod.collapse)
  have "ha_reach ''/k.conf'' [] sampleHost ?w" by (rule ha_reach.start)
  from ha_settings_survive [OF this s _ refl, of h1] s show ?thesis by (simp add: hostChange_def)
qed

end
