(* ===== verification/Blip_Update.thy ===== *)
theory Blip_Update
  imports Blip_Converge Blip_HA
begin

text \<open>
  The controller's high-availability operations (\<open>src/internal/controller/fleet.go\<close>) and the
  rolling update of the instances (\<open>src/internal/controller/update.go\<close>), which yields the virtual
  address of each node before it restarts. The text of a client's error is a parameter. What
  happens while the controller sleeps is part of the transport's next step, and the status loop
  runs as many rounds as ticks of two seconds fit into its timeout.
\<close>

subsection \<open>High availability\<close>

datatype HAError = HAInvalid string | HAUnknown string | HANotAdopted string | HACall string ClientError

definition haNode :: "Fleet \<Rightarrow> string \<Rightarrow> (HAError, Instance) result" where
  "haNode f k =
     (case map_of (fl_instances f) k of
        None \<Rightarrow> Inl (HAUnknown k)
      | Some i \<Rightarrow> if \<not> hasToken i then Inl (HANotAdopted k) else Inr i)"

definition called :: "string \<Rightarrow> 'w net \<times> ClientError option \<Rightarrow> 'w net \<times> HAError option" where
  "called what r = (case r of (net, None) \<Rightarrow> (net, None) | (net, Some e) \<Rightarrow> (net, Some (HACall what e)))"

fun HAStatuses :: "'w fleet_env \<Rightarrow> (string \<times> Instance) list \<Rightarrow> 'w net \<Rightarrow> 'w net \<times> (string \<times> (ClientError, HAStatus) result) list" where
  "HAStatuses env [] net = (net, [])"
| "HAStatuses env ((k, i) # is) net =
     (case Client_HAStatus (fe_client env) (in_client i) net of (net1, st) \<Rightarrow>
      case HAStatuses env is net1 of (net2, sts) \<Rightarrow> (net2, (instID i, st) # sts))"

definition pushHAConfigToCluster :: "'w fleet_env \<Rightarrow> HACluster \<Rightarrow> Fleet \<Rightarrow> 'w net \<Rightarrow> 'w net \<times> HAError option" where
  "pushHAConfigToCluster env cluster f net =
     (case haNode f (hl_PrimaryInstance cluster) of
        Inl e \<Rightarrow> (net, Some e)
      | Inr prim \<Rightarrow>
          (case haNode f (hl_SecondaryInstance cluster) of
             Inl e \<Rightarrow> (net, Some e)
           | Inr sec \<Rightarrow>
               (case Client_SetHAConfig (fe_client env) (in_client prim) (hl_Primary cluster) net of
                  (net1, Some e) \<Rightarrow> (net1, Some (HACall ''primary'' e))
                | (net1, None) \<Rightarrow> called ''secondary'' (Client_SetHAConfig (fe_client env) (in_client sec) (hl_Secondary cluster) net1))))"

text \<open>Push and apply a node's settings, remember them as applied, tell the browsers.\<close>

definition pushNodeHA ::
  "'w fleet_env \<Rightarrow> string \<Rightarrow> string \<Rightarrow> string \<Rightarrow> HAConfig \<Rightarrow> Fleet \<Rightarrow> 'w net \<Rightarrow> Fleet \<times> 'w net \<times> HAError option" where
  "pushNodeHA env what msg k cfg f net =
     (case haNode f k of
        Inl e \<Rightarrow> (f, net, Some e)
      | Inr i \<Rightarrow>
          (case setAndApplyHA env i cfg net of
             (net1, Some e) \<Rightarrow> (f, net1, Some (HACall what e))
           | (net1, None) \<Rightarrow>
               (publish (noEvent\<lparr>ev_InstanceID := k, ev_Type := ''status'', ev_At := fe_now env (snd net1), ev_Msg := msg\<rparr>)
                  (setInstance k (markHAApplied (fe_haHash env cfg) i) f), net1, None)))"

definition degraded :: "HACluster \<Rightarrow> string \<Rightarrow> HAConfig option" where
  "degraded c k =
     (if hl_PrimaryInstance c = k
        then Some ((hl_Primary c)\<lparr>hc_Priority := reducePriority (hc_Priority (hl_Primary c)) (hc_Priority (hl_Secondary c))\<rparr>)
      else if hl_SecondaryInstance c = k
        then Some ((hl_Secondary c)\<lparr>hc_Priority := reducePriority (hc_Priority (hl_Secondary c)) (hc_Priority (hl_Primary c))\<rparr>)
      else None)"

definition degradeHAPriority :: "'w fleet_env \<Rightarrow> string \<Rightarrow> Fleet \<Rightarrow> 'w net \<Rightarrow> Fleet \<times> 'w net \<times> HAError option" where
  "degradeHAPriority env k f net =
     (if \<not> hl_Enabled (fl_haCluster f) \<or> k = [] then (f, net, None)
      else case degraded (fl_haCluster f) k of
             None \<Rightarrow> (f, net, None)
           | Some cfg \<Rightarrow> pushNodeHA env ''degrade HA priority'' ''HA priority degraded for update'' k cfg f net)"

definition restoreHAPriority :: "'w fleet_env \<Rightarrow> string \<Rightarrow> Fleet \<Rightarrow> 'w net \<Rightarrow> Fleet \<times> 'w net \<times> HAError option" where
  "restoreHAPriority env k f net =
     (if \<not> hl_Enabled (fl_haCluster f) \<or> k = [] then (f, net, None)
      else if hl_PrimaryInstance (fl_haCluster f) = k
        then pushNodeHA env ''restore HA priority'' ''HA priority restored'' k (hl_Primary (fl_haCluster f)) f net
      else if hl_SecondaryInstance (fl_haCluster f) = k
        then pushNodeHA env ''restore HA priority'' ''HA priority restored'' k (hl_Secondary (fl_haCluster f)) f net
      else (f, net, None))"

fun validateNodes :: "'w fleet_env \<Rightarrow> Fleet \<Rightarrow> string list \<Rightarrow> 'w net \<Rightarrow> 'w net \<times> HAError option" where
  "validateNodes env f [] net = (net, None)"
| "validateNodes env f (k # ks) net =
     (case haNode f k of
        Inl e \<Rightarrow> (net, Some e)
      | Inr i \<Rightarrow>
          (case Client_ValidateHA (fe_client env) (in_client i) net of
             (net1, Some e) \<Rightarrow> (net1, Some (HACall k e))
           | (net1, None) \<Rightarrow> validateNodes env f ks net1))"

definition Fleet_ValidateHA :: "'w fleet_env \<Rightarrow> HACluster \<Rightarrow> Fleet \<Rightarrow> 'w net \<Rightarrow> 'w net \<times> HAError option" where
  "Fleet_ValidateHA env cluster f net =
     (case validateHACluster cluster of
        Some e \<Rightarrow> (net, Some (HAInvalid e))
      | None \<Rightarrow> validateNodes env f [hl_PrimaryInstance cluster, hl_SecondaryInstance cluster] net)"

fun applyNodes :: "'w fleet_env \<Rightarrow> HACluster \<Rightarrow> string list \<Rightarrow> Fleet \<Rightarrow> 'w net \<Rightarrow> Fleet \<times> 'w net \<times> HAError option" where
  "applyNodes env cluster [] f net = (f, net, None)"
| "applyNodes env cluster (k # ks) f net =
     (case haNode f k of
        Inl e \<Rightarrow> (f, net, Some e)
      | Inr i \<Rightarrow>
          let nodeCfg = (if k = hl_PrimaryInstance cluster then hl_Primary cluster else hl_Secondary cluster) in
          (case Client_ApplyHA (fe_client env) (in_client i) net of
             (net1, Some e) \<Rightarrow> (f, net1, Some (HACall k e))
           | (net1, None) \<Rightarrow> applyNodes env cluster ks (setInstance k (markHAApplied (fe_haHash env nodeCfg) i) f) net1))"

definition Fleet_ApplyHA :: "'w fleet_env \<Rightarrow> HACluster \<Rightarrow> Fleet \<Rightarrow> 'w net \<Rightarrow> Fleet \<times> 'w net \<times> HAError option" where
  "Fleet_ApplyHA env cluster f net =
     (case Fleet_ValidateHA env cluster f net of
        (net1, Some e) \<Rightarrow> (f, net1, Some e)
      | (net1, None) \<Rightarrow> applyNodes env cluster [hl_PrimaryInstance cluster, hl_SecondaryInstance cluster] f net1)"

fun disableNodes :: "'w fleet_env \<Rightarrow> string list \<Rightarrow> Fleet \<Rightarrow> 'w net \<Rightarrow> Fleet \<times> 'w net \<times> HAError option" where
  "disableNodes env [] f net = (f, net, None)"
| "disableNodes env (k # ks) f net =
     (if k = [] then disableNodes env ks f net
      else case haNode f k of
             Inl e \<Rightarrow> (f, net, Some e)
           | Inr i \<Rightarrow>
               (case Client_DisableHA (fe_client env) (in_client i) net of
                  (net1, Some e) \<Rightarrow> (f, net1, Some (HACall k e))
                | (net1, None) \<Rightarrow> disableNodes env ks (setInstance k (markHAApplied [] i) f) net1))"

definition persisted :: "Fleet \<times> string option \<Rightarrow> 'w net \<Rightarrow> Fleet \<times> 'w net \<times> HAError option" where
  "persisted r net = (case r of (f, e) \<Rightarrow> (f, net, map_option HAInvalid e))"

definition Fleet_DisableHA :: "'w fleet_env \<Rightarrow> HACluster \<Rightarrow> Fleet \<Rightarrow> 'w net \<Rightarrow> Fleet \<times> 'w net \<times> HAError option" where
  "Fleet_DisableHA env cluster f net =
     (case disableNodes env [hl_PrimaryInstance cluster, hl_SecondaryInstance cluster] f net of
        (f1, net1, Some e) \<Rightarrow> (f1, net1, Some e)
      | (f1, net1, None) \<Rightarrow> persisted (setHAClusterPersisted env (cluster\<lparr>hl_Enabled := False\<rparr>) f1) net1)"

definition SetHACluster :: "'w fleet_env \<Rightarrow> HACluster \<Rightarrow> Fleet \<Rightarrow> 'w net \<Rightarrow> Fleet \<times> 'w net \<times> HAError option" where
  "SetHACluster env cluster f net =
     (case validateHACluster cluster of
        Some e \<Rightarrow> (f, net, Some (HAInvalid e))
      | None \<Rightarrow>
          if \<not> hl_Enabled cluster then
            (let current = fl_haCluster f;
                 c1 = (if hl_PrimaryInstance cluster = [] then cluster\<lparr>hl_PrimaryInstance := hl_PrimaryInstance current\<rparr> else cluster);
                 c2 = (if hl_SecondaryInstance c1 = [] then c1\<lparr>hl_SecondaryInstance := hl_SecondaryInstance current\<rparr> else c1)
             in Fleet_DisableHA env c2 f net)
          else case pushHAConfigToCluster env cluster f net of
                 (net1, Some e) \<Rightarrow> (f, net1, Some e)
               | (net1, None) \<Rightarrow> persisted (setHAClusterPersisted env cluster f) net1)"

subsection \<open>Rolling update\<close>

datatype UpdateError = CallError ClientError | RemoteUpdater string | NotBack

datatype phase = Started | Updating | Restarting

definition updateRounds :: nat where "updateRounds = 300"  \<comment> \<open>10 minutes in ticks of 2 seconds\<close>

text \<open>What one status answer does to the phase; \<open>Inl\<close> is the updater's own error.\<close>

definition nextPhase :: "phase \<Rightarrow> (ClientError, UpdateStatus) result \<Rightarrow> (UpdateError, phase) result" where
  "nextPhase ph st =
     (case st of
        Inl _ \<Rightarrow> Inr (if ph = Updating \<or> ph = Restarting then Restarting else ph)
      | Inr s \<Rightarrow>
          if up_Running s then Inr Updating
          else if ph = Updating \<or> ph = Restarting then Inr Restarting
          else if up_LastError s \<noteq> [] then Inl (RemoteUpdater (up_LastError s))
          else Inr Restarting)"

fun updateLoop :: "'w client_env \<Rightarrow> nat \<Rightarrow> phase \<Rightarrow> Client \<Rightarrow> 'w net \<Rightarrow> 'w net \<times> UpdateError option" where
  "updateLoop env 0 ph cl net = (net, Some NotBack)"
| "updateLoop env (Suc n) ph cl net =
     (case Client_UpdateStatus env cl net of (net1, st) \<Rightarrow>
      case nextPhase ph st of
        Inl e \<Rightarrow> (net1, Some e)
      | Inr ph1 \<Rightarrow>
          if ph1 = Restarting then
            (case Client_Health env cl net1 of
               (net2, Inr _) \<Rightarrow> (net2, None)
             | (net2, Inl _) \<Rightarrow> updateLoop env n ph1 cl net2)
          else updateLoop env n ph1 cl net1)"

definition updateOne :: "'w client_env \<Rightarrow> Instance \<Rightarrow> string \<Rightarrow> 'w net \<Rightarrow> 'w net \<times> UpdateError option" where
  "updateOne env i channel net =
     (case Client_StartUpdate env (in_client i) channel net of
        (net1, Some e) \<Rightarrow> (net1, Some (CallError e))
      | (net1, None) \<Rightarrow> updateLoop env updateRounds Started (in_client i) net1)"

definition onJob :: "(UpdateJobStatus \<Rightarrow> UpdateJobStatus) \<Rightarrow> Fleet \<Rightarrow> Fleet" where
  "onJob g f = f\<lparr>fl_updateJob := g (fl_updateJob f)\<rparr>"

definition setUpdateCurrent :: "string \<Rightarrow> Fleet \<Rightarrow> Fleet" where
  "setUpdateCurrent k = onJob (\<lambda>j. j\<lparr>uj_Current := k\<rparr>)"

definition finishUpdate :: "string \<Rightarrow> string \<Rightarrow> string \<Rightarrow> Fleet \<Rightarrow> Fleet" where
  "finishUpdate k outcome failure =
     onJob (\<lambda>j0. let j = j0\<lparr>uj_Results := AList.update k outcome (uj_Results j0)\<rparr> in
       if failure \<noteq> [] then j\<lparr>uj_Error := failure, uj_Running := False, uj_Current := []\<rparr>
       else j\<lparr>uj_Completed := uj_Completed j + 1\<rparr>)"

definition updateErrText :: "(ClientError \<Rightarrow> string) \<Rightarrow> UpdateError \<Rightarrow> string" where
  "updateErrText txt e =
     (case e of
        CallError c \<Rightarrow> txt c
      | RemoteUpdater m \<Rightarrow> ''remote updater: '' @ m
      | NotBack \<Rightarrow> ''node did not return online within 10m0s'')"

fun runUpdateJob ::
  "'w fleet_env \<Rightarrow> (ClientError \<Rightarrow> string) \<Rightarrow> (string \<times> Instance) list \<Rightarrow> string \<Rightarrow> Fleet \<Rightarrow> 'w net \<Rightarrow> Fleet \<times> 'w net" where
  "runUpdateJob env txt [] channel f net = (onJob (\<lambda>j. j\<lparr>uj_Running := False, uj_Current := []\<rparr>) f, net)"
| "runUpdateJob env txt ((k, i) # nodes) channel f net =
     (case degradeHAPriority env k (setUpdateCurrent k f) net of (f1, net1, _) \<Rightarrow>
      case updateOne (fe_client env) i channel net1 of
        (net2, Some e) \<Rightarrow>
          (case restoreHAPriority env k (finishUpdate k (''failed: '' @ updateErrText txt e) (updateErrText txt e) f1) net2 of
             (f3, net3, _) \<Rightarrow> (f3, net3))
      | (net2, None) \<Rightarrow>
          (case restoreHAPriority env k (finishUpdate k ''updated'' [] f1) net2 of
             (f3, net3, _) \<Rightarrow> runUpdateJob env txt nodes channel f3 net3))"

definition updateNodes :: "Fleet \<Rightarrow> (string \<times> Instance) list" where
  "updateNodes f = sort_key fst (filter (\<lambda>(k, i). hasToken i) (fl_instances f))"

text \<open>The job runs in the background; its nodes are what it was started with.\<close>

definition StartUpdates :: "string \<Rightarrow> Fleet \<Rightarrow> Fleet \<times> UpdateJobStatus \<times> string option" where
  "StartUpdates channel f =
     (if \<not> ValidUpdateChannel channel then (f, noJob, Some ''release channel must be stable or dev'')
      else if uj_Running (fl_updateJob f) then (f, fl_updateJob f, Some ''an instance update is already running'')
      else
        let job = noJob\<lparr>uj_Running := True, uj_Channel := channel, uj_Total := int (length (updateNodes f))\<rparr>
        in (f\<lparr>fl_updateJob := job\<rparr>, job, None))"

subsection \<open>Yielding the virtual address\<close>

lemma reducePriority_bounds:
  assumes "1 \<le> p" and "1 \<le> peer"
  shows "1 \<le> reducePriority p peer" "reducePriority p peer \<le> p" "reducePriority p peer < peer \<or> peer = 1"
  using assms by (auto simp: reducePriority_def haPriorityDelta_def Let_def)

lemma validate_priority:
  assumes "validate h cfg = None" and "hc_Enabled cfg" and "1 \<le> p" and "p \<le> hc_Priority cfg"
  shows "validate h (cfg\<lparr>hc_Priority := p\<rparr>) = None"
proof -
  have peer: "validatePeer (cfg\<lparr>hc_Priority := p\<rparr>) = validatePeer cfg" by (simp add: validatePeer_def fun_eq_iff)
  have ranges: "validateRanges (cfg\<lparr>hc_Priority := p\<rparr>) = None" if "validateRanges cfg = None"
    using that assms(3,4) by (auto simp: validateRanges_def split: if_splits)
  show ?thesis
    using assms(1,2) ranges unfolding validate_def
    by (simp add: peer Let_def split: if_split_asm option.split_asm prod.split_asm) blast
qed

subsection \<open>The update job\<close>

text \<open>The HA steps of the job change only the bus and what the controller remembers of the instances.\<close>

definition jobView :: "Fleet \<Rightarrow> UpdateJobStatus \<times> HACluster" where
  "jobView f = (fl_updateJob f, fl_haCluster f)"

lemma pushNodeHA_view: "jobView (fst (pushNodeHA env what msg k cfg f net)) = jobView f"
  by (auto simp: pushNodeHA_def jobView_def publish_def setInstance_def split: sum.splits prod.splits option.splits)

lemma degrade_view: "jobView (fst (degradeHAPriority env k f net)) = jobView f"
  by (simp add: degradeHAPriority_def pushNodeHA_view split: option.splits)

lemma restore_view: "jobView (fst (restoreHAPriority env k f net)) = jobView f"
  by (simp add: restoreHAPriority_def pushNodeHA_view)

lemma updateErrText_nonempty: "\<forall>e. txt e \<noteq> [] \<Longrightarrow> updateErrText txt e \<noteq> []"
  by (cases e) (simp_all add: updateErrText_def)

text \<open>The nodes are taken in order; the first failure ends the job.\<close>

definition outcome :: "string list \<Rightarrow> string list \<Rightarrow> UpdateJobStatus \<Rightarrow> UpdateJobStatus \<Rightarrow> bool" where
  "outcome finished rest j0 j \<longleftrightarrow>
     \<not> uj_Running j \<and> uj_Current j = [] \<and> uj_Completed j = uj_Completed j0 + int (length finished) \<and> uj_Total j = uj_Total j0
     \<and> uj_Channel j = uj_Channel j0
     \<and> (case rest of
          [] \<Rightarrow> uj_Error j = uj_Error j0 \<and> uj_Results j = uj_Results j0 @ map (\<lambda>k. (k, ''updated'')) finished
        | k # _ \<Rightarrow> uj_Error j \<noteq> []
            \<and> uj_Results j = uj_Results j0 @ map (\<lambda>k. (k, ''updated'')) finished @ [(k, ''failed: '' @ uj_Error j)])"

lemma outcome_cons:
  assumes "outcome finished rest j1 j" and "uj_Completed j1 = uj_Completed j0 + 1" and "uj_Results j1 = uj_Results j0 @ [(k, ''updated'')]"
    and "uj_Total j1 = uj_Total j0" and "uj_Error j1 = uj_Error j0" and "uj_Channel j1 = uj_Channel j0"
  shows "outcome (k # finished) rest j0 j"
  using assms by (cases rest) (simp_all add: outcome_def)

lemma runUpdateJob_outcome:
  assumes "\<forall>e. txt e \<noteq> []" and "distinct (map fst nodes)" and "\<forall>k \<in> fst ` set nodes. k \<notin> fst ` set (uj_Results (fl_updateJob f))"
  shows "\<exists>finished rest. map fst nodes = finished @ rest
    \<and> outcome finished rest (fl_updateJob f) (fl_updateJob (fst (runUpdateJob env txt nodes channel f net)))
    \<and> fl_haCluster (fst (runUpdateJob env txt nodes channel f net)) = fl_haCluster f"
  using assms(2,3)
proof (induction nodes arbitrary: f net)
  case Nil
  show ?case by (intro exI [of _ "[]"]) (simp add: outcome_def onJob_def)
next
  case (Cons node nodes)
  obtain k i where node: "node = (k, i)" by force
  obtain f1 net1 e1 where d: "degradeHAPriority env k (setUpdateCurrent k f) net = (f1, net1, e1)" by (metis prod_cases3)
  have v1: "jobView f1 = ((fl_updateJob f)\<lparr>uj_Current := k\<rparr>, fl_haCluster f)"
    using degrade_view [of env k "setUpdateCurrent k f" net] d by (simp add: setUpdateCurrent_def onJob_def jobView_def)
  have fresh: "k \<notin> fst ` set (uj_Results (fl_updateJob f))" using Cons.prems(2) node by auto
  obtain net2 r where u: "updateOne (fe_client env) i channel net1 = (net2, r)" by (metis surj_pair)
  show ?case
  proof (cases r)
    case (Some e)
    let ?t = "updateErrText txt e"
    let ?f2 = "finishUpdate k (''failed: '' @ ?t) ?t f1"
    obtain f3 net3 e3 where r3: "restoreHAPriority env k ?f2 net2 = (f3, net3, e3)" by (metis prod_cases3)
    have "jobView f3 = jobView ?f2" using restore_view [of env k ?f2 net2] r3 by simp
    then have "outcome [] (k # map fst nodes) (fl_updateJob f) (fl_updateJob f3)" "fl_haCluster f3 = fl_haCluster f"
      using v1 fresh updateErrText_nonempty [OF assms(1), of e]
      by (simp_all add: finishUpdate_def onJob_def outcome_def jobView_def update_fresh Let_def)
    then show ?thesis using node d u Some r3 by (intro exI [of _ "[]"] exI [of _ "map fst (node # nodes)"]) simp
  next
    case None
    let ?f2 = "finishUpdate k ''updated'' [] f1"
    obtain f3 net3 e3 where r3: "restoreHAPriority env k ?f2 net2 = (f3, net3, e3)" by (metis prod_cases3)
    have v3: "jobView f3 = jobView ?f2" using restore_view [of env k ?f2 net2] r3 by simp
    then have j3: "uj_Results (fl_updateJob f3) = uj_Results (fl_updateJob f) @ [(k, ''updated'')]" "fl_haCluster f3 = fl_haCluster f"
      "uj_Completed (fl_updateJob f3) = uj_Completed (fl_updateJob f) + 1" "uj_Total (fl_updateJob f3) = uj_Total (fl_updateJob f)"
      "uj_Error (fl_updateJob f3) = uj_Error (fl_updateJob f)" "uj_Channel (fl_updateJob f3) = uj_Channel (fl_updateJob f)"
      using v1 fresh by (simp_all add: finishUpdate_def onJob_def jobView_def update_fresh Let_def)
    have "\<forall>k' \<in> fst ` set nodes. k' \<notin> fst ` set (uj_Results (fl_updateJob f3))"
      using Cons.prems node j3(1) by auto
    from Cons.IH [OF _ this, of net3] obtain finished rest where ih: "map fst nodes = finished @ rest"
      "outcome finished rest (fl_updateJob f3) (fl_updateJob (fst (runUpdateJob env txt nodes channel f3 net3)))"
      "fl_haCluster (fst (runUpdateJob env txt nodes channel f3 net3)) = fl_haCluster f3"
      using Cons.prems(1) by auto
    have "outcome (k # finished) rest (fl_updateJob f) (fl_updateJob (fst (runUpdateJob env txt nodes channel f3 net3)))"
      by (rule outcome_cons [OF ih(2) j3(3,1,4,5,6)])
    then show ?thesis using node d u None r3 ih j3(2) by (intro exI [of _ "k # finished"] exI [of _ rest]) simp
  qed
qed

subsection \<open>Hosts with a keepalived manager\<close>

text \<open>The manager as part of a larger world: \<open>get\<close> reads it, \<open>put\<close> writes it back.\<close>

definition hostedManager :: "('w \<Rightarrow> ha_world) \<Rightarrow> (ha_world \<Rightarrow> 'w \<Rightarrow> 'w) \<Rightarrow> 'w HAController" where
  "hostedManager get put =
     \<lparr>ha_Set = (\<lambda>cfg w. case ha_Set managerController cfg (get w) of (x, e) \<Rightarrow> (put x w, e)),
      ha_Status = (\<lambda>w. case ha_Status managerController (get w) of (x, st) \<Rightarrow> (put x w, st)),
      ha_Validate = (\<lambda>w. case ha_Validate managerController (get w) of (x, e) \<Rightarrow> (put x w, e)),
      ha_Apply = (\<lambda>w. case ha_Apply managerController (get w) of (x, e) \<Rightarrow> (put x w, e)),
      ha_Disable = (\<lambda>w. case ha_Disable managerController (get w) of (x, e) \<Rightarrow> (put x w, e))\<rparr>"

lemma disable_refused:
  assumes "ce_HA env = None \<or> ce_HA env = Some (hostedManager get put)" and "hr_Path r = ''/api/v1/ha/disable''"
    and "ctlHandler env r body c w = (c', w', x)"
  shows "400 \<le> replyStatus x"
proof (cases "authGate c r")
  case (Some y)
  then have "x = y" using assms(2,3) by (auto simp: ctlHandler_def protectedPaths_def split: if_splits)
  then show ?thesis using Some by (auto simp: authGate_def replyStatus_def split: if_splits)
next
  case None
  then have "handleHADisable env r w = (w', x)"
    using assms(2,3) by (auto simp: ctlHandler_def protectedPaths_def protected_def split: if_splits prod.splits)
  then show ?thesis
    using assms(1) by (auto simp: handleHADisable_def haEndpoint_def ackOr_def hostedManager_def managerController_def DisableHA_def
        replyStatus_def split: if_splits)
qed

lemma Client_DisableHA_fails:
  assumes "ce_HA (cl_node env (cc_base cl)) = None \<or> ce_HA (cl_node env (cc_base cl)) = Some (hostedManager get put)"
  shows "snd (Client_DisableHA env cl net) \<noteq> None"
proof -
  obtain nodes w where net: "net = (nodes, w)" by (metis surj_pair)
  obtain w1 d where t: "cl_transport env (cc_base cl) w = (w1, d)" by (metis surj_pair)
  obtain c w2 x where h: "ctlHandler (cl_node env (cc_base cl)) (clientRequest env cl ''POST'' ''/api/v1/ha/disable'' []) emptyBody
      (nodes (cc_base cl)) w1 = (c, w2, x)" by (metis prod_cases3)
  have "400 \<le> replyStatus x" by (rule disable_refused [OF assms _ h]) (simp add: clientRequest_def)
  then show ?thesis
    using net t h by (cases d) (simp_all add: Client_DisableHA_def Client_do_def ignoreReply_def)
qed

subsection \<open>Properties\<close>


definition updateFleet :: Fleet where
  "updateFleet = (NewFleet [] Missing)\<lparr>fl_instances := [(''a'', sampleInstance)]\<rparr>"


text \<open>
  Before a member of the pair is updated it yields. The priority it is given is within VRRP's
  range, not above its own, and strictly below its peer's, unless the peer already has the
  smallest priority; the reduced settings pass the node's validation whenever the regular ones
  do, and the file generated from them carries the reduced priority.
\<close>
theorem degrade_yields:
  assumes "degraded c k = Some cfg" and "(own, peer) = (if hl_PrimaryInstance c = k then (hl_Primary c, hl_Secondary c) else (hl_Secondary c, hl_Primary c))"
    and "1 \<le> hc_Priority own" and "1 \<le> hc_Priority peer"
  shows "1 \<le> hc_Priority cfg \<and> hc_Priority cfg \<le> hc_Priority own \<and> (hc_Priority cfg < hc_Priority peer \<or> hc_Priority peer = 1)
    \<and> (hc_Enabled own \<and> validate h own = None \<longrightarrow>
         validate h cfg = None \<and> [''priority'', Itoa (hc_Priority cfg)] \<in> set (words (render cfg)))"
proof -
  let ?p = "reducePriority (hc_Priority own) (hc_Priority peer)"
  have cfg: "cfg = own\<lparr>hc_Priority := ?p\<rparr>" using assms(1,2) by (auto simp: degraded_def split: if_splits)
  note b = reducePriority_bounds [OF assms(3,4)]
  have "validate h cfg = None \<and> [''priority'', Itoa (hc_Priority cfg)] \<in> set (words (render cfg))" if own: "hc_Enabled own" "validate h own = None"
  proof -
    have v: "validate h cfg = None" unfolding cfg using own b by (intro validate_priority) simp_all
    have "words (render cfg) = script cfg" using render_script [OF validate_stored [OF v]] own(1) cfg by simp
    then show ?thesis using v by (simp add: script_def)
  qed
  then show ?thesis using b cfg by simp
qed

theorem degrade_yields_witness:
  "\<exists>cfg. degraded \<lparr>hl_Enabled = True, hl_PrimaryInstance = ''a'', hl_SecondaryInstance = ''b'', hl_Primary = sampleHA,
       hl_Secondary = sampleHA\<lparr>hc_NodeRole := ''secondary'', hc_Priority := 100\<rparr>\<rparr> ''a'' = Some cfg
     \<and> hc_Priority cfg = 99 \<and> validate sampleHost cfg = None \<and> [''priority'', ''99''] \<in> set (words (render cfg))"
proof -
  let ?c = "\<lparr>hl_Enabled = True, hl_PrimaryInstance = ''a'', hl_SecondaryInstance = ''b'', hl_Primary = sampleHA,
       hl_Secondary = sampleHA\<lparr>hc_NodeRole := ''secondary'', hc_Priority := 100\<rparr>\<rparr>"
  let ?own = "sampleHA" and ?peer = "sampleHA\<lparr>hc_NodeRole := ''secondary'', hc_Priority := 100\<rparr>"
  have d: "degraded ?c ''a'' = Some (sampleHA\<lparr>hc_Priority := 99\<rparr>)"
    by (simp add: degraded_def sampleHA_def reducePriority_def haPriorityDelta_def)
  have v: "validate sampleHost sampleHA = None" by code_simp
  have i: "Itoa 99 = ''99''" by code_simp
  show ?thesis
    using degrade_yields [OF d, of ?own ?peer sampleHost] v d i by (simp add: sampleHA_def)
qed

text \<open>
  High availability cannot be switched off from the controller. The controller disables the
  pair by calling each member's disable operation and saves the disabled state only when both
  succeed; the manager on the members refuses that operation always, so the request fails for
  every pair that has a primary, and the saved cluster stays enabled.
\<close>
theorem ha_disable_impossible:
  assumes "\<forall>b. ce_HA (cl_node (fe_client env) b) = None \<or> ce_HA (cl_node (fe_client env) b) = Some (hostedManager (get b) (put b))"
    and "\<not> hl_Enabled cluster" and "hl_PrimaryInstance cluster \<noteq> [] \<or> hl_PrimaryInstance (fl_haCluster f) \<noteq> []"
  shows "\<exists>net' e. SetHACluster env cluster f net = (f, net', Some e)"
proof -
  have "\<exists>net' e. Fleet_DisableHA env c f net = (f, net', Some e)" if "hl_PrimaryInstance c \<noteq> []" for c
  proof (cases "haNode f (hl_PrimaryInstance c)")
    case (Inl e)
    then show ?thesis using that by (simp add: Fleet_DisableHA_def)
  next
    case (Inr i)
    have "snd (Client_DisableHA (fe_client env) (in_client i) net) \<noteq> None"
      by (rule Client_DisableHA_fails) (use assms(1) in blast)
    then show ?thesis using that Inr by (cases "Client_DisableHA (fe_client env) (in_client i) net") (auto simp: Fleet_DisableHA_def)
  qed
  moreover have "validateHACluster cluster = None" using assms(2) by (simp add: validateHACluster_def)
  ultimately show ?thesis using assms(2,3) by (auto simp: SetHACluster_def Let_def)
qed

definition hostedEnv :: "nat fleet_env" where
  "hostedEnv = sampleFleetEnv\<lparr>fe_client := sampleClientEnv\<lparr>cl_node := (\<lambda>_. sampleEnv\<lparr>ce_HA :=
     Some (hostedManager (\<lambda>_. (NewManager [] sampleHost, sampleHost)) (\<lambda>_ w. w))\<rparr>)\<rparr>\<rparr>"

theorem ha_disable_impossible_witness:
  "\<exists>net' e. SetHACluster hostedEnv (noCluster\<lparr>hl_PrimaryInstance := ''a''\<rparr>) updateFleet (\<lambda>_. sampleControl, 5) = (updateFleet, net', Some e)"
  by (rule ha_disable_impossible [where get = "\<lambda>_ _. (NewManager [] sampleHost, sampleHost)" and put = "\<lambda>_ _ w. w"])
     (simp_all add: hostedEnv_def noCluster_def)

text \<open>
  A failed update can be reported as done. Once the updater has been seen running, its error is
  not looked at any more: when it stops with an error and the instance, still on the old
  version, answers the health check, the update of that instance counts as successful. The
  same error seen before the first running status is reported.
\<close>
theorem failed_update_unreported:
  assumes "Client_UpdateStatus env cl net = (net1, Inr s1)" and "up_Running s1"
    and "Client_UpdateStatus env cl net1 = (net2, Inr s2)" and "\<not> up_Running s2" and "up_LastError s2 \<noteq> []"
    and "Client_Health env cl net2 = (net3, Inr x)"
  shows "updateLoop env (Suc (Suc n)) Started cl net = (net3, None)
    \<and> updateLoop env (Suc n) Started cl net1 = (net2, Some (RemoteUpdater (up_LastError s2)))"
  using assms by (simp add: nextPhase_def)

definition updatingEnv :: "nat client_env" where
  "updatingEnv = sampleClientEnv\<lparr>cl_node := (\<lambda>_. sampleEnv\<lparr>ce_Update := Some
     \<lparr>uc_Start = (\<lambda>_ w. (w, None)),
      uc_Status = (\<lambda>w. (w, \<lparr>up_Running = w < 7, up_Message = [], up_LastError = (if w < 7 then [] else ''checksum mismatch''), up_Channel = ''stable''\<rparr>))\<rparr>\<rparr>)\<rparr>"

theorem failed_update_unreported_witness:
  "snd (updateLoop updatingEnv (Suc (Suc 0)) Started (in_client sampleInstance) (\<lambda>_. sampleControl, 5)) = None"
proof -
  let ?cl = "in_client sampleInstance" and ?net = "(\<lambda>_. sampleControl, 5) :: nat net"
  obtain net1 s1 where s1: "Client_UpdateStatus updatingEnv ?cl ?net = (net1, s1)" by (metis surj_pair)
  obtain net2 s2 where s2: "Client_UpdateStatus updatingEnv ?cl net1 = (net2, s2)" by (metis surj_pair)
  obtain net3 h where h: "Client_Health updatingEnv ?cl net2 = (net3, h)" by (metis surj_pair)
  have "case snd (Client_UpdateStatus updatingEnv ?cl ?net) of Inl _ \<Rightarrow> False | Inr s \<Rightarrow> up_Running s" by code_simp
  then obtain a where a: "s1 = Inr a" "up_Running a" using s1 by (auto split: sum.splits)
  have "case snd (Client_UpdateStatus updatingEnv ?cl (fst (Client_UpdateStatus updatingEnv ?cl ?net))) of
      Inl _ \<Rightarrow> False | Inr s \<Rightarrow> \<not> up_Running s \<and> up_LastError s \<noteq> []" by code_simp
  then obtain b where b: "s2 = Inr b" "\<not> up_Running b" "up_LastError b \<noteq> []" using s1 s2 by (auto split: sum.splits)
  have "case snd (Client_Health updatingEnv ?cl (fst (Client_UpdateStatus updatingEnv ?cl (fst (Client_UpdateStatus updatingEnv ?cl ?net))))) of
      Inl _ \<Rightarrow> False | Inr _ \<Rightarrow> True" by code_simp
  then obtain x where x: "h = Inr x" using s1 s2 h by (auto split: sum.splits)
  show ?thesis
    using failed_update_unreported [OF s1 [unfolded a(1)] a(2) s2 [unfolded b(1)] b(2,3) h [unfolded x], of 0] by simp
qed

end
