(* ===== verification/Blip_Web.thy ===== *)
theory Blip_Web
  imports Blip_Import Blip_Update
begin

text \<open>
  The controller's own interface (\<open>src/internal/controller/server.go\<close>): every handler that changes the
  fleet, behind the gate of the login. Bodies appear as they decode. Pages about the query log, the event
  stream, the resolver test and the DoH profile belong to parts not modelled here; their answers
  are a parameter, and so are the embedded pages.
\<close>

subsection \<open>Requests and replies\<close>

record SettingsReq =
  sq_Scope :: string
  sq_Policy :: "WirePolicy option"
  sq_Instance :: string
  sq_Override :: "InstanceOverride option"
  sq_DoHHTTPAddr :: "string option"
  sq_RateLimitQPS :: "int option"
  sq_CacheSize :: "int option"
  sq_QueryLogRetentionHours :: "int option"
  sq_UpstreamServers :: "UpstreamServer list option"
  sq_UpstreamRoutes :: "UpstreamRoute list option"
  sq_UpstreamBootstrap :: "UpstreamServer list option"
  sq_ReleaseChannel :: "string option"

record WebBody =
  wb_auth :: AuthBody
  wb_instance :: "(string, InstanceConfig) result"
  wb_id :: "(string, string) result"
  wb_policy :: "(string, WirePolicy) result"
  wb_code :: string  \<comment> \<open>empty when the body does not decode\<close>
  wb_label :: string
  wb_records :: "(string, RecordEntry list) result"
  wb_settings :: "(string, SettingsReq) result"
  wb_cluster :: "(string, HACluster) result"
  wb_domain :: "(string, string \<times> bool) result"
  wb_sources :: "(string, string list \<times> int option \<times> bool) result"
  wb_source :: "(string, string \<times> bool) result"

datatype webError = Text string | OfClient ClientError | OfAdopt AdoptError | OfHA HAError | OfPool PoolError

text \<open>The status page: the import's state, the sources, those disabled, their figures, the hours between updates, the next update.\<close>

type_synonym statusView = "BlocklistStatus \<times> string list \<times> string list \<times> SourceStat list \<times> int \<times> time option"

datatype webReply =
    Err webError int
  | Fine
  | Pushed "(string \<times> pushResult) list"
  | PushedOne pushResult
  | Node reply
  | InstanceList "InstanceStatus list"
  | Health "(string \<times> reply option) list"
  | Job UpdateJobStatus
  | SelfStatus UpdateStatus
  | RecordList "RecordEntry list"
  | SettingsView "WirePolicy option" "(string \<times> InstanceOverride) list" string int
      "UpstreamServer list" "UpstreamRoute list" "UpstreamServer list" int int "RecordEntry list" string
  | HAView HACluster "(string \<times> (ClientError, HAStatus) result) list"
  | BlocklistView "string list" "string list" int "string list" statusView
  | SourcesView "string list" statusView
  | Status statusView
  | TextList "string list"
  | OfAuth authReply
  | Elsewhere string

record 'w web_env =
  we_auth :: "'w auth_env"
  we_import :: "'w import_env"
  we_readFile :: "string \<Rightarrow> string option"
  we_other :: "HTTPRequest \<Rightarrow> string"

record 'w Web =
  ws_auth :: Auth
  ws_im :: Importer
  ws_net :: "'w net"
  ws_self :: UpdateStatus

type_synonym 'w fleetResult = "Importer \<times> 'w net \<times> webReply"

abbreviation fenv :: "'w web_env \<Rightarrow> 'w fleet_env" where
  "fenv env \<equiv> ie_fleet (we_import env)"

definition notAllowed :: webReply where "notAllowed = Err (Text ''method not allowed'') 405"

definition withFleet :: "Importer \<Rightarrow> Fleet \<times> 'w net \<times> 'r \<Rightarrow> ('r \<Rightarrow> webReply) \<Rightarrow> 'w fleetResult" where
  "withFleet im res g = (case res of (f, net, r) \<Rightarrow> (im\<lparr>im_fleet := f\<rparr>, net, g r))"

definition orErr :: "('e \<Rightarrow> webError) \<Rightarrow> int \<Rightarrow> 'e option \<Rightarrow> webReply" where
  "orErr mk code e = (case e of None \<Rightarrow> Fine | Some x \<Rightarrow> Err (mk x) code)"

subsection \<open>Instances\<close>

definition handleInstances :: "'w web_env \<Rightarrow> HTTPRequest \<Rightarrow> WebBody \<Rightarrow> Importer \<Rightarrow> 'w net \<Rightarrow> 'w fleetResult" where
  "handleInstances env r body im net =
     (if hr_Method r = ''GET'' then (im, net, InstanceList (map (Instance_status (fenv env) (im_fleet im) \<circ> snd) (fl_instances (im_fleet im))))
      else if hr_Method r = ''POST'' then
        (case wb_instance body of
           Inl e \<Rightarrow> (im, net, Err (Text e) 400)
         | Inr cfg0 \<Rightarrow>
             let cfg = ResolveTokenFile (we_readFile env) cfg0 in
             withFleet im (Fleet_Add (fenv env) cfg (im_fleet im) net) (orErr Text 400))
      else (im, net, notAllowed))"

definition handleInstanceUpdate :: "HTTPRequest \<Rightarrow> Importer \<Rightarrow> 'w net \<Rightarrow> 'w fleetResult" where
  "handleInstanceUpdate r im net =
     (if hr_Method r = ''GET'' then (im, net, Job (fl_updateJob (im_fleet im)))
      else if hr_Method r = ''POST'' then
        (let requested = getOr (hr_Query r) ''channel'';
             channel = (if requested \<noteq> [] then requested else ReleaseChannel (im_fleet im))
         in case StartUpdates channel (im_fleet im) of
              (f, job, Some e) \<Rightarrow> (im\<lparr>im_fleet := f\<rparr>, net, Err (Text e) 409)
            | (f, job, None) \<Rightarrow> (im\<lparr>im_fleet := f\<rparr>, net, Job job))
      else (im, net, notAllowed))"

definition handleInstanceRestart :: "'w web_env \<Rightarrow> HTTPRequest \<Rightarrow> WebBody \<Rightarrow> Importer \<Rightarrow> 'w net \<Rightarrow> 'w fleetResult" where
  "handleInstanceRestart env r body im net =
     (if hr_Method r \<noteq> ''POST'' then (im, net, notAllowed)
      else case wb_id body of
             Inl e \<Rightarrow> (im, net, Err (Text e) 400)
           | Inr k \<Rightarrow>
               if k = [] then (im, net, Err (Text ''id required'') 400)
               else case RestartInstance (fenv env) k (im_fleet im) net of (net1, e) \<Rightarrow> (im, net1, orErr OfAdopt 400 e))"

definition Fleet_SetPolicy :: "'w fleet_env \<Rightarrow> string \<Rightarrow> WirePolicy \<Rightarrow> Fleet \<Rightarrow> 'w net \<Rightarrow> Fleet \<times> 'w net \<times> AdoptError option" where
  "Fleet_SetPolicy env k p f net =
     (case map_of (fl_instances f) k of
        None \<Rightarrow> (f, net, Some UnknownNode)
      | Some i \<Rightarrow>
          (case Client_SetPolicy (fe_client env) (in_client i) p net of
             (net1, Some e) \<Rightarrow> (f, net1, Some (CallFailed e))
           | (net1, None) \<Rightarrow>
               (publish (noEvent\<lparr>ev_InstanceID := k, ev_Instance := ic_Label (in_Config i), ev_Type := ''policy'',
                   ev_At := fe_now env (snd net1), ev_Msg := ''set '' @ wp_ID p, ev_Domain := wp_ID p\<rparr>) f, net1, None)))"

definition Fleet_DeletePolicy :: "'w fleet_env \<Rightarrow> string \<Rightarrow> string \<Rightarrow> Fleet \<Rightarrow> 'w net \<Rightarrow> 'w net \<times> AdoptError option" where
  "Fleet_DeletePolicy env k pid f net =
     (case map_of (fl_instances f) k of
        None \<Rightarrow> (net, Some UnknownNode)
      | Some i \<Rightarrow> (case Client_DeletePolicy (fe_client env) (in_client i) pid net of (net1, e) \<Rightarrow> (net1, map_option CallFailed e)))"

definition nodeView :: "('w fleet_env \<Rightarrow> Client \<Rightarrow> 'w net \<Rightarrow> 'w net \<times> (ClientError, reply) result) \<Rightarrow> 'w fleet_env \<Rightarrow> string
   \<Rightarrow> Importer \<Rightarrow> 'w net \<Rightarrow> 'w fleetResult" where
  "nodeView call env k im net =
     (case map_of (fl_instances (im_fleet im)) k of
        None \<Rightarrow> (im, net, Err (OfAdopt UnknownNode) 502)
      | Some i \<Rightarrow>
          (case call env (in_client i) net of
             (net1, Inl e) \<Rightarrow> (im, net1, Err (OfClient e) 502)
           | (net1, Inr x) \<Rightarrow> (im, net1, Node x)))"

definition Fleet_ListPolicies :: "'w fleet_env \<Rightarrow> string \<Rightarrow> Importer \<Rightarrow> 'w net \<Rightarrow> 'w fleetResult" where
  "Fleet_ListPolicies = nodeView (\<lambda>env. Client_ListPolicies (fe_client env))"

definition GetAdoptStatus :: "'w fleet_env \<Rightarrow> string \<Rightarrow> Importer \<Rightarrow> 'w net \<Rightarrow> 'w fleetResult" where
  "GetAdoptStatus = nodeView (\<lambda>env. Client_AdoptStatus (fe_client env))"

text \<open>The path behind \<open>/api/instances/\<close>: the instance, and what is asked of it.\<close>

definition instancePath :: "string \<Rightarrow> string \<times> string" where
  "instancePath path =
     (let rest = TrimPrefix path ''/api/instances/''
      in (takeWhile (\<lambda>c. c \<noteq> CHR ''/'') rest, drop 1 (dropWhile (\<lambda>c. c \<noteq> CHR ''/'') rest)))"

definition handleInstance :: "'w web_env \<Rightarrow> HTTPRequest \<Rightarrow> WebBody \<Rightarrow> Importer \<Rightarrow> 'w net \<Rightarrow> 'w fleetResult" where
  "handleInstance env r body im net =
     (case instancePath (hr_Path r) of (k, sub) \<Rightarrow>
      let meth = hr_Method r; f = im_fleet im in
      if sub = ''policies'' then
        (if meth \<noteq> ''GET'' then (im, net, notAllowed) else Fleet_ListPolicies (fenv env) k im net)
      else if sub = ''policy'' then
        (if meth = ''PUT'' \<or> meth = ''POST'' then
           (case wb_policy body of
              Inl e \<Rightarrow> (im, net, Err (Text e) 400)
            | Inr p \<Rightarrow> withFleet im (Fleet_SetPolicy (fenv env) k p f net) (orErr OfAdopt 502))
         else if meth = ''DELETE'' then
           (case Fleet_DeletePolicy (fenv env) k (getOr (hr_Query r) ''id'') f net of (net1, e) \<Rightarrow> (im, net1, orErr OfAdopt 502 e))
         else (im, net, notAllowed))
      else if sub = ''adopt/status'' then
        (if meth \<noteq> ''GET'' then (im, net, notAllowed) else GetAdoptStatus (fenv env) k im net)
      else if sub = ''adopt'' then
        (if meth \<noteq> ''POST'' then (im, net, notAllowed)
         else withFleet im (Adopt (fenv env) k (wb_code body) f net) (orErr OfAdopt 400))
      else if sub = ''adopt/reset'' then
        (if meth \<noteq> ''POST'' then (im, net, notAllowed)
         else withFleet im (ResetAdoption (fenv env) k f net) (orErr OfAdopt 502))
      else if sub = ''label'' then
        (if meth \<noteq> ''PUT'' then (im, net, notAllowed)
         else if wb_label body = [] then (im, net, Err (Text ''label required'') 400)
         else case SetLabel (fenv env) k (wb_label body) f net of (f1, e) \<Rightarrow> (im\<lparr>im_fleet := f1\<rparr>, net, orErr OfAdopt 502 e))
      else if sub = ''query-log'' then
        (if meth \<noteq> ''GET'' then (im, net, notAllowed) else (im, net, Elsewhere (we_other env r)))
      else if sub = [] then
        (if meth \<noteq> ''DELETE'' then (im, net, notAllowed)
         else (im\<lparr>im_fleet := Remove (fenv env) k f\<rparr>, net, Fine))
      else (im, net, Err (Text ''not found'') 404))"

definition handleRecords :: "'w web_env \<Rightarrow> HTTPRequest \<Rightarrow> WebBody \<Rightarrow> Importer \<Rightarrow> 'w net \<Rightarrow> 'w fleetResult" where
  "handleRecords env r body im net =
     (if hr_Method r = ''GET'' then (im, net, RecordList (fl_records (im_fleet im)))
      else if hr_Method r = ''PUT'' \<or> hr_Method r = ''POST'' then
        (case wb_records body of
           Inl e \<Rightarrow> (im, net, Err (Text e) 400)
         | Inr recs \<Rightarrow> withFleet im (Fleet_SetRecords (fenv env) recs (im_fleet im) net) Pushed)
      else if hr_Method r = ''DELETE'' then withFleet im (Fleet_SetRecords (fenv env) [] (im_fleet im) net) Pushed
      else (im, net, notAllowed))"

subsection \<open>Settings\<close>

definition perInstance :: "SettingsReq \<Rightarrow> bool" where
  "perInstance q \<longleftrightarrow> sq_Scope q = ''instance'' \<and> sq_Instance q \<noteq> []"

definition overrideFor :: "SettingsReq \<Rightarrow> Fleet \<Rightarrow> InstanceOverride option" where
  "overrideFor q f = map_of (fl_overrides f) (sq_Instance q)"

text \<open>One partial override laid over what the instance has; \<open>clear\<close> takes the cleared fields back out.\<close>

definition patchInstance ::
  "'w web_env \<Rightarrow> SettingsReq \<Rightarrow> InstanceOverride option \<Rightarrow> (InstanceOverride \<Rightarrow> InstanceOverride) \<Rightarrow> Importer \<Rightarrow> 'w net \<Rightarrow> 'w fleetResult" where
  "patchInstance env q partial clear im net =
     withFleet im (SetInstanceOverride (fenv env) (sq_Instance q)
         (map_option clear (mergeOverride (overrideFor q (im_fleet im)) partial)) (im_fleet im) net) PushedOne"

definition settingsDoH :: "'w web_env \<Rightarrow> SettingsReq \<Rightarrow> string \<Rightarrow> Importer \<Rightarrow> 'w net \<Rightarrow> 'w fleetResult" where
  "settingsDoH env q addr im net =
     (if addr \<noteq> [] \<and> SplitHostPort addr = None then (im, net, Err (Text ''invalid doh_http_addr: must be host:port'') 400)
      else if perInstance q then
        patchInstance env q (Some (noOverride\<lparr>io_DoHHTTPAddr := Some addr\<rparr>))
          (\<lambda>m. if addr = [] then m\<lparr>io_DoHHTTPAddr := None\<rparr> else m) im net
      else withFleet im (Fleet_SetDoHHTTPAddr (fenv env) addr (im_fleet im) net) Pushed)"

definition settingsRetention :: "'w web_env \<Rightarrow> int \<Rightarrow> Importer \<Rightarrow> 'w net \<Rightarrow> 'w fleetResult" where
  "settingsRetention env hours im net =
     (if \<not> ValidQueryLogRetentionHours hours
      then (im, net, Err (Text ''invalid query_log_retention_hours: must be 24, 168, 720, 4320 or 8760'') 400)
      else (im\<lparr>im_fleet := SetQueryLogRetention (fenv env) hours (im_fleet im)\<rparr>, net, Pushed []))"

definition settingsRate :: "'w web_env \<Rightarrow> SettingsReq \<Rightarrow> int \<Rightarrow> Importer \<Rightarrow> 'w net \<Rightarrow> 'w fleetResult" where
  "settingsRate env q raw im net =
     (let qps = (if raw < 0 then 0 else raw) in
      if perInstance q then
        patchInstance env q (Some (noOverride\<lparr>io_RateLimitQPS := Some raw\<rparr>))
          (\<lambda>m. if qps = 0 then m\<lparr>io_RateLimitQPS := None\<rparr> else m) im net
      else withFleet im (SetRateLimitQPS (fenv env) qps (im_fleet im) net) Pushed)"

definition settingsCache :: "'w web_env \<Rightarrow> SettingsReq \<Rightarrow> int \<Rightarrow> Importer \<Rightarrow> 'w net \<Rightarrow> 'w fleetResult" where
  "settingsCache env q n im net =
     (if n < 0 then (im, net, Err (Text ''cache size must be >= 0'') 400)
      else if perInstance q then
        patchInstance env q (Some (noOverride\<lparr>io_CacheSize := Some n\<rparr>))
          (\<lambda>m. if n = 0 then m\<lparr>io_CacheSize := None\<rparr> else m) im net
      else withFleet im (SetCache (fenv env) n (im_fleet im) net) Pushed)"

definition clearEmpty :: "SettingsReq \<Rightarrow> InstanceOverride \<Rightarrow> InstanceOverride" where
  "clearEmpty q m =
     (let m1 = (if sq_UpstreamServers q = Some [] then m\<lparr>io_UpstreamServers := None\<rparr> else m);
          m2 = (if sq_UpstreamRoutes q = Some [] then m1\<lparr>io_UpstreamRoutes := None\<rparr> else m1)
      in if sq_UpstreamBootstrap q = Some [] then m2\<lparr>io_UpstreamBootstrap := None\<rparr> else m2)"

text \<open>The pool an instance would build, tried before anything is saved.\<close>

definition poolError :: "UpstreamServer list \<Rightarrow> UpstreamRoute list \<Rightarrow> UpstreamServer list \<Rightarrow> PoolError option" where
  "poolError servers routes boot =
     (case snd (NewPoolWithBootstrap servers routes [] boot []) of Inl e \<Rightarrow> Some e | Inr _ \<Rightarrow> None)"

definition settingsUpstream :: "'w web_env \<Rightarrow> SettingsReq \<Rightarrow> Importer \<Rightarrow> 'w net \<Rightarrow> 'w fleetResult" where
  "settingsUpstream env q im net =
     (let f = im_fleet im in
      if perInstance q then
        let partial = noOverride\<lparr>io_UpstreamServers := sq_UpstreamServers q, io_UpstreamRoutes := sq_UpstreamRoutes q,
                                 io_UpstreamBootstrap := sq_UpstreamBootstrap q\<rparr>;
            merged = clearEmpty q (the (mergeOverride (overrideFor q f) (Some partial)))
        in case poolError (orElse (io_UpstreamServers merged) (fl_upstreamServers f)) (orElse (io_UpstreamRoutes merged) (fl_upstreamRoutes f))
                  (orElse (io_UpstreamBootstrap merged) (fl_upstreamBootstrap f)) of
             Some e \<Rightarrow> (im, net, Err (OfPool e) 400)
           | None \<Rightarrow> patchInstance env q (Some partial) (clearEmpty q) im net
      else
        let servers = orElse (sq_UpstreamServers q) (fl_upstreamServers f);
            routes = orElse (sq_UpstreamRoutes q) (fl_upstreamRoutes f);
            boot = orElse (sq_UpstreamBootstrap q) (fl_upstreamBootstrap f)
        in case poolError servers routes boot of
             Some e \<Rightarrow> (im, net, Err (OfPool e) 400)
           | None \<Rightarrow> withFleet im (Fleet_SetUpstream (fenv env) servers routes boot f net) Pushed)"

definition settingsPolicy :: "'w web_env \<Rightarrow> SettingsReq \<Rightarrow> Importer \<Rightarrow> 'w net \<Rightarrow> 'w fleetResult" where
  "settingsPolicy env q im net =
     (if perInstance q then patchInstance env q (sq_Override q) (\<lambda>m. m) im net
      else case sq_Policy q of
             None \<Rightarrow> (im, net, Err (Text ''default_policy required'') 400)
           | Some p \<Rightarrow> withFleet im (SetDefaultPolicy (fenv env) (Some p) (im_fleet im) net) Pushed)"

definition settingsView :: "Fleet \<Rightarrow> webReply" where
  "settingsView f =
     SettingsView (fl_defaultPolicy f) (fl_overrides f) (fl_dohHTTPAddr f) (fl_rateLimitQPS f) (fl_upstreamServers f)
       (fl_upstreamRoutes f) (fl_upstreamBootstrap f) (fl_cacheSize f) (QueryLogRetentionHours f) (fl_records f) (ReleaseChannel f)"

definition handleSettings :: "'w web_env \<Rightarrow> HTTPRequest \<Rightarrow> WebBody \<Rightarrow> Importer \<Rightarrow> 'w net \<Rightarrow> 'w fleetResult" where
  "handleSettings env r body im net =
     (if hr_Method r = ''GET'' then (im, net, settingsView (im_fleet im))
      else if hr_Method r \<noteq> ''PUT'' then (im, net, notAllowed)
      else case wb_settings body of
             Inl e \<Rightarrow> (im, net, Err (Text e) 400)
           | Inr q \<Rightarrow>
               (case sq_ReleaseChannel q of
                  Some channel \<Rightarrow>
                    (case SetReleaseChannel (fenv env) channel (im_fleet im) of
                       (f, e) \<Rightarrow> (im\<lparr>im_fleet := f\<rparr>, net, orErr Text 400 e))
                | None \<Rightarrow>
               (case sq_DoHHTTPAddr q of
                  Some addr \<Rightarrow> settingsDoH env q addr im net
                | None \<Rightarrow>
               (case sq_QueryLogRetentionHours q of
                  Some hours \<Rightarrow> settingsRetention env hours im net
                | None \<Rightarrow>
               (case sq_RateLimitQPS q of
                  Some qps \<Rightarrow> settingsRate env q qps im net
                | None \<Rightarrow>
               (case sq_CacheSize q of
                  Some n \<Rightarrow> settingsCache env q n im net
                | None \<Rightarrow>
                    if sq_UpstreamServers q \<noteq> None \<or> sq_UpstreamRoutes q \<noteq> None \<or> sq_UpstreamBootstrap q \<noteq> None
                    then settingsUpstream env q im net
                    else settingsPolicy env q im net))))))"

subsection \<open>High availability, cache, blocklist\<close>

definition hidePasswords :: "HACluster \<Rightarrow> HACluster" where
  "hidePasswords c = c\<lparr>hl_Primary := (hl_Primary c)\<lparr>hc_AuthPass := []\<rparr>, hl_Secondary := (hl_Secondary c)\<lparr>hc_AuthPass := []\<rparr>\<rparr>"

definition keepPasswords :: "HACluster \<Rightarrow> HACluster \<Rightarrow> HACluster" where
  "keepPasswords current c =
     (if hc_AuthPass (hl_Primary c) = [] \<and> hc_AuthPass (hl_Secondary c) = []
      then c\<lparr>hl_Primary := (hl_Primary c)\<lparr>hc_AuthPass := hc_AuthPass (hl_Primary current)\<rparr>,
             hl_Secondary := (hl_Secondary c)\<lparr>hc_AuthPass := hc_AuthPass (hl_Secondary current)\<rparr>\<rparr>
      else c)"

definition handleHighAvailability :: "'w web_env \<Rightarrow> HTTPRequest \<Rightarrow> WebBody \<Rightarrow> Importer \<Rightarrow> 'w net \<Rightarrow> 'w fleetResult" where
  "handleHighAvailability env r body im net =
     (let f = im_fleet im; cluster = fl_haCluster f in
      if hr_Method r = ''GET'' then
        (case HAStatuses (fenv env) (fl_instances f) net of (net1, sts) \<Rightarrow> (im, net1, HAView (hidePasswords cluster) sts))
      else if hr_Method r = ''PUT'' then
        (case wb_cluster body of
           Inl _ \<Rightarrow> (im, net, Err (Text ''bad request'') 400)
         | Inr c \<Rightarrow> withFleet im (SetHACluster (fenv env) (keepPasswords cluster c) f net) (orErr OfHA 400))
      else if hr_Method r = ''POST'' then
        (let action = getOr (hr_Query r) ''action'' in
         if action = ''validate'' then
           (case Fleet_ValidateHA (fenv env) cluster f net of (net1, e) \<Rightarrow> (im, net1, orErr OfHA 400 e))
         else if action = ''apply'' then withFleet im (Fleet_ApplyHA (fenv env) cluster f net) (orErr OfHA 400)
         else if action = ''disable'' then withFleet im (Fleet_DisableHA (fenv env) cluster f net) (orErr OfHA 400)
         else (im, net, Err (Text ''unknown high availability action'') 400))
      else (im, net, notAllowed))"

definition handleCachePurge :: "'w web_env \<Rightarrow> HTTPRequest \<Rightarrow> Importer \<Rightarrow> 'w net \<Rightarrow> 'w fleetResult" where
  "handleCachePurge env r im net =
     (if hr_Method r \<noteq> ''POST'' then (im, net, notAllowed)
      else withFleet im (Fleet_PurgeCache (fenv env) (im_fleet im) net) Pushed)"

text \<open>The status as shown; the count is read off the list while no import runs.\<close>

definition shownStatus :: "Importer \<Rightarrow> statusView" where
  "shownStatus im =
     (let st = im_status im; f = im_fleet im; hours = fl_autoUpdateHours f in
      (if bt_Running st then st else st\<lparr>bt_Domains := Blocklist_Count (fl_blocklist f)\<rparr>,
       fl_blocklistSources f, fl_blocklistDisabled f, im_sourceStats im, hours,
       if 0 < hours then map_option (\<lambda>t. t + hours * 3600 * Second) (bt_LastUpdate st) else None))"

definition firstN :: "string \<Rightarrow> string list \<Rightarrow> string list" where
  "firstN raw ds = (case Atoi raw of Some n \<Rightarrow> if 0 < n \<and> n < int (length ds) then take (nat n) ds else ds | None \<Rightarrow> ds)"

definition handleBlocklist :: "HTTPRequest \<Rightarrow> WebBody \<Rightarrow> Importer \<Rightarrow> Importer \<times> webReply" where
  "handleBlocklist r body im =
     (if hr_Method r = ''GET'' then
        (im, BlocklistView (firstN (getOr (hr_Query r) ''limit'') (ManualDomains (im_fleet im))) (AllowedDomains (im_fleet im))
               (Blocklist_Count (fl_blocklist (im_fleet im))) (fl_blocklistSources (im_fleet im)) (shownStatus im))
      else if hr_Method r = ''POST'' \<or> hr_Method r = ''DELETE'' then
        (case wb_domain body of
           Inl e \<Rightarrow> (im, Err (Text e) 400)
         | Inr (domain, allow) \<Rightarrow>
             if domain = [] then (im, Err (Text ''domain required'') 400)
             else if hr_Method r = ''POST'' then (fold (if allow then AddAllowed else AddManual) (Fields domain) im, Fine)
             else ((if allow then RemoveAllowed else RemoveManual) domain im, Fine))
      else (im, notAllowed))"

definition handleBlocklistExport :: "'w web_env \<Rightarrow> HTTPRequest \<Rightarrow> Importer \<Rightarrow> webReply" where
  "handleBlocklistExport env r im =
     (if hr_Method r \<noteq> ''GET'' then notAllowed else TextList (listDomains (fenv env) (fl_blocklist (im_fleet im))))"

definition handleBlocklistSources :: "'w web_env \<Rightarrow> HTTPRequest \<Rightarrow> WebBody \<Rightarrow> Importer \<Rightarrow> Importer \<times> webReply" where
  "handleBlocklistSources env r body im =
     (if hr_Method r = ''GET'' then (im, SourcesView (fl_blocklistSources (im_fleet im)) (shownStatus im))
      else if hr_Method r = ''PUT'' \<or> hr_Method r = ''POST'' then
        (case wb_sources body of
           Inl e \<Rightarrow> (im, Err (Text e) 400)
         | Inr (raw, hours, clearManual) \<Rightarrow>
             let im1 = (case hours of None \<Rightarrow> im | Some h \<Rightarrow> onFleet (SetAutoUpdateHours (fenv env) h) im);
                 urls = cleanURLs raw
             in if urls = [] then
                  let im2 = onFleet (onList (Blocklist_FromDomains [])) (SetBlocklistSources (we_import env) [] im1);
                      im3 = (if clearManual then ClearAllowed (ClearManual im2) else im2)
                  in (persistBlocklist im3, Fine)
                else (SetBlocklistSources (we_import env) urls im1, Fine))
      else (im, notAllowed))"

definition handleBlocklistStatus :: "HTTPRequest \<Rightarrow> Importer \<Rightarrow> webReply" where
  "handleBlocklistStatus r im = (if hr_Method r \<noteq> ''GET'' then notAllowed else Status (shownStatus im))"

definition handleBlocklistSource :: "'w web_env \<Rightarrow> HTTPRequest \<Rightarrow> WebBody \<Rightarrow> Importer \<Rightarrow> Importer \<times> webReply" where
  "handleBlocklistSource env r body im =
     (if hr_Method r \<noteq> ''POST'' then (im, notAllowed)
      else case wb_source body of
             Inl e \<Rightarrow> (im, Err (Text e) 400)
           | Inr (raw, enabled) \<Rightarrow>
               let url = TrimSpace raw in
               if url = [] then (im, Err (Text ''url required'') 400)
               else (SetBlocklistSourceEnabled (we_import env) url enabled im, Fine))"

subsection \<open>The controller's own update\<close>

definition SelfUpdater_StartUpdate :: "string \<Rightarrow> UpdateStatus \<Rightarrow> UpdateStatus \<times> string option" where
  "SelfUpdater_StartUpdate channel u =
     (if \<not> ValidUpdateChannel channel then (u, Some ''channel must be stable or dev'')
      else if up_Running u then (u, Some ''update already running'')
      else (\<lparr>up_Running = True, up_Message = ''downloading blipc'', up_LastError = [], up_Channel = channel\<rparr>, None))"

definition handleSelfUpdate :: "HTTPRequest \<Rightarrow> UpdateStatus \<Rightarrow> UpdateStatus \<times> webReply" where
  "handleSelfUpdate r u =
     (if hr_Method r = ''GET'' then (u, SelfStatus u)
      else if hr_Method r = ''POST'' then
        (let channel = getOr (hr_Query r) ''channel'' in
         if \<not> ValidUpdateChannel channel then (u, Err (Text ''channel must be stable or dev'') 400)
         else case SelfUpdater_StartUpdate channel u of
                (u1, Some e) \<Rightarrow> (u1, Err (Text e) 409)
              | (u1, None) \<Rightarrow> (u1, SelfStatus u1))
      else (u, notAllowed))"

subsection \<open>Dispatch\<close>

text \<open>Paths answered by parts that are not modelled; they do not change what is.\<close>

definition otherPaths :: "string list" where
  "otherPaths =
     [''/api/queries'', ''/api/upstream-errors'', ''/api/upstream/test'', ''/api/clients'', ''/api/client-names'', ''/api/stats'',
      ''/api/top-domains'', ''/api/cache-stats'', ''/api/maintenance'', ''/api/events'', ''/api/doh-mobileconfig'', ''/api/blocklist/clear-log'']"

definition onIm :: "'w Web \<Rightarrow> 'w fleetResult \<Rightarrow> 'w Web \<times> webReply" where
  "onIm ws res = (case res of (im, net, x) \<Rightarrow> (ws\<lparr>ws_im := im, ws_net := net\<rparr>, x))"

definition gatedAPI :: "'w web_env \<Rightarrow> HTTPRequest \<Rightarrow> WebBody \<Rightarrow> 'w Web \<Rightarrow> ('w Web \<times> webReply) option" where
  "gatedAPI env r body ws =
     (let p = hr_Path r; im = ws_im ws; net = ws_net ws; keepNet = (\<lambda>(im', x). (im', net, x)) in
      if p = ''/api/instances'' then Some (onIm ws (handleInstances env r body im net))
      else if p = ''/api/instances/update'' then Some (onIm ws (handleInstanceUpdate r im net))
      else if p = ''/api/instances/restart'' then Some (onIm ws (handleInstanceRestart env r body im net))
      else if HasPrefix p ''/api/instances/'' then Some (onIm ws (handleInstance env r body im net))
      else if p = ''/api/records'' then Some (onIm ws (handleRecords env r body im net))
      else if p = ''/api/settings'' then Some (onIm ws (handleSettings env r body im net))
      else if p = ''/api/update'' then Some (case handleSelfUpdate r (ws_self ws) of (u, x) \<Rightarrow> (ws\<lparr>ws_self := u\<rparr>, x))
      else if p = ''/api/high-availability'' then Some (onIm ws (handleHighAvailability env r body im net))
      else if p = ''/api/cache/purge'' then Some (onIm ws (handleCachePurge env r im net))
      else if p = ''/api/health'' then Some (ws, Health (map (\<lambda>(k, i). (k, in_health i)) (fl_instances (im_fleet im))))
      else if p = ''/api/blocklist'' then Some (onIm ws (keepNet (handleBlocklist r body im)))
      else if p = ''/api/blocklist/export'' then Some (ws, handleBlocklistExport env r im)
      else if p = ''/api/blocklist/sources'' then Some (onIm ws (keepNet (handleBlocklistSources env r body im)))
      else if p = ''/api/blocklist/source'' then Some (onIm ws (keepNet (handleBlocklistSource env r body im)))
      else if p = ''/api/blocklist/status'' then Some (ws, handleBlocklistStatus r im)
      else if p \<in> set otherPaths then Some (ws, Elsewhere (we_other env r))
      else None)"

definition onAuth :: "'w Web \<Rightarrow> Auth \<Rightarrow> 'w \<Rightarrow> authReply \<Rightarrow> 'w Web \<times> webReply" where
  "onAuth ws a w x = (ws\<lparr>ws_auth := a, ws_net := (fst (ws_net ws), w)\<rparr>, OfAuth x)"

text \<open>
  The path \<open>configPath\<close> and the token of the first run are the server's own. A path that is not of the interface
  is a page.
\<close>

definition serveAPI ::
  "'w web_env \<Rightarrow> string \<Rightarrow> string \<Rightarrow> HTTPRequest \<Rightarrow> string option \<Rightarrow> WebBody \<Rightarrow> 'w Web \<Rightarrow> 'w Web \<times> webReply" where
  "serveAPI env configPath token r cookie body ws =
     (let a = ws_auth ws; w = snd (ws_net ws); f = im_fleet (ws_im ws) in
      if hr_Path r = ''/api/login'' then
        (case handleLogin (we_auth env) r (wb_auth body) a w of (a1, w1, x) \<Rightarrow> onAuth ws a1 w1 x)
      else if hr_Path r = ''/api/setup'' then
        (case handleSetup (we_auth env) configPath token r (wb_auth body) a (fl_file f) w of
           (a1, y, w1, x) \<Rightarrow> onAuth (ws\<lparr>ws_im := onFleet (\<lambda>f. f\<lparr>fl_file := y\<rparr>) (ws_im ws)\<rparr>) a1 w1 x)
      else if hr_Path r = ''/api/logout'' then
        (case handleLogout r cookie a of (a1, x) \<Rightarrow> onAuth ws a1 w x)
      else if hr_Path r = ''/api/keys'' then
        (case handleAPIKeys (we_auth env) r cookie (wb_auth body) a w of (a1, w1, x) \<Rightarrow> onAuth ws a1 w1 x)
      else if Option.is_none (gatedAPI env r body ws) then (ws, Elsewhere [])
      else
        case requireAuth r cookie (ae_now (we_auth env) w) a of
          (a1, False) \<Rightarrow> (ws\<lparr>ws_auth := a1\<rparr>, Err (Text ''unauthorized'') 401)
        | (a1, True) \<Rightarrow> the (gatedAPI env r body (ws\<lparr>ws_auth := a1\<rparr>)))"

subsection \<open>Only a signed-in operator changes anything\<close>

lemma setup_file:
  assumes "handleSetup env path token r body a y w = (a', y', w', x)"
  shows "y' = y \<or> (\<exists>user hash. \<not> au_configured a \<and> token \<noteq> [] \<and> (\<exists>user0 pass. ab_setup body = Inr (token, user0, pass, pass))
    \<and> persistCredentials (ae_writable env) user hash y = Some y')"
proof (cases "hr_Method r \<noteq> ''POST'' \<or> au_configured a \<or> (\<exists>e. ab_setup body = Inl e)")
  case True
  then show ?thesis using assms by (auto simp: handleSetup_def split: if_splits)
next
  case False
  then obtain t user0 pass confirm where b: "ab_setup body = Inr (t, user0, pass, confirm)" "hr_Method r = ''POST''" "\<not> au_configured a"
    by (cases "ab_setup body") auto
  show ?thesis
  proof (cases "token = [] \<or> t \<noteq> token \<or> pass \<noteq> confirm")
    case True
    then show ?thesis using assms b by (auto simp: handleSetup_def Let_def split: if_splits)
  next
    case ok: False
    obtain w1 oh where g: "ae_generate env pass w = (w1, oh)" by fastforce
    show ?thesis
    proof (cases "oh = None \<or> persistCredentials (ae_writable env) (TrimSpace user0) (the oh) y = None")
      case True
      then show ?thesis using assms b ok g by (cases oh) (auto simp: handleSetup_def Let_def split: if_splits)
    next
      case False
      then obtain hash y1 where h: "oh = Some hash" "persistCredentials (ae_writable env) (TrimSpace user0) hash y = Some y1" by auto
      obtain a1 done1 where c: "Configure env (TrimSpace user0) hash a = (a1, done1)" by fastforce
      obtain a2 w2 z where L: "Login env (TrimSpace user0) pass (ClientIP r) a1 w1 = (a2, w2, z)" using prod_cases3 by blast
      have "y' = y \<or> y' = y1"
        using assms b ok g h c L by (cases done1; cases z) (auto simp: handleSetup_def Let_def split: if_splits)
      then show ?thesis using b ok h by auto
    qed
  qed
qed

text \<open>Everything the interface manages besides the sessions: fleet, lists, store, instances, the controller's update.\<close>

definition managed :: "'w Web \<Rightarrow> Importer \<times> (string \<Rightarrow> Control) \<times> UpdateStatus" where
  "managed ws = (ws_im ws, fst (ws_net ws), ws_self ws)"

definition setFile :: "yamlFile \<Rightarrow> Importer \<Rightarrow> Importer" where
  "setFile y = onFleet (\<lambda>f. f\<lparr>fl_file := y\<rparr>)"

lemma setFile_same: "setFile (fl_file (im_fleet im)) im = im"
  by (simp add: setFile_def onFleet_def)

text \<open>
  C9. The whole interface is behind the login. A request that carries neither a live session nor a live key changes nothing of what the
  controller manages (settings, instances, lists, store, configuration file, updates), on whatever path; the one exception is the
  first-run setup with the setup token, which writes the new credentials into the file. And without a
  live session no key is minted or revoked, key or no key.
\<close>

theorem web_gate:
  assumes "serveAPI env path token r cookie body ws = (ws', x)"
  shows "(\<not> snd (requireAuth r cookie (ae_now (we_auth env) (snd (ws_net ws))) (ws_auth ws)) \<longrightarrow>
        managed ws' = managed ws
        \<or> (hr_Path r = ''/api/setup'' \<and> \<not> au_configured (ws_auth ws) \<and> token \<noteq> []
            \<and> (\<exists>user0 pass. ab_setup (wb_auth body) = Inr (token, user0, pass, pass))
            \<and> (\<exists>user hash y. persistCredentials (ae_writable (we_auth env)) user hash (fl_file (im_fleet (ws_im ws))) = Some y
                 \<and> managed ws' = (setFile y (ws_im ws), fst (ws_net ws), ws_self ws))))
    \<and> (hr_Path r = ''/api/keys'' \<and> \<not> snd (Authed cookie (ae_now (we_auth env) (snd (ws_net ws))) (ws_auth ws)) \<longrightarrow>
        au_keys (ws_auth ws') = au_keys (ws_auth ws) \<and> x = OfAuth (Refused ''unauthorized'' 401))"
proof -
  let ?a = "ws_auth ws" and ?w = "snd (ws_net ws)"
  have keys: "au_keys (ws_auth ws') = au_keys ?a \<and> x = OfAuth (Refused ''unauthorized'' 401)"
    if "hr_Path r = ''/api/keys''" "\<not> snd (Authed cookie (ae_now (we_auth env) ?w) ?a)"
  proof (cases "Authed cookie (ae_now (we_auth env) ?w) ?a")
    case (Pair a1 ok)
    have "au_keys a1 = au_keys ?a" using Pair by (auto simp: Authed_def split: option.splits if_splits)
    then show ?thesis using assms that Pair by (auto simp: serveAPI_def handleAPIKeys_def onAuth_def Let_def)
  qed
  consider (first_run) "hr_Path r = ''/api/setup''" | (auth) "hr_Path r \<in> {''/api/login'', ''/api/logout'', ''/api/keys''}"
    | (rest) "hr_Path r \<notin> {''/api/login'', ''/api/setup'', ''/api/logout'', ''/api/keys''}" by blast
  then have "\<not> snd (requireAuth r cookie (ae_now (we_auth env) ?w) ?a) \<longrightarrow> managed ws' = managed ws
        \<or> (hr_Path r = ''/api/setup'' \<and> \<not> au_configured ?a \<and> token \<noteq> []
            \<and> (\<exists>user0 pass. ab_setup (wb_auth body) = Inr (token, user0, pass, pass))
            \<and> (\<exists>user hash y. persistCredentials (ae_writable (we_auth env)) user hash (fl_file (im_fleet (ws_im ws))) = Some y
                 \<and> managed ws' = (setFile y (ws_im ws), fst (ws_net ws), ws_self ws)))"
  proof cases
    case first_run
    obtain a1 y w1 x1 where h: "handleSetup (we_auth env) path token r (wb_auth body) ?a (fl_file (im_fleet (ws_im ws))) ?w = (a1, y, w1, x1)"
      by (metis prod_cases4)
    then have "managed ws' = (setFile y (ws_im ws), fst (ws_net ws), ws_self ws)"
      using assms first_run by (auto simp: serveAPI_def onAuth_def managed_def setFile_def Let_def)
    then show ?thesis using setup_file [OF h] first_run setFile_same [of "ws_im ws"] by (auto simp: managed_def)
  next
    case auth
    then show ?thesis using assms by (auto simp: serveAPI_def onAuth_def managed_def Let_def split: prod.splits)
  next
    case rest
    then show ?thesis
      using assms by (cases "requireAuth r cookie (ae_now (we_auth env) ?w) ?a")
        (auto simp: serveAPI_def managed_def Let_def split: if_splits)
  qed
  then show ?thesis using keys by blast
qed

subsection \<open>What a settings request does\<close>

text \<open>
  The specification: what the operator has asked for, without instances, file, or the way overrides are stored. An override is a
  function of the instance, \<open>noOverride\<close> where nothing is overridden.
\<close>

record Desired =
  d_Policy :: "WirePolicy option"
  d_Override :: "string \<Rightarrow> InstanceOverride"
  d_DoH :: string
  d_Rate :: int
  d_Cache :: int
  d_CacheSet :: bool
  d_Servers :: "UpstreamServer list"
  d_Routes :: "UpstreamRoute list"
  d_Bootstrap :: "UpstreamServer list"
  d_Retention :: int
  d_Records :: "RecordEntry list"
  d_Channel :: string

definition desiredOf :: "Fleet \<Rightarrow> Desired" where
  "desiredOf f =
     \<lparr>d_Policy = fl_defaultPolicy f, d_Override = overrideOf f, d_DoH = fl_dohHTTPAddr f, d_Rate = fl_rateLimitQPS f,
      d_Cache = fl_cacheSize f, d_CacheSet = fl_cacheConfigured f, d_Servers = fl_upstreamServers f, d_Routes = fl_upstreamRoutes f,
      d_Bootstrap = fl_upstreamBootstrap f, d_Retention = QueryLogRetentionHours f, d_Records = fl_records f, d_Channel = ReleaseChannel f\<rparr>"

definition given :: "'a option \<Rightarrow> 'a option \<Rightarrow> 'a option" where
  "given x old = (if x = None then old else x)"

definition givenList :: "'a list option \<Rightarrow> 'a list option \<Rightarrow> 'a list option" where
  "givenList x old = (if x = Some [] then None else given x old)"

definition overlaid :: "InstanceOverride \<Rightarrow> InstanceOverride \<Rightarrow> InstanceOverride" where
  "overlaid p e =
     \<lparr>io_Upstream = given (io_Upstream p) (io_Upstream e), io_BlockAction = given (io_BlockAction p) (io_BlockAction e),
      io_Log = given (io_Log p) (io_Log e), io_DoHHTTPAddr = given (io_DoHHTTPAddr p) (io_DoHHTTPAddr e),
      io_RateLimitQPS = given (io_RateLimitQPS p) (io_RateLimitQPS e), io_UpstreamServers = given (io_UpstreamServers p) (io_UpstreamServers e),
      io_UpstreamRoutes = given (io_UpstreamRoutes p) (io_UpstreamRoutes e),
      io_UpstreamBootstrap = given (io_UpstreamBootstrap p) (io_UpstreamBootstrap e),
      io_CacheSize = given (io_CacheSize p) (io_CacheSize e), io_Records = given (io_Records p) (io_Records e)\<rparr>"

definition mapOverride :: "string \<Rightarrow> (InstanceOverride \<Rightarrow> InstanceOverride) \<Rightarrow> Desired \<Rightarrow> Desired" where
  "mapOverride k g d = d\<lparr>d_Override := (d_Override d)(k := g (d_Override d k))\<rparr>"

definition newUpstream :: "SettingsReq \<Rightarrow> Desired \<Rightarrow> Desired" where
  "newUpstream q d =
     (if perInstance q
      then mapOverride (sq_Instance q) (\<lambda>e. e\<lparr>io_UpstreamServers := givenList (sq_UpstreamServers q) (io_UpstreamServers e),
             io_UpstreamRoutes := givenList (sq_UpstreamRoutes q) (io_UpstreamRoutes e),
             io_UpstreamBootstrap := givenList (sq_UpstreamBootstrap q) (io_UpstreamBootstrap e)\<rparr>) d
      else d\<lparr>d_Servers := orElse (sq_UpstreamServers q) (d_Servers d), d_Routes := orElse (sq_UpstreamRoutes q) (d_Routes d),
             d_Bootstrap := orElse (sq_UpstreamBootstrap q) (d_Bootstrap d)\<rparr>)"

definition poolOf :: "string option \<Rightarrow> Desired \<Rightarrow> PoolError option" where
  "poolOf who d =
     (let ov = (case who of None \<Rightarrow> noOverride | Some k \<Rightarrow> d_Override d k)
      in poolError (orElse (io_UpstreamServers ov) (d_Servers d)) (orElse (io_UpstreamRoutes ov) (d_Routes d))
           (orElse (io_UpstreamBootstrap ov) (d_Bootstrap d)))"

text \<open>The first field present decides; \<open>None\<close> is a rejected request.\<close>

definition settingsSpec :: "SettingsReq \<Rightarrow> Desired \<Rightarrow> Desired option" where
  "settingsSpec q d =
     (let one = perInstance q; k = sq_Instance q in
      if sq_ReleaseChannel q \<noteq> None then
        (if ValidUpdateChannel (the (sq_ReleaseChannel q)) then Some (d\<lparr>d_Channel := the (sq_ReleaseChannel q)\<rparr>) else None)
      else if sq_DoHHTTPAddr q \<noteq> None then
        (let addr = the (sq_DoHHTTPAddr q) in
         if addr \<noteq> [] \<and> SplitHostPort addr = None then None
         else if one then Some (mapOverride k (\<lambda>e. e\<lparr>io_DoHHTTPAddr := (if addr = [] then None else Some addr)\<rparr>) d)
         else Some (d\<lparr>d_DoH := addr\<rparr>))
      else if sq_QueryLogRetentionHours q \<noteq> None then
        (let h = the (sq_QueryLogRetentionHours q)
         in if h \<in> {24, 168, 720, 4320, 8760} then Some (d\<lparr>d_Retention := h\<rparr>) else None)
      else if sq_RateLimitQPS q \<noteq> None then
        (let n = max 0 (the (sq_RateLimitQPS q)) in
         if one then Some (mapOverride k (\<lambda>e. e\<lparr>io_RateLimitQPS := (if n = 0 then None else Some n)\<rparr>) d)
         else Some (d\<lparr>d_Rate := n\<rparr>))
      else if sq_CacheSize q \<noteq> None then
        (let n = the (sq_CacheSize q) in
         if n < 0 then None
         else if one then Some (mapOverride k (\<lambda>e. e\<lparr>io_CacheSize := (if n = 0 then None else Some n)\<rparr>) d)
         else Some (d\<lparr>d_Cache := n, d_CacheSet := True\<rparr>))
      else if sq_UpstreamServers q \<noteq> None \<or> sq_UpstreamRoutes q \<noteq> None \<or> sq_UpstreamBootstrap q \<noteq> None then
        (let d' = newUpstream q d
         in if poolOf (if one then Some k else None) d' = None then Some d' else None)
      else if one then Some (case sq_Override q of None \<Rightarrow> d | Some p \<Rightarrow> mapOverride k (overlaid p) d)
      else map_option (\<lambda>p. d\<lparr>d_Policy := Some (p\<lparr>wp_ID := ''default''\<rparr>)\<rparr>) (sq_Policy q))"

text \<open>What no settings request may touch.\<close>

definition besides where
  "besides f = (map (\<lambda>(k, i). (k, in_Config i, in_client i)) (fl_instances f), fl_blocklist f, fl_blocklistSources f, fl_blocklistDisabled f,
     fl_manualDomains f, fl_manualAllowed f, fl_haCluster f, fl_updateJob f)"

lemma desiredOf_stored [simp]:
  "desiredOf (f\<lparr>fl_file := y\<rparr>) = desiredOf f" "desiredOf (f\<lparr>fl_instances := is\<rparr>) = desiredOf f"
  by (simp_all add: desiredOf_def overrideOf_def QueryLogRetentionHours_def ReleaseChannel_def fun_eq_iff)

lemma saved_only_file: "\<exists>y. savedQuietly env f = f\<lparr>fl_file := y\<rparr>"
  by (cases "fl_file f") (auto simp: savedQuietly_def saveConfig_def Let_def intro: exI [of _ "fl_file f"])

lemma desiredOf_saved [simp]: "desiredOf (savedQuietly env f) = desiredOf f"
  using saved_only_file [of env f] by (metis desiredOf_stored(1))

lemma besides_saved [simp]: "besides (savedQuietly env f) = besides f"
  using saved_only_file [of env f] by (auto simp: besides_def)

text \<open>A push leaves an instance's identity and the desired state alone.\<close>

definition keepsWho :: "(Instance \<Rightarrow> 'w net \<Rightarrow> Instance \<times> 'w net \<times> pushResult) \<Rightarrow> bool" where
  "keepsWho g \<longleftrightarrow> (\<forall>i net. in_Config (fst (g i net)) = in_Config i \<and> in_client (fst (g i net)) = in_client i)"

lemma forInstances_who:
  "keepsWho g \<Longrightarrow> map (\<lambda>(k, i). (k, in_Config i, in_client i)) (fst (forInstances g is net)) = map (\<lambda>(k, i). (k, in_Config i, in_client i)) is"
proof (induction g "is" net rule: forInstances.induct)
  case (2 g k i "is" net)
  obtain i1 net1 r where g: "g i net = (i1, net1, r)" using prod_cases3 by blast
  have "in_Config i1 = in_Config i" "in_client i1 = in_client i" using 2(2) g unfolding keepsWho_def by (metis fst_conv)+
  then show ?case using 2 g by (auto simp: case_prod_beta)
qed simp

lemma pushEach_frame:
  assumes "keepsWho g" and "pushEach g f net = (f', net', rs)"
  shows "desiredOf f' = desiredOf f" and "besides f' = besides f"
proof -
  obtain "is" where f': "f' = f\<lparr>fl_instances := is\<rparr>" and "is": "is = fst (forInstances g (fl_instances f) net)"
    using assms(2) by (auto simp: pushEach_def split: prod.splits)
  show "desiredOf f' = desiredOf f" by (simp add: f')
  show "besides f' = besides f" using forInstances_who [OF assms(1)] by (simp add: f' "is" besides_def)
qed

lemma keepsWho_adopted [simp]: "keepsWho (adoptedOnly call)"
  by (auto simp: keepsWho_def adoptedOnly_def split: prod.splits option.splits)

lemma pushes_frame:
  "pushDoH env f net = (f', net', rs) \<Longrightarrow> desiredOf f' = desiredOf f \<and> besides f' = besides f"
  "pushRateLimit env f net = (f', net', rs) \<Longrightarrow> desiredOf f' = desiredOf f \<and> besides f' = besides f"
  "pushCache env f net = (f', net', rs) \<Longrightarrow> desiredOf f' = desiredOf f \<and> besides f' = besides f"
  "pushUpstream env f net = (f', net', rs) \<Longrightarrow> desiredOf f' = desiredOf f \<and> besides f' = besides f"
  "pushConfigs env f net = (f', net', rs) \<Longrightarrow> desiredOf f' = desiredOf f \<and> besides f' = besides f"
  unfolding pushDoH_def pushRateLimit_def pushCache_def pushUpstream_def pushConfigs_def
  by (intro conjI; erule pushEach_frame [rotated];
      auto simp: keepsWho_def adoptedOnly_def markConfigAppliedWith_def split: prod.splits option.splits)+

lemma pushInstance_frame:
  assumes "pushInstance env k f net = (f', net', res)"
  shows "desiredOf f' = desiredOf f \<and> besides f' = besides f"
proof (cases "map_of (fl_instances f) k")
  case (Some i)
  have "f' = f \<or> (\<exists>h u. f' = f\<lparr>fl_instances := AList.update k (markConfigAppliedWith h u i) (fl_instances f)\<rparr>)"
    using assms Some by (auto simp: pushInstance_def Let_def split: prod.splits option.splits if_splits)
  moreover have "map (\<lambda>(k, i). (k, in_Config i, in_client i)) (AList.update k (markConfigAppliedWith h u i) xs)
      = map (\<lambda>(k, i). (k, in_Config i, in_client i)) xs" if "map_of xs k = Some i" for h u xs
    using that by (induction xs) (auto simp: markConfigAppliedWith_def split: if_splits)
  ultimately show ?thesis using Some by (auto simp: besides_def)
qed (use assms in \<open>simp add: pushInstance_def\<close>)

lemma IsEmpty_iff: "IsEmpty (Some ov) \<longleftrightarrow> ov = noOverride"
  by (cases ov) (simp add: IsEmpty_def noOverride_def)

lemma overlaid_none [simp]: "overlaid p noOverride = p"
  by (cases p) (simp add: overlaid_def noOverride_def given_def)

lemma mergeOverride_overlaid: "mergeOverride (overrideFor q f) (Some p) = Some (overlaid p (overrideOf f (sq_Instance q)))"
proof (cases "overrideFor q f")
  case (Some e)
  then have e: "overrideOf f (sq_Instance q) = e" by (simp add: overrideFor_def overrideOf_def)
  show ?thesis by (cases e) (simp add: e mergeOverride_def Some overlaid_def given_def split: option.split)
qed (simp add: mergeOverride_def overrideOf_def overrideFor_def)

lemma SetInstanceOverride_spec:
  assumes "SetInstanceOverride env k oo f net = (f', net', res)"
  shows "desiredOf f' = mapOverride k (\<lambda>_. orElse oo noOverride) (desiredOf f) \<and> besides f' = besides f"
proof -
  define f1 where "f1 = (if IsEmpty oo then f\<lparr>fl_overrides := AList.delete k (fl_overrides f)\<rparr>
                          else f\<lparr>fl_overrides := AList.update k (the oo) (fl_overrides f)\<rparr>)"
  have "pushInstance env k (savedQuietly env f1) net = (f', net', res)"
    using assms by (cases oo) (simp_all add: SetInstanceOverride_def f1_def IsEmpty_def [of None] split: if_splits)
  from pushInstance_frame [OF this] have f': "desiredOf f' = desiredOf f1" "besides f' = besides f1" by simp_all
  have "overrideOf f1 = (overrideOf f)(k := orElse oo noOverride)"
    by (cases oo) (auto simp: f1_def overrideOf_def update_conv' delete_conv' IsEmpty_iff IsEmpty_def [of None] fun_eq_iff)
  then have "desiredOf f1 = mapOverride k (\<lambda>_. orElse oo noOverride) (desiredOf f)"
    by (simp add: desiredOf_def mapOverride_def f1_def QueryLogRetentionHours_def ReleaseChannel_def)
  then show ?thesis using f' by (simp add: f1_def besides_def)
qed

definition settled :: "Importer \<Rightarrow> Importer \<Rightarrow> Desired \<Rightarrow> bool" where
  "settled im im' d \<longleftrightarrow> desiredOf (im_fleet im') = d \<and> besides (im_fleet im') = besides (im_fleet im) \<and> im'\<lparr>im_fleet := im_fleet im\<rparr> = im"

definition accepted :: "Importer \<Rightarrow> 'w fleetResult \<Rightarrow> Desired \<Rightarrow> bool" where
  "accepted im res d \<longleftrightarrow> settled im (fst res) d \<and> (\<forall>e code. snd (snd res) \<noteq> Err e code)"

lemma patchInstance_spec:
  "accepted im (patchInstance env q (Some p) clear im net)
     (mapOverride (sq_Instance q) (\<lambda>e. clear (overlaid p e)) (desiredOf (im_fleet im)))"
proof -
  obtain f' net' res where s: "SetInstanceOverride (fenv env) (sq_Instance q)
      (Some (clear (overlaid p (overrideOf (im_fleet im) (sq_Instance q))))) (im_fleet im) net = (f', net', res)" using prod_cases3 by blast
  from SetInstanceOverride_spec [OF s] show ?thesis
    by (simp add: accepted_def settled_def patchInstance_def mergeOverride_overlaid withFleet_def s mapOverride_def) (simp add: desiredOf_def)
qed

lemma patchInstance_none: "accepted im (patchInstance env q None (\<lambda>m. m) im net) (desiredOf (im_fleet im))"
proof -
  obtain f' net' res where s: "SetInstanceOverride (fenv env) (sq_Instance q) (overrideFor q (im_fleet im)) (im_fleet im) net = (f', net', res)"
    using prod_cases3 by blast
  have m: "mergeOverride (overrideFor q (im_fleet im)) None = overrideFor q (im_fleet im)" by (simp add: mergeOverride_def)
  have "orElse (overrideFor q (im_fleet im)) noOverride = d_Override (desiredOf (im_fleet im)) (sq_Instance q)"
    by (simp add: desiredOf_def overrideOf_def overrideFor_def orElse_def)
  then show ?thesis using SetInstanceOverride_spec [OF s]
    by (simp add: accepted_def settled_def patchInstance_def withFleet_def m s mapOverride_def option.map_ident)
qed

lemma pushed_accepted:
  assumes "\<And>f' net' rs. push f net = (f', net', rs) \<Longrightarrow> desiredOf f' = d \<and> besides f' = besides (im_fleet im)"
  shows "accepted im (withFleet im (push f net) Pushed) d"
  using assms by (cases "push f net") (auto simp: accepted_def settled_def withFleet_def)

lemmas fleet_setters = SetDoHDefault_def SetRateLimitQPSDefault_def SetCacheDefault_def SetUpstreamDefault_def SetDefault_def
  SetQueryLogRetentionDefault_def

lemma desiredOf_set:
  "desiredOf (SetDoHDefault a f) = (desiredOf f)\<lparr>d_DoH := a\<rparr>"
  "desiredOf (SetRateLimitQPSDefault n f) = (desiredOf f)\<lparr>d_Rate := max 0 n\<rparr>"
  "0 \<le> n \<Longrightarrow> desiredOf (SetCacheDefault n f) = (desiredOf f)\<lparr>d_Cache := n, d_CacheSet := True\<rparr>"
  "desiredOf (SetUpstreamDefault sv rt bt f) = (desiredOf f)\<lparr>d_Servers := sv, d_Routes := rt, d_Bootstrap := bt\<rparr>"
  "desiredOf (SetDefault (Some p) f) = (desiredOf f)\<lparr>d_Policy := Some (p\<lparr>wp_ID := ''default''\<rparr>)\<rparr>"
  "0 < n \<Longrightarrow> desiredOf (SetQueryLogRetentionDefault n f) = (desiredOf f)\<lparr>d_Retention := n\<rparr>"
  "ValidUpdateChannel c \<Longrightarrow> desiredOf (f\<lparr>fl_releaseChannel := c\<rparr>) = (desiredOf f)\<lparr>d_Channel := c\<rparr>"
  by (simp_all add: desiredOf_def fleet_setters overrideOf_def QueryLogRetentionHours_def ReleaseChannel_def fun_eq_iff)

lemma besides_set:
  "besides (SetDoHDefault a f) = besides f" "besides (SetRateLimitQPSDefault n f) = besides f" "besides (SetCacheDefault n f) = besides f"
  "besides (SetUpstreamDefault sv rt bt f) = besides f" "besides (SetDefault p f) = besides f"
  "besides (SetQueryLogRetentionDefault n f) = besides f" "besides (f\<lparr>fl_releaseChannel := c\<rparr>) = besides f"
  by (simp_all add: besides_def fleet_setters)

lemma fleetwide_accepted:
  "accepted im (withFleet im (Fleet_SetDoHHTTPAddr env a (im_fleet im) net) Pushed) ((desiredOf (im_fleet im))\<lparr>d_DoH := a\<rparr>)"
  "accepted im (withFleet im (SetRateLimitQPS env n (im_fleet im) net) Pushed) ((desiredOf (im_fleet im))\<lparr>d_Rate := max 0 n\<rparr>)"
  "0 \<le> n \<Longrightarrow> accepted im (withFleet im (SetCache env n (im_fleet im) net) Pushed) ((desiredOf (im_fleet im))\<lparr>d_Cache := n, d_CacheSet := True\<rparr>)"
  "accepted im (withFleet im (Fleet_SetUpstream env sv rt bt (im_fleet im) net) Pushed)
     ((desiredOf (im_fleet im))\<lparr>d_Servers := sv, d_Routes := rt, d_Bootstrap := bt\<rparr>)"
  "accepted im (withFleet im (SetDefaultPolicy env (Some p) (im_fleet im) net) Pushed)
     ((desiredOf (im_fleet im))\<lparr>d_Policy := Some (p\<lparr>wp_ID := ''default''\<rparr>)\<rparr>)"
  unfolding Fleet_SetDoHHTTPAddr_def SetRateLimitQPS_def SetCache_def Fleet_SetUpstream_def SetDefaultPolicy_def
  by (rule pushed_accepted; drule pushes_frame; simp add: desiredOf_set besides_set)+

lemma accepted_patch:
  assumes "\<And>e. clear (overlaid p e) = g e"
  shows "accepted im (patchInstance env q (Some p) clear im net) (mapOverride (sq_Instance q) g (desiredOf (im_fleet im)))"
  using patchInstance_spec [of im env q p clear net] assms by simp

lemma overlaid_one:
  "overlaid (noOverride\<lparr>io_DoHHTTPAddr := Some a\<rparr>) e = e\<lparr>io_DoHHTTPAddr := Some a\<rparr>"
  "overlaid (noOverride\<lparr>io_RateLimitQPS := Some n\<rparr>) e = e\<lparr>io_RateLimitQPS := Some n\<rparr>"
  "overlaid (noOverride\<lparr>io_CacheSize := Some n\<rparr>) e = e\<lparr>io_CacheSize := Some n\<rparr>"
  "overlaid (noOverride\<lparr>io_UpstreamServers := sv, io_UpstreamRoutes := rt, io_UpstreamBootstrap := bt\<rparr>) e
     = e\<lparr>io_UpstreamServers := given sv (io_UpstreamServers e), io_UpstreamRoutes := given rt (io_UpstreamRoutes e),
         io_UpstreamBootstrap := given bt (io_UpstreamBootstrap e)\<rparr>"
  by (cases e; simp add: overlaid_def noOverride_def given_def)+

lemma clearEmpty_given:
  "clearEmpty q (e\<lparr>io_UpstreamServers := given (sq_UpstreamServers q) a, io_UpstreamRoutes := given (sq_UpstreamRoutes q) b,
      io_UpstreamBootstrap := given (sq_UpstreamBootstrap q) c\<rparr>)
   = e\<lparr>io_UpstreamServers := givenList (sq_UpstreamServers q) a, io_UpstreamRoutes := givenList (sq_UpstreamRoutes q) b,
      io_UpstreamBootstrap := givenList (sq_UpstreamBootstrap q) c\<rparr>"
  by (cases e) (simp add: clearEmpty_def Let_def givenList_def)

text \<open>A reply meets the specification when it rejects without any effect, or accepts with exactly the specified one.\<close>

definition conforms :: "Importer \<Rightarrow> 'w net \<Rightarrow> 'w fleetResult \<Rightarrow> Desired option \<Rightarrow> bool" where
  "conforms im net res spec \<longleftrightarrow>
     (case spec of
        None \<Rightarrow> fst res = im \<and> fst (snd res) = net \<and> (\<exists>e. snd (snd res) = Err e 400)
      | Some d \<Rightarrow> accepted im res d)"

lemma conforms_simps [simp]:
  "conforms im net (im, net, Err e 400) None" "conforms im net res (Some d) = accepted im res d"
  by (simp_all add: conforms_def)

lemma settingsDoH_conforms:
  assumes "sq_ReleaseChannel q = None" and "sq_DoHHTTPAddr q = Some addr"
  shows "conforms im net (settingsDoH env q addr im net) (settingsSpec q (desiredOf (im_fleet im)))"
  using assms by (auto simp: settingsDoH_def settingsSpec_def Let_def overlaid_one intro!: accepted_patch fleetwide_accepted)

lemma settingsRetention_conforms:
  assumes "sq_ReleaseChannel q = None" and "sq_DoHHTTPAddr q = None" and "sq_QueryLogRetentionHours q = Some h"
  shows "conforms im net (settingsRetention env h im net) (settingsSpec q (desiredOf (im_fleet im)))"
  using assms by (auto simp: settingsRetention_def settingsSpec_def Let_def ValidQueryLogRetentionHours_def accepted_def settled_def
      SetQueryLogRetention_def desiredOf_set besides_set)

lemma settingsRate_conforms:
  assumes "sq_ReleaseChannel q = None" and "sq_DoHHTTPAddr q = None" and "sq_QueryLogRetentionHours q = None" and "sq_RateLimitQPS q = Some n"
  shows "conforms im net (settingsRate env q n im net) (settingsSpec q (desiredOf (im_fleet im)))"
  using assms fleetwide_accepted(2) [of im "fenv env" n net] fleetwide_accepted(2) [of im "fenv env" 0 net]
  by (auto simp: settingsRate_def settingsSpec_def Let_def overlaid_one max_def intro!: accepted_patch)

lemma settingsCache_conforms:
  assumes "sq_ReleaseChannel q = None" and "sq_DoHHTTPAddr q = None" and "sq_QueryLogRetentionHours q = None" and "sq_RateLimitQPS q = None"
    and "sq_CacheSize q = Some n"
  shows "conforms im net (settingsCache env q n im net) (settingsSpec q (desiredOf (im_fleet im)))"
  using assms by (auto simp: settingsCache_def settingsSpec_def Let_def overlaid_one intro!: accepted_patch fleetwide_accepted)

lemma settingsUpstream_conforms:
  assumes "sq_ReleaseChannel q = None" and "sq_DoHHTTPAddr q = None" and "sq_QueryLogRetentionHours q = None" and "sq_RateLimitQPS q = None"
    and "sq_CacheSize q = None" and "sq_UpstreamServers q \<noteq> None \<or> sq_UpstreamRoutes q \<noteq> None \<or> sq_UpstreamBootstrap q \<noteq> None"
  shows "conforms im net (settingsUpstream env q im net) (settingsSpec q (desiredOf (im_fleet im)))"
proof (cases "perInstance q")
  case True
  let ?p = "noOverride\<lparr>io_UpstreamServers := sq_UpstreamServers q, io_UpstreamRoutes := sq_UpstreamRoutes q, io_UpstreamBootstrap := sq_UpstreamBootstrap q\<rparr>"
  have a: "accepted im (patchInstance env q (Some ?p) (clearEmpty q) im net) (newUpstream q (desiredOf (im_fleet im)))"
    unfolding newUpstream_def using True by (simp add: accepted_patch overlaid_one clearEmpty_given)
  have "clearEmpty q (overlaid ?p (overrideOf (im_fleet im) (sq_Instance q))) = d_Override (newUpstream q (desiredOf (im_fleet im))) (sq_Instance q)"
    using True by (simp add: newUpstream_def overlaid_one clearEmpty_given mapOverride_def desiredOf_def)
  moreover have "d_Servers (newUpstream q (desiredOf (im_fleet im))) = fl_upstreamServers (im_fleet im)"
    "d_Routes (newUpstream q (desiredOf (im_fleet im))) = fl_upstreamRoutes (im_fleet im)"
    "d_Bootstrap (newUpstream q (desiredOf (im_fleet im))) = fl_upstreamBootstrap (im_fleet im)"
    using True by (simp_all add: newUpstream_def mapOverride_def desiredOf_def)
  ultimately show ?thesis
    using a assms True by (cases "poolOf (Some (sq_Instance q)) (newUpstream q (desiredOf (im_fleet im)))")
      (auto simp: settingsUpstream_def settingsSpec_def poolOf_def mergeOverride_overlaid Let_def)
next
  case False
  then show ?thesis
    using assms fleetwide_accepted(4) [of im "fenv env"]
    by (cases "poolOf None (newUpstream q (desiredOf (im_fleet im)))")
      (auto simp: settingsUpstream_def settingsSpec_def poolOf_def newUpstream_def Let_def desiredOf_def noOverride_def)
qed

lemma settingsPolicy_conforms:
  assumes "sq_ReleaseChannel q = None" and "sq_DoHHTTPAddr q = None" and "sq_QueryLogRetentionHours q = None" and "sq_RateLimitQPS q = None"
    and "sq_CacheSize q = None" and "sq_UpstreamServers q = None" and "sq_UpstreamRoutes q = None" and "sq_UpstreamBootstrap q = None"
  shows "conforms im net (settingsPolicy env q im net) (settingsSpec q (desiredOf (im_fleet im)))"
  using assms patchInstance_spec [of im env q _ "\<lambda>m. m" net]
  by (auto simp: settingsPolicy_def settingsSpec_def patchInstance_none fleetwide_accepted split: option.split)

text \<open>
  C7. A settings request does what it says and nothing else. Against the specification of the desired state (one field per request,
  fleet-wide or for one instance; zero, an empty address or an empty list on an instance means inheriting again): a request the specification
  rejects is answered 400 with nothing changed anywhere, no instance contacted; any other leaves exactly the specified desired state, the
  overrides of every other instance included, and touches neither lists, sources, cluster, update job nor the instances' identities.
  The one reply of failure after a change is a release channel that could not be written to the file.
\<close>

theorem settings_refine:
  "conforms im net (handleSettings env (r\<lparr>hr_Method := ''PUT''\<rparr>) (body\<lparr>wb_settings := Inr q\<rparr>) im net) (settingsSpec q (desiredOf (im_fleet im)))
   \<or> (\<exists>channel f e. sq_ReleaseChannel q = Some channel \<and> ValidUpdateChannel channel
        \<and> saveConfig (fenv env) ((im_fleet im)\<lparr>fl_releaseChannel := channel\<rparr>) = (f, Some e)
        \<and> handleSettings env (r\<lparr>hr_Method := ''PUT''\<rparr>) (body\<lparr>wb_settings := Inr q\<rparr>) im net = (im\<lparr>im_fleet := f\<rparr>, net, Err (Text e) 400)
        \<and> settled im (im\<lparr>im_fleet := f\<rparr>) ((desiredOf (im_fleet im))\<lparr>d_Channel := channel\<rparr>))"
proof (cases "sq_ReleaseChannel q")
  case None
  then show ?thesis
    by (auto simp: handleSettings_def intro!: settingsDoH_conforms settingsRetention_conforms settingsRate_conforms settingsCache_conforms
        settingsUpstream_conforms settingsPolicy_conforms split: option.split)
next
  case (Some channel)
  let ?f = "(im_fleet im)\<lparr>fl_releaseChannel := channel\<rparr>"
  obtain f e where s: "saveConfig (fenv env) ?f = (f, e)" by force
  have f: "f = savedQuietly (fenv env) ?f" by (simp add: savedQuietly_def s)
  have st: "settled im (im\<lparr>im_fleet := f\<rparr>) ((desiredOf (im_fleet im))\<lparr>d_Channel := channel\<rparr>)" if "ValidUpdateChannel channel"
    using that by (simp add: settled_def f desiredOf_set besides_set)
  show ?thesis
    using Some s st by (cases e) (auto simp: handleSettings_def settingsSpec_def SetReleaseChannel_def SetReleaseChannelDefault_def
        orErr_def accepted_def)
qed

subsection \<open>Where the interface does not keep its word\<close>

lemma import_without_sources:
  assumes "fl_blocklistSources (im_fleet im) = []" and "runBlocklistImport env gen im net = (im', net')"
  shows "bl_exact (fl_blocklist (im_fleet im')) = bl_exact (fl_blocklist (im_fleet im))
    \<and> bl_wild (fl_blocklist (im_fleet im')) = bl_wild (fl_blocklist (im_fleet im))
    \<and> fl_manualDomains (im_fleet im') = fl_manualDomains (im_fleet im)"
proof -
  define st1 where "st1 = pruned env [] (snd net) (onStatus (\<lambda>b. b\<lparr>bt_Errors := [NoSources]\<rparr>) (im\<lparr>im_sourceStats := []\<rparr>))"
  obtain st2 net1 rs where d: "distribute env st1 net = (st2, net1, rs)" using prod_cases3 by blast
  have "im' = finishImport env gen False (snd net1) (persistBlocklist st2)"
    using assms d by (auto simp: runBlocklistImport_def planImport_def Let_def st1_def)
  moreover have "im_fleet st1 = im_fleet im" by (simp add: st1_def pruned_def onDB_def onStatus_def split: option.split)
  ultimately show ?thesis using distribute_fields(5,6,9) [OF d]
    by (simp add: finishImport_def persistBlocklist_def enqueue_def onFleet_def onStatus_def publish_def Let_def)
qed

text \<open>
  Saving an empty list of sources unblocks the domains blocked by hand: they are still listed as blocked, but the list is
  empty, and the import the request starts leaves it so.
\<close>

theorem empty_sources_unblock:
  assumes "hr_Method r = ''PUT''" and "wb_sources body = Inr (raw, hours, False)" and "cleanURLs raw = []"
    and "handleBlocklistSources env r body im = (im', x)" and "runBlocklistImport (we_import env) (im_gen im') im' net = (im'', net'')"
  shows "x = Fine \<and> ManualDomains (im_fleet im'') = ManualDomains (im_fleet im)
    \<and> bl_exact (fl_blocklist (im_fleet im'')) = {} \<and> bl_wild (fl_blocklist (im_fleet im'')) = {}"
proof -
  define im1 where "im1 = (case hours of None \<Rightarrow> im | Some h \<Rightarrow> onFleet (SetAutoUpdateHours (fenv env) h) im)"
  define im2 where "im2 = SetBlocklistSources (we_import env) [] im1"
  have im': "im' = persistBlocklist (onFleet (onList (Blocklist_FromDomains [])) im2)" and x: "x = Fine"
    using assms by (auto simp: handleBlocklistSources_def Let_def im1_def im2_def)
  obtain y where y: "im_fleet im2 = (im_fleet im1)\<lparr>fl_blocklistSources := [], fl_blocklistDisabled := [], fl_file := y\<rparr>"
    using saved_only_file [of "fenv env" "(im_fleet im1)\<lparr>fl_blocklistSources := [], fl_blocklistDisabled := []\<rparr>"]
    by (auto simp: im2_def SetBlocklistSources_def startBlocklistImport_def cleanURLs_def Let_def)
  have "fl_manualDomains (im_fleet im1) = fl_manualDomains (im_fleet im)"
  proof (cases hours)
    case (Some h)
    then show ?thesis using saved_only_file [of "fenv env" "(im_fleet im)\<lparr>fl_autoUpdateHours := if h < 0 then 0 else h\<rparr>"]
      by (auto simp: im1_def onFleet_def SetAutoUpdateHours_def)
  qed (simp add: im1_def)
  then have "fl_manualDomains (im_fleet im') = fl_manualDomains (im_fleet im)" "fl_blocklistSources (im_fleet im') = []"
    "bl_exact (fl_blocklist (im_fleet im')) = {}" "bl_wild (fl_blocklist (im_fleet im')) = {}"
    by (simp_all add: im' persistBlocklist_def enqueue_def onFleet_def onList_def y Blocklist_FromDomains_def Blocklist_FromDomainsMap_def Blocklist_swap_def)
  then show ?thesis using import_without_sources [OF _ assms(5)] x by (simp add: ManualDomains_def)
qed

definition sampleWebEnv :: "nat web_env" where
  "sampleWebEnv = \<lparr>we_auth = sampleAuth, we_import = sampleImport, we_readFile = (\<lambda>_. None), we_other = (\<lambda>_. [])\<rparr>"

definition emptySettings :: SettingsReq where
  "emptySettings = \<lparr>sq_Scope = [], sq_Policy = None, sq_Instance = [], sq_Override = None, sq_DoHHTTPAddr = None, sq_RateLimitQPS = None,
     sq_CacheSize = None, sq_QueryLogRetentionHours = None, sq_UpstreamServers = None, sq_UpstreamRoutes = None,
     sq_UpstreamBootstrap = None, sq_ReleaseChannel = None\<rparr>"

definition webBody :: WebBody where
  "webBody = \<lparr>wb_auth = sampleLoginBody, wb_instance = Inl [], wb_id = Inl [], wb_policy = Inl [], wb_code = [], wb_label = [],
     wb_records = Inr [], wb_settings = Inr emptySettings, wb_cluster = Inl [], wb_domain = Inr (''ads.example.org'', False),
     wb_sources = Inl [], wb_source = Inl []\<rparr>"

definition sampleWeb :: "nat Web" where
  "sampleWeb = \<lparr>ws_auth = fst (NewAuth sampleAuth ''root'' ''correct horse'' 0), ws_im = sampleImporter, ws_net = sampleNet,
     ws_self = \<lparr>up_Running = False, up_Message = [], up_LastError = [], up_Channel = []\<rparr>\<rparr>"

text \<open>A domain blocked with an unknown session id, then the key page without any.\<close>

theorem web_gate_witness:
  "managed (fst (serveAPI sampleWebEnv ''/etc/blipc.yaml'' [] (samplePost\<lparr>hr_Path := ''/api/blocklist''\<rparr>) (Some ''stolen'') webBody sampleWeb))
     = managed sampleWeb
   \<and> au_keys (ws_auth (fst (serveAPI sampleWebEnv ''/etc/blipc.yaml'' [] (samplePost\<lparr>hr_Path := ''/api/keys''\<rparr>) None webBody sampleWeb))) = []"
proof
  let ?r = "samplePost\<lparr>hr_Path := ''/api/blocklist''\<rparr>" and ?k = "samplePost\<lparr>hr_Path := ''/api/keys''\<rparr>"
  obtain ws x where s: "serveAPI sampleWebEnv ''/etc/blipc.yaml'' [] ?r (Some ''stolen'') webBody sampleWeb = (ws, x)" by force
  have "\<not> snd (requireAuth ?r (Some ''stolen'') (ae_now (we_auth sampleWebEnv) (snd (ws_net sampleWeb))) (ws_auth sampleWeb))" by code_simp
  then show "managed (fst (serveAPI sampleWebEnv ''/etc/blipc.yaml'' [] ?r (Some ''stolen'') webBody sampleWeb)) = managed sampleWeb"
    using web_gate [OF s] s by auto
  obtain ws' x' where t: "serveAPI sampleWebEnv ''/etc/blipc.yaml'' [] ?k None webBody sampleWeb = (ws', x')" by force
  have "\<not> snd (Authed None (ae_now (we_auth sampleWebEnv) (snd (ws_net sampleWeb))) (ws_auth sampleWeb))" by code_simp
  moreover have "au_keys (ws_auth sampleWeb) = []" by code_simp
  ultimately show "au_keys (ws_auth (fst (serveAPI sampleWebEnv ''/etc/blipc.yaml'' [] ?k None webBody sampleWeb))) = []"
    using web_gate [OF t] t by auto
qed

theorem empty_sources_unblock_witness:
  "\<exists>im im'. fst (handleBlocklistSources sampleWebEnv (samplePost\<lparr>hr_Method := ''PUT''\<rparr>) (webBody\<lparr>wb_sources := Inr ([], None, False)\<rparr>)
       (AddManual ''ads.example.org'' sampleImporter)) = im \<and> im' = fst (runBlocklistImport sampleImport (im_gen im) im sampleNet)
     \<and> ManualDomains (im_fleet im') = [''ads.example.org''] \<and> bl_exact (fl_blocklist (im_fleet im')) = {}"
proof -
  let ?r = "samplePost\<lparr>hr_Method := ''PUT''\<rparr>" and ?b = "webBody\<lparr>wb_sources := Inr ([], None, False)\<rparr>"
  let ?im = "AddManual ''ads.example.org'' sampleImporter"
  obtain im x where h: "handleBlocklistSources sampleWebEnv ?r ?b ?im = (im, x)" by force
  obtain im' net' where i: "runBlocklistImport (we_import sampleWebEnv) (im_gen im) im sampleNet = (im', net')" by (metis surj_pair)
  have "ManualDomains (im_fleet ?im) = [''ads.example.org'']" by code_simp
  then show ?thesis
    using empty_sources_unblock [of ?r ?b "[]" None sampleWebEnv ?im im x sampleNet im' net'] h i
    by (simp add: cleanURLs_def sampleWebEnv_def)
qed

definition gapFleet :: Fleet where
  "gapFleet = (NewFleet [] Missing)\<lparr>fl_upstreamServers := wServers,
     fl_overrides := [(''a'', noOverride\<lparr>io_UpstreamRoutes := Some [\<lparr>ur_Name = ''corp'', ur_QnameSuffix = ''corp.example'', ur_Server = ''lan'',
       ur_ClientCIDR = [], ur_Disabled = False\<rparr>]\<rparr>)]\<rparr>"

definition gapRequest :: SettingsReq where
  "gapRequest = emptySettings\<lparr>sq_UpstreamServers := Some (take 2 wServers)\<rparr>"

text \<open>
  The check of a new pool covers the scope of the request only: removing a fleet-wide server that an instance's own routes name is
  accepted, and leaves that instance with a pool no instance accepts.
\<close>

theorem pool_check_gap:
  "poolOf (Some ''a'') (desiredOf gapFleet) = None
   \<and> (\<exists>d. settingsSpec gapRequest (desiredOf gapFleet) = Some d \<and> poolOf (Some ''a'') d \<noteq> None)"
proof -
  have "poolOf (Some ''a'') (desiredOf gapFleet) = None" by code_simp
  moreover have "case settingsSpec gapRequest (desiredOf gapFleet) of None \<Rightarrow> False | Some d \<Rightarrow> poolOf (Some ''a'') d \<noteq> None" by code_simp
  ultimately show ?thesis by (simp split: option.splits)
qed

end
