(* ===== verification/Blip_QueryLog.thy ===== *)
theory Blip_QueryLog
  imports Blip_Import
begin

text \<open>
  The controller's query log and statistics (\<open>src/internal/controller/querylog.go\<close>, the paging helpers of
  \<open>pagination.go\<close>, the pages of \<open>server.go\<close> that read them, and the event callback of \<open>instance.go\<close> that fills them).

  Tables are lists of rows in insertion order and every SQL statement is a function of them; whether the database accepts a statement is an
  argument. Times are kept as the text the driver writes and compared as text, as the SQL does. Rows that
  tie in an \<open>ORDER BY\<close> over groups come in an arbitrary order given by the environment. Averages (\<open>float64\<close>) are rationals.
\<close>

subsection \<open>Rows\<close>

record QueryLogEntry =
  qe_ID :: int
  qe_Timestamp :: time
  qe_Instance :: string
  qe_Client :: string
  qe_Name :: string
  qe_Domain :: string
  qe_Action :: string
  qe_Proto :: string
  qe_Upstream :: string
  qe_BlockList :: string
  qe_QType :: string
  qe_IPs :: "string list"
  qe_Answers :: "Answer list"
  qe_DurationUs :: int
  qe_Cached :: bool

record LogRow =
  lr_id :: int
  lr_ts :: string
  lr_instance :: string
  lr_client :: string
  lr_domain :: string
  lr_action :: string
  lr_upstream :: string
  lr_qtype :: "string option"
  lr_blocklist :: "string option"
  lr_ips :: "string option"
  lr_answers :: "string option"
  lr_duration :: "int option"
  lr_cached :: "int option"
  lr_proto :: "string option"

record UpstreamError =
  ue_Timestamp :: time
  ue_Instance :: string
  ue_Domain :: string
  ue_Message :: string

record ErrorRow =
  er_ts :: string
  er_instance :: string
  er_domain :: string
  er_message :: string

record StatsSample =
  ss_Timestamp :: time
  ss_Instance :: string
  ss_Queries :: u64
  ss_Blocked :: u64
  ss_Errors :: u64
  ss_DurationUs :: u64

record SampleRow =
  sr_ts :: string
  sr_instance :: string
  sr_queries :: u64
  sr_blocked :: u64
  sr_errors :: u64
  sr_duration :: u64

record QueryLogStore =
  qs_rows :: "LogRow list"
  qs_nextID :: int
  qs_samples :: "SampleRow list"
  qs_names :: "(string \<times> string) list"
  qs_errors :: "ErrorRow list"
  qs_buf :: "QueryLogEntry list"  \<comment> \<open>the channel\<close>
  qs_batch :: "QueryLogEntry list"  \<comment> \<open>what the writer has taken and not yet written\<close>
  qs_stopped :: bool
  qs_dropped :: u64
  qs_retention :: duration

record log_env =
  le_text :: "time \<Rightarrow> string"  \<comment> \<open>how the driver stores a time\<close>
  le_parse :: "nat \<Rightarrow> string \<Rightarrow> time option"  \<comment> \<open>\<open>time.Parse\<close> with the n-th layout\<close>
  le_marshal :: "Answer list \<Rightarrow> string"  \<comment> \<open>\<open>json.Marshal\<close>\<close>
  le_unmarshal :: "string \<Rightarrow> Answer list"
  le_parseDuration :: "string \<Rightarrow> duration option"
  le_order :: "string set \<Rightarrow> string list"
  le_orderErrors :: "(string \<times> string \<times> string) set \<Rightarrow> (string \<times> string \<times> string) list"

definition defaultQueryLogRetention :: duration where "defaultQueryLogRetention = 720 * Hour"
definition batchMax :: nat where "batchMax = 500"
definition logBufferCap :: nat where "logBufferCap = 4096"

definition NewQueryLogStore :: QueryLogStore where
  "NewQueryLogStore =
     \<lparr>qs_rows = [], qs_nextID = 1, qs_samples = [], qs_names = [], qs_errors = [], qs_buf = [], qs_batch = [], qs_stopped = False,
      qs_dropped = 0, qs_retention = defaultQueryLogRetention\<rparr>"

definition LastIndex :: "string \<Rightarrow> string \<Rightarrow> nat option" where
  "LastIndex s sub = find (\<lambda>i. take (length sub) (drop i s) = sub) (rev [0..<length s + 1 - length sub])"

text \<open>\<open>time.Time{}\<close>, the first instant of year 1, counted from 1970 as all times here.\<close>

definition zeroTime :: time where "zeroTime = - 62135596800 * Second"

definition parseQueryTS :: "log_env \<Rightarrow> string \<Rightarrow> time" where
  "parseQueryTS env s0 =
     (let s = (case LastIndex s0 '' m='' of Some i \<Rightarrow> if 0 < i then take i s0 else s0 | None \<Rightarrow> s0)
      in case le_parse env 0 s of
           Some t \<Rightarrow> t
         | None \<Rightarrow> (case le_parse env 1 s of
                      Some t \<Rightarrow> t
                    | None \<Rightarrow> (case le_parse env 2 s of Some t \<Rightarrow> t | None \<Rightarrow> zeroTime)))"

subsection \<open>Writing\<close>

definition row :: "log_env \<Rightarrow> QueryLogEntry \<Rightarrow> string \<times> string \<times> int" where
  "row env e = (Join (qe_IPs e) '','', le_marshal env (qe_Answers e), if qe_Cached e then 1 else 0)"

definition storedRow :: "log_env \<Rightarrow> int \<Rightarrow> QueryLogEntry \<Rightarrow> LogRow" where
  "storedRow env k e =
     (case row env e of (ips, ans, cached) \<Rightarrow>
      \<lparr>lr_id = k, lr_ts = le_text env (qe_Timestamp e), lr_instance = qe_Instance e, lr_client = qe_Client e,
       lr_domain = qe_Domain e, lr_action = qe_Action e, lr_upstream = qe_Upstream e, lr_qtype = Some (qe_QType e),
       lr_blocklist = Some (qe_BlockList e), lr_ips = Some ips, lr_answers = Some ans, lr_duration = Some (qe_DurationUs e),
       lr_cached = Some cached, lr_proto = Some (qe_Proto e)\<rparr>)"

definition insertRow :: "log_env \<Rightarrow> QueryLogEntry \<Rightarrow> QueryLogStore \<Rightarrow> QueryLogStore" where
  "insertRow env e st = st\<lparr>qs_rows := qs_rows st @ [storedRow env (qs_nextID st) e], qs_nextID := qs_nextID st + 1\<rparr>"

definition Insert :: "bool \<Rightarrow> log_env \<Rightarrow> QueryLogEntry \<Rightarrow> QueryLogStore \<Rightarrow> QueryLogStore \<times> bool" where
  "Insert ok env e st = (if ok then (insertRow env e st, True) else (st, False))"

text \<open>One transaction: all rows or none.\<close>

definition insertBatchTx :: "bool \<Rightarrow> log_env \<Rightarrow> QueryLogEntry list \<Rightarrow> QueryLogStore \<Rightarrow> QueryLogStore" where
  "insertBatchTx ok env entries st = (if ok then fold (insertRow env) entries st else st)"

definition Enqueue :: "QueryLogEntry \<Rightarrow> QueryLogStore \<Rightarrow> QueryLogStore" where
  "Enqueue e st =
     (if length (qs_buf st) < logBufferCap then st\<lparr>qs_buf := qs_buf st @ [e]\<rparr> else st\<lparr>qs_dropped := qs_dropped st + 1\<rparr>)"

text \<open>The three cases of the writer's \<open>select\<close>, each when its channel is ready.\<close>

definition writerReceive :: "bool \<Rightarrow> log_env \<Rightarrow> QueryLogStore \<Rightarrow> QueryLogStore" where
  "writerReceive ok env st =
     (case qs_buf st of
        [] \<Rightarrow> st
      | e # rest \<Rightarrow>
          let st1 = st\<lparr>qs_buf := rest, qs_batch := qs_batch st @ [e]\<rparr> in
          if batchMax \<le> length (qs_batch st1) then (insertBatchTx ok env (qs_batch st1) st1)\<lparr>qs_batch := []\<rparr> else st1)"

definition writerTick :: "bool \<Rightarrow> log_env \<Rightarrow> QueryLogStore \<Rightarrow> QueryLogStore" where
  "writerTick ok env st = (if qs_batch st \<noteq> [] then (insertBatchTx ok env (qs_batch st) st)\<lparr>qs_batch := []\<rparr> else st)"

definition writerStop :: "bool \<Rightarrow> log_env \<Rightarrow> QueryLogStore \<Rightarrow> QueryLogStore" where
  "writerStop ok env st = (if qs_batch st \<noteq> [] then insertBatchTx ok env (qs_batch st) st else st)\<lparr>qs_batch := [], qs_stopped := True\<rparr>"

subsection \<open>Housekeeping\<close>

definition ClearQueryLog :: "bool \<Rightarrow> QueryLogStore \<Rightarrow> QueryLogStore \<times> bool" where
  "ClearQueryLog ok st = (if ok then (st\<lparr>qs_rows := []\<rparr>, True) else (st, False))"

definition ClearStatsSamples :: "bool \<Rightarrow> QueryLogStore \<Rightarrow> QueryLogStore \<times> bool" where
  "ClearStatsSamples ok st = (if ok then (st\<lparr>qs_samples := []\<rparr>, True) else (st, False))"

definition ClearUpstreamErrors :: "bool \<Rightarrow> string \<Rightarrow> QueryLogStore \<Rightarrow> QueryLogStore \<times> bool" where
  "ClearUpstreamErrors ok instance st =
     (if \<not> ok then (st, False)
      else if instance = [] then (st\<lparr>qs_errors := []\<rparr>, True)
      else (st\<lparr>qs_errors := filter (\<lambda>r. er_instance r \<noteq> instance) (qs_errors st)\<rparr>, True))"

definition pruneLog :: "bool \<Rightarrow> log_env \<Rightarrow> time \<Rightarrow> QueryLogStore \<Rightarrow> QueryLogStore" where
  "pruneLog ok env cutoff st = (if ok then st\<lparr>qs_rows := filter (\<lambda>r. le_text env cutoff \<le> lr_ts r) (qs_rows st)\<rparr> else st)"

text \<open>One tick of the hourly loop; each statement may fail on its own.\<close>

definition cleanupTick :: "bool \<times> bool \<times> bool \<Rightarrow> log_env \<Rightarrow> time \<Rightarrow> QueryLogStore \<Rightarrow> QueryLogStore" where
  "cleanupTick oks env now st =
     (case oks of (ok1, ok2, ok3) \<Rightarrow>
      let st1 = pruneLog ok1 env (now - qs_retention st) st;
          st2 = (if ok2 then st1\<lparr>qs_errors := filter (\<lambda>r. le_text env (now - qs_retention st) \<le> er_ts r) (qs_errors st1)\<rparr> else st1)
      in if ok3 then st2\<lparr>qs_samples := filter (\<lambda>r. le_text env (now - 31 * 24 * Hour) \<le> sr_ts r) (qs_samples st2)\<rparr> else st2)"

definition SetRetention :: "bool \<Rightarrow> log_env \<Rightarrow> time \<Rightarrow> duration \<Rightarrow> QueryLogStore \<Rightarrow> QueryLogStore" where
  "SetRetention ok env now d0 st =
     (let d = (if d0 < Hour then Hour else d0) in pruneLog ok env (now - d) (st\<lparr>qs_retention := d\<rparr>))"

definition SetClientName :: "bool \<Rightarrow> string \<Rightarrow> string \<Rightarrow> QueryLogStore \<Rightarrow> QueryLogStore \<times> bool" where
  "SetClientName ok client name0 st =
     (let name = TrimSpace name0 in
      if \<not> ok then (st, False)
      else if name = [] then (st\<lparr>qs_names := AList.delete client (qs_names st)\<rparr>, True)
      else (st\<lparr>qs_names := AList.update client name (qs_names st)\<rparr>, True))"

definition ClientNames :: "bool \<Rightarrow> QueryLogStore \<Rightarrow> (string \<times> string) list option" where
  "ClientNames ok st = (if ok then Some (qs_names st) else None)"

definition RecordUpstreamError :: "bool \<Rightarrow> log_env \<Rightarrow> UpstreamError \<Rightarrow> QueryLogStore \<Rightarrow> QueryLogStore \<times> bool" where
  "RecordUpstreamError ok env e st =
     (if ok then (st\<lparr>qs_errors := qs_errors st @ [\<lparr>er_ts = le_text env (ue_Timestamp e), er_instance = ue_Instance e, er_domain = ue_Domain e,
        er_message = ue_Message e\<rparr>]\<rparr>, True)
      else (st, False))"

text \<open>\<open>database/sql\<close> refuses unsigned values with the high bit set.\<close>

definition AddStatsSample :: "bool \<Rightarrow> log_env \<Rightarrow> StatsSample \<Rightarrow> QueryLogStore \<Rightarrow> QueryLogStore \<times> bool" where
  "AddStatsSample ok env e st =
     (if \<not> ok \<or> \<not> list_all (\<lambda>w. uint w < 2 ^ 63) [ss_Queries e, ss_Blocked e, ss_Errors e, ss_DurationUs e] then (st, False)
      else (st\<lparr>qs_samples := qs_samples st @ [\<lparr>sr_ts = le_text env (ss_Timestamp e), sr_instance = ss_Instance e, sr_queries = ss_Queries e,
              sr_blocked = ss_Blocked e, sr_errors = ss_Errors e, sr_duration = ss_DurationUs e\<rparr>]\<rparr>, True))"

subsection \<open>Reading the log\<close>

text \<open>SQLite's \<open>LIKE\<close>: \<open>%\<close> for any text, \<open>_\<close> for any character, ASCII letters without case.\<close>

fun sqlLike :: "string \<Rightarrow> string \<Rightarrow> bool" where
  "sqlLike [] [] = True"
| "sqlLike [] (c # cs) = False"
| "sqlLike (p # ps) [] = (p = CHR ''%'' \<and> sqlLike ps [])"
| "sqlLike (p # ps) (c # cs) =
     (if p = CHR ''%'' then sqlLike ps (c # cs) \<or> sqlLike (p # ps) cs
      else (p = CHR ''_'' \<or> lowerChar p = lowerChar c) \<and> sqlLike ps cs)"

record LogQuery =
  lq_Instance :: string
  lq_Filter :: string
  lq_Action :: string
  lq_Cached :: string
  lq_Proto :: string

definition logFilter :: "LogQuery \<Rightarrow> (string \<times> string) list \<Rightarrow> LogRow \<Rightarrow> bool" where
  "logFilter q names r \<longleftrightarrow>
     (lq_Instance q \<noteq> [] \<longrightarrow> lr_instance r = lq_Instance q)
     \<and> (lq_Action q \<noteq> [] \<longrightarrow> lr_action r = lq_Action q)
     \<and> (lq_Proto q = ''dns'' \<or> lq_Proto q = ''doh'' \<longrightarrow> lr_proto r = Some (lq_Proto q))
     \<and> (lq_Cached q \<noteq> [] \<longrightarrow> lr_cached r \<noteq> None \<and> lr_cached r = Atoi (lq_Cached q))
     \<and> (lq_Filter q \<noteq> [] \<longrightarrow>
          (let fl = ''%'' @ lq_Filter q @ ''%'' in
           sqlLike fl (ToLower (lr_client r))
           \<or> (case map_of names (lr_client r) of None \<Rightarrow> False | Some n \<Rightarrow> sqlLike fl (ToLower n))
           \<or> sqlLike fl (ToLower (lr_domain r)) \<or> sqlLike fl (ToLower (lr_action r))))"

definition inRange :: "log_env \<Rightarrow> time \<Rightarrow> LogRow \<Rightarrow> bool" where
  "inRange env since r \<longleftrightarrow> le_text env since \<le> lr_ts r \<and> lr_domain r \<noteq> ''health_check'' \<and> lr_domain r \<noteq> []"

definition matchingRows :: "log_env \<Rightarrow> LogQuery \<Rightarrow> time \<Rightarrow> QueryLogStore \<Rightarrow> LogRow list" where
  "matchingRows env q since st = filter (\<lambda>r. inRange env since r \<and> logFilter q (qs_names st) r) (qs_rows st)"

text \<open>\<open>LIMIT\<close> and \<open>OFFSET\<close>: a negative limit is none, a negative offset zero.\<close>

definition sqlPage :: "int \<Rightarrow> int \<Rightarrow> 'a list \<Rightarrow> 'a list" where
  "sqlPage offset limit xs = (let ys = drop (nat offset) xs in if limit < 0 then ys else take (nat limit) ys)"

definition newestFirst :: "LogRow list \<Rightarrow> LogRow list" where
  "newestFirst rs = rev (sort_key (\<lambda>r. (lr_ts r, lr_id r)) rs)"

definition entryOf :: "log_env \<Rightarrow> (string \<times> string) list \<Rightarrow> LogRow \<Rightarrow> QueryLogEntry" where
  "entryOf env names r =
     \<lparr>qe_ID = lr_id r, qe_Timestamp = parseQueryTS env (lr_ts r), qe_Instance = lr_instance r, qe_Client = lr_client r,
      qe_Name = getOr names (lr_client r), qe_Domain = lr_domain r, qe_Action = lr_action r, qe_Proto = orElse (lr_proto r) [],
      qe_Upstream = lr_upstream r, qe_BlockList = orElse (lr_blocklist r) [], qe_QType = orElse (lr_qtype r) [],
      qe_IPs = (case lr_ips r of None \<Rightarrow> [] | Some s \<Rightarrow> if s = [] then [] else Split s (CHR '','')),
      qe_Answers = (case lr_answers r of None \<Rightarrow> [] | Some s \<Rightarrow> if s = [] then [] else le_unmarshal env s),
      qe_DurationUs = orElse (lr_duration r) 0, qe_Cached = (case lr_cached r of None \<Rightarrow> False | Some n \<Rightarrow> n \<noteq> 0)\<rparr>"

definition Query :: "bool \<Rightarrow> log_env \<Rightarrow> LogQuery \<Rightarrow> time \<Rightarrow> int \<Rightarrow> int \<Rightarrow> QueryLogStore \<Rightarrow> QueryLogEntry list option" where
  "Query ok env q since offset limit st =
     (if ok then Some (map (entryOf env (qs_names st)) (sqlPage offset limit (newestFirst (matchingRows env q since st)))) else None)"

definition QueryCount :: "bool \<Rightarrow> log_env \<Rightarrow> LogQuery \<Rightarrow> time \<Rightarrow> QueryLogStore \<Rightarrow> int option" where
  "QueryCount ok env q since st = (if ok then Some (int (length (matchingRows env q since st))) else None)"

subsection \<open>Grouped reports\<close>

definition countIf :: "('a \<Rightarrow> bool) \<Rightarrow> 'a list \<Rightarrow> int" where
  "countIf P xs = int (length (filter P xs))"

definition sqlAvg :: "int list \<Rightarrow> rat" where
  "sqlAvg xs = (if xs = [] then 0 else of_int (sum_list xs) / of_nat (length xs))"

definition reportRows :: "log_env \<Rightarrow> string \<Rightarrow> time \<Rightarrow> QueryLogStore \<Rightarrow> LogRow list" where
  "reportRows env instance since st =
     filter (\<lambda>r. inRange env since r \<and> (instance \<noteq> [] \<longrightarrow> lr_instance r = instance)) (qs_rows st)"

text \<open>Groups, those with the highest rank first.\<close>

definition ranked :: "('k set \<Rightarrow> 'k list) \<Rightarrow> ('k \<Rightarrow> 'r :: linorder) \<Rightarrow> 'k set \<Rightarrow> 'k list" where
  "ranked order rank keys = rev (sort_key rank (order keys))"

record ClientStat =
  cs_Client :: string
  cs_Name :: string
  cs_Kind :: string
  cs_Queries :: int
  cs_Blocked :: int
  cs_LastSeen :: time

definition ClientStats :: "bool \<Rightarrow> log_env \<Rightarrow> string \<Rightarrow> time \<Rightarrow> int \<Rightarrow> QueryLogStore \<Rightarrow> ClientStat list option" where
  "ClientStats ok env instance since limit st =
     (let rs = reportRows env instance since st;
          mine = (\<lambda>c. filter (\<lambda>r. lr_client r = c) rs)
      in if \<not> ok then None
         else Some (map (\<lambda>c. \<lparr>cs_Client = c, cs_Name = getOr (qs_names st) c, cs_Kind = (if ParseIP c \<noteq> [] then ''ip'' else ''client''),
                              cs_Queries = int (length (mine c)), cs_Blocked = countIf (\<lambda>r. lr_action r = ''BLOCK'') (mine c),
                              cs_LastSeen = parseQueryTS env (Max (lr_ts ` set (mine c)))\<rparr>)
                 (sqlPage 0 limit (ranked (le_order env) (\<lambda>c. length (mine c)) (lr_client ` set rs)))))"

record TopDomain =
  td_Domain :: string
  td_Queries :: int
  td_Blocked :: int

definition TopDomains :: "bool \<Rightarrow> log_env \<Rightarrow> string \<Rightarrow> time \<Rightarrow> int \<Rightarrow> string \<Rightarrow> QueryLogStore \<Rightarrow> TopDomain list option" where
  "TopDomains ok env instance since limit action st =
     (let rs = filter (\<lambda>r. action = ''PASS'' \<or> action = ''BLOCK'' \<longrightarrow> lr_action r = action) (reportRows env instance since st);
          mine = (\<lambda>d. filter (\<lambda>r. lr_domain r = d) rs)
      in if \<not> ok then None
         else Some (map (\<lambda>d. \<lparr>td_Domain = d, td_Queries = int (length (mine d)), td_Blocked = countIf (\<lambda>r. lr_action r = ''BLOCK'') (mine d)\<rparr>)
                 (sqlPage 0 limit (ranked (le_order env) (\<lambda>d. length (mine d)) (lr_domain ` set rs)))))"

record TopCachedDomain =
  tc_Domain :: string
  tc_CacheHits :: int
  tc_CacheMisses :: int
  tc_HitRate :: rat
  tc_AvgCachedUs :: rat

definition isHit :: "LogRow \<Rightarrow> bool" where "isHit r \<longleftrightarrow> lr_cached r = Some 1"
definition isMiss :: "LogRow \<Rightarrow> bool" where "isMiss r \<longleftrightarrow> lr_cached r = Some 0"

definition timesOf :: "(LogRow \<Rightarrow> bool) \<Rightarrow> LogRow list \<Rightarrow> int list" where
  "timesOf P rs = map (\<lambda>r. the (lr_duration r)) (filter (\<lambda>r. P r \<and> lr_duration r \<noteq> None \<and> 0 < the (lr_duration r)) rs)"

definition passedRows :: "log_env \<Rightarrow> string \<Rightarrow> time \<Rightarrow> QueryLogStore \<Rightarrow> LogRow list" where
  "passedRows env instance since st = filter (\<lambda>r. lr_action r = ''PASS'') (reportRows env instance since st)"

definition TopCachedDomains :: "bool \<Rightarrow> log_env \<Rightarrow> string \<Rightarrow> time \<Rightarrow> int \<Rightarrow> int \<Rightarrow> QueryLogStore \<Rightarrow> TopCachedDomain list option" where
  "TopCachedDomains ok env instance since offset limit st =
     (let rs = passedRows env instance since st;
          mine = (\<lambda>d. filter (\<lambda>r. lr_domain r = d) rs)
      in if \<not> ok then None
         else Some (map (\<lambda>d. let hits = countIf isHit (mine d); misses = countIf isMiss (mine d) in
                              \<lparr>tc_Domain = d, tc_CacheHits = hits, tc_CacheMisses = misses,
                               tc_HitRate = (if 0 < hits + misses then of_int hits / of_int (hits + misses) * 100 else 0),
                               tc_AvgCachedUs = sqlAvg (timesOf isHit (mine d))\<rparr>)
                 (sqlPage offset limit (ranked (le_order env) (\<lambda>d. countIf isHit (mine d)) (lr_domain ` set rs)))))"

definition TopCachedDomainsCount :: "bool \<Rightarrow> log_env \<Rightarrow> string \<Rightarrow> time \<Rightarrow> QueryLogStore \<Rightarrow> int option" where
  "TopCachedDomainsCount ok env instance since st =
     (if ok then Some (int (card (lr_domain ` set (filter isHit (passedRows env instance since st))))) else None)"

record InstanceCacheStat =
  ic_Queries :: int
  ic_CachedQueries :: int
  ic_PercentCached :: rat
  ic_AvgCachedUs :: rat
  ic_AvgFetchedUs :: rat

definition percentOf :: "int \<Rightarrow> int \<Rightarrow> rat" where
  "percentOf part whole = (if 0 < whole then of_int part / of_int whole * 100 else 0)"

definition CacheStats :: "bool \<Rightarrow> log_env \<Rightarrow> string \<Rightarrow> time \<Rightarrow> QueryLogStore \<Rightarrow> (string \<times> InstanceCacheStat) list option" where
  "CacheStats ok env instance since st =
     (let rs = passedRows env instance since st;
          mine = (\<lambda>i. filter (\<lambda>r. lr_instance r = i) rs)
      in if \<not> ok then None
         else Some (map (\<lambda>i. (i, let n = int (length (mine i)); hits = countIf isHit (mine i) in
                              \<lparr>ic_Queries = n, ic_CachedQueries = hits, ic_PercentCached = percentOf hits n,
                               ic_AvgCachedUs = sqlAvg (timesOf isHit (mine i)), ic_AvgFetchedUs = sqlAvg (timesOf isMiss (mine i))\<rparr>))
                 (sort (remdups (map lr_instance rs)))))"

record UpstreamErrorStat =
  es_Message :: string
  es_Domain :: string
  es_Instance :: string
  es_Count :: int
  es_FirstSeen :: time
  es_LastSeen :: time

definition errorRows :: "log_env \<Rightarrow> string \<Rightarrow> time \<Rightarrow> QueryLogStore \<Rightarrow> ErrorRow list" where
  "errorRows env instance since st =
     filter (\<lambda>r. le_text env since \<le> er_ts r \<and> (instance \<noteq> [] \<longrightarrow> er_instance r = instance)) (qs_errors st)"

definition errorKey :: "ErrorRow \<Rightarrow> string \<times> string \<times> string" where
  "errorKey r = (er_message r, er_domain r, er_instance r)"

definition UpstreamErrorStats :: "bool \<Rightarrow> log_env \<Rightarrow> string \<Rightarrow> time \<Rightarrow> int \<Rightarrow> QueryLogStore \<Rightarrow> UpstreamErrorStat list option" where
  "UpstreamErrorStats ok env instance since limit st =
     (let rs = errorRows env instance since st;
          mine = (\<lambda>k. filter (\<lambda>r. errorKey r = k) rs);
          newest = (\<lambda>k. Max (er_ts ` set (mine k)))
      in if \<not> ok then None
         else Some (map (\<lambda>k. case k of (m, d, i) \<Rightarrow>
                              \<lparr>es_Message = m, es_Domain = d, es_Instance = i, es_Count = int (length (mine k)),
                               es_FirstSeen = parseQueryTS env (Min (er_ts ` set (mine k))), es_LastSeen = parseQueryTS env (newest k)\<rparr>)
                 (sqlPage 0 limit (ranked (le_orderErrors env) (\<lambda>k. (length (mine k), newest k)) (errorKey ` set rs)))))"

definition UpstreamErrorCount :: "bool \<Rightarrow> log_env \<Rightarrow> string \<Rightarrow> time \<Rightarrow> QueryLogStore \<Rightarrow> int option" where
  "UpstreamErrorCount ok env instance since st = (if ok then Some (int (length (errorRows env instance since st))) else None)"

subsection \<open>Statistics\<close>

text \<open>Totals are Go's \<open>int\<close>: 64 bits that wrap, read as signed.\<close>

record TimeSeriesPoint =
  tp_Timestamp :: time
  tp_TotalQueries :: u64
  tp_BlockedQueries :: u64

record PerInstanceStats =
  pi_Queries :: u64
  pi_Blocked :: u64

record StatsAggregate =
  ag_TotalQueries :: u64
  ag_BlockedQueries :: u64
  ag_UpstreamErrors :: u64
  ag_AvgQPS :: rat
  ag_AvgUs :: rat
  ag_PerInstance :: "(string \<times> PerInstanceStats) list"
  ag_Series :: "TimeSeriesPoint list"

definition counterDelta :: "u64 \<Rightarrow> u64 \<Rightarrow> u64" where
  "counterDelta cur prev = (if prev \<le> cur then cur - prev else cur)"

record AggLoop =
  al_last :: "(string \<times> SampleRow) list"
  al_total :: u64
  al_blocked :: u64
  al_errors :: u64
  al_durUs :: u64
  al_per :: "(string \<times> PerInstanceStats) list"
  al_buckets :: "(int \<times> TimeSeriesPoint) list"
  al_first :: time
  al_lastTS :: time

definition aggStart :: AggLoop where
  "aggStart = \<lparr>al_last = [], al_total = 0, al_blocked = 0, al_errors = 0, al_durUs = 0, al_per = [], al_buckets = [],
     al_first = zeroTime, al_lastTS = zeroTime\<rparr>"

definition delta :: "(SampleRow \<Rightarrow> u64) \<Rightarrow> SampleRow option \<Rightarrow> SampleRow \<Rightarrow> u64" where
  "delta g prev r = (case prev of None \<Rightarrow> 0 | Some p \<Rightarrow> counterDelta (g r) (g p))"

definition seriesBucket :: "int \<Rightarrow> time \<Rightarrow> int" where
  "seriesBucket secs ts = (ts div Second) sdiv secs"

definition aggStep :: "log_env \<Rightarrow> int \<Rightarrow> SampleRow \<Rightarrow> AggLoop \<Rightarrow> AggLoop" where
  "aggStep env secs r s =
     (let ts = parseQueryTS env (sr_ts r); k = sr_instance r; prev = map_of (al_last s) k;
          dq = delta sr_queries prev r; db = delta sr_blocked prev r;
          pi = (case map_of (al_per s) k of None \<Rightarrow> \<lparr>pi_Queries = 0, pi_Blocked = 0\<rparr> | Some p \<Rightarrow> p);
          bk = seriesBucket secs ts;
          pt = (case map_of (al_buckets s) bk of
                  None \<Rightarrow> \<lparr>tp_Timestamp = bk * secs * Second, tp_TotalQueries = 0, tp_BlockedQueries = 0\<rparr> | Some p \<Rightarrow> p)
      in s\<lparr>al_last := AList.update k r (al_last s),
           al_first := (if al_first s = zeroTime \<or> ts < al_first s then ts else al_first s),
           al_lastTS := (if al_lastTS s < ts then ts else al_lastTS s),
           al_total := al_total s + dq, al_blocked := al_blocked s + db,
           al_errors := al_errors s + delta sr_errors prev r, al_durUs := al_durUs s + delta sr_duration prev r,
           al_per := AList.update k (pi\<lparr>pi_Queries := pi_Queries pi + dq, pi_Blocked := pi_Blocked pi + db\<rparr>) (al_per s),
           al_buckets := AList.update bk (pt\<lparr>tp_TotalQueries := tp_TotalQueries pt + dq, tp_BlockedQueries := tp_BlockedQueries pt + db\<rparr>)
             (al_buckets s)\<rparr>)"

definition sampleRows :: "log_env \<Rightarrow> string \<Rightarrow> time \<Rightarrow> QueryLogStore \<Rightarrow> SampleRow list" where
  "sampleRows env instance since st =
     sort_key sr_ts (filter (\<lambda>r. le_text env since \<le> sr_ts r \<and> (instance \<noteq> [] \<longrightarrow> sr_instance r = instance)) (qs_samples st))"

definition aggregateOf :: "AggLoop \<Rightarrow> StatsAggregate" where
  "aggregateOf s =
     \<lparr>ag_TotalQueries = al_total s, ag_BlockedQueries = al_blocked s, ag_UpstreamErrors = al_errors s,
      ag_AvgQPS = (if 0 < sint (al_total s) \<and> al_lastTS s \<noteq> zeroTime \<and> al_first s < al_lastTS s
                   then of_int (sint (al_total s)) / (of_int (al_lastTS s - al_first s) / of_int Second) else 0),
      ag_AvgUs = (if 0 < sint (al_total s) then of_int (uint (al_durUs s)) / of_int (sint (al_total s)) else 0),
      ag_PerInstance = al_per s, ag_Series = sort_key tp_Timestamp (map snd (al_buckets s))\<rparr>"

datatype statsError = SqlError | DivideByZero  \<comment> \<open>the second is a panic\<close>

definition AggregateStats ::
  "bool \<Rightarrow> log_env \<Rightarrow> string \<Rightarrow> duration \<Rightarrow> time \<Rightarrow> QueryLogStore \<Rightarrow> (statsError, StatsAggregate) result" where
  "AggregateStats ok env instance bucketSize since st =
     (let secs = bucketSize sdiv Second; rs = sampleRows env instance since st in
      if \<not> ok then Inl SqlError
      else if secs = 0 \<and> rs \<noteq> [] then Inl DivideByZero
      else Inr (aggregateOf (fold (aggStep env secs) rs aggStart)))"

subsection \<open>Paging\<close>

definition maxPageOffset :: int where "maxPageOffset = 1000000"

definition boundedLimit :: "HTTPRequest \<Rightarrow> int \<Rightarrow> int \<Rightarrow> int" where
  "boundedLimit r fallback maximum =
     (let raw = getOr (hr_Query r) ''limit'';
          value = (if raw \<noteq> [] then orElse (Atoi raw) fallback else fallback)
      in if value < 1 then fallback else if maximum < value then maximum else value)"

definition boundedOffset :: "HTTPRequest \<Rightarrow> int" where
  "boundedOffset r =
     (let raw = getOr (hr_Query r) ''offset'' in
      if raw = [] then 0
      else case Atoi raw of
             None \<Rightarrow> 0
           | Some value \<Rightarrow> if value < 0 then 0 else if maxPageOffset < value then maxPageOffset else value)"

definition boundedDuration :: "log_env \<Rightarrow> HTTPRequest \<Rightarrow> string \<Rightarrow> duration \<Rightarrow> duration \<Rightarrow> duration \<Rightarrow> duration" where
  "boundedDuration env r key fallback minimum maximum =
     (let raw = getOr (hr_Query r) key in
      if raw = [] then fallback
      else case le_parseDuration env raw of
             None \<Rightarrow> fallback
           | Some value \<Rightarrow> if value < minimum \<or> maximum < value then fallback else value)"

definition sinceOf :: "log_env \<Rightarrow> HTTPRequest \<Rightarrow> time \<Rightarrow> time" where
  "sinceOf env r now = now - boundedDuration env r ''since'' (24 * Hour) Minute (30 * 24 * Hour)"

subsection \<open>Pages\<close>

datatype logReply =
    LogError string int
  | LogEntries "QueryLogEntry list"
  | LogPage "QueryLogEntry list" int bool
  | ClientList "ClientStat list"
  | NameList "(string \<times> string) list"
  | Aggregate StatsAggregate
  | DomainList "TopDomain list"
  | CacheReport InstanceCacheStat "(string \<times> InstanceCacheStat) list" "(string \<times> int) list" "(string \<times> int) list" "TopCachedDomain list" int
  | ErrorReport int "UpstreamErrorStat list"
  | LogOK

definition sqlFailed :: logReply where "sqlFailed = LogError ''database error'' 502"
definition noQueryLog :: logReply where "noQueryLog = LogError ''query log not available'' 503"
definition badMethod :: logReply where "badMethod = LogError ''method not allowed'' 405"

definition actionArg :: "HTTPRequest \<Rightarrow> string" where
  "actionArg r = (let a = ToUpper (TrimSpace (getOr (hr_Query r) ''action'')) in if a \<noteq> [] \<and> a \<noteq> ''PASS'' \<and> a \<noteq> ''BLOCK'' then [] else a)"

definition queryArgs :: "HTTPRequest \<Rightarrow> LogQuery" where
  "queryArgs r =
     (let cached = TrimSpace (getOr (hr_Query r) ''cached''); proto = ToLower (TrimSpace (getOr (hr_Query r) ''proto'')) in
      \<lparr>lq_Instance = getOr (hr_Query r) ''instance'', lq_Filter = getOr (hr_Query r) ''filter'', lq_Action = actionArg r,
       lq_Cached = (if cached \<noteq> [] \<and> cached \<noteq> ''0'' \<and> cached \<noteq> ''1'' then [] else cached),
       lq_Proto = (if proto \<noteq> ''dns'' \<and> proto \<noteq> ''doh'' then [] else proto)\<rparr>)"

text \<open>Every page: the method, whether there is a log at all, then the report. \<open>ok\<close> tells which of the statements the database accepts.\<close>

definition readPage :: "HTTPRequest \<Rightarrow> QueryLogStore option \<Rightarrow> (QueryLogStore \<Rightarrow> logReply) \<Rightarrow> logReply" where
  "readPage r db page = (if hr_Method r \<noteq> ''GET'' then badMethod else case db of None \<Rightarrow> noQueryLog | Some st \<Rightarrow> page st)"

definition orFailed :: "'a option \<Rightarrow> ('a \<Rightarrow> logReply) \<Rightarrow> logReply" where
  "orFailed x g = (case x of None \<Rightarrow> sqlFailed | Some a \<Rightarrow> g a)"

definition handleQueries :: "(nat \<Rightarrow> bool) \<Rightarrow> log_env \<Rightarrow> time \<Rightarrow> HTTPRequest \<Rightarrow> QueryLogStore option \<Rightarrow> logReply" where
  "handleQueries ok env now r db =
     readPage r db (\<lambda>st.
       let q = queryArgs r; limit = boundedLimit r 100 500; offset = boundedOffset r; since = sinceOf env r now in
       orFailed (Query (ok 0) env q since offset limit st) (\<lambda>entries.
       orFailed (QueryCount (ok 1) env q since st) (\<lambda>total.
         LogPage entries total (int (length entries) = limit \<and> offset + limit < total))))"

definition handleInstanceQueryLog :: "(nat \<Rightarrow> bool) \<Rightarrow> log_env \<Rightarrow> time \<Rightarrow> HTTPRequest \<Rightarrow> QueryLogStore option \<Rightarrow> logReply" where
  "handleInstanceQueryLog ok env now r db =
     readPage r db (\<lambda>st. orFailed (Query (ok 0) env (queryArgs r) (sinceOf env r now) (boundedOffset r) (boundedLimit r 100 500) st) LogEntries)"

definition handleClients :: "(nat \<Rightarrow> bool) \<Rightarrow> log_env \<Rightarrow> time \<Rightarrow> HTTPRequest \<Rightarrow> QueryLogStore option \<Rightarrow> logReply" where
  "handleClients ok env now r db =
     readPage r db (\<lambda>st. orFailed (ClientStats (ok 0) env (getOr (hr_Query r) ''instance'') (sinceOf env r now) (boundedLimit r 250 500) st) ClientList)"

definition handleClientNames :: "(nat \<Rightarrow> bool) \<Rightarrow> HTTPRequest \<Rightarrow> (string, string \<times> string) result \<Rightarrow> QueryLogStore option \<Rightarrow> QueryLogStore option \<times> logReply" where
  "handleClientNames ok r body db =
     (case db of
        None \<Rightarrow> (db, noQueryLog)
      | Some st \<Rightarrow>
          if hr_Method r = ''GET'' then (db, orFailed (ClientNames (ok 0) st) NameList)
          else if hr_Method r = ''PUT'' then
            (case body of
               Inl e \<Rightarrow> (db, LogError e 400)
             | Inr (client, name) \<Rightarrow>
                 if client = [] then (db, LogError ''client required'' 400)
                 else if 256 < length client \<or> 128 < length name then (db, LogError ''client/name too long'' 400)
                 else case SetClientName (ok 0) client name st of
                        (st1, True) \<Rightarrow> (Some st1, LogOK)
                      | (st1, False) \<Rightarrow> (Some st1, sqlFailed))
          else (db, badMethod))"

definition handleStats :: "(nat \<Rightarrow> bool) \<Rightarrow> log_env \<Rightarrow> time \<Rightarrow> HTTPRequest \<Rightarrow> QueryLogStore option \<Rightarrow> logReply" where
  "handleStats ok env now r db =
     readPage r db (\<lambda>st.
       let k = getOr (hr_Query r) ''instance''; since = sinceOf env r now in
       case AggregateStats (ok 0) env k (boundedDuration env r ''bucket'' (5 * Minute) Second (24 * Hour)) since st of
         Inl SqlError \<Rightarrow> sqlFailed
       | Inl DivideByZero \<Rightarrow> LogError ''panic'' 0
       | Inr agg \<Rightarrow> orFailed (UpstreamErrorCount (ok 1) env k since st) (\<lambda>n. Aggregate (agg\<lparr>ag_UpstreamErrors := word_of_int n\<rparr>)))"

definition handleTopDomains :: "(nat \<Rightarrow> bool) \<Rightarrow> log_env \<Rightarrow> time \<Rightarrow> HTTPRequest \<Rightarrow> QueryLogStore option \<Rightarrow> logReply" where
  "handleTopDomains ok env now r db =
     readPage r db (\<lambda>st. orFailed (TopDomains (ok 0) env (getOr (hr_Query r) ''instance'') (sinceOf env r now) (boundedLimit r 10 100) (actionArg r) st)
       DomainList)"

definition totalCacheStat :: "(string \<times> InstanceCacheStat) list \<Rightarrow> InstanceCacheStat" where
  "totalCacheStat per =
     (let cs = map snd per; n = sum_list (map ic_Queries cs); hits = sum_list (map ic_CachedQueries cs); misses = n - hits;
          weighted = (\<lambda>g w. sum_list (map (\<lambda>c. g c * of_int (w c)) cs))
      in \<lparr>ic_Queries = n, ic_CachedQueries = hits, ic_PercentCached = percentOf hits n,
          ic_AvgCachedUs = (if 0 < hits then weighted ic_AvgCachedUs ic_CachedQueries / of_int hits else 0),
          ic_AvgFetchedUs = (if 0 < misses then weighted ic_AvgFetchedUs (\<lambda>c. ic_Queries c - ic_CachedQueries c) / of_int misses else 0)\<rparr>)"

definition handleCacheStats :: "(nat \<Rightarrow> bool) \<Rightarrow> log_env \<Rightarrow> time \<Rightarrow> Fleet \<Rightarrow> HTTPRequest \<Rightarrow> QueryLogStore option \<Rightarrow> logReply" where
  "handleCacheStats ok env now f r db =
     readPage r db (\<lambda>st.
       let k = getOr (hr_Query r) ''instance''; since = sinceOf env r now;
           polled = [(instID i, s). (_, i) \<leftarrow> fl_instances f, s \<leftarrow> (case in_stats i of None \<Rightarrow> [] | Some s \<Rightarrow> [s])]
       in orFailed (CacheStats (ok 0) env k since st) (\<lambda>per.
          orFailed (TopCachedDomains (ok 1) env k since (boundedOffset r) (boundedLimit r 50 200) st) (\<lambda>top.
          orFailed (TopCachedDomainsCount (ok 2) env k since st) (\<lambda>topTotal.
            CacheReport (totalCacheStat per) per (map (\<lambda>(i, s). (i, sr_Cached s)) polled) (map (\<lambda>(i, s). (i, sr_CacheSize s)) polled) top topTotal))))"

definition handleUpstreamErrors :: "(nat \<Rightarrow> bool) \<Rightarrow> log_env \<Rightarrow> time \<Rightarrow> HTTPRequest \<Rightarrow> QueryLogStore option \<Rightarrow> logReply" where
  "handleUpstreamErrors ok env now r db =
     readPage r db (\<lambda>st. orFailed (UpstreamErrorStats (ok 0) env (getOr (hr_Query r) ''instance'') (sinceOf env r now) (boundedLimit r 100 500) st)
       (\<lambda>stats. ErrorReport (sum_list (map es_Count stats)) stats))"

definition handleMaintenance :: "(nat \<Rightarrow> bool) \<Rightarrow> HTTPRequest \<Rightarrow> (string, string \<times> string) result \<Rightarrow> QueryLogStore option \<Rightarrow> QueryLogStore option \<times> logReply" where
  "handleMaintenance ok r body db =
     (if hr_Method r \<noteq> ''POST'' then (db, badMethod)
      else case body of
             Inl e \<Rightarrow> (db, LogError ''bad request'' 400)
           | Inr (action, instance) \<Rightarrow>
               if action \<notin> set [''reset_stats'', ''clear_query_log'', ''clear_upstream_errors''] then (db, LogError ''unknown action'' 400)
               else case db of
                      None \<Rightarrow> (db, noQueryLog)
                    | Some st \<Rightarrow>
                        (case (if action = ''reset_stats'' then ClearStatsSamples (ok 0) st
                               else if action = ''clear_query_log'' then ClearQueryLog (ok 0) st
                               else ClearUpstreamErrors (ok 0) instance st) of
                           (st1, True) \<Rightarrow> (Some st1, LogOK)
                         | (st1, False) \<Rightarrow> (Some st1, LogError ''database error'' 500)))"

subsection \<open>Filling the log\<close>

definition entryFor :: "string \<Rightarrow> string \<Rightarrow> WatchEvent \<Rightarrow> QueryLogEntry" where
  "entryFor label blockList e =
     \<lparr>qe_ID = 0, qe_Timestamp = we_At e, qe_Instance = label, qe_Client = we_Client e, qe_Name = [], qe_Domain = we_Domain e,
      qe_Action = ToUpper (we_Type e), qe_Proto = we_Proto e, qe_Upstream = we_Upstream e, qe_BlockList = blockList, qe_QType = we_QType e,
      qe_IPs = we_IPs e, qe_Answers = we_Answers e, qe_DurationUs = we_DurationUs e, qe_Cached = we_Cached e\<rparr>"

text \<open>What the controller does with one event of an instance's stream; \<open>db\<close> is the blocklist store.\<close>

definition onWatchEvent :: "(nat \<Rightarrow> bool) \<Rightarrow> log_env \<Rightarrow> BlocklistStore option \<Rightarrow> InstanceConfig \<Rightarrow> WatchEvent \<Rightarrow> Fleet \<times> QueryLogStore option \<Rightarrow> Fleet \<times> QueryLogStore option" where
  "onWatchEvent ok env db cfg e s =
     (case s of (f, ql) \<Rightarrow>
      (publish \<lparr>ev_InstanceID = ic_ID cfg, ev_Instance = ic_Label cfg, ev_Type = we_Type e, ev_At = we_At e, ev_Health = None,
         ev_Stats = we_Stats e, ev_Client = we_Client e, ev_Domain = we_Domain e, ev_Msg = we_Msg e, ev_QType = we_QType e,
         ev_IPs = we_IPs e, ev_Answers = we_Answers e, ev_Cached = we_Cached e, ev_Upstream = we_Upstream e,
         ev_DurationUs = we_DurationUs e\<rparr> f,
       map_option (\<lambda>st.
         let st1 = (if we_Type e = ''block'' \<or> we_Type e = ''pass''
                    then Enqueue (entryFor (ic_Label cfg) (if we_Type e = ''block'' then resolveBlockList (ok 0) (we_BlockList e) (we_Domain e) db else []) e) st
                    else st)
         in if we_Type e = ''error''
            then fst (RecordUpstreamError (ok 1) env \<lparr>ue_Timestamp = we_At e, ue_Instance = ic_Label cfg, ue_Domain = we_Domain e, ue_Message = we_Msg e\<rparr> st1)
            else st1) ql))"

text \<open>The sample a poll leaves behind.\<close>

definition pollSample :: "bool \<Rightarrow> log_env \<Rightarrow> time \<Rightarrow> InstanceConfig \<Rightarrow> StatsResponse \<Rightarrow> QueryLogStore option \<Rightarrow> QueryLogStore option" where
  "pollSample ok env now cfg s =
     map_option (\<lambda>st. fst (AddStatsSample ok env
       \<lparr>ss_Timestamp = now, ss_Instance = ic_ID cfg, ss_Queries = sr_QueriesTotal s, ss_Blocked = sr_BlockedTotal s, ss_Errors = sr_UpstreamErr s,
        ss_DurationUs = sr_DurationTotalUs s\<rparr> st))"

subsection \<open>The log is paged without gaps\<close>

lemma sqlPage_nonneg: "0 \<le> offset \<Longrightarrow> 0 \<le> limit \<Longrightarrow> sqlPage offset limit xs = take (nat limit) (drop (nat offset) xs)"
  by (simp add: sqlPage_def Let_def)

lemma pages_concat: "concat (map (\<lambda>i. take n (drop (i * n) xs)) [0..<k]) = take (k * n) xs"
proof (induction k)
  case (Suc k)
  have "take (k * n) xs @ take n (drop (k * n) xs) = take (k * n + n) xs" by (simp add: take_add)
  then show ?case using Suc by (simp add: add.commute)
qed simp

lemma newestFirst_mset: "set (newestFirst rs) = set rs" "length (newestFirst rs) = length rs"
  by (simp_all add: newestFirst_def)

lemma newestFirst_sorted: "sorted_wrt (\<lambda>a b. (lr_ts b, lr_id b) \<le> (lr_ts a, lr_id a)) (newestFirst rs)"
proof -
  have "sorted (map (\<lambda>r. (lr_ts r, lr_id r)) (sort_key (\<lambda>r. (lr_ts r, lr_id r)) rs))" by simp
  then show ?thesis unfolding newestFirst_def sorted_wrt_rev sorted_map .
qed

text \<open>What the driver does: times of one time zone are stored so that their texts order and read back as they do.\<close>

definition sameZone :: "log_env \<Rightarrow> time set \<Rightarrow> bool" where
  "sameZone env T \<longleftrightarrow> (\<forall>a \<in> T. \<forall>b \<in> T. le_text env a \<le> le_text env b \<longleftrightarrow> a \<le> b) \<and> (\<forall>a \<in> T. parseQueryTS env (le_text env a) = a)"

lemma sqlLike_any: "sqlLike (CHR ''%'' # ps) s \<longleftrightarrow> (\<exists>a b. s = a @ b \<and> sqlLike ps b)"
proof (induction s)
  case (Cons c cs)
  show ?case
  proof
    assume "sqlLike (CHR ''%'' # ps) (c # cs)"
    then consider "sqlLike ps (c # cs)" | "sqlLike (CHR ''%'' # ps) cs" by auto
    then show "\<exists>a b. c # cs = a @ b \<and> sqlLike ps b"
    proof cases
      case 2
      then obtain a b where "cs = a @ b" "sqlLike ps b" using Cons.IH by blast
      then have "c # cs = (c # a) @ b \<and> sqlLike ps b" by simp
      then show ?thesis by blast
    qed (metis append_Nil)
  next
    assume "\<exists>a b. c # cs = a @ b \<and> sqlLike ps b"
    then obtain a b where ab: "c # cs = a @ b" "sqlLike ps b" by blast
    then show "sqlLike (CHR ''%'' # ps) (c # cs)" using Cons.IH by (cases a) auto
  qed
qed simp

lemma sqlLike_plain:
  assumes "CHR ''%'' \<notin> set p" and "CHR ''_'' \<notin> set p"
  shows "sqlLike (p @ ps) s \<longleftrightarrow> (\<exists>a b. s = a @ b \<and> ToLower a = ToLower p \<and> sqlLike ps b)"
  using assms
proof (induction p arbitrary: s)
  case (Cons c p)
  show ?case
  proof (cases s)
    case Nil
    then show ?thesis using Cons.prems by (auto simp: ToLower_def)
  next
    case (Cons x xs)
    have "sqlLike ((c # p) @ ps) s \<longleftrightarrow> lowerChar c = lowerChar x \<and> sqlLike (p @ ps) xs" using Cons Cons.prems by auto
    also have "\<dots> \<longleftrightarrow> (\<exists>a b. s = a @ b \<and> ToLower a = ToLower (c # p) \<and> sqlLike ps b)"
    proof
      assume "lowerChar c = lowerChar x \<and> sqlLike (p @ ps) xs"
      then obtain a b where "xs = a @ b" "ToLower a = ToLower p" "sqlLike ps b" "lowerChar c = lowerChar x"
        using Cons.IH Cons.prems by auto
      then have "s = (x # a) @ b \<and> ToLower (x # a) = ToLower (c # p) \<and> sqlLike ps b" using Cons by (simp add: ToLower_def)
      then show "\<exists>a b. s = a @ b \<and> ToLower a = ToLower (c # p) \<and> sqlLike ps b" by blast
    next
      assume "\<exists>a b. s = a @ b \<and> ToLower a = ToLower (c # p) \<and> sqlLike ps b"
      then obtain a b where ab: "s = a @ b" "ToLower a = ToLower (c # p)" "sqlLike ps b" by blast
      then show "lowerChar c = lowerChar x \<and> sqlLike (p @ ps) xs"
        using Cons Cons.IH Cons.prems by (cases a) (auto simp: ToLower_def)
    qed
    finally show ?thesis .
  qed
qed (auto simp: ToLower_def)

text \<open>So a filter without wildcards selects the rows that contain it, whatever the case.\<close>

lemma filter_contains:
  assumes "CHR ''%'' \<notin> set p" and "CHR ''_'' \<notin> set p"
  shows "sqlLike (''%'' @ p @ ''%'') s \<longleftrightarrow> sublist (ToLower p) (ToLower s)"
proof
  assume "sqlLike (''%'' @ p @ ''%'') s"
  then obtain a b where ab: "s = a @ b" "sqlLike (p @ ''%'') b" by (auto simp: sqlLike_any)
  then obtain u v where "b = u @ v" "ToLower u = ToLower p" using sqlLike_plain [OF assms] by blast
  then have "ToLower s = ToLower a @ ToLower p @ ToLower v" using ab by (simp add: ToLower_def)
  then show "sublist (ToLower p) (ToLower s)" by (simp add: sublist_def) blast
next
  assume "sublist (ToLower p) (ToLower s)"
  then obtain xs zs where s: "ToLower s = xs @ ToLower p @ zs" by (auto simp: sublist_def)
  define a u v where "a = take (length xs) s" and "u = take (length p) (drop (length xs) s)" and "v = drop (length p) (drop (length xs) s)"
  have "s = a @ u @ v" unfolding a_def u_def v_def by (metis append_take_drop_id)
  moreover have "ToLower u = ToLower p"
  proof -
    have "ToLower u = take (length p) (drop (length xs) (ToLower s))" by (simp add: u_def ToLower_def take_map drop_map)
    then show ?thesis by (simp add: s)
  qed
  moreover have "sqlLike ''%'' v" using sqlLike_any [of "[]" v] by (metis append_Nil2 sqlLike.simps(1))
  ultimately have "s = a @ (u @ v) \<and> sqlLike (p @ ''%'') (u @ v)" using sqlLike_plain [OF assms, of "''%''" "u @ v"] by blast
  then show "sqlLike (''%'' @ p @ ''%'') s" using sqlLike_any [of "p @ ''%''" s] by auto
qed

subsection \<open>Nothing is lost silently\<close>

datatype houseOp = Prune "bool \<times> bool \<times> bool" time | Retain bool time duration | Wipe bool | WipeErrors bool string | WipeSamples bool
  | Rename bool string string | Failure bool UpstreamError | Sampled bool StatsSample

definition house :: "log_env \<Rightarrow> houseOp \<Rightarrow> QueryLogStore \<Rightarrow> QueryLogStore" where
  "house env op st =
     (case op of
        Prune oks now \<Rightarrow> cleanupTick oks env now st
      | Retain ok now d \<Rightarrow> SetRetention ok env now d st
      | Wipe ok \<Rightarrow> fst (ClearQueryLog ok st)
      | WipeErrors ok k \<Rightarrow> fst (ClearUpstreamErrors ok k st)
      | WipeSamples ok \<Rightarrow> fst (ClearStatsSamples ok st)
      | Rename ok c n \<Rightarrow> fst (SetClientName ok c n st)
      | Failure ok e \<Rightarrow> fst (RecordUpstreamError ok env e st)
      | Sampled ok e \<Rightarrow> fst (AddStatsSample ok env e st))"

datatype logStep = Arrive QueryLogEntry | Receive bool | Tick bool | Halt bool | House houseOp

text \<open>
  A run of the store with a record of it: the entries accepted into the channel, those that left the writer (and whether their
  transaction went through), and how many were refused. The writer takes no step after it was stopped.
\<close>

type_synonym log_run = "QueryLogStore \<times> QueryLogEntry list \<times> (QueryLogEntry \<times> bool) list \<times> nat"

definition pending :: "QueryLogStore \<Rightarrow> QueryLogEntry list" where
  "pending st = qs_batch st @ qs_buf st"

definition writes :: "bool \<Rightarrow> QueryLogStore \<Rightarrow> log_run \<Rightarrow> log_run" where
  "writes ok st' s =
     (case s of (st, acc, gone, n) \<Rightarrow>
      if qs_stopped st then s
      else (st', acc, gone @ map (\<lambda>e. (e, ok)) (take (length (pending st) - length (pending st')) (pending st)), n))"

definition log_step :: "log_env \<Rightarrow> logStep \<Rightarrow> log_run \<Rightarrow> log_run" where
  "log_step env a s =
     (case s of (st, acc, gone, n) \<Rightarrow>
      case a of
        Arrive e \<Rightarrow> if length (qs_buf st) < logBufferCap then (Enqueue e st, acc @ [e], gone, n) else (Enqueue e st, acc, gone, n + 1)
      | Receive ok \<Rightarrow> writes ok (writerReceive ok env st) s
      | Tick ok \<Rightarrow> writes ok (writerTick ok env st) s
      | Halt ok \<Rightarrow> writes ok (writerStop ok env st) s
      | House op \<Rightarrow> (house env op st, acc, gone, n))"

definition log_start :: log_run where "log_start = (NewQueryLogStore, [], [], 0)"

fun storedAll :: "log_env \<Rightarrow> int \<Rightarrow> QueryLogEntry list \<Rightarrow> LogRow list" where
  "storedAll env k [] = []"
| "storedAll env k (e # es) = storedRow env k e # storedAll env (k + 1) es"

definition writtenOut :: "(QueryLogEntry \<times> bool) list \<Rightarrow> QueryLogEntry list" where
  "writtenOut gone = map fst (filter snd gone)"

text \<open>With \<open>exact\<close>, the table holds every row written; otherwise rows may have been deleted.\<close>

definition logInv :: "bool \<Rightarrow> log_env \<Rightarrow> log_run \<Rightarrow> bool" where
  "logInv exact env s \<longleftrightarrow>
     (case s of (st, acc, gone, n) \<Rightarrow>
      acc = map fst gone @ pending st \<and> length (qs_buf st) \<le> logBufferCap \<and> length (qs_batch st) < batchMax
      \<and> (qs_stopped st \<longrightarrow> qs_batch st = []) \<and> qs_dropped st = of_nat n
      \<and> qs_nextID st = 1 + int (length (writtenOut gone)) \<and> subseq (qs_rows st) (storedAll env 1 (writtenOut gone))
      \<and> (exact \<longrightarrow> qs_rows st = storedAll env 1 (writtenOut gone)))"

lemma storedAll_append: "storedAll env k (es @ fs) = storedAll env k es @ storedAll env (k + int (length es)) fs"
  by (induction es arbitrary: k) (simp_all add: add.assoc)

lemma fold_insertRow:
  "fold (insertRow env) es st = st\<lparr>qs_rows := qs_rows st @ storedAll env (qs_nextID st) es, qs_nextID := qs_nextID st + int (length es)\<rparr>"
  by (induction es arbitrary: st) (simp_all add: insertRow_def)

lemma insertBatchTx_fields:
  "insertBatchTx ok env es st =
     (if ok then st\<lparr>qs_rows := qs_rows st @ storedAll env (qs_nextID st) es, qs_nextID := qs_nextID st + int (length es)\<rparr> else st)"
  by (simp add: insertBatchTx_def fold_insertRow)

lemma written_snoc: "writtenOut (gone @ map (\<lambda>e. (e, ok)) es) = writtenOut gone @ (if ok then es else [])"
  by (simp add: writtenOut_def filter_map o_def map_idI)

lemma written_nil [simp]: "writtenOut [] = []"
  by (simp add: writtenOut_def)

text \<open>A flush hands over a prefix of what is pending.\<close>

lemma flush_inv:
  assumes "logInv exact env (st, acc, gone, n)" and "pending st = es @ rest"
    and "st' = (insertBatchTx ok env es st)\<lparr>qs_batch := [], qs_buf := rest, qs_stopped := b\<rparr>" and "length rest \<le> logBufferCap"
  shows "logInv exact env (st', acc, gone @ map (\<lambda>e. (e, ok)) es, n)"
proof -
  have "subseq (qs_rows st @ storedAll env (1 + int (length (writtenOut gone))) es) (storedAll env 1 (writtenOut gone) @ storedAll env (1 + int (length (writtenOut gone))) es)"
    using assms(1) by (intro list_emb_append_mono) (simp_all add: logInv_def)
  then show ?thesis
    using assms by (auto simp: logInv_def pending_def insertBatchTx_fields written_snoc storedAll_append batchMax_def o_def)
qed

lemma house_fields:
  "qs_buf (house env op st) = qs_buf st" "qs_batch (house env op st) = qs_batch st" "qs_stopped (house env op st) = qs_stopped st"
  "qs_dropped (house env op st) = qs_dropped st" "qs_nextID (house env op st) = qs_nextID st" "subseq (qs_rows (house env op st)) (qs_rows st)"
  by (cases op; auto simp: house_def cleanupTick_def pruneLog_def SetRetention_def ClearQueryLog_def ClearUpstreamErrors_def ClearStatsSamples_def
      SetClientName_def RecordUpstreamError_def AddStatsSample_def Let_def split: prod.split)+

lemma receive_inv:
  assumes "logInv exact env (st, acc, gone, n)" and "\<not> qs_stopped st"
  shows "logInv exact env (writes ok (writerReceive ok env st) (st, acc, gone, n))"
proof (cases "qs_buf st")
  case Nil
  then show ?thesis using assms by (simp add: writes_def writerReceive_def)
next
  case (Cons e rest)
  let ?es = "qs_batch st @ [e]"
  have p: "pending st = ?es @ rest" using Cons by (simp add: pending_def)
  have len: "length rest \<le> logBufferCap" using assms(1) Cons by (simp add: logInv_def)
  show ?thesis
  proof (cases "batchMax \<le> length ?es")
    case True
    let ?st' = "writerReceive ok env st"
    have st': "?st' = (insertBatchTx ok env ?es st)\<lparr>qs_batch := [], qs_buf := rest, qs_stopped := qs_stopped st\<rparr>"
      using Cons True by (simp add: writerReceive_def insertBatchTx_fields Let_def)
    then have "pending ?st' = rest" by (simp add: pending_def)
    then show ?thesis using flush_inv [OF assms(1) p st' len] assms(2) p by (simp add: writes_def)
  next
    case False
    then have st': "writerReceive ok env st = st\<lparr>qs_buf := rest, qs_batch := ?es\<rparr>" using Cons by (simp add: writerReceive_def)
    then show ?thesis using assms p False len Cons by (simp add: writes_def logInv_def pending_def)
  qed
qed

lemma tick_inv:
  assumes "logInv exact env (st, acc, gone, n)" and "\<not> qs_stopped st"
  shows "logInv exact env (writes ok (writerTick ok env st) (st, acc, gone, n))" and "logInv exact env (writes ok (writerStop ok env st) (st, acc, gone, n))"
proof -
  have p: "pending st = qs_batch st @ qs_buf st" by (simp add: pending_def)
  have len: "length (qs_buf st) \<le> logBufferCap" using assms(1) by (simp add: logInv_def)
  have t: "writerTick ok env st = (insertBatchTx ok env (qs_batch st) st)\<lparr>qs_batch := [], qs_buf := qs_buf st, qs_stopped := qs_stopped st\<rparr>"
    and s: "writerStop ok env st = (insertBatchTx ok env (qs_batch st) st)\<lparr>qs_batch := [], qs_buf := qs_buf st, qs_stopped := True\<rparr>"
    by (simp_all add: writerTick_def writerStop_def insertBatchTx_fields)
  have "pending (writerTick ok env st) = qs_buf st" "pending (writerStop ok env st) = qs_buf st" by (simp_all add: t s pending_def)
  then show "logInv exact env (writes ok (writerTick ok env st) (st, acc, gone, n))" "logInv exact env (writes ok (writerStop ok env st) (st, acc, gone, n))"
    using flush_inv [OF assms(1) p t len] flush_inv [OF assms(1) p s len] assms(2) p by (simp_all add: writes_def)
qed

lemma log_step_inv:
  assumes "logInv exact env s" and "exact \<longrightarrow> (\<forall>op. a \<noteq> House op)"
  shows "logInv exact env (log_step env a s)"
proof (cases s)
  case (fields st acc gone n)
  note s = assms(1) [unfolded fields]
  show ?thesis
  proof (cases a)
    case (Arrive e)
    then show ?thesis using s by (auto simp: fields log_step_def Enqueue_def logInv_def pending_def)
  next
    case (House op)
    have "subseq (qs_rows (house env op st)) (storedAll env 1 (writtenOut gone))"
      using s house_fields(6) [of env op st] by (auto simp: logInv_def intro: subseq_order.trans)
    then show ?thesis using s assms(2) by (simp add: House fields log_step_def logInv_def pending_def house_fields)
  qed (cases "qs_stopped st"; use s receive_inv [OF s] tick_inv [OF s] in \<open>simp add: fields log_step_def writes_def\<close>)+
qed

interpretation logrun: invariant_steps "log_step env" "logInv False env" for env
  by unfold_locales (rule log_step_inv, simp_all)

lemma exact_run:
  assumes "\<forall>a \<in> set as. \<forall>op. a \<noteq> House op" and "logInv True env s"
  shows "logInv True env (fold (log_step env) as s)"
  using assms by (induction as arbitrary: s) (simp_all add: log_step_inv)

lemma log_start_inv: "logInv exact env log_start"
  by (simp add: logInv_def log_start_def NewQueryLogStore_def pending_def batchMax_def)

text \<open>
  C13. The query log accounts for every event of the instances. However arrivals, the batching writer, retention, maintenance and failing
  transactions interleave: an entry the buffer has room for is, in order of arrival and exactly once, in the table, in a transaction the
  database refused, with the writer (fewer than 500) or in the channel (at most 4096); the others are counted as dropped. Rows
  get consecutive ids in that order; the table holds exactly the rows written, unless maintenance deleted some.
\<close>

theorem log_conserved:
  assumes "fold (log_step env) as log_start = (st, acc, gone, n)"
  shows "acc = map fst gone @ qs_batch st @ qs_buf st
    \<and> length (qs_batch st) < 500 \<and> length (qs_buf st) \<le> 4096 \<and> qs_dropped st = of_nat n
    \<and> subseq (qs_rows st) (storedAll env 1 (writtenOut gone))
    \<and> ((\<forall>a \<in> set as. \<forall>op. a \<noteq> House op) \<longrightarrow> qs_rows st = storedAll env 1 (writtenOut gone))"
proof -
  have "logInv False env (st, acc, gone, n)" using logrun.run_inv [OF log_start_inv, of env as] assms by simp
  moreover have "qs_rows st = storedAll env 1 (writtenOut gone)" if "\<forall>a \<in> set as. \<forall>op. a \<noteq> House op"
    using exact_run [OF that log_start_inv, of env] unfolding assms by (simp add: logInv_def)
  ultimately show ?thesis by (simp add: logInv_def pending_def batchMax_def logBufferCap_def)
qed

text \<open>Stopping writes the batch but not what waits in the channel: that is never written.\<close>

theorem shutdown_loses:
  assumes "qs_stopped st" and "fold (log_step env) as (st, acc, gone, n) = (st', acc', gone', n')"
  shows "gone' = gone \<and> (\<exists>more. qs_buf st' = qs_buf st @ more)"
  using assms
proof (induction as arbitrary: st acc n)
  case (Cons a as)
  have stay: "writes ok x (st, acc, gone, n) = (st, acc, gone, n)" for ok x using Cons.prems(1) by (simp add: writes_def)
  obtain st1 acc1 gone1 n1 where s: "log_step env a (st, acc, gone, n) = (st1, acc1, gone1, n1)" by (metis prod_cases4)
  have "qs_stopped st1 \<and> gone1 = gone \<and> (\<exists>more. qs_buf st1 = qs_buf st @ more)"
    using s Cons.prems(1) by (cases a) (auto simp: log_step_def stay Enqueue_def house_fields split: if_splits)
  then show ?case using Cons.IH [of st1 acc1 n1] Cons.prems(2) s by auto
qed simp

subsection \<open>Pages of the log\<close>

definition allEntries :: "log_env \<Rightarrow> LogQuery \<Rightarrow> time \<Rightarrow> QueryLogStore \<Rightarrow> QueryLogEntry list" where
  "allEntries env q since st = map (entryOf env (qs_names st)) (newestFirst (matchingRows env q since st))"

lemma boundedLimit_range: "1 \<le> fallback \<Longrightarrow> fallback \<le> maximum \<Longrightarrow> 1 \<le> boundedLimit r fallback maximum \<and> boundedLimit r fallback maximum \<le> maximum"
  by (simp add: boundedLimit_def Let_def)

lemma boundedOffset_range: "0 \<le> boundedOffset r \<and> boundedOffset r \<le> 1000000"
  by (simp add: boundedOffset_def Let_def maxPageOffset_def split: option.split)

lemma boundedDuration_range: "minimum \<le> fallback \<Longrightarrow> fallback \<le> maximum \<Longrightarrow>
    minimum \<le> boundedDuration env r key fallback minimum maximum \<and> boundedDuration env r key fallback minimum maximum \<le> maximum"
  by (simp add: boundedDuration_def Let_def split: option.split)

lemma Query_page: "0 \<le> offset \<Longrightarrow> 0 \<le> limit \<Longrightarrow>
    Query True env q since offset limit st = Some (take (nat limit) (drop (nat offset) (allEntries env q since st)))"
  by (simp add: Query_def sqlPage_nonneg allEntries_def take_map drop_map)

lemma QueryCount_all: "QueryCount True env q since st = Some (int (length (allEntries env q since st)))"
  by (simp add: QueryCount_def allEntries_def newestFirst_mset)

lemma storedAll_ids: "map lr_id (storedAll env k es) = map (\<lambda>i. k + int i) [0..<length es]"
proof (induction es arbitrary: k)
  case (Cons e es)
  have "map (\<lambda>i. k + int i) [0..<length (e # es)] = k # map (\<lambda>i. k + 1 + int i) [0..<length es]"
    by (simp add: upt_conv_Cons map_Suc_upt [symmetric] o_def add.assoc del: upt_Suc)
  then show ?case using Cons by (simp add: storedRow_def row_def)
qed simp

lemma storedAll_ts: "x \<in> set (storedAll env k es) \<Longrightarrow> \<exists>e \<in> set es. lr_ts x = le_text env (qe_Timestamp e)"
  by (induction es arbitrary: k) (auto simp: storedRow_def row_def)

lemma subseq_distinct: "subseq xs ys \<Longrightarrow> distinct ys \<Longrightarrow> distinct xs"
  by (induction rule: list_emb.induct) (auto dest: list_emb_set)

lemma reached_rows:
  assumes "fold (log_step env) as log_start = (st, acc, gone, n)"
  shows "distinct (map lr_id (qs_rows st))" and "x \<in> set (qs_rows st) \<Longrightarrow> \<exists>e \<in> set acc. lr_ts x = le_text env (qe_Timestamp e)"
proof -
  have inv: "logInv False env (st, acc, gone, n)" using logrun.run_inv [OF log_start_inv, of env as] assms by simp
  then have sub: "subseq (qs_rows st) (storedAll env 1 (writtenOut gone))" by (simp add: logInv_def)
  have "distinct (map lr_id (storedAll env 1 (writtenOut gone)))" unfolding storedAll_ids by (simp add: distinct_map inj_on_def)
  then show "distinct (map lr_id (qs_rows st))" using subseq_map [OF sub, of lr_id] subseq_distinct by blast
  assume "x \<in> set (qs_rows st)"
  then obtain e where e: "e \<in> set (writtenOut gone)" "lr_ts x = le_text env (qe_Timestamp e)"
    using storedAll_ts list_emb_set [OF sub] by metis
  moreover have "set (writtenOut gone) \<subseteq> set acc" using inv by (auto simp: logInv_def writtenOut_def)
  ultimately show "\<exists>e \<in> set acc. lr_ts x = le_text env (qe_Timestamp e)" by blast
qed

lemma allEntries_distinct:
  assumes "distinct (map lr_id (qs_rows st))"
  shows "distinct (map qe_ID (allEntries env q since st))"
proof -
  have "distinct (map lr_id (matchingRows env q since st))" using assms by (simp add: matchingRows_def distinct_map_filter)
  then have "distinct (map lr_id (newestFirst (matchingRows env q since st)))"
    by (simp add: newestFirst_def distinct_map)
  then show ?thesis by (simp add: allEntries_def entryOf_def o_def)
qed

lemma allEntries_sorted:
  assumes "sameZone env T" and "\<And>x. x \<in> set (qs_rows st) \<Longrightarrow> \<exists>t \<in> T. lr_ts x = le_text env t"
  shows "sorted_wrt (\<lambda>a b. qe_Timestamp b \<le> qe_Timestamp a) (allEntries env q since st)"
proof -
  let ?rs = "newestFirst (matchingRows env q since st)"
  have order: "parseQueryTS env (lr_ts b) \<le> parseQueryTS env (lr_ts a)"
    if ab: "a \<in> set ?rs" "b \<in> set ?rs" and le: "(lr_ts b, lr_id b) \<le> (lr_ts a, lr_id a)" for a b
  proof -
    obtain s t where "s \<in> T" "t \<in> T" "lr_ts a = le_text env s" "lr_ts b = le_text env t"
      using assms(2) ab by (auto simp: newestFirst_mset matchingRows_def) (metis)
    moreover have "lr_ts b \<le> lr_ts a" using le by auto
    ultimately show ?thesis using assms(1) by (auto simp: sameZone_def)
  qed
  have "sorted_wrt (\<lambda>a b. parseQueryTS env (lr_ts b) \<le> parseQueryTS env (lr_ts a)) ?rs"
    by (rule sorted_wrt_mono_rel [OF _ newestFirst_sorted]) (rule order)
  then show ?thesis by (simp add: allEntries_def sorted_wrt_map entryOf_def)
qed

text \<open>
  C14. The query-log page shows the log without gaps or repetitions. In every state the store can reach: the entries of a
  request are the window at its offset, at most 500 long, of one list, which holds each matching row exactly once, newest first; the total is the length
  of that list; \<open>has_more\<close> says whether anything is left behind the window; and consecutive pages
  of any size put together are that list. (Times are stored in one time zone.)
\<close>

theorem query_pages:
  assumes "fold (log_step env) as log_start = (st, acc, gone, n)" and "sameZone env T" and "\<forall>e \<in> set acc. qe_Timestamp e \<in> T"
    and "handleQueries (\<lambda>_. True) env now r (Some st) = LogPage es tot hasMore"
    and "q = queryArgs r" and "since = sinceOf env r now" and "limit = boundedLimit r 100 500" and "offset = boundedOffset r"
  shows "es = take (nat limit) (drop (nat offset) (allEntries env q since st)) \<and> tot = int (length (allEntries env q since st))
    \<and> (hasMore \<longleftrightarrow> drop (nat (offset + limit)) (allEntries env q since st) \<noteq> []) \<and> 1 \<le> limit \<and> limit \<le> 500 \<and> 0 \<le> offset
    \<and> distinct (map qe_ID (allEntries env q since st)) \<and> sorted_wrt (\<lambda>a b. qe_Timestamp b \<le> qe_Timestamp a) (allEntries env q since st)
    \<and> set (allEntries env q since st) = entryOf env (qs_names st) ` {x \<in> set (qs_rows st). inRange env since x \<and> logFilter q (qs_names st) x}
    \<and> (\<forall>m k. concat (map (\<lambda>i. the (Query True env q since (int (i * m)) (int m) st)) [0..<k]) = take (k * m) (allEntries env q since st))"
proof -
  let ?all = "allEntries env q since st"
  have b: "1 \<le> limit" "limit \<le> 500" "0 \<le> offset" using boundedLimit_range [of 100 500 r] boundedOffset_range [of r] assms(7,8) by auto
  have "hr_Method r = ''GET''" using assms(4) by (auto simp: handleQueries_def readPage_def badMethod_def split: if_splits)
  then have h: "es = take (nat limit) (drop (nat offset) ?all)" "tot = int (length ?all)"
    "hasMore \<longleftrightarrow> int (length es) = limit \<and> offset + limit < tot"
    using assms(4) b unfolding assms(5-8) by (auto simp: handleQueries_def readPage_def orFailed_def Let_def Query_page QueryCount_all)
  have "hasMore \<longleftrightarrow> drop (nat (offset + limit)) ?all \<noteq> []" using h b by auto
  moreover have "distinct (map qe_ID ?all)" by (rule allEntries_distinct [OF reached_rows(1) [OF assms(1)]])
  moreover have "sorted_wrt (\<lambda>a b. qe_Timestamp b \<le> qe_Timestamp a) ?all"
    using allEntries_sorted [OF assms(2)] reached_rows(2) [OF assms(1)] assms(3) by metis
  moreover have "concat (map (\<lambda>i. the (Query True env q since (int (i * m)) (int m) st)) [0..<k]) = take (k * m) ?all" for m k
    using pages_concat [of m ?all k] by (simp add: Query_page nat_mult_distrib)
  moreover have "set ?all = entryOf env (qs_names st) ` {x \<in> set (qs_rows st). inRange env since x \<and> logFilter q (qs_names st) x}"
    by (simp add: allEntries_def newestFirst_mset matchingRows_def)
  ultimately show ?thesis using h b by blast
qed

subsection \<open>Statistics from sampled counters\<close>

fun growth :: "u64 list \<Rightarrow> u64" where
  "growth (x # y # zs) = counterDelta y x + growth (y # zs)"
| "growth _ = 0"

lemma growth_snoc: "growth (xs @ [y]) = growth xs + (if xs = [] then 0 else counterDelta y (last xs))"
  by (induction xs rule: growth.induct) (simp_all add: add.assoc)

lemma sum_update:
  fixes g :: "'v \<Rightarrow> 'a :: ab_group_add"
  assumes "distinct (map fst al)"
  shows "sum_list (map (g \<circ> snd) (AList.update k v al)) = sum_list (map (g \<circ> snd) al) - (case map_of al k of None \<Rightarrow> 0 | Some x \<Rightarrow> g x) + g v"
  using assms by (induction al) (auto simp: algebra_simps map_of_eq_None_iff split: option.splits)

lemma sum_sorted: "sum_list (map g (sort_key f xs)) = sum_list (map g (xs :: 'x list))" for g :: "'x \<Rightarrow> 'a :: comm_monoid_add"
  by (metis mset_map mset_sort sum_mset_sum_list)

abbreviation samplesOf :: "string \<Rightarrow> SampleRow list \<Rightarrow> SampleRow list" where
  "samplesOf k rs \<equiv> filter (\<lambda>r. sr_instance r = k) rs"

definition aggInv :: "int \<Rightarrow> SampleRow list \<Rightarrow> AggLoop \<Rightarrow> bool" where
  "aggInv secs rs s \<longleftrightarrow>
     (\<forall>k. map_of (al_last s) k = (if samplesOf k rs = [] then None else Some (last (samplesOf k rs))))
     \<and> (\<forall>k. map_of (al_per s) k = (if samplesOf k rs = [] then None
          else Some \<lparr>pi_Queries = growth (map sr_queries (samplesOf k rs)), pi_Blocked = growth (map sr_blocked (samplesOf k rs))\<rparr>))
     \<and> distinct (map fst (al_per s)) \<and> distinct (map fst (al_buckets s))
     \<and> sum_list (map (pi_Queries \<circ> snd) (al_per s)) = al_total s \<and> sum_list (map (pi_Blocked \<circ> snd) (al_per s)) = al_blocked s
     \<and> sum_list (map (tp_TotalQueries \<circ> snd) (al_buckets s)) = al_total s
     \<and> sum_list (map (tp_BlockedQueries \<circ> snd) (al_buckets s)) = al_blocked s
     \<and> (\<forall>(bk, p) \<in> set (al_buckets s). tp_Timestamp p = bk * secs * Second)"

lemma aggStart_inv: "aggInv secs [] aggStart"
  by (simp add: aggInv_def aggStart_def)

lemma delta_growth:
  assumes "prev = (if samplesOf k rs = [] then None else Some (last (samplesOf k rs)))" and "sr_instance r = k"
  shows "growth (map g (samplesOf k (rs @ [r]))) = growth (map g (samplesOf k rs)) + delta g prev r"
  using assms growth_snoc [of "map g (samplesOf k rs)" "g r"] by (auto simp: delta_def last_map)

lemma aggStep_inv:
  assumes "aggInv secs rs s"
  shows "aggInv secs (rs @ [r]) (aggStep env secs r s)"
proof -
  let ?k = "sr_instance r" and ?bk = "seriesBucket secs (parseQueryTS env (sr_ts r))"
  define prev where "prev = map_of (al_last s) ?k"
  have prev: "prev = (if samplesOf ?k rs = [] then None else Some (last (samplesOf ?k rs)))" using assms by (simp add: aggInv_def prev_def)
  note growths = delta_growth [OF prev refl, of sr_queries] delta_growth [OF prev refl, of sr_blocked]
  define pi where "pi = (case map_of (al_per s) ?k of None \<Rightarrow> \<lparr>pi_Queries = 0, pi_Blocked = 0\<rparr> | Some p \<Rightarrow> p)"
  have pi: "pi = \<lparr>pi_Queries = growth (map sr_queries (samplesOf ?k rs)), pi_Blocked = growth (map sr_blocked (samplesOf ?k rs))\<rparr>"
    using assms by (auto simp: aggInv_def pi_def split: option.split)
  define pt where "pt = (case map_of (al_buckets s) ?bk of
      None \<Rightarrow> \<lparr>tp_Timestamp = ?bk * secs * Second, tp_TotalQueries = 0, tp_BlockedQueries = 0\<rparr> | Some p \<Rightarrow> p)"
  have pt: "tp_Timestamp pt = ?bk * secs * Second"
    using assms by (auto simp: aggInv_def pt_def dest: map_of_SomeD split: option.split)
  define s' where "s' = aggStep env secs r s"
  have s': "al_last s' = AList.update ?k r (al_last s)" "al_total s' = al_total s + delta sr_queries prev r"
    "al_blocked s' = al_blocked s + delta sr_blocked prev r"
    "al_per s' = AList.update ?k (pi\<lparr>pi_Queries := pi_Queries pi + delta sr_queries prev r, pi_Blocked := pi_Blocked pi + delta sr_blocked prev r\<rparr>) (al_per s)"
    "al_buckets s' = AList.update ?bk (pt\<lparr>tp_TotalQueries := tp_TotalQueries pt + delta sr_queries prev r,
        tp_BlockedQueries := tp_BlockedQueries pt + delta sr_blocked prev r\<rparr>) (al_buckets s)"
    unfolding s'_def aggStep_def Let_def prev_def pi_def pt_def by simp_all
  have old: "(case map_of (al_per s) ?k of None \<Rightarrow> 0 | Some x \<Rightarrow> pi_Queries x) = pi_Queries pi"
    "(case map_of (al_per s) ?k of None \<Rightarrow> 0 | Some x \<Rightarrow> pi_Blocked x) = pi_Blocked pi"
    "(case map_of (al_buckets s) ?bk of None \<Rightarrow> 0 | Some x \<Rightarrow> tp_TotalQueries x) = tp_TotalQueries pt"
    "(case map_of (al_buckets s) ?bk of None \<Rightarrow> 0 | Some x \<Rightarrow> tp_BlockedQueries x) = tp_BlockedQueries pt"
    by (simp_all add: pi_def pt_def split: option.split)
  have d: "distinct (map fst (al_per s))" "distinct (map fst (al_buckets s))" using assms by (simp_all add: aggInv_def)
  have base: "sum_list (map (pi_Queries \<circ> snd) (al_per s)) = al_total s" "sum_list (map (pi_Blocked \<circ> snd) (al_per s)) = al_blocked s"
    "sum_list (map (tp_TotalQueries \<circ> snd) (al_buckets s)) = al_total s" "sum_list (map (tp_BlockedQueries \<circ> snd) (al_buckets s)) = al_blocked s"
    using assms by (simp_all add: aggInv_def)
  have sums: "sum_list (map (pi_Queries \<circ> snd) (al_per s')) = al_total s'" "sum_list (map (pi_Blocked \<circ> snd) (al_per s')) = al_blocked s'"
    "sum_list (map (tp_TotalQueries \<circ> snd) (al_buckets s')) = al_total s'" "sum_list (map (tp_BlockedQueries \<circ> snd) (al_buckets s')) = al_blocked s'"
    by (simp_all add: s' sum_update d old base)
  moreover have "\<forall>k. map_of (al_last s') k = (if samplesOf k (rs @ [r]) = [] then None else Some (last (samplesOf k (rs @ [r]))))"
    using assms by (auto simp: s' aggInv_def)
  moreover have "map_of (al_per s') k = (if samplesOf k (rs @ [r]) = [] then None
      else Some \<lparr>pi_Queries = growth (map sr_queries (samplesOf k (rs @ [r]))), pi_Blocked = growth (map sr_blocked (samplesOf k (rs @ [r])))\<rparr>)" for k
    using assms growths pi by (cases "k = ?k") (simp_all add: s' aggInv_def)
  moreover have "\<forall>(bk, p) \<in> set (al_buckets s'). tp_Timestamp p = bk * secs * Second"
    using assms pt set_update_subset [of ?bk _ "al_buckets s"] by (fastforce simp: s' aggInv_def)
  ultimately show ?thesis using d unfolding aggInv_def s'_def [symmetric] by (simp add: s')
qed

lemma aggFold_inv: "aggInv secs rs (fold (aggStep env secs) rs aggStart)"
  by (induction rs rule: rev_induct) (simp_all add: aggStart_inv aggStep_inv)

text \<open>The life of an instance as the controller cannot see it, and the counter values a sample reads.\<close>

datatype life = AnswersQuery | Restarts | IsSampled

fun countersRead :: "life list \<Rightarrow> nat \<Rightarrow> nat list" where
  "countersRead [] c = []"
| "countersRead (AnswersQuery # l) c = countersRead l (c + 1)"
| "countersRead (Restarts # l) c = countersRead l 0"
| "countersRead (IsSampled # l) c = c # countersRead l c"

text \<open>The queries answered before the last sample.\<close>

fun answeredUpTo :: "life list \<Rightarrow> nat" where
  "answeredUpTo [] = 0"
| "answeredUpTo (x # l) = (if IsSampled \<in> set (x # l) then (if x = AnswersQuery then 1 else 0) + answeredUpTo l else 0)"

definition answeredBetween :: "life list \<Rightarrow> nat" where
  "answeredBetween l = answeredUpTo (tl (dropWhile (\<lambda>x. x \<noteq> IsSampled) l))"

fun growthN :: "nat list \<Rightarrow> nat" where
  "growthN (x # y # zs) = (if x \<le> y then y - x else y) + growthN (y # zs)"
| "growthN _ = 0"

lemma countersRead_none: "IsSampled \<notin> set l \<Longrightarrow> countersRead l c = []"
  by (induction l c rule: countersRead.induct) auto

lemma growthN_le:
  assumes "c = p + a \<or> c \<le> a"
  shows "growthN (p # countersRead l c) \<le> (if IsSampled \<in> set l then a else 0) + answeredUpTo l"
  using assms
proof (induction l c arbitrary: p a rule: countersRead.induct)
  case (2 l c)
  then show ?case using "2.IH" [of p "a + 1"] by (cases "IsSampled \<in> set l") (auto simp: countersRead_none)
next
  case (3 l c)
  then show ?case using "3.IH" [of p a] by (cases "IsSampled \<in> set l") (auto simp: countersRead_none)
next
  case (4 l c)
  have "growthN (c # countersRead l c) \<le> answeredUpTo l" using "4.IH" [of c 0] by (simp split: if_splits)
  then show ?case using "4.prems" by auto
qed simp

lemma growthN_eq:
  assumes "Restarts \<notin> set l" and "c = p + a"
  shows "growthN (p # countersRead l c) = (if IsSampled \<in> set l then a else 0) + answeredUpTo l"
  using assms
proof (induction l c arbitrary: p a rule: countersRead.induct)
  case (2 l c)
  then show ?case using "2.IH" [of p "a + 1"] by (cases "IsSampled \<in> set l") (auto simp: countersRead_none)
next
  case (4 l c)
  then show ?case using "4.IH" [of c 0] by auto
qed auto

lemma first_sample:
  assumes "IsSampled \<in> set l"
  shows "\<exists>c'. countersRead l c = c' # countersRead (tl (dropWhile (\<lambda>x. x \<noteq> IsSampled) l)) c'"
  using assms by (induction l c rule: countersRead.induct) auto

lemma growthN_life:
  assumes "IsSampled \<in> set l"
  shows "growthN (countersRead l c) \<le> answeredBetween l" and "Restarts \<notin> set l \<Longrightarrow> growthN (countersRead l c) = answeredBetween l"
proof -
  let ?l = "tl (dropWhile (\<lambda>x. x \<noteq> IsSampled) l)"
  obtain c' where c: "countersRead l c = c' # countersRead ?l c'" using first_sample [OF assms] by blast
  show "growthN (countersRead l c) \<le> answeredBetween l"
    using growthN_le [of c' c' 0 ?l] by (simp add: c answeredBetween_def split: if_splits)
  have "set (dropWhile (\<lambda>x. x \<noteq> IsSampled) l) \<subseteq> set l" by (auto dest: set_dropWhileD)
  moreover have "set (tl xs) \<subseteq> set xs" for xs :: "life list" by (cases xs) auto
  ultimately have "set ?l \<subseteq> set l" by blast
  then show "growthN (countersRead l c) = answeredBetween l" if "Restarts \<notin> set l"
    using growthN_eq [of ?l c' c' 0] that by (auto simp: c answeredBetween_def)
qed

lemma growth_nat:
  assumes "\<forall>x \<in> set cs. x < 2 ^ 64" and "growthN cs < 2 ^ 64"
  shows "unat (growth (map of_nat cs)) = growthN cs"
  using assms
proof (induction cs rule: growthN.induct)
  case (1 x y zs)
  let ?d = "if x \<le> y then y - x else y"
  have xy: "unat (of_nat x :: u64) = x" "unat (of_nat y :: u64) = y" using "1.prems"(1) by (simp_all add: unat_of_nat take_bit_nat_eq_self)
  have d: "unat (counterDelta (of_nat y) (of_nat x)) = ?d"
    using xy by (simp add: counterDelta_def word_le_nat_alt unat_sub)
  moreover have "unat (growth (map of_nat (y # zs))) = growthN (y # zs)" using 1 by auto
  ultimately have "unat (counterDelta (of_nat y) (of_nat x)) + unat (growth (map of_nat (y # zs))) < 2 ^ 64" using "1.prems"(2) by simp
  then have "unat (counterDelta (of_nat y) (of_nat x) + growth (map of_nat (y # zs)))
      = unat (counterDelta (of_nat y) (of_nat x)) + unat (growth (map of_nat (y # zs)))" by (intro unat_add_lem [THEN iffD1]) simp
  then show ?case using d 1 by simp
qed simp_all

lemma stats_no_panic: "handleStats ok env now r db \<noteq> LogError ''panic'' 0"
proof -
  let ?b = "boundedDuration env r ''bucket'' (5 * Minute) Second (24 * Hour)"
  have "Second \<le> ?b" using boundedDuration_range [of Second "5 * Minute" "24 * Hour"] by (simp add: Hour_def)
  then have "?b sdiv Second = ?b div Second" and "0 < ?b div Second" by (simp_all add: signed_divide_int_def sgn_if pos_imp_zdiv_pos_iff)
  then show ?thesis
    by (auto simp: handleStats_def readPage_def badMethod_def noQueryLog_def sqlFailed_def orFailed_def AggregateStats_def Let_def
        split: option.splits)
qed

text \<open>
  C15. Statistics never count a query twice. The controller sees of an instance only samples of a counter that starts again at zero
  with every restart; whatever the instance did in between, the figure reported for it is at most the number of
  queries it answered between the first and the last sample of the range, and exactly that number if it was not restarted. The totals, the
  figures per instance and the series agree, and the points of the series are distinct instants in ascending order.
\<close>

theorem stats_never_overcount:
  assumes "AggregateStats True env inst bucket since st = Inr agg"
    and "map sr_queries (samplesOf k (sampleRows env inst since st)) = map of_nat (countersRead l c)" and "IsSampled \<in> set l"
    and "\<forall>x \<in> set (countersRead l c). x < 2 ^ 63" and "answeredBetween l < 2 ^ 63"
  shows "(\<exists>p. map_of (ag_PerInstance agg) k = Some p \<and> 0 \<le> sint (pi_Queries p) \<and> sint (pi_Queries p) \<le> int (answeredBetween l)
      \<and> (Restarts \<notin> set l \<longrightarrow> sint (pi_Queries p) = int (answeredBetween l)))
    \<and> ag_TotalQueries agg = sum_list (map (pi_Queries \<circ> snd) (ag_PerInstance agg)) \<and> ag_TotalQueries agg = sum_list (map tp_TotalQueries (ag_Series agg))
    \<and> sorted_wrt (<) (map tp_Timestamp (ag_Series agg))"
proof -
  let ?secs = "bucket sdiv Second" and ?rs = "sampleRows env inst since st"
  define s where "s = fold (aggStep env ?secs) ?rs aggStart"
  have inv: "aggInv ?secs ?rs s" using aggFold_inv by (simp add: s_def)
  have ne: "?rs \<noteq> []" using first_sample [OF assms(3), of c] assms(2) by auto
  then have agg: "agg = aggregateOf s" and secs: "?secs \<noteq> 0" using assms(1) by (auto simp: AggregateStats_def Let_def s_def split: if_splits)
  let ?q = "growth (map of_nat (countersRead l c))"
  have n: "growthN (countersRead l c) \<le> answeredBetween l" by (rule growthN_life(1) [OF assms(3)])
  have q: "unat ?q = growthN (countersRead l c)" by (rule growth_nat) (use assms(4,5) n in auto)
  moreover have "uint ?q < 2 ^ 63" using q n assms(5) by (simp add: uint_nat)
  then have "sint ?q = uint ?q" unfolding sint_uint
    by (intro signed_take_bit_int_eq_self) (simp_all add: order_trans [OF _ uint_ge_0])
  ultimately have sq: "sint ?q = int (growthN (countersRead l c))" by (simp add: uint_nat)
  obtain b where p: "map_of (al_per s) k = Some \<lparr>pi_Queries = ?q, pi_Blocked = b\<rparr>"
    using inv assms(2) first_sample [OF assms(3), of c] by (auto simp: aggInv_def)
  have d: "distinct (map fst (al_buckets s))" and t: "\<forall>(bk, x) \<in> set (al_buckets s). tp_Timestamp x = bk * ?secs * Second"
    using inv by (simp_all add: aggInv_def)
  have "map (tp_Timestamp \<circ> snd) (al_buckets s) = map (\<lambda>bk. bk * ?secs * Second) (map fst (al_buckets s))" using t by auto
  moreover have "distinct (map (\<lambda>bk. bk * ?secs * Second) (map fst (al_buckets s)))"
    using d secs by (simp add: distinct_map [of "\<lambda>bk. bk * ?secs * Second"] inj_on_def del: map_map)
  ultimately have "distinct (map tp_Timestamp (sort_key tp_Timestamp (map snd (al_buckets s))))"
    by (metis distinct_map distinct_sort map_map set_sort)
  then have "sorted_wrt (<) (map tp_Timestamp (ag_Series agg))" by (simp add: agg aggregateOf_def strict_sorted_iff)
  moreover have "ag_TotalQueries agg = sum_list (map (pi_Queries \<circ> snd) (ag_PerInstance agg))"
    "ag_TotalQueries agg = sum_list (map tp_TotalQueries (ag_Series agg))"
    using inv by (simp_all add: agg aggregateOf_def aggInv_def sum_sorted)
  moreover have "map_of (ag_PerInstance agg) k = Some \<lparr>pi_Queries = ?q, pi_Blocked = b\<rparr>" using p by (simp add: agg aggregateOf_def)
  ultimately show ?thesis using sq n growthN_life(2) [OF assms(3), of c] by auto
qed

text \<open>What is read back is what was logged, but for the id and the friendly name.\<close>

theorem entry_roundtrip:
  assumes "sameZone env T" and "qe_Timestamp e \<in> T" and "le_marshal env (qe_Answers e) \<noteq> []"
    and "le_unmarshal env (le_marshal env (qe_Answers e)) = qe_Answers e" and "\<forall>ip \<in> set (qe_IPs e). ip \<noteq> [] \<and> CHR '','' \<notin> set ip"
  shows "entryOf env names (storedRow env k e) = e\<lparr>qe_ID := k, qe_Name := getOr names (qe_Client e)\<rparr>"
proof -
  have "qe_IPs e = [] \<or> Join (qe_IPs e) '','' \<noteq> []" using assms(5) by (cases "(qe_IPs e, '','')" rule: Join.cases) auto
  moreover have "Split (Join (qe_IPs e) '','') (CHR '','') = qe_IPs e" if "qe_IPs e \<noteq> []" using Split_Join that assms(5) by blast
  ultimately have "(if Join (qe_IPs e) '','' = [] then [] else Split (Join (qe_IPs e) '','') (CHR '','')) = qe_IPs e" by (cases "qe_IPs e = []") auto
  then have "qe_IPs (entryOf env names (storedRow env k e)) = qe_IPs e" by (simp add: entryOf_def storedRow_def row_def)
  then show ?thesis using assms(1-4) by (intro QueryLogEntry.equality) (simp_all add: entryOf_def storedRow_def row_def sameZone_def)
qed

subsection \<open>Examples\<close>

definition sampleLog :: log_env where
  "sampleLog = \<lparr>le_text = (\<lambda>t. replicate (nat t) (CHR ''x'')), le_parse = (\<lambda>n s. if n = 0 then Some (int (length s)) else None),
     le_marshal = (\<lambda>as. concat (map an_Data as)), le_unmarshal = (\<lambda>_. []), le_parseDuration = (\<lambda>_. None),
     le_order = sorted_list_of_set, le_orderErrors = sorted_list_of_set\<rparr>"

lemma replicate_le: "replicate m (c :: char) \<le> replicate n c \<longleftrightarrow> m \<le> n"
proof (induction m arbitrary: n)
  case (Suc m)
  then show ?case by (cases n) auto
qed simp

lemma sample_sameZone: "sameZone sampleLog {0..}"
proof -
  have "LastIndex (replicate n (CHR ''x'')) '' m='' = None" for n
    by (auto simp: LastIndex_def find_None drop_replicate take_replicate min_def)
  then have "parseQueryTS sampleLog (replicate (nat a) (CHR ''x'')) = a" if "0 \<le> a" for a
    using that by (simp add: parseQueryTS_def sampleLog_def)
  moreover have "le_text sampleLog a = replicate (nat a) (CHR ''x'')" for a by (simp add: sampleLog_def)
  ultimately show ?thesis by (auto simp: sameZone_def replicate_le)
qed

definition sampleEntry :: "time \<Rightarrow> string \<Rightarrow> QueryLogEntry" where
  "sampleEntry t d = \<lparr>qe_ID = 0, qe_Timestamp = t, qe_Instance = ''A'', qe_Client = ''192.0.2.7'', qe_Name = [], qe_Domain = d, qe_Action = ''PASS'',
     qe_Proto = ''dns'', qe_Upstream = ''192.0.2.1'', qe_BlockList = [], qe_QType = ''A'', qe_IPs = [''198.51.100.1''], qe_Answers = [],
     qe_DurationUs = 9, qe_Cached = False\<rparr>"

definition sampleLogSteps :: "logStep list" where
  "sampleLogSteps = [Arrive (sampleEntry 3 ''a.example''), Receive True, Arrive (sampleEntry 5 ''b.example''), Tick True, Receive True, Tick False,
     Arrive (sampleEntry 7 ''c.example''), Receive True, Tick True, Arrive (sampleEntry 8 ''d.example''), Halt True]"

definition sampleLogRun :: log_run where
  "sampleLogRun = fold (log_step sampleLog) sampleLogSteps log_start"

theorem log_conserved_witness:
  "case sampleLogRun of (st, acc, gone, n) \<Rightarrow>
     map qe_Domain acc = [''a.example'', ''b.example'', ''c.example'', ''d.example''] \<and> acc = map fst gone @ qs_batch st @ qs_buf st
     \<and> map snd gone = [True, False, True] \<and> qs_rows st = storedAll sampleLog 1 (writtenOut gone)"
proof -
  obtain st acc gone n where s: "sampleLogRun = (st, acc, gone, n)" using prod_cases4 by blast
  have "map qe_Domain (fst (snd sampleLogRun)) = [''a.example'', ''b.example'', ''c.example'', ''d.example'']"
    and "map snd (fst (snd (snd sampleLogRun))) = [True, False, True]" by code_simp+
  moreover have "\<forall>a \<in> set sampleLogSteps. \<forall>op. a \<noteq> House op" by (simp add: sampleLogSteps_def)
  ultimately show ?thesis using log_conserved [of sampleLog sampleLogSteps st acc gone n] s by (simp add: sampleLogRun_def)
qed

theorem query_pages_witness:
  "case handleQueries (\<lambda>_. True) sampleLog 9 sampleRequest (Some (fst sampleLogRun)) of
     LogPage es tot hasMore \<Rightarrow> tot = 2 \<and> map qe_Timestamp es = [7, 3] \<and> \<not> hasMore \<and> sorted_wrt (\<lambda>a b. qe_Timestamp b \<le> qe_Timestamp a) es
   | _ \<Rightarrow> False"
proof -
  obtain st acc gone n where s: "sampleLogRun = (st, acc, gone, n)" using prod_cases4 by blast
  have eval: "case handleQueries (\<lambda>_. True) sampleLog 9 sampleRequest (Some (fst sampleLogRun)) of
      LogPage es tot hasMore \<Rightarrow> tot = 2 \<and> map qe_Timestamp es = [7, 3] | _ \<Rightarrow> False" by code_simp
  then obtain es tot hasMore where h: "handleQueries (\<lambda>_. True) sampleLog 9 sampleRequest (Some (fst sampleLogRun)) = LogPage es tot hasMore"
    and e: "tot = 2" "map qe_Timestamp es = [7, 3]" by (auto split: logReply.splits)
  have "list_all (\<lambda>e. 0 \<le> qe_Timestamp e) (fst (snd sampleLogRun))" by code_simp
  then have t: "\<forall>e \<in> set acc. qe_Timestamp e \<in> {0..}" by (simp add: s list_all_iff)
  let ?all = "allEntries sampleLog (queryArgs sampleRequest) (sinceOf sampleLog sampleRequest 9) st"
  have lim: "boundedLimit sampleRequest 100 500 = 100" "boundedOffset sampleRequest = 0" by code_simp+
  have "es = take 100 ?all \<and> tot = int (length ?all) \<and> (hasMore \<longleftrightarrow> drop 100 ?all \<noteq> []) \<and> sorted_wrt (\<lambda>a b. qe_Timestamp b \<le> qe_Timestamp a) ?all"
    using query_pages [of sampleLog sampleLogSteps st acc gone n "{0..}" 9 sampleRequest es tot hasMore, OF _ sample_sameZone t _ refl refl refl refl]
      s h lim by (simp add: sampleLogRun_def)
  then show ?thesis using h e by (simp add: s sorted_wrt_take)
qed

definition sampleLife :: "life list" where
  "sampleLife = [IsSampled, AnswersQuery, AnswersQuery, Restarts, AnswersQuery, IsSampled]"

definition sampledStore :: QueryLogStore where
  "sampledStore = fold (\<lambda>(t, n) st. fst (AddStatsSample True sampleLog
       \<lparr>ss_Timestamp = t, ss_Instance = ''a'', ss_Queries = n, ss_Blocked = 0, ss_Errors = 0, ss_DurationUs = 0\<rparr> st)) [(2, 0), (4, 1)] NewQueryLogStore"

theorem stats_never_overcount_witness:
  "\<exists>agg p. AggregateStats True sampleLog [] Minute 0 sampledStore = Inr agg \<and> map_of (ag_PerInstance agg) ''a'' = Some p
     \<and> sint (pi_Queries p) \<le> 3 \<and> answeredBetween sampleLife = 3"
proof -
  have "\<not> isl (AggregateStats True sampleLog [] Minute 0 sampledStore)" by code_simp
  then obtain agg where agg: "AggregateStats True sampleLog [] Minute 0 sampledStore = Inr agg"
    by (cases "AggregateStats True sampleLog [] Minute 0 sampledStore") auto
  have a: "answeredBetween sampleLife = 3" by code_simp
  have "map sr_queries (samplesOf ''a'' (sampleRows sampleLog [] 0 sampledStore)) = map of_nat (countersRead sampleLife 0)" by code_simp
  then show ?thesis
    using stats_never_overcount [OF agg, of "''a''" sampleLife 0] agg a by (auto simp: sampleLife_def)
qed

text \<open>The number of domains announced for the cache page leaves out the ones that were never served from the cache; the page lists them.\<close>

theorem cached_count_gap:
  "map_option length (TopCachedDomains True sampleLog [] 0 0 50 (insertRow sampleLog (sampleEntry 3 ''a.example'') NewQueryLogStore)) = Some 1
   \<and> TopCachedDomainsCount True sampleLog [] 0 (insertRow sampleLog (sampleEntry 3 ''a.example'') NewQueryLogStore) = Some 0"
  by code_simp

end
