(* ===== verification/Blip_Release.thy ===== *)
theory Blip_Release
  imports Blip_Startup Blip_Web
begin

text \<open>
  Release versions and self-updates: the check for newer releases (\<open>src/internal/controller/release.go\<close>), the controller's own updater
  (\<open>selfupdate.go\<close>) and the node's (\<open>src/internal/update/manager.go\<close>). The HTTP client, the installed scripts and the
  comparison of \<open>golang.org/x/mod/semver\<close> are parameters. Both updaters are instances of one interface.
\<close>

subsection \<open>Versions\<close>

definition validVersion :: "string \<Rightarrow> bool" where
  "validVersion v \<longleftrightarrow> (let parts = Split v (CHR ''.'') in length parts = 3 \<and> list_all (\<lambda>p. p \<noteq> [] \<and> list_all isDigit p) parts)"

definition isHexSHA :: "string \<Rightarrow> bool" where
  "isHexSHA s \<longleftrightarrow> 7 \<le> length s \<and> list_all (\<lambda>c. isDigit c \<or> (CHR ''a'' \<le> c \<and> c \<le> CHR ''f'')) s"

definition extractVersion :: "string \<Rightarrow> string" where
  "extractVersion v0 =
     (let v1 = TrimSpace (case LastIndexByte v0 (CHR ''/'') of Some i \<Rightarrow> drop (i + 1) v0 | None \<Rightarrow> v0);
          v2 = (case IndexByte v1 (CHR ''+'') of Some i \<Rightarrow> if isHexSHA (drop (i + 1) v1) then take i v1 else v1 | None \<Rightarrow> v1)
      in if \<not> validVersion v2 then [] else v2)"

definition branchForChannel :: "string \<Rightarrow> string" where
  "branchForChannel channel = (if channel = ''dev'' then ''dev'' else ''master'')"

subsection \<open>The release check\<close>

record releaseCheck =
  rc_versions :: "(string \<times> string) list"
  rc_lastOK :: "time option"
  rc_lastChannel :: string
  rc_polling :: bool  \<comment> \<open>the ticker goroutine runs\<close>

record 'w release_env =
  re_get :: "string \<Rightarrow> 'w \<Rightarrow> 'w \<times> (string, int \<times> (string, string) result) result"  \<comment> \<open>status and body of a GET\<close>
  re_now :: "'w \<Rightarrow> time"
  re_compare :: "string \<Rightarrow> string \<Rightarrow> int"

definition newReleaseCheck :: releaseCheck where
  "newReleaseCheck = \<lparr>rc_versions = [], rc_lastOK = None, rc_lastChannel = [], rc_polling = False\<rparr>"

definition releaseVersion :: "releaseCheck \<Rightarrow> string \<Rightarrow> string" where
  "releaseVersion rc channel = getOr (rc_versions rc) channel"

definition refresh :: "'w release_env \<Rightarrow> string \<Rightarrow> releaseCheck \<Rightarrow> 'w \<Rightarrow> releaseCheck \<times> 'w" where
  "refresh env channel rc w =
     (case re_get env (''https://raw.githubusercontent.com/twobip/BlipDNS/'' @ branchForChannel channel @ ''/VERSION'') w of
        (w1, Inl e) \<Rightarrow> (rc, w1)
      | (w1, Inr (code, body)) \<Rightarrow>
          if code \<noteq> 200 then (rc, w1)
          else (case body of
                  Inl e \<Rightarrow> (rc, w1)
                | Inr b \<Rightarrow>
                    let latest = TrimSpace (take 64 b) in
                    if \<not> validVersion latest then (rc, w1)
                    else (rc\<lparr>rc_versions := AList.update channel latest (rc_versions rc), rc_lastOK := Some (re_now env w1)\<rparr>, w1)))"

definition releaseStart :: "'w release_env \<Rightarrow> string \<Rightarrow> releaseCheck \<Rightarrow> 'w \<Rightarrow> releaseCheck \<times> 'w" where
  "releaseStart env channel rc w =
     (if rc_lastChannel rc = channel then (rc, w)
      else case refresh env channel (rc\<lparr>rc_lastChannel := channel\<rparr>) w of
             (rc1, w1) \<Rightarrow> (if rc_lastChannel rc = [] then rc1\<lparr>rc_polling := True\<rparr> else rc1, w1))"

text \<open>One tick of the goroutine.\<close>

definition releaseTick :: "'w release_env \<Rightarrow> releaseCheck \<times> 'w \<Rightarrow> releaseCheck \<times> 'w" where
  "releaseTick env s = (case s of (rc, w) \<Rightarrow> if rc_polling rc then refresh env (rc_lastChannel rc) rc w else s)"

definition semverLess :: "'w release_env \<Rightarrow> string \<Rightarrow> string \<Rightarrow> bool" where
  "semverLess env a b \<longleftrightarrow> re_compare env (''v'' @ a) (''v'' @ b) < 0"

definition available :: "'w release_env \<Rightarrow> string \<Rightarrow> string \<Rightarrow> releaseCheck \<Rightarrow> bool" where
  "available env channel runningVersion rc =
     (let running = extractVersion runningVersion; latest = releaseVersion rc channel in
      if running = [] then False else if latest = [] then False else semverLess env running latest)"

definition UpdateAvailable :: "'w release_env \<Rightarrow> Fleet \<Rightarrow> releaseCheck \<Rightarrow> string \<Rightarrow> bool" where
  "UpdateAvailable env f rc version = available env (fl_releaseChannel f) version rc"

definition LatestVersion :: "Fleet \<Rightarrow> releaseCheck \<Rightarrow> string" where
  "LatestVersion f rc = releaseVersion rc (fl_releaseChannel f)"

definition startReleaseCheck :: "'w release_env \<Rightarrow> Fleet \<Rightarrow> releaseCheck \<Rightarrow> 'w \<Rightarrow> releaseCheck \<times> 'w" where
  "startReleaseCheck env f rc w = releaseStart env (fl_releaseChannel f) rc w"

text \<open>The place in \<open>main\<close> that starts it; \<open>f\<close> is the fleet at that point.\<close>

definition bootRelease :: "'w release_env \<Rightarrow> FullConfig \<Rightarrow> Fleet \<Rightarrow> releaseCheck \<Rightarrow> 'w \<Rightarrow> releaseCheck \<times> 'w" where
  "bootRelease env cfg f rc w = (if fc_ReleaseChannel cfg \<noteq> [] then (rc, w) else startReleaseCheck env f rc w)"

subsection \<open>Updaters\<close>

text \<open>What running the installed script comes to: lines of output, an error reading them, the exit error, its standard error.\<close>

datatype scriptRun = NoPipe string | NoStart string | Output "string list" "string option" "string option" string

definition ellipsis :: string where "ellipsis = map char_of [226, 128, 166 :: nat]"

definition phaseText :: "string \<Rightarrow> string option" where
  "phaseText line0 =
     (let line = TrimSpace line0 in if HasPrefix line ''phase: '' then Some (TrimPrefix line ''phase: '' @ ellipsis) else None)"

definition setMessage :: "string \<Rightarrow> UpdateStatus \<Rightarrow> UpdateStatus" where
  "setMessage msg u = u\<lparr>up_Message := msg\<rparr>"

definition showPhases :: "string list \<Rightarrow> UpdateStatus \<Rightarrow> UpdateStatus" where
  "showPhases ls = fold (\<lambda>l u. case phaseText l of None \<Rightarrow> u | Some m \<Rightarrow> setMessage m u) ls"

definition SelfUpdater_finishRun :: "string option \<Rightarrow> UpdateStatus \<Rightarrow> UpdateStatus" where
  "SelfUpdater_finishRun err u =
     (let u1 = u\<lparr>up_Running := False\<rparr> in
      case err of Some e \<Rightarrow> u1\<lparr>up_LastError := e\<rparr> | None \<Rightarrow> u1\<lparr>up_Message := ''controller updated''\<rparr>)"

definition SelfUpdater_run :: "scriptRun \<Rightarrow> UpdateStatus \<Rightarrow> UpdateStatus" where
  "SelfUpdater_run r u =
     (case r of
        NoPipe e \<Rightarrow> SelfUpdater_finishRun (Some (''open updater output: '' @ e)) u
      | NoStart e \<Rightarrow> SelfUpdater_finishRun (Some (''start updater: '' @ e)) u
      | Output ls scanErr waitErr stderr \<Rightarrow>
          let u1 = showPhases ls u in
          (case (scanErr, waitErr) of
             (Some e, _) \<Rightarrow> SelfUpdater_finishRun (Some (''read updater output: '' @ e)) u1
           | (None, Some e) \<Rightarrow>
               (let msg = TrimSpace stderr in SelfUpdater_finishRun (Some (if msg \<noteq> [] then e @ '': '' @ msg else e)) u1)
           | (None, None) \<Rightarrow> SelfUpdater_finishRun None u1))"

definition Manager_StartUpdate :: "string \<Rightarrow> UpdateStatus \<Rightarrow> UpdateStatus \<times> string option" where
  "Manager_StartUpdate channel u =
     (if \<not> ValidUpdateChannel channel then (u, Some ''channel must be stable or dev'')
      else if up_Running u then (u, Some ''update already running'')
      else (\<lparr>up_Running = True, up_Message = ''downloading blipd'', up_LastError = [], up_Channel = channel\<rparr>, None))"

definition Manager_finish :: "string option \<Rightarrow> UpdateStatus \<Rightarrow> UpdateStatus" where
  "Manager_finish err u =
     (let u1 = u\<lparr>up_Running := False\<rparr> in
      case err of Some e \<Rightarrow> u1\<lparr>up_LastError := e, up_Message := ''update failed''\<rparr>
      | None \<Rightarrow> u1\<lparr>up_LastError := [], up_Message := ''update completed; blipd is restarting''\<rparr>)"

definition Manager_run :: "scriptRun \<Rightarrow> UpdateStatus \<Rightarrow> UpdateStatus" where
  "Manager_run r u =
     (case r of
        NoPipe e \<Rightarrow> Manager_finish (Some (''open updater output: '' @ e)) u
      | NoStart e \<Rightarrow> Manager_finish (Some (''start updater: '' @ e)) u
      | Output ls scanErr waitErr stderr \<Rightarrow>
          let u1 = showPhases ls u in
          (case scanErr of
             Some e \<Rightarrow> Manager_finish (Some (''read updater output: '' @ e)) u1
           | None \<Rightarrow> Manager_finish waitErr u1))"

subsection \<open>The interface of an updater\<close>

definition scriptOK :: "scriptRun \<Rightarrow> bool" where
  "scriptOK r = (case r of Output ls scanErr waitErr stderr \<Rightarrow> scanErr = None \<and> waitErr = None | _ \<Rightarrow> False)"

text \<open>An exit error has a text.\<close>

definition exitText :: "scriptRun \<Rightarrow> bool" where
  "exitText r = (case r of Output ls scanErr waitErr stderr \<Rightarrow> waitErr \<noteq> Some [] | _ \<Rightarrow> True)"

text \<open>Requests to start, what a started goroutine does until it ends, and how many goroutines are alive.\<close>

datatype updStep = Begin string | Phase string | Finish "string option"

definition upd_step :: "(string \<Rightarrow> UpdateStatus \<Rightarrow> UpdateStatus \<times> string option) \<Rightarrow> (string option \<Rightarrow> UpdateStatus \<Rightarrow> UpdateStatus)
    \<Rightarrow> updStep \<Rightarrow> UpdateStatus \<times> nat \<Rightarrow> UpdateStatus \<times> nat" where
  "upd_step start finish a s =
     (case s of (u, live) \<Rightarrow>
      case a of
        Begin ch \<Rightarrow> (case start ch u of (u1, None) \<Rightarrow> (u1, live + 1) | (u1, Some e) \<Rightarrow> (u1, live))
      | Phase m \<Rightarrow> if 0 < live then (setMessage m u, live) else s
      | Finish err \<Rightarrow> if 0 < live then (finish err u, live - 1) else s)"

definition upd_inv :: "UpdateStatus \<times> nat \<Rightarrow> bool" where
  "upd_inv s \<longleftrightarrow> snd s = (if up_Running (fst s) then 1 else 0)
     \<and> (up_Running (fst s) \<longrightarrow> up_LastError (fst s) = [] \<and> ValidUpdateChannel (up_Channel (fst s)))"

definition idle :: UpdateStatus where
  "idle = \<lparr>up_Running = False, up_Message = [], up_LastError = [], up_Channel = []\<rparr>"

locale updater =
  fixes start :: "string \<Rightarrow> UpdateStatus \<Rightarrow> UpdateStatus \<times> string option"
    and finish :: "string option \<Rightarrow> UpdateStatus \<Rightarrow> UpdateStatus"
    and run :: "scriptRun \<Rightarrow> UpdateStatus \<Rightarrow> UpdateStatus"
  assumes start_accepts: "start ch u = (u', None) \<Longrightarrow>
      ValidUpdateChannel ch \<and> \<not> up_Running u \<and> up_Running u' \<and> up_LastError u' = [] \<and> up_Channel u' = ch"
    and start_refuses: "start ch u = (u', Some e) \<Longrightarrow> u' = u \<and> (up_Running u \<or> \<not> ValidUpdateChannel ch)"
    and finish_status: "up_LastError u = [] \<Longrightarrow>
      \<not> up_Running (finish err u) \<and> up_LastError (finish err u) = (case err of None \<Rightarrow> [] | Some e \<Rightarrow> e) \<and> up_Channel (finish err u) = up_Channel u"
    and run_finishes: "exitText r \<Longrightarrow> \<exists>ls err. run r u = finish err (showPhases ls u) \<and> (err = None \<longleftrightarrow> scriptOK r) \<and> err \<noteq> Some []"
begin

lemma upd_step_inv:
  assumes "upd_inv s"
  shows "upd_inv (upd_step start finish a s)"
proof (cases s)
  case (Pair u live)
  show ?thesis
  proof (cases a)
    case (Begin ch)
    obtain u1 e where st: "start ch u = (u1, e)" by force
    show ?thesis
    proof (cases e)
      case None
      then show ?thesis using start_accepts [OF st [unfolded None]] assms by (simp add: Pair Begin upd_step_def upd_inv_def st)
    next
      case (Some x)
      then show ?thesis using start_refuses [OF st [unfolded Some]] assms by (simp add: Pair Begin upd_step_def upd_inv_def st)
    qed
  next
    case (Phase m)
    then show ?thesis using assms by (simp add: Pair upd_step_def upd_inv_def setMessage_def)
  next
    case (Finish err)
    then show ?thesis using assms finish_status [of u err] by (auto simp: Pair upd_step_def upd_inv_def split: if_splits)
  qed
qed

lemma upd_run_inv: "upd_inv s \<Longrightarrow> upd_inv (fold (upd_step start finish) as s)"
  by (induction as arbitrary: s) (simp_all add: upd_step_inv)

lemma showPhases_keeps:
  "up_Running (showPhases ls u) = up_Running u \<and> up_LastError (showPhases ls u) = up_LastError u \<and> up_Channel (showPhases ls u) = up_Channel u"
  by (induction ls arbitrary: u) (simp_all add: showPhases_def setMessage_def split: option.split)

lemma run_outcome:
  assumes "start ch u = (u1, None)" and "exitText r"
  shows "\<not> up_Running (run r u1) \<and> (up_LastError (run r u1) = [] \<longleftrightarrow> scriptOK r) \<and> up_Channel (run r u1) = ch
    \<and> (\<exists>u2. start ch (run r u1) = (u2, None))"
proof -
  note s = start_accepts [OF assms(1)]
  obtain ls err where r: "run r u1 = finish err (showPhases ls u1)" "err = None \<longleftrightarrow> scriptOK r" "err \<noteq> Some []"
    using run_finishes [OF assms(2), of u1] by blast
  have f: "\<not> up_Running (run r u1)" "up_LastError (run r u1) = (case err of None \<Rightarrow> [] | Some e \<Rightarrow> e)" "up_Channel (run r u1) = ch"
    using finish_status [of "showPhases ls u1" err] showPhases_keeps [of ls u1] s by (simp_all add: r(1))
  obtain u2 e where "start ch (run r u1) = (u2, e)" by force
  then have "\<exists>u2. start ch (run r u1) = (u2, None)" using start_refuses [of ch "run r u1" u2] s f(1) by (cases e) auto
  then show ?thesis using f r by (cases err) auto
qed

end

interpretation selfu: updater SelfUpdater_StartUpdate SelfUpdater_finishRun SelfUpdater_run
proof (unfold_locales, goal_cases)
  case (4 r u)
  show ?case
  proof (cases r)
    case (Output ls scanErr waitErr stderr)
    then show ?thesis using 4
      by (cases scanErr; cases waitErr) (auto simp: SelfUpdater_run_def scriptOK_def exitText_def Let_def intro!: exI [of _ ls])
  next
    case (NoPipe e)
    then show ?thesis
      by (intro exI [of _ "[]"] exI [of _ "Some (''open updater output: '' @ e)"]) (simp add: SelfUpdater_run_def scriptOK_def showPhases_def)
  next
    case (NoStart e)
    then show ?thesis
      by (intro exI [of _ "[]"] exI [of _ "Some (''start updater: '' @ e)"]) (simp add: SelfUpdater_run_def scriptOK_def showPhases_def)
  qed
next
  case (3 u err)
  then show ?case by (cases err) (simp_all add: SelfUpdater_finishRun_def)
qed (auto simp: SelfUpdater_StartUpdate_def split: if_splits)

interpretation node: updater Manager_StartUpdate Manager_finish Manager_run
proof (unfold_locales, goal_cases)
  case (4 r u)
  show ?case
  proof (cases r)
    case (Output ls scanErr waitErr stderr)
    then show ?thesis using 4
      by (cases scanErr; cases waitErr) (auto simp: Manager_run_def scriptOK_def exitText_def Let_def intro!: exI [of _ ls])
  next
    case (NoPipe e)
    then show ?thesis
      by (intro exI [of _ "[]"] exI [of _ "Some (''open updater output: '' @ e)"]) (simp add: Manager_run_def scriptOK_def showPhases_def)
  next
    case (NoStart e)
    then show ?thesis
      by (intro exI [of _ "[]"] exI [of _ "Some (''start updater: '' @ e)"]) (simp add: Manager_run_def scriptOK_def showPhases_def)
  qed
next
  case (3 u err)
  then show ?case by (cases err) (simp_all add: Manager_finish_def)
qed (auto simp: Manager_StartUpdate_def split: if_splits)

text \<open>
  The updater of the controller and that of a node never run twice at once and always come to rest. Whatever is requested and however the
  goroutines interleave with it, a goroutine is alive exactly while the status says running, and then no error is shown and the channel is a
  valid one; a run that was accepted ends with the status not running, its error empty exactly if the script succeeded, and
  the next request is accepted.
\<close>

theorem update_lifecycle:
  assumes "(start, finish, run) \<in> {(SelfUpdater_StartUpdate, SelfUpdater_finishRun, SelfUpdater_run), (Manager_StartUpdate, Manager_finish, Manager_run)}"
  shows "(case fold (upd_step start finish) as (idle, 0) of (u, live) \<Rightarrow>
        live = (if up_Running u then 1 else 0) \<and> (up_Running u \<longrightarrow> up_LastError u = [] \<and> ValidUpdateChannel (up_Channel u)))
    \<and> (\<forall>ch u u1 r. start ch u = (u1, None) \<and> exitText r \<longrightarrow>
        \<not> up_Running (run r u1) \<and> (up_LastError (run r u1) = [] \<longleftrightarrow> scriptOK r) \<and> (\<exists>u2. start ch (run r u1) = (u2, None)))"
proof -
  have i: "upd_inv (idle, 0)" by (simp add: upd_inv_def idle_def)
  have "upd_inv (fold (upd_step start finish) as (idle, 0))"
    using assms selfu.upd_run_inv [OF i] node.upd_run_inv [OF i] by auto
  moreover have "start ch u = (u1, None) \<Longrightarrow> exitText r \<Longrightarrow>
      \<not> up_Running (run r u1) \<and> (up_LastError (run r u1) = [] \<longleftrightarrow> scriptOK r) \<and> (\<exists>u2. start ch (run r u1) = (u2, None))" for ch u u1 r
    using assms selfu.run_outcome [of ch u u1 r] node.run_outcome [of ch u u1 r] by auto
  ultimately show ?thesis by (auto simp: upd_inv_def)
qed

theorem update_lifecycle_witness:
  "\<exists>u1. Manager_StartUpdate ''dev'' idle = (u1, None) \<and> up_LastError (Manager_run (Output [''phase: built''] None (Some ''exit status 1'') []) u1) \<noteq> []"
proof -
  obtain u1 where s: "Manager_StartUpdate ''dev'' idle = (u1, None)" by (simp add: Manager_StartUpdate_def idle_def ValidUpdateChannel_def)
  let ?r = "Output [''phase: built''] None (Some ''exit status 1'') []"
  have "exitText ?r" "\<not> scriptOK ?r" by (simp_all add: exitText_def scriptOK_def)
  then show ?thesis using update_lifecycle [of Manager_StartUpdate Manager_finish Manager_run "[]"] s by blast
qed

subsection \<open>The release check is never started\<close>

lemma early_channel: "fl_releaseChannel (startEarly cfg f) = fl_releaseChannel f"
proof -
  have "fl_releaseChannel (fold (\<lambda>(i, ov). SetOverride i (Some ov)) ovs f) = fl_releaseChannel f" for ovs f
    by (induction ovs arbitrary: f) (auto simp: SetOverride_def)
  then show ?thesis
    by (simp add: startEarly_def provided_def Let_def SetDefault_def SetDoHDefault_def SetRateLimitQPSDefault_def SetCacheDefault_def
        SetQueryLogRetentionDefault_def)
qed

lemma records_channel: "Fleet_SetRecords env recs f net = (f', net', rs) \<Longrightarrow> fl_releaseChannel f' = fl_releaseChannel f"
  using saved_only_file [of env "f\<lparr>fl_records := recs\<rparr>"] by (auto simp: Fleet_SetRecords_def pushRecords_def pushEach_def split: prod.splits)

text \<open>
  The check for new releases never runs: \<open>main\<close> starts it only while no channel is set, and starting it for no channel is taken for
  an unchanged channel. So nothing is ever fetched and no instance is shown as out of date.
\<close>

theorem release_check_never_starts:
  assumes "Fleet_SetRecords fe (fc_Records cfg) (startEarly cfg (NewFleet path file)) net = (f1, net1, rs)"
    and "f = provided (hl_Enabled (fc_HACluster cfg)) (\<lambda>f. fst (SetHAClusterDefault (fc_HACluster cfg) f)) f1"
    and "bootRelease env cfg f newReleaseCheck w = (rc, w')"
  shows "(rc, w') = (newReleaseCheck, w) \<and> (releaseTick env ^^ n) (rc, w') = (newReleaseCheck, w)
    \<and> \<not> UpdateAvailable env f' rc v \<and> LatestVersion f' rc = []"
proof -
  have "fl_releaseChannel f1 = []" using records_channel [OF assms(1)] early_channel by (simp add: NewFleet_def)
  then have "fl_releaseChannel f = []" using assms(2) by (auto simp: provided_def SetHAClusterDefault_def split: option.split)
  then have rc: "(rc, w') = (newReleaseCheck, w)" using assms(3) by (auto simp: bootRelease_def startReleaseCheck_def releaseStart_def newReleaseCheck_def split: if_splits)
  moreover have "(releaseTick env ^^ n) (newReleaseCheck, w) = (newReleaseCheck, w)" for n
    by (induction n) (simp_all add: releaseTick_def newReleaseCheck_def)
  ultimately show ?thesis by (simp add: UpdateAvailable_def available_def LatestVersion_def releaseVersion_def newReleaseCheck_def getOr_def Let_def)
qed

end
