(* ===== verification/Blip_Cert.thy ===== *)
theory Blip_Cert
  imports Blip_Net
begin

text \<open>
  The self-signed certificate of a node's DNS-over-HTTPS listener (\<open>src/internal/certgen/certgen.go\<close>): which identities it must cover, when
  a stored pair is used again, and what is written. Key generation, signing and the parsers of \<open>crypto/x509\<close> and
  \<open>encoding/pem\<close> are parameters, and so are the host's name and interfaces and whether a file can be written.
\<close>

subsection \<open>The host and the cryptography\<close>

record iface =
  if_Up :: bool
  if_Addrs :: "IP list option"  \<comment> \<open>\<open>None\<close> when they cannot be read; an address without an IP is empty\<close>

record Template =
  tm_NotBefore :: time
  tm_NotAfter :: time
  tm_DNSNames :: "string list"
  tm_IPAddresses :: "IP list"

record 'k Certificate =
  cr_NotAfter :: time
  cr_DNSNames :: "string list"
  cr_IPAddresses :: "IP list"
  cr_PublicKey :: 'k

record ('w, 'k) cert_env =
  ge_hostname :: "'w \<Rightarrow> string option"
  ge_ifaces :: "'w \<Rightarrow> iface list option"
  ge_now :: "'w \<Rightarrow> time"
  ge_sign :: "Template \<Rightarrow> 'w \<Rightarrow> 'w \<times> (string, string \<times> string) result"  \<comment> \<open>a fresh key, the signed certificate, both as PEM\<close>
  ge_pemCert :: "string \<Rightarrow> string option"  \<comment> \<open>\<open>pem.Decode\<close>, the block being a certificate\<close>
  ge_pemKey :: "string \<Rightarrow> string option"
  ge_parseCert :: "string \<Rightarrow> 'k Certificate option"
  ge_parseEC :: "string \<Rightarrow> 'k option"
  ge_parsePKCS8 :: "string \<Rightarrow> 'k option option"  \<comment> \<open>the inner \<open>None\<close> is a key without a public half\<close>
  ge_mkdir :: "string \<Rightarrow> string option"  \<comment> \<open>the error of \<open>os.MkdirAll\<close> on the file's directory\<close>
  ge_write :: "string \<Rightarrow> string option"
  ge_chmod :: "string \<Rightarrow> string option"
  ge_keyPair :: "string \<Rightarrow> string \<Rightarrow> bool"  \<comment> \<open>whether \<open>tls.X509KeyPair\<close> takes the pair\<close>

type_synonym files = "string \<Rightarrow> string option"

definition validity :: duration where "validity = 10 * 365 * 24 * Hour"

subsection \<open>Identities\<close>

fun dedupe_aux :: "('a \<Rightarrow> string option) \<Rightarrow> string list \<Rightarrow> 'a list \<Rightarrow> 'a list" where
  "dedupe_aux key seen [] = []"
| "dedupe_aux key seen (v # vs) =
     (case key v of
        None \<Rightarrow> dedupe_aux key seen vs
      | Some k \<Rightarrow> if k \<in> set seen then dedupe_aux key seen vs else v # dedupe_aux key (k # seen) vs)"

definition dedupe :: "('a \<Rightarrow> string option) \<Rightarrow> 'a list \<Rightarrow> 'a list" where
  "dedupe key vs = dedupe_aux key [] vs"

definition dedupeStrings :: "string list \<Rightarrow> string list" where
  "dedupeStrings = dedupe (\<lambda>s. if s = [] then None else Some s)"

definition dedupeIPs :: "IP list \<Rightarrow> IP list" where
  "dedupeIPs = dedupe (\<lambda>ip. if ip = [] then None else Some (IP_String ip))"

definition hostname :: "('w, 'k) cert_env \<Rightarrow> 'w \<Rightarrow> string" where
  "hostname env w = (case ge_hostname env w of None \<Rightarrow> [] | Some h \<Rightarrow> h)"

definition localIPs :: "('w, 'k) cert_env \<Rightarrow> 'w \<Rightarrow> IP list" where
  "localIPs env w =
     (case ge_ifaces env w of
        None \<Rightarrow> []
      | Some is \<Rightarrow> concat (map (\<lambda>i. if \<not> if_Up i then []
                                     else case if_Addrs i of None \<Rightarrow> [] | Some as \<Rightarrow> filter (\<lambda>ip. \<not> (ip = [] \<or> IsLoopback ip)) as) is))"

definition extraNames :: "string list \<Rightarrow> string list" where
  "extraNames extra = filter (\<lambda>h. h \<noteq> [] \<and> ParseIP h = []) (map TrimSpace extra)"

definition extraIPs :: "string list \<Rightarrow> IP list" where
  "extraIPs extra = filter (\<lambda>ip. ip \<noteq> []) (map ParseIP (filter (\<lambda>h. h \<noteq> []) (map TrimSpace extra)))"

definition expectedSANs :: "('w, 'k) cert_env \<Rightarrow> string list \<Rightarrow> 'w \<Rightarrow> string list \<times> IP list" where
  "expectedSANs env extra w =
     (dedupeStrings (''localhost'' # (if hostname env w \<noteq> [] then [hostname env w] else []) @ extraNames extra),
      dedupeIPs (ParseIP ''127.0.0.1'' # ParseIP ''::1'' # extraIPs extra @ localIPs env w))"

definition missingSANs :: "('w, 'k) cert_env \<Rightarrow> 'k Certificate \<Rightarrow> string list \<Rightarrow> 'w \<Rightarrow> string" where
  "missingSANs env cert extra w =
     (case expectedSANs env extra w of (wantNames, wantIPs) \<Rightarrow>
      case find (\<lambda>n. n \<notin> set (cr_DNSNames cert)) wantNames of
        Some n \<Rightarrow> n
      | None \<Rightarrow>
          (case find (\<lambda>ip. \<not> (\<exists>got \<in> set (cr_IPAddresses cert). IP_Equal got ip)) wantIPs of
             Some ip \<Rightarrow> IP_String ip
           | None \<Rightarrow> []))"

subsection \<open>Making and keeping a pair\<close>

definition Generate :: "('w, 'k) cert_env \<Rightarrow> string list \<Rightarrow> 'w \<Rightarrow> 'w \<times> (string, string \<times> string) result" where
  "Generate env extra w =
     (case expectedSANs env extra w of (dnsNames, ipAddrs) \<Rightarrow>
      ge_sign env \<lparr>tm_NotBefore = ge_now env w - Hour, tm_NotAfter = ge_now env w + validity, tm_DNSNames = dnsNames,
        tm_IPAddresses = ipAddrs\<rparr> w)"

definition parsePrivateKey :: "('w, 'k) cert_env \<Rightarrow> string \<Rightarrow> 'k option" where
  "parsePrivateKey env der = (case ge_parseEC env der of Some k \<Rightarrow> Some k | None \<Rightarrow> Option.bind (ge_parsePKCS8 env der) (\<lambda>k. k))"

datatype LoadError = NoFile | NoCertPEM | BadCert | Expired | NotCovered string | NoKeyPEM | BadKey | KeyMismatch

definition load :: "('w, 'k) cert_env \<Rightarrow> string \<Rightarrow> string \<Rightarrow> string list \<Rightarrow> files \<Rightarrow> 'w \<Rightarrow> (LoadError, string \<times> string) result" where
  "load env certPath keyPath extra fs w =
     (case fs certPath of
        None \<Rightarrow> Inl NoFile
      | Some certPEM \<Rightarrow>
     (case fs keyPath of
        None \<Rightarrow> Inl NoFile
      | Some keyPEM \<Rightarrow>
     (case ge_pemCert env certPEM of
        None \<Rightarrow> Inl NoCertPEM
      | Some certDER \<Rightarrow>
     (case ge_parseCert env certDER of
        None \<Rightarrow> Inl BadCert
      | Some cert \<Rightarrow>
          if cr_NotAfter cert < ge_now env w then Inl Expired
          else if missingSANs env cert extra w \<noteq> [] then Inl (NotCovered (missingSANs env cert extra w))
          else
     (case ge_pemKey env keyPEM of
        None \<Rightarrow> Inl NoKeyPEM
      | Some keyDER \<Rightarrow>
     (case parsePrivateKey env keyDER of
        None \<Rightarrow> Inl BadKey
      | Some key \<Rightarrow> if key \<noteq> cr_PublicKey cert then Inl KeyMismatch else Inr (certPEM, keyPEM)))))))"

datatype EnsureError = GenerateFailed string | MkdirFailed string | WriteCertFailed string | WriteKeyFailed string | ChmodFailed string

type_synonym ensured = "(string \<times> string) option \<times> bool \<times> EnsureError option"

definition EnsureFiles :: "('w, 'k) cert_env \<Rightarrow> string \<Rightarrow> string \<Rightarrow> string list \<Rightarrow> files \<Rightarrow> 'w \<Rightarrow> files \<times> 'w \<times> ensured" where
  "EnsureFiles env certPath keyPath extra fs w =
     (let named = certPath \<noteq> [] \<and> keyPath \<noteq> []; old = load env certPath keyPath extra fs w in
      if named \<and> \<not> isl old then (fs, w, Some (projr old), True, None)
      else case Generate env extra w of
             (w1, Inl e) \<Rightarrow> (fs, w1, None, False, Some (GenerateFailed e))
           | (w1, Inr (c, k)) \<Rightarrow>
               if \<not> named then (fs, w1, Some (c, k), False, None)
               else case ge_mkdir env certPath of
                      Some e \<Rightarrow> (fs, w1, Some (c, k), False, Some (MkdirFailed e))
                    | None \<Rightarrow>
               (case ge_write env certPath of
                  Some e \<Rightarrow> (fs, w1, Some (c, k), False, Some (WriteCertFailed e))
                | None \<Rightarrow>
                    let fs1 = fs(certPath \<mapsto> c) in
               (case ge_write env keyPath of
                  Some e \<Rightarrow> (fs1, w1, Some (c, k), False, Some (WriteKeyFailed e))
                | None \<Rightarrow>
                    let fs2 = fs1(keyPath \<mapsto> k) in
                    case ge_chmod env keyPath of
                      Some e \<Rightarrow> (fs2, w1, Some (c, k), False, Some (ChmodFailed e))
                    | None \<Rightarrow> (fs2, w1, Some (c, k), True, None))))"

definition EnsurePair :: "('w, 'k) cert_env \<Rightarrow> string \<Rightarrow> string \<Rightarrow> string list \<Rightarrow> files \<Rightarrow> 'w \<Rightarrow> files \<times> 'w \<times> (string \<times> string) option" where
  "EnsurePair env certPath keyPath extra fs w =
     (case EnsureFiles env certPath keyPath extra fs w of
        (fs1, w1, Some (c, k), _, None) \<Rightarrow> (fs1, w1, if ge_keyPair env c k then Some (c, k) else None)
      | (fs1, w1, _, _, _) \<Rightarrow> (fs1, w1, None))"

subsection \<open>What a usable pair is\<close>

lemma dedupe_aux_complete: "v \<in> set vs \<Longrightarrow> key v = Some k \<Longrightarrow> k \<in> set seen \<or> (\<exists>u \<in> set (dedupe_aux key seen vs). key u = Some k)"
proof (induction key seen vs rule: dedupe_aux.induct)
  case (2 key seen x vs)
  show ?case
  proof (cases "v = x")
    case True
    then show ?thesis using 2 by auto
  next
    case False
    then have v: "v \<in> set vs" using 2 by simp
    show ?thesis
    proof (cases "key x")
      case None
      then show ?thesis using "2.IH"(1) v 2 by auto
    next
      case (Some k')
      then show ?thesis using "2.IH"(2,3) v 2 by (cases "k' \<in> set seen") auto
    qed
  qed
qed simp

lemma dedupe_complete: "v \<in> set vs \<Longrightarrow> key v = Some k \<Longrightarrow> \<exists>u \<in> set (dedupe key vs). key u = Some k"
  using dedupe_aux_complete [of v vs key k "[]"] by (simp add: dedupe_def)

lemma dedupe_aux_sound: "u \<in> set (dedupe_aux key seen vs) \<Longrightarrow> u \<in> set vs \<and> key u \<noteq> None"
  by (induction key seen vs rule: dedupe_aux.induct) (auto split: option.splits if_splits)

lemma dedupe_sound: "u \<in> set (dedupe key vs) \<Longrightarrow> u \<in> set vs \<and> key u \<noteq> None"
  by (simp add: dedupe_def dedupe_aux_sound)

lemma IP_Equal_refl [simp]: "IP_Equal ip ip"
  by (simp add: IP_Equal_def)

lemma Join_nonempty: "ps \<noteq> [] \<Longrightarrow> list_all (\<lambda>p. p \<noteq> []) ps \<Longrightarrow> Join ps s \<noteq> []"
  by (cases "(ps, s)" rule: Join.cases) auto

lemma hexString_nonempty: "hexString n \<noteq> []"
  by (subst hexString.simps) simp

lemma groupsOf_nonempty: "2 \<le> length b \<Longrightarrow> groupsOf b \<noteq> []"
  by (cases b rule: groupsOf.cases) auto

lemma ip6String_nonempty: "2 \<le> length b \<Longrightarrow> ip6String b \<noteq> []"
  using Join_nonempty [of "map hexString (groupsOf b)"] groupsOf_nonempty [of b]
  by (simp add: ip6String_def Let_def list_all_iff hexString_nonempty split: prod.split)

lemma joinBytes_nonempty: "bs \<noteq> [] \<Longrightarrow> joinBytes bs \<noteq> []"
  using Join_nonempty [of "map (\<lambda>b. ItoaNat (unat b)) bs"] ItoaNat_digits by (simp add: list_all_iff)

lemma IP_String_nonempty: "IP_String ip \<noteq> []"
  by (simp add: IP_String_def ip6String_nonempty joinBytes_nonempty del: joinBytes.simps)

lemma IP_Equal_String: "IP_Equal a b \<Longrightarrow> IP_String a = IP_String b"
proof -
  assume eq: "IP_Equal a b"
  show "IP_String a = IP_String b"
  proof (cases "length a = length b")
    case True
    with eq show ?thesis by (simp add: IP_Equal_def)
  next
    case False
    with eq have "(length a = 4 \<and> length b = 16 \<or> length a = 16 \<and> length b = 4) \<and> To4 a = To4 b \<and> length (To4 a) = 4"
      by (auto simp: IP_Equal_def To4_def split: if_splits)
    then show ?thesis by (auto simp: IP_String_def simp del: joinBytes.simps)
  qed
qed

text \<open>Every identity the host answers to: the host's own names and addresses and the configured ones, before duplicates are dropped.\<close>

definition servedNames :: "('w, 'k) cert_env \<Rightarrow> string list \<Rightarrow> 'w \<Rightarrow> string list" where
  "servedNames env extra w = ''localhost'' # (if hostname env w \<noteq> [] then [hostname env w] else []) @ extraNames extra"

definition servedIPs :: "('w, 'k) cert_env \<Rightarrow> string list \<Rightarrow> 'w \<Rightarrow> IP list" where
  "servedIPs env extra w = ParseIP ''127.0.0.1'' # ParseIP ''::1'' # extraIPs extra @ localIPs env w"

definition coversHost :: "('w, 'k) cert_env \<Rightarrow> string list \<Rightarrow> 'w \<Rightarrow> 'k Certificate \<Rightarrow> bool" where
  "coversHost env extra w cert \<longleftrightarrow>
     (\<forall>n \<in> set (servedNames env extra w). n \<in> set (cr_DNSNames cert))
     \<and> (\<forall>ip \<in> set (servedIPs env extra w). \<exists>got \<in> set (cr_IPAddresses cert). IP_String got = IP_String ip)"

definition usablePair :: "('w, 'k) cert_env \<Rightarrow> string list \<Rightarrow> 'w \<Rightarrow> string \<times> string \<Rightarrow> bool" where
  "usablePair env extra w p \<longleftrightarrow>
     (case Option.bind (ge_pemCert env (fst p)) (ge_parseCert env) of
        None \<Rightarrow> False
      | Some cert \<Rightarrow> ge_now env w \<le> cr_NotAfter cert \<and> coversHost env extra w cert
                     \<and> Option.bind (ge_pemKey env (snd p)) (parsePrivateKey env) = Some (cr_PublicKey cert))"

lemma served_nonempty:
  "n \<in> set (servedNames env extra w) \<Longrightarrow> n \<noteq> []"
  "ip \<in> set (servedIPs env extra w) \<Longrightarrow> ip \<noteq> []"
proof -
  have "ParseIP ''127.0.0.1'' \<noteq> []" "ParseIP ''::1'' \<noteq> []" by code_simp+
  then show "n \<in> set (servedNames env extra w) \<Longrightarrow> n \<noteq> []" "ip \<in> set (servedIPs env extra w) \<Longrightarrow> ip \<noteq> []"
    by (auto simp: servedNames_def servedIPs_def extraNames_def extraIPs_def localIPs_def split: option.splits if_splits)
qed

lemma missingSANs_none:
  "missingSANs env cert extra w = [] \<longleftrightarrow>
     (\<forall>n \<in> set (dedupeStrings (servedNames env extra w)). n \<in> set (cr_DNSNames cert))
     \<and> (\<forall>ip \<in> set (dedupeIPs (servedIPs env extra w)). \<exists>got \<in> set (cr_IPAddresses cert). IP_Equal got ip)"
proof -
  have ne: "n \<noteq> []" if "n \<in> set (dedupeStrings (servedNames env extra w))" for n
    using dedupe_sound [OF that [unfolded dedupeStrings_def]] by auto
  have want: "expectedSANs env extra w = (dedupeStrings (servedNames env extra w), dedupeIPs (servedIPs env extra w))"
    by (simp add: expectedSANs_def servedNames_def servedIPs_def)
  show ?thesis
  proof (cases "find (\<lambda>n. n \<notin> set (cr_DNSNames cert)) (dedupeStrings (servedNames env extra w))")
    case (Some n)
    then show ?thesis using ne find_SomeD [OF Some] by (auto simp: missingSANs_def want)
  next
    case None
    then show ?thesis
      by (auto simp: missingSANs_def want find_None_iff IP_String_nonempty split: option.split dest: find_SomeD)
  qed
qed

lemma missingSANs_covers: "missingSANs env cert extra w = [] \<Longrightarrow> coversHost env extra w cert"
  unfolding coversHost_def
proof (intro conjI ballI)
  fix n
  assume m: "missingSANs env cert extra w = []" and n: "n \<in> set (servedNames env extra w)"
  have "\<exists>u \<in> set (dedupeStrings (servedNames env extra w)). (if u = [] then None else Some u) = Some n"
    unfolding dedupeStrings_def using n served_nonempty(1) [OF n] by (intro dedupe_complete) auto
  then show "n \<in> set (cr_DNSNames cert)" using m by (auto simp: missingSANs_none split: if_splits)
next
  fix ip
  assume m: "missingSANs env cert extra w = []" and ip: "ip \<in> set (servedIPs env extra w)"
  have "\<exists>u \<in> set (dedupeIPs (servedIPs env extra w)). (if u = [] then None else Some (IP_String u)) = Some (IP_String ip)"
    unfolding dedupeIPs_def using ip served_nonempty(2) [OF ip] by (intro dedupe_complete) auto
  then obtain u where "u \<in> set (dedupeIPs (servedIPs env extra w))" "IP_String u = IP_String ip" by (auto split: if_splits)
  then show "\<exists>got \<in> set (cr_IPAddresses cert). IP_String got = IP_String ip"
    using m IP_Equal_String unfolding missingSANs_none by metis
qed

subsection \<open>The life of a pair\<close>

text \<open>
  What \<open>crypto/x509\<close> documents of a certificate it has just created from a template: it parses again, with the template's names, the
  template's addresses (an IPv4 address in its four-byte form), an end of validity cut to whole seconds, and the public half of the key that is
  written beside it.
\<close>

definition signsTemplate :: "('w, 'k) cert_env \<Rightarrow> bool" where
  "signsTemplate env \<longleftrightarrow>
     (\<forall>tm w w1 c k. ge_sign env tm w = (w1, Inr (c, k)) \<longrightarrow>
        (\<exists>cert. Option.bind (ge_pemCert env c) (ge_parseCert env) = Some cert
                \<and> Option.bind (ge_pemKey env k) (parsePrivateKey env) = Some (cr_PublicKey cert)
                \<and> tm_NotAfter tm - Second < cr_NotAfter cert \<and> cr_DNSNames cert = tm_DNSNames tm
                \<and> list_all2 IP_Equal (cr_IPAddresses cert) (tm_IPAddresses tm)))"

text \<open>The checks \<open>load\<close> makes of the two texts.\<close>

definition loadable :: "('w, 'k) cert_env \<Rightarrow> string list \<Rightarrow> 'w \<Rightarrow> string \<times> string \<Rightarrow> bool" where
  "loadable env extra w p \<longleftrightarrow>
     (\<exists>cert. Option.bind (ge_pemCert env (fst p)) (ge_parseCert env) = Some cert \<and> ge_now env w \<le> cr_NotAfter cert
             \<and> missingSANs env cert extra w = []
             \<and> Option.bind (ge_pemKey env (snd p)) (parsePrivateKey env) = Some (cr_PublicKey cert))"

lemma load_Inr:
  "load env certPath keyPath extra fs w = Inr p \<longleftrightarrow>
     fs certPath = Some (fst p) \<and> fs keyPath = Some (snd p) \<and> loadable env extra w p"
  by (cases p) (auto simp: load_def loadable_def Option.bind_eq_Some_conv split: option.splits if_splits)

lemma load_no_error: "\<not> isl (load env certPath keyPath extra fs w) \<longleftrightarrow> (\<exists>p. load env certPath keyPath extra fs w = Inr p)"
  by (cases "load env certPath keyPath extra fs w") auto

lemma loadable_usable: "loadable env extra w p \<Longrightarrow> usablePair env extra w p"
  by (auto simp: loadable_def usablePair_def missingSANs_covers)

lemma Generate_loadable:
  assumes "signsTemplate env" "Generate env extra w = (w1, Inr p)"
  shows "loadable env extra w p"
proof -
  have want: "expectedSANs env extra w = (dedupeStrings (servedNames env extra w), dedupeIPs (servedIPs env extra w))"
    by (simp add: expectedSANs_def servedNames_def servedIPs_def)
  obtain cert where cert: "Option.bind (ge_pemCert env (fst p)) (ge_parseCert env) = Some cert"
    "Option.bind (ge_pemKey env (snd p)) (parsePrivateKey env) = Some (cr_PublicKey cert)"
    "ge_now env w + validity - Second < cr_NotAfter cert" "cr_DNSNames cert = dedupeStrings (servedNames env extra w)"
    "list_all2 IP_Equal (cr_IPAddresses cert) (dedupeIPs (servedIPs env extra w))"
    using assms by (cases p) (fastforce simp: signsTemplate_def Generate_def want)
  then have "missingSANs env cert extra w = []"
    by (auto simp: missingSANs_none list_all2_conv_all_nth set_conv_nth)
  with cert show ?thesis by (auto simp: loadable_def validity_def)
qed

lemma loadable_later:
  assumes "loadable env extra w p" "expectedSANs env extra w' = expectedSANs env extra w"
    "\<forall>cert. Option.bind (ge_pemCert env (fst p)) (ge_parseCert env) = Some cert \<longrightarrow> ge_now env w' \<le> cr_NotAfter cert"
  shows "loadable env extra w' p"
  using assms by (auto simp: loadable_def missingSANs_def)

lemma EnsureFiles_reuses:
  "certPath \<noteq> [] \<Longrightarrow> keyPath \<noteq> [] \<Longrightarrow> load env certPath keyPath extra fs w = Inr p
   \<Longrightarrow> EnsureFiles env certPath keyPath extra fs w = (fs, w, Some p, True, None)"
  by (simp add: EnsureFiles_def)

lemma EnsureFiles_cases:
  assumes "EnsureFiles env certPath keyPath extra fs w = (fs1, w1, r, persisted, err)"
  obtains (kept) p where "certPath \<noteq> []" "keyPath \<noteq> []" "load env certPath keyPath extra fs w = Inr p" "fs1 = fs" "r = Some p" "persisted" "err = None"
  | (failed) e where "Generate env extra w = (w1, Inl e)" "fs1 = fs" "r = None" "\<not> persisted" "err = Some (GenerateFailed e)"
  | (fresh) p where "Generate env extra w = (w1, Inr p)" "r = Some p" "\<forall>e. err \<noteq> Some (GenerateFailed e)"
      "persisted \<longrightarrow> certPath \<noteq> [] \<and> keyPath \<noteq> [] \<and> err = None \<and> fs1 = fs(certPath \<mapsto> fst p, keyPath \<mapsto> snd p)"
      "\<forall>q. q \<noteq> certPath \<and> q \<noteq> keyPath \<longrightarrow> fs1 q = fs q"
proof (cases "certPath \<noteq> [] \<and> keyPath \<noteq> [] \<and> \<not> isl (load env certPath keyPath extra fs w)")
  case True
  then obtain p where "load env certPath keyPath extra fs w = Inr p" by (auto simp only: load_no_error)
  with True show ?thesis using assms by (intro kept [of p]) (simp_all add: EnsureFiles_reuses)
next
  case False
  obtain w2 g where g: "Generate env extra w = (w2, g)" by (metis surj_pair)
  show ?thesis
  proof (cases g)
    case (Inl e)
    then show ?thesis using assms False g failed by (auto simp: EnsureFiles_def Let_def)
  next
    case (Inr p)
    obtain c k where p: "p = (c, k)" by (cases p)
    show ?thesis
      by (rule fresh [of p]) (use assms False g Inr p in \<open>auto simp: EnsureFiles_def Let_def split: option.splits if_splits\<close>)
  qed
qed


definition exampleCert :: "IP list \<Rightarrow> nat Certificate" where
  "exampleCert ips = \<lparr>cr_NotAfter = validity, cr_DNSNames = [''localhost'', ''ns1''], cr_IPAddresses = ips, cr_PublicKey = 7\<rparr>"

definition hostIPs :: "IP list" where
  "hostIPs = [ParseIP ''127.0.0.1'', ParseIP ''::1'', [10, 0, 0, 1]]"

definition hostIPsVIP :: "IP list" where
  "hostIPsVIP = [ParseIP ''127.0.0.1'', ParseIP ''::1'', IPv4 192 168 1 9, [10, 0, 0, 1]]"

definition exampleCertEnv :: "(nat, nat) cert_env" where
  "exampleCertEnv =
     \<lparr>ge_hostname = (\<lambda>_. Some ''ns1''), ge_ifaces = (\<lambda>_. Some [\<lparr>if_Up = True, if_Addrs = Some [[10, 0, 0, 1]]\<rparr>]), ge_now = int,
      ge_sign = (\<lambda>tm w. (w, if tm_NotAfter tm = validity \<and> tm_DNSNames tm = [''localhost'', ''ns1''] then
          (if tm_IPAddresses tm = hostIPs then Inr (''cert'', ''key'') else if tm_IPAddresses tm = hostIPsVIP then Inr (''cert2'', ''key'')
           else Inl ''refused'') else Inl ''refused'')),
      ge_pemCert = (\<lambda>s. if s = ''cert'' \<or> s = ''cert2'' then Some s else None), ge_pemKey = (\<lambda>s. if s = ''key'' then Some ''keyder'' else None),
      ge_parseCert = (\<lambda>s. if s = ''cert'' then Some (exampleCert hostIPs) else if s = ''cert2'' then Some (exampleCert hostIPsVIP) else None),
      ge_parseEC = (\<lambda>s. if s = ''keyder'' then Some 7 else None), ge_parsePKCS8 = (\<lambda>_. None), ge_mkdir = (\<lambda>_. None), ge_write = (\<lambda>_. None),
      ge_chmod = (\<lambda>_. None), ge_keyPair = (\<lambda>_ _. True)\<rparr>"

lemma exampleCertEnv_signs: "signsTemplate exampleCertEnv"
  unfolding signsTemplate_def
  by (auto simp: exampleCertEnv_def exampleCert_def parsePrivateKey_def list_all2_same split: if_splits)

lemma exampleCertEnv_SANs:
  "expectedSANs exampleCertEnv [] w = ([''localhost'', ''ns1''], hostIPs)"
proof -
  have s: "IP_String (ParseIP ''127.0.0.1'') = ''127.0.0.1''" "IP_String (ParseIP ''::1'') = ''::1''" "IP_String [10, 0, 0, 1] = ''10.0.0.1''"
    "\<not> IsLoopback [10, 0, 0, 1]" "ParseIP ''127.0.0.1'' \<noteq> []" "ParseIP ''::1'' \<noteq> []" by code_simp+
  show ?thesis
    by (simp add: expectedSANs_def hostname_def localIPs_def extraNames_def extraIPs_def exampleCertEnv_def hostIPs_def dedupeStrings_def dedupeIPs_def
        dedupe_def s)
qed

lemma exampleCertEnv_ensure:
  "EnsureFiles exampleCertEnv ''c'' ''k'' [] Map.empty 0 = ([''c'' \<mapsto> ''cert'', ''k'' \<mapsto> ''key''], 0, Some (''cert'', ''key''), True, None)"
proof -
  have "Generate exampleCertEnv [] 0 = (0, Inr (''cert'', ''key''))"
    unfolding Generate_def exampleCertEnv_SANs by (simp add: exampleCertEnv_def)
  then show ?thesis by (simp add: EnsureFiles_def load_def exampleCertEnv_def Let_def)
qed


end
