(* ===== verification/Blip_Node.thy ===== *)
theory Blip_Node
  imports Blip_HA Blip_Cert
begin

text \<open>
  The start of a node: the configuration file (\<open>src/internal/config/config.go\<close>) and the main program of the resolver
  (\<open>src/cmd/blipd/main.go\<close>), which restores the blocklist snapshot, loads the configured sources, restores the high availability
  settings, obtains the certificate, builds the DNS server and the management API over it, and installs the callback that renews the certificate
  when a virtual address arrives. The YAML decoder, the fetches and the key pair parser are parameters; log lines are left out.
\<close>

subsection \<open>Configuration\<close>

record NodeConfig =
  nc_DNSAddr :: string
  nc_DoHAddr :: string
  nc_CertFile :: string
  nc_KeyFile :: string
  nc_DoHTLS :: bool
  nc_DoHHTTPAddr :: string
  nc_RateLimitQPS :: int
  nc_RateLimitBurst :: int
  nc_TLSDir :: string
  nc_DoHSANs :: "string list"
  nc_AdminAddr :: string
  nc_AdminToken :: string
  nc_TrustedProxies :: "string list"
  nc_StateFile :: string
  nc_InstanceID :: string
  nc_Upstream :: string
  nc_UpstreamServers :: "UpstreamServer list"
  nc_UpstreamRoutes :: "UpstreamRoute list"
  nc_UpstreamBootstrap :: "UpstreamServer list"
  nc_CacheCap :: duration
  nc_CacheSize :: int
  nc_BlocklistURL :: string
  nc_BlocklistURLs :: "string list"
  nc_BlocklistUpdateHours :: int
  nc_BlocklistCacheFile :: string
  nc_Default :: "Policy option"
  nc_Policies :: "Policy option list"

definition defaultNodeConfig :: NodeConfig where
  "defaultNodeConfig =
     \<lparr>nc_DNSAddr = ''127.0.0.1:5353'', nc_DoHAddr = ''127.0.0.1:8443'', nc_CertFile = [], nc_KeyFile = [], nc_DoHTLS = True,
      nc_DoHHTTPAddr = [], nc_RateLimitQPS = 0, nc_RateLimitBurst = 0, nc_TLSDir = ''/var/lib/blipd'', nc_DoHSANs = [],
      nc_AdminAddr = ''127.0.0.1:8443'', nc_AdminToken = [], nc_TrustedProxies = [], nc_StateFile = [], nc_InstanceID = [],
      nc_Upstream = ''udp://1.1.1.1:53 https://1.1.1.1/dns-query'', nc_UpstreamServers = [], nc_UpstreamRoutes = [], nc_UpstreamBootstrap = [],
      nc_CacheCap = Hour, nc_CacheSize = 10000, nc_BlocklistURL = [], nc_BlocklistURLs = [], nc_BlocklistUpdateHours = 0,
      nc_BlocklistCacheFile = ''/var/lib/blipd/blocklist.cache'', nc_Default = None, nc_Policies = []\<rparr>"

record ('w, 'k) node_env =
  ne_ctl :: "'w ctl_env"
  ne_cert :: "('w, 'k) cert_env"
  ne_read :: files  \<comment> \<open>configuration files\<close>
  ne_yaml :: "string \<Rightarrow> NodeConfig \<Rightarrow> NodeConfig option"  \<comment> \<open>\<open>yaml.Unmarshal\<close> onto the defaults\<close>
  ne_validURI :: "string \<Rightarrow> bool"
  ne_fetch :: "'w \<Rightarrow> nat \<Rightarrow> string \<Rightarrow> (BlError, FetchResult) result"
  ne_slot :: "'w \<Rightarrow> nat \<Rightarrow> string option"
  ne_ctxErr :: "'w \<Rightarrow> nat \<Rightarrow> string option"
  ne_keys :: "string set \<Rightarrow> string list"  \<comment> \<open>the order in which a map's keys are visited\<close>
  ne_saves :: "string \<Rightarrow> bool"  \<comment> \<open>whether the snapshot can be written there\<close>
  ne_keyPair :: "string \<Rightarrow> string \<Rightarrow> (string \<times> string) option"  \<comment> \<open>\<open>tls.LoadX509KeyPair\<close>\<close>
  ne_version :: string

datatype Fatal = ReadConfig | ParseConfig | BadPolicy FilterError | LoadKeyPair | BuildCert | NewFailed NewError

definition configLoad :: "('w, 'k) node_env \<Rightarrow> string \<Rightarrow> (Fatal, NodeConfig) result" where
  "configLoad env path =
     (let capped = (\<lambda>c. Inr (if nc_CacheCap c \<le> 0 then c\<lparr>nc_CacheCap := Hour\<rparr> else c)) in
      if path = [] then capped defaultNodeConfig
      else case ne_read env path of
             None \<Rightarrow> Inl ReadConfig
           | Some b \<Rightarrow> (case ne_yaml env b defaultNodeConfig of None \<Rightarrow> Inl ParseConfig | Some c \<Rightarrow> capped c))"

subsection \<open>File names\<close>

text \<open>\<open>filepath.Join\<close> of two elements, with the cleaning it does.\<close>

fun cleanParts :: "bool \<Rightarrow> string list \<Rightarrow> string list \<Rightarrow> string list" where
  "cleanParts rooted st [] = st"
| "cleanParts rooted st (p # ps) =
     (if p = [] \<or> p = ''.'' then cleanParts rooted st ps
      else if p = ''..'' then
        (if st \<noteq> [] \<and> hd st \<noteq> ''..'' then cleanParts rooted (tl st) ps
         else if rooted then cleanParts rooted st ps
         else cleanParts rooted (p # st) ps)
      else cleanParts rooted (p # st) ps)"

definition filepathClean :: "string \<Rightarrow> string" where
  "filepathClean path =
     (let rooted = HasPrefix path ''/''; ps = rev (cleanParts rooted [] (Split path (CHR ''/''))) in
      if rooted then ''/'' @ Join ps ''/'' else if ps = [] then ''.'' else Join ps ''/'')"

definition filepathJoin :: "string \<Rightarrow> string \<Rightarrow> string" where
  "filepathJoin a b =
     (if a = [] \<and> b = [] then [] else filepathClean (if a = [] then b else if b = [] then a else a @ ''/'' @ b))"

definition dohCertPath :: "NodeConfig \<Rightarrow> string" where "dohCertPath cfg = filepathJoin (nc_TLSDir cfg) ''doh-cert.pem''"
definition dohKeyPath :: "NodeConfig \<Rightarrow> string" where "dohKeyPath cfg = filepathJoin (nc_TLSDir cfg) ''doh-key.pem''"

subsection \<open>Policies and blocklist\<close>

fun setPolicies :: "Policy option list \<Rightarrow> Store \<Rightarrow> (Fatal, Store) result" where
  "setPolicies [] st = Inr st"
| "setPolicies (p # ps) st = (case Store_SetPolicy p st of (_, Some e) \<Rightarrow> Inl (BadPolicy e) | (st1, None) \<Rightarrow> setPolicies ps st1)"

definition blocklistSources :: "NodeConfig \<Rightarrow> string list" where
  "blocklistSources cfg =
     (if nc_BlocklistURLs cfg \<noteq> [] then nc_BlocklistURLs cfg else if nc_BlocklistURL cfg \<noteq> [] then [nc_BlocklistURL cfg] else [])"

type_synonym snapshots = "string \<Rightarrow> cacheContent option"

definition restoreBlocklist :: "NodeConfig \<Rightarrow> snapshots \<Rightarrow> Blocklist" where
  "restoreBlocklist cfg snaps =
     (if nc_BlocklistCacheFile cfg = [] then New
      else case LoadCache (snaps (nc_BlocklistCacheFile cfg)) of
             Inr (Some cached) \<Rightarrow> if 0 < Blocklist_Count cached then cached else New
           | _ \<Rightarrow> New)"

definition saveBlocklist :: "('w, 'k) node_env \<Rightarrow> NodeConfig \<Rightarrow> Blocklist \<Rightarrow> snapshots \<Rightarrow> snapshots" where
  "saveBlocklist env cfg b snaps =
     (let path = nc_BlocklistCacheFile cfg; keys = ne_keys env in
      if path \<noteq> [] \<and> ne_saves env path
      then snaps(path \<mapsto> SaveCache (keys (bl_exact b)) (keys (bl_wild b)) (keys (bl_allowExact b)) (keys (bl_allowWild b))) else snaps)"

definition loadSources ::
  "('w, 'k) node_env \<Rightarrow> NodeConfig \<Rightarrow> Blocklist \<Rightarrow> snapshots \<Rightarrow> 'w \<Rightarrow> Blocklist \<times> snapshots \<times> BlError option" where
  "loadSources env cfg b snaps w =
     (case Blocklist_LoadFromURLs (ne_validURI env) (ne_fetch env w) (ne_slot env w) (ne_ctxErr env w) (blocklistSources cfg) b of
        (b1, _, Some e, _) \<Rightarrow> (b1, snaps, Some e)
      | (b1, _, None, _) \<Rightarrow> (b1, saveBlocklist env cfg b1 snaps, None))"

text \<open>The list the server starts with, the snapshots, and whether the periodic refresh runs.\<close>

definition startBlocklist :: "('w, 'k) node_env \<Rightarrow> NodeConfig \<Rightarrow> snapshots \<Rightarrow> 'w \<Rightarrow> Blocklist \<times> snapshots \<times> bool" where
  "startBlocklist env cfg snaps w =
     (let b = restoreBlocklist cfg snaps in
      if blocklistSources cfg = [] then (b, snaps, False)
      else case loadSources env cfg b snaps w of
             (b1, snaps1, Some e) \<Rightarrow> (b1, snaps1, False)
           | (b1, snaps1, None) \<Rightarrow> (b1, snaps1, 0 < nc_BlocklistUpdateHours cfg))"

definition blockActionOf :: "NodeConfig \<Rightarrow> string" where
  "blockActionOf cfg =
     (case nc_Default cfg of None \<Rightarrow> DefaultAction | Some p \<Rightarrow> if p_BlockAction p \<noteq> [] then p_BlockAction p else DefaultAction)"

subsection \<open>Certificate\<close>

definition dohSANs :: "NodeConfig \<Rightarrow> Manager \<Rightarrow> string list" where
  "dohSANs cfg m = nc_DoHSANs cfg @ [VirtualIP m]"

text \<open>The certificate served, if TLS is on; a pair that could not be stored is served from memory.\<close>

definition tlsMaterial ::
  "('w, 'k) node_env \<Rightarrow> NodeConfig \<Rightarrow> Manager \<Rightarrow> files \<Rightarrow> 'w \<Rightarrow> files \<times> 'w \<times> (Fatal, (string \<times> string) option) result" where
  "tlsMaterial env cfg m fs w =
     (if \<not> nc_DoHTLS cfg then (fs, w, Inr None)
      else if nc_CertFile cfg \<noteq> [] \<and> nc_KeyFile cfg \<noteq> [] then
        (fs, w, case ne_keyPair env (nc_CertFile cfg) (nc_KeyFile cfg) of None \<Rightarrow> Inl LoadKeyPair | Some p \<Rightarrow> Inr (Some p))
      else case EnsureFiles (ne_cert env) (dohCertPath cfg) (dohKeyPath cfg) (dohSANs cfg m) fs w of
             (fs1, w1, None, _, _) \<Rightarrow> (fs1, w1, Inl BuildCert)
           | (fs1, w1, Some (c, k), _, _) \<Rightarrow>
               (fs1, w1, if ge_keyPair (ne_cert env) c k then Inr (Some (c, k)) else Inl BuildCert))"

subsection \<open>Start\<close>

text \<open>What the node finds on its disk, and what it consists of once it serves.\<close>

record Disk =
  dk_files :: files
  dk_snapshots :: snapshots
  dk_adoption :: "(string \<times> adoptState) list"
  dk_host :: Host

record Node =
  nd_cfg :: NodeConfig
  nd_ctl :: Control
  nd_ha :: ha_world
  nd_files :: files
  nd_pairs :: "(string \<times> string) list"  \<comment> \<open>the pairs handed to the server so far; it holds a position of this list\<close>
  nd_refreshes :: bool
  nd_admin :: bool

definition serverConfig :: "NodeConfig \<Rightarrow> Store \<Rightarrow> Blocklist \<Rightarrow> (string \<times> string) option \<Rightarrow> Config" where
  "serverConfig cfg st b pair =
     \<lparr>cf_Upstream = nc_Upstream cfg, cf_UpstreamServers = nc_UpstreamServers cfg, cf_UpstreamRoutes = nc_UpstreamRoutes cfg,
      cf_UpstreamBootstrap = nc_UpstreamBootstrap cfg, cf_RateLimitQPS = nc_RateLimitQPS cfg, cf_RateLimitBurst = nc_RateLimitBurst cfg,
      cf_CacheCap = nc_CacheCap cfg, cf_CacheSize = nc_CacheSize cfg, cf_Store = Some st, cf_Blocklist = Some b,
      cf_BlockAction = blockActionOf cfg, cf_TrustedProxies = nc_TrustedProxies cfg, cf_TLSCert = map_option (\<lambda>_. 0) pair\<rparr>"

definition hasAdmin :: "NodeConfig \<Rightarrow> bool" where
  "hasAdmin cfg \<longleftrightarrow> nc_AdminToken cfg \<noteq> [] \<or> nc_StateFile cfg \<noteq> []"

definition startAdmin :: "('w, 'k) node_env \<Rightarrow> NodeConfig \<Rightarrow> Control \<Rightarrow> 'w \<Rightarrow> Control \<times> 'w" where
  "startAdmin env cfg c w =
     (if \<not> hasAdmin cfg then (c, w)
      else case ConfigureAdoption (ne_ctl env) (nc_StateFile cfg) (nc_InstanceID cfg) (SetToken (nc_AdminToken cfg) c) w of
             (c1, w1) \<Rightarrow> (if nc_BlocklistCacheFile cfg \<noteq> [] then SetBlocklistCache (nc_BlocklistCacheFile cfg) c1 else c1, w1))"

definition hasRefresher :: "NodeConfig \<Rightarrow> bool" where
  "hasRefresher cfg \<longleftrightarrow> nc_DoHTLS cfg \<and> nc_CertFile cfg = [] \<and> nc_KeyFile cfg = []"

definition startNode ::
  "('w, 'k) node_env \<Rightarrow> string \<Rightarrow> Disk \<Rightarrow> 'w \<Rightarrow> (snapshots \<times> files) \<times> 'w \<times> (Fatal, Node) result" where
  "startNode env path dk w =
     (case configLoad env path of
        Inl e \<Rightarrow> ((dk_snapshots dk, dk_files dk), w, Inl e)
      | Inr cfg \<Rightarrow>
     (case setPolicies (nc_Policies cfg) (NewStore (nc_Default cfg)) of
        Inl e \<Rightarrow> ((dk_snapshots dk, dk_files dk), w, Inl e)
      | Inr st \<Rightarrow>
     (case startBlocklist env cfg (dk_snapshots dk) w of (b, snaps, refreshes) \<Rightarrow>
      let m = NewManagerWithState [] (nc_StateFile cfg) (dk_host dk) in
      case tlsMaterial env cfg m (dk_files dk) w of
        (fs, w1, Inl e) \<Rightarrow> ((snaps, fs), w1, Inl e)
      | (fs, w1, Inr pair) \<Rightarrow>
     (case NewServer (serverConfig cfg st b pair) of
        Inl e \<Rightarrow> ((snaps, fs), w1, Inl (NewFailed e))
      | Inr s0 \<Rightarrow>
          let s = SetBlockLogger True s0;
              ha = SetUpdateController False (SetCertRefresher (hasRefresher cfg) (m, dk_host dk));
              c = (wireControllers (NewServerWithBlocklist [] s (ctlNow (ne_ctl env) w1) (''blipd/'' @ ne_version env)))
                    \<lparr>ct_disk := dk_adoption dk\<rparr>
          in case startAdmin env cfg c w1 of
               (c1, w2) \<Rightarrow>
                 ((snaps, fs), w2,
                  Inr \<lparr>nd_cfg = cfg, nd_ctl = c1, nd_ha = ha, nd_files = fs, nd_pairs = (case pair of None \<Rightarrow> [] | Some p \<Rightarrow> [p]),
                       nd_refreshes = refreshes, nd_admin = hasAdmin cfg\<rparr>)))))"

definition servedPair :: "Node \<Rightarrow> (string \<times> string) option" where
  "servedPair nd =
     (case s_cert (ct_srv (nd_ctl nd)) of None \<Rightarrow> None | Some i \<Rightarrow> if i < length (nd_pairs nd) then Some (nd_pairs nd ! i) else None)"

subsection \<open>While it runs\<close>

text \<open>A tick of the refresh loop, and the callback the high availability manager runs after new settings were accepted.\<close>

definition refreshTick :: "('w, 'k) node_env \<Rightarrow> Node \<Rightarrow> snapshots \<Rightarrow> 'w \<Rightarrow> Node \<times> snapshots" where
  "refreshTick env nd snaps w =
     (case s_Blocklist (ct_srv (nd_ctl nd)) of
        Some b \<Rightarrow>
          if nd_refreshes nd then
            (case loadSources env (nd_cfg nd) b snaps w of
               (b1, snaps1, _) \<Rightarrow> (nd\<lparr>nd_ctl := onSrv (\<lambda>s. s\<lparr>s_Blocklist := Some b1\<rparr>) (nd_ctl nd)\<rparr>, snaps1))
          else (nd, snaps)
      | None \<Rightarrow> (nd, snaps))"

definition refreshCert :: "('w, 'k) node_env \<Rightarrow> Node \<Rightarrow> 'w \<Rightarrow> Node \<times> 'w" where
  "refreshCert env nd w =
     (case EnsurePair (ne_cert env) (dohCertPath (nd_cfg nd)) (dohKeyPath (nd_cfg nd)) (dohSANs (nd_cfg nd) (fst (nd_ha nd))) (nd_files nd) w of
        (fs, w1, None) \<Rightarrow> (nd\<lparr>nd_files := fs\<rparr>, w1)
      | (fs, w1, Some p) \<Rightarrow>
          (nd\<lparr>nd_files := fs, nd_pairs := nd_pairs nd @ [p],
              nd_ctl := onSrv (SetTLSCert (Some (length (nd_pairs nd)))) (nd_ctl nd)\<rparr>, w1))"

definition nodeSetHA :: "('w, 'k) node_env \<Rightarrow> HAConfig \<Rightarrow> Node \<Rightarrow> 'w \<Rightarrow> Node \<times> 'w \<times> string option" where
  "nodeSetHA env cfg nd w =
     (case SetHAConfig cfg (nd_ha nd) of
        (ha, Some e) \<Rightarrow> (nd\<lparr>nd_ha := ha\<rparr>, w, Some e)
      | (ha, None) \<Rightarrow>
          if m_certRefresher (fst ha) then (case refreshCert env (nd\<lparr>nd_ha := ha\<rparr>) w of (nd1, w1) \<Rightarrow> (nd1, w1, None))
          else (nd\<lparr>nd_ha := ha\<rparr>, w, None))"

subsection \<open>The stages\<close>

lemma cleanParts_append: "cleanParts r st (as @ bs) = cleanParts r (cleanParts r st as) bs"
  by (induction r st as rule: cleanParts.induct) auto

lemma Join_snoc: "\<exists>pre. Join (ps @ [p]) s = pre @ p"
proof (induction ps)
  case (Cons q ps)
  then obtain pre where "Join (ps @ [p]) s = pre @ p" by blast
  then have "Join ((q # ps) @ [p]) s = (q @ s @ pre) @ p" by (simp add: Join_Cons)
  then show ?case by blast
qed (simp add: exI [of _ "[]"])

lemma filepathJoin_ends:
  assumes "b \<noteq> []" "b \<noteq> ''.''" "b \<noteq> ''..''" "CHR ''/'' \<notin> set b"
  shows "\<exists>pre. filepathJoin a b = pre @ b"
proof -
  have clean: "\<exists>pre. filepathClean path = pre @ b" if "Split path (CHR ''/'') = as @ [b]" for path as
  proof -
    have parts: "cleanParts r [] (as @ [b]) = b # cleanParts r [] as" for r using assms by (simp add: cleanParts_append)
    obtain pre where "Join (rev (cleanParts (HasPrefix path ''/'') [] as) @ [b]) ''/'' = pre @ b" using Join_snoc by blast
    then have "filepathClean path = (if HasPrefix path ''/'' then ''/'' @ pre else pre) @ b"
      by (cases "HasPrefix path ''/''") (simp_all add: filepathClean_def Let_def that parts)
    then show ?thesis by blast
  qed
  have "Split b (CHR ''/'') = [] @ [b]" using assms(4) by (simp add: Split_no_sep_id)
  moreover have "Split (a @ ''/'' @ b) (CHR ''/'') = Split a (CHR ''/'') @ [b]" using assms(4) by (simp add: Split_append_sep Split_no_sep_id)
  ultimately show ?thesis using clean assms(1) unfolding filepathJoin_def by metis
qed

lemma cert_paths_differ: "dohCertPath cfg \<noteq> dohKeyPath cfg"
proof
  assume eq: "dohCertPath cfg = dohKeyPath cfg"
  obtain p q where "dohCertPath cfg = p @ ''doh-cert.pem''" "dohKeyPath cfg = q @ ''doh-key.pem''"
    using filepathJoin_ends [of "''doh-cert.pem''"] filepathJoin_ends [of "''doh-key.pem''"] unfolding dohCertPath_def dohKeyPath_def by force
  then have "rev (p @ ''doh-cert.pem'') ! 4 = rev (q @ ''doh-key.pem'') ! 4" using eq by simp
  then show False by simp
qed

lemma find_snoc: "find P (xs @ [x]) = (case find P xs of Some y \<Rightarrow> Some y | None \<Rightarrow> if P x then Some x else None)"
  by (induction xs) auto

lemma setPolicies_store:
  "setPolicies ps st = Inr st1 \<Longrightarrow> Store_inv st \<Longrightarrow>
     Store_inv st1 \<and> st_defaults st1 = st_defaults st \<and> None \<notin> set ps
     \<and> map_option cp_Policy (map_of (st_policies st1) i)
         = (case find (\<lambda>p. p_ID p = i) (rev (map the ps)) of Some p \<Rightarrow> Some p | None \<Rightarrow> map_option cp_Policy (map_of (st_policies st) i))"
proof (induction ps arbitrary: st)
  case (Cons po ps)
  obtain st2 where set: "Store_SetPolicy po st = (st2, None)" and rest: "setPolicies ps st2 = Inr st1"
    using Cons.prems(1) by (auto split: prod.splits option.splits)
  then have inv: "Store_inv st2" using SetPolicy_inv [OF Cons.prems(2), of po] by simp
  obtain p where p: "po = Some p" using set by (cases po) (auto simp: Store_SetPolicy_def)
  have new: "st_defaults st2 = st_defaults st"
    "map_option cp_Policy (map_of (st_policies st2) i) = (if p_ID p = i then Some p else map_option cp_Policy (map_of (st_policies st) i))"
    using set by (auto simp: p Store_SetPolicy_def Let_def update_conv' compile_def split: if_splits sum.splits)
  with Cons.IH [OF rest inv] new p show ?case by (simp add: find_snoc split: option.split)
qed simp

lemma startAdmin_srv: "startAdmin env cfg c w = (c1, w1) \<Longrightarrow> ct_srv c1 = ct_srv c"
  by (auto simp: startAdmin_def ConfigureAdoption_def SetToken_def SetBlocklistCache_def persistAdopted_def genClaim_def Let_def
      split: if_splits prod.splits option.splits)

lemma restored_settings_valid: "validateStoredConfig (m_cfg (NewManagerWithState path ad h)) = None"
proof -
  have "validateStoredConfig noHAConfig = None" by (simp add: validateStoredConfig_def noHAConfig_def)
  then show ?thesis by (auto simp: NewManagerWithState_def loadState_def Let_def split: option.splits)
qed

lemma NewServer_fields:
  "NewServer cfg = Inr s \<Longrightarrow> s_Store s = (case cf_Store cfg of None \<Rightarrow> NewStore None | Some st \<Rightarrow> st) \<and> s_Blocklist s = cf_Blocklist cfg
     \<and> s_cert s = cf_TLSCert cfg \<and> s_BlockAction s = cf_BlockAction cfg"
  by (auto simp: NewServer_def Let_def SetRateLimit_def split: prod.splits sum.splits if_splits option.splits)

subsection \<open>Properties\<close>

definition certIndexOK :: "Node \<Rightarrow> bool" where
  "certIndexOK nd \<longleftrightarrow> (case s_cert (ct_srv (nd_ctl nd)) of None \<Rightarrow> True | Some i \<Rightarrow> i < length (nd_pairs nd))"

lemma tlsMaterial_usable:
  assumes "signsTemplate (ne_cert env)" "tlsMaterial env cfg m fs w = (fs1, w1, Inr pair)" "nc_DoHTLS cfg" "nc_CertFile cfg = [] \<or> nc_KeyFile cfg = []"
  shows "\<exists>p. pair = Some p \<and> usablePair (ne_cert env) (dohSANs cfg m) w p"
proof -
  obtain c k where e: "\<exists>per err. EnsureFiles (ne_cert env) (dohCertPath cfg) (dohKeyPath cfg) (dohSANs cfg m) fs w = (fs1, w1, Some (c, k), per, err)"
    and p: "pair = Some (c, k)"
    using assms(2-4) by (auto simp: tlsMaterial_def split: prod.splits option.splits if_splits)
  then obtain per err where "EnsureFiles (ne_cert env) (dohCertPath cfg) (dohKeyPath cfg) (dohSANs cfg m) fs w = (fs1, w1, Some (c, k), per, err)"
    by blast
  then have "usablePair (ne_cert env) (dohSANs cfg m) w (c, k)"
    by (cases rule: EnsureFiles_cases) (auto simp: load_Inr loadable_usable dest: Generate_loadable [OF assms(1)])
  with p show ?thesis by blast
qed

lemma startNode_stages:
  assumes "startNode env path dk w = (disk, w2, Inr nd)"
  obtains cfg st b snaps refreshes m fs w1 pair s0 c where
    "configLoad env path = Inr cfg" "setPolicies (nc_Policies cfg) (NewStore (nc_Default cfg)) = Inr st"
    "startBlocklist env cfg (dk_snapshots dk) w = (b, snaps, refreshes)" "m = NewManagerWithState [] (nc_StateFile cfg) (dk_host dk)"
    "tlsMaterial env cfg m (dk_files dk) w = (fs, w1, Inr pair)" "NewServer (serverConfig cfg st b pair) = Inr s0"
    "ct_srv (nd_ctl nd) = SetBlockLogger True s0" "disk = (snaps, fs)" "nd_cfg nd = cfg"
    "nd_ha nd = SetUpdateController False (SetCertRefresher (hasRefresher cfg) (m, dk_host dk))" "nd_files nd = fs"
    "nd_pairs nd = (case pair of None \<Rightarrow> [] | Some p \<Rightarrow> [p])" "nd_refreshes nd = refreshes" "nd_admin nd = hasAdmin cfg"
    "\<not> hasAdmin cfg \<Longrightarrow> ct_token (nd_ctl nd) = []"
proof -
  obtain cfg where cfg: "configLoad env path = Inr cfg" using assms by (cases "configLoad env path") (auto simp: startNode_def)
  obtain st where st: "setPolicies (nc_Policies cfg) (NewStore (nc_Default cfg)) = Inr st"
    using assms cfg by (cases "setPolicies (nc_Policies cfg) (NewStore (nc_Default cfg))") (auto simp: startNode_def)
  obtain b snaps refreshes where b: "startBlocklist env cfg (dk_snapshots dk) w = (b, snaps, refreshes)" by (metis surj_pair)
  define m where "m = NewManagerWithState [] (nc_StateFile cfg) (dk_host dk)"
  obtain fs w1 r where r: "tlsMaterial env cfg m (dk_files dk) w = (fs, w1, r)" by (metis surj_pair)
  obtain pair where pair: "r = Inr pair" using assms cfg st b r m_def by (cases r) (auto simp: startNode_def)
  obtain s0 where s0: "NewServer (serverConfig cfg st b pair) = Inr s0"
    using assms cfg st b r m_def pair by (cases "NewServer (serverConfig cfg st b pair)") (auto simp: startNode_def)
  define c where "c = (wireControllers (NewServerWithBlocklist [] (SetBlockLogger True s0) (ctlNow (ne_ctl env) w1) (''blipd/'' @ ne_version env)))
                    \<lparr>ct_disk := dk_adoption dk\<rparr>"
  obtain c1 w3 where c1: "startAdmin env cfg c w1 = (c1, w3)" by (metis surj_pair)
  have srv: "ct_srv c1 = SetBlockLogger True s0" "\<not> hasAdmin cfg \<Longrightarrow> ct_token c1 = []"
    using startAdmin_srv [OF c1] c1 by (auto simp: c_def wireControllers_def NewServerWithBlocklist_def startAdmin_def)
  have "disk = (snaps, fs) \<and> nd = \<lparr>nd_cfg = cfg, nd_ctl = c1,
      nd_ha = SetUpdateController False (SetCertRefresher (hasRefresher cfg) (m, dk_host dk)), nd_files = fs,
      nd_pairs = (case pair of None \<Rightarrow> [] | Some p \<Rightarrow> [p]), nd_refreshes = refreshes, nd_admin = hasAdmin cfg\<rparr>"
    using assms cfg st b r [unfolded m_def] pair s0 c1 [unfolded c_def] by (simp add: startNode_def Let_def m_def)
  then show ?thesis using that cfg st b m_def r pair s0 srv by simp
qed

lemma startNode_server:
  assumes "startNode env path dk w = (disk, w2, Inr nd)" "configLoad env path = Inr cfg" "s = ct_srv (nd_ctl nd)"
  shows "Server_inv s"
    "st_defaults (s_Store s) = map_option compile (nc_Default cfg)"
    "map_option cp_Policy (map_of (st_policies (s_Store s)) i) = find (\<lambda>p. p_ID p = i) (rev (map the (nc_Policies cfg)))"
    "s_Blocklist s = Some (fst (startBlocklist env cfg (dk_snapshots dk) w))"
proof -
  obtain cfg' st b snaps refreshes m fs w1 pair s0 where a: "configLoad env path = Inr cfg'" "setPolicies (nc_Policies cfg') (NewStore (nc_Default cfg')) = Inr st"
    "startBlocklist env cfg' (dk_snapshots dk) w = (b, snaps, refreshes)" "NewServer (serverConfig cfg' st b pair) = Inr s0"
    "ct_srv (nd_ctl nd) = SetBlockLogger True s0"
    by (rule startNode_stages [OF assms(1)]) blast
  have c: "cfg' = cfg" using a(1) assms(2) by simp
  note sp = setPolicies_store [OF a(2) NewStore_inv]
  have "Server_inv s0" by (rule NewServer_inv [OF a(4)]) (use sp in \<open>simp add: serverConfig_def\<close>)
  then show "Server_inv s" using a(5) assms(3) by (simp add: SetBlockLogger_inv)
  have f: "s_Store s = st" "s_Blocklist s = Some b" using NewServer_fields [OF a(4)] a(5) assms(3) by (simp_all add: serverConfig_def SetBlockLogger_def)
  show "s_Blocklist s = Some (fst (startBlocklist env cfg (dk_snapshots dk) w))" using f a(3) c by simp
  show "st_defaults (s_Store s) = map_option compile (nc_Default cfg)" using f sp c by (simp add: NewStore_def split: option.splits)
  show "map_option cp_Policy (map_of (st_policies (s_Store s)) i) = find (\<lambda>p. p_ID p = i) (rev (map the (nc_Policies cfg)))"
    using f sp [of i] c by (simp add: NewStore_def split: option.splits)
qed


definition exampleDisk :: Disk where
  "exampleDisk = \<lparr>dk_files = Map.empty, dk_snapshots = Map.empty, dk_adoption = [], dk_host = sampleHost\<rparr>"

definition exampleNodeEnv :: "(nat, nat) node_env" where
  "exampleNodeEnv =
     \<lparr>ne_ctl = sampleEnv, ne_cert = exampleCertEnv, ne_read = Map.empty, ne_yaml = (\<lambda>_ c. Some c), ne_validURI = (\<lambda>_. True),
      ne_fetch = (\<lambda>_ _ _. Inl NoDomains), ne_slot = (\<lambda>_ _. None), ne_ctxErr = (\<lambda>_ _. None), ne_keys = (\<lambda>S. sorted_list_of_set S),
      ne_saves = (\<lambda>_. True), ne_keyPair = (\<lambda>_ _. None), ne_version = ''1.4.0''\<rparr>"

definition exampleNode :: Node where
  "exampleNode = projr (snd (snd (startNode exampleNodeEnv [] exampleDisk 0)))"

lemma exampleNode_start: "\<exists>disk w2. startNode exampleNodeEnv [] exampleDisk 0 = (disk, w2, Inr exampleNode)"
proof -
  have "\<not> isl (snd (snd (startNode exampleNodeEnv [] exampleDisk 0)))" by code_simp
  then show ?thesis unfolding exampleNode_def by (metis prod.collapse sum.collapse(2))
qed


text \<open>What \<open>crypto/tls\<close> documents of a certificate and the private key that belongs to it: it builds a pair from them.\<close>

definition acceptsUsable :: "('w, 'k) cert_env \<Rightarrow> bool" where
  "acceptsUsable env \<longleftrightarrow> (\<forall>extra w c k. usablePair env extra w (c, k) \<longrightarrow> ge_keyPair env c k)"

lemma served_ha [simp]: "servedPair (nd\<lparr>nd_ha := ha\<rparr>) = servedPair nd" "certIndexOK (nd\<lparr>nd_ha := ha\<rparr>) = certIndexOK nd"
  by (simp_all add: servedPair_def certIndexOK_def split: option.split)

lemma refreshCert_served:
  assumes "certIndexOK nd"
  shows "case EnsurePair (ne_cert env) (dohCertPath (nd_cfg nd)) (dohKeyPath (nd_cfg nd)) (dohSANs (nd_cfg nd) (fst (nd_ha nd))) (nd_files nd) w of
      (_, _, None) \<Rightarrow> servedPair (fst (refreshCert env nd w)) = servedPair nd
    | (_, _, Some p) \<Rightarrow> servedPair (fst (refreshCert env nd w)) = Some p"
  using assms by (auto simp: refreshCert_def servedPair_def certIndexOK_def onSrv_def SetTLSCert_def split: option.splits prod.splits)

text \<open>
  A virtual address that arrives while the node runs is in the certificate without a restart. Once new high availability settings are
  accepted on a node that makes its own certificate, the pair served from the next handshake on covers the new virtual address together with every
  other identity, and has not expired; only if signing or writing the files failed does the node go on with the pair it had.
\<close>

theorem vip_reaches_certificate:
  assumes sign: "signsTemplate (ne_cert env)" and tls: "acceptsUsable (ne_cert env)" and ok: "certIndexOK nd"
    and own: "m_certRefresher (fst (nd_ha nd))" and accepted: "nodeSetHA env cfg nd w = (nd1, w1, None)"
    and ensure: "EnsureFiles (ne_cert env) (dohCertPath (nd_cfg nd)) (dohKeyPath (nd_cfg nd)) (nc_DoHSANs (nd_cfg nd) @ [VirtualIP (fst (nd_ha nd1))])
      (nd_files nd) w = (fs, w2, r, persisted, err)"
  shows "m_cfg (fst (nd_ha nd1)) = cfg
    \<and> (if err = None then \<exists>p. servedPair nd1 = Some p \<and> usablePair (ne_cert env) (nc_DoHSANs (nd_cfg nd) @ [VirtualIP (fst (nd_ha nd1))]) w p
       else servedPair nd1 = servedPair nd)"
proof -
  obtain ha where ha: "SetHAConfig cfg (nd_ha nd) = (ha, None)"
    using accepted by (cases "SetHAConfig cfg (nd_ha nd)") (auto simp: nodeSetHA_def split: option.splits)
  then have keeps: "m_certRefresher (fst ha)" "m_cfg (fst ha) = cfg"
    using own by (auto simp: SetHAConfig_def split: prod.splits option.splits)
  have nd1: "nd1 = fst (refreshCert env (nd\<lparr>nd_ha := ha\<rparr>) w)" using accepted ha keeps by (simp add: nodeSetHA_def split: prod.splits)
  then have same: "nd_ha nd1 = ha" by (simp add: refreshCert_def split: prod.splits option.splits)
  have served: "case EnsurePair (ne_cert env) (dohCertPath (nd_cfg nd)) (dohKeyPath (nd_cfg nd)) (dohSANs (nd_cfg nd) (fst ha)) (nd_files nd) w of
      (_, _, None) \<Rightarrow> servedPair nd1 = servedPair nd | (_, _, Some p) \<Rightarrow> servedPair nd1 = Some p"
    using refreshCert_served [of "nd\<lparr>nd_ha := ha\<rparr>" env w] ok unfolding nd1 by simp
  show ?thesis using ensure
  proof (cases rule: EnsureFiles_cases)
    case (kept p)
    then have "usablePair (ne_cert env) (dohSANs (nd_cfg nd) (fst ha)) w p" using same by (simp add: load_Inr loadable_usable dohSANs_def)
    with tls kept ensure served show ?thesis unfolding acceptsUsable_def
      by (cases p) (auto simp: EnsurePair_def same keeps dohSANs_def)
  next
    case (failed e)
    then show ?thesis using ensure served by (simp add: EnsurePair_def same keeps dohSANs_def)
  next
    case (fresh p)
    then have "usablePair (ne_cert env) (dohSANs (nd_cfg nd) (fst ha)) w p"
      using Generate_loadable [OF sign] same by (auto simp: loadable_usable dohSANs_def)
    with tls fresh ensure served show ?thesis unfolding acceptsUsable_def
      by (cases p; cases err) (auto simp: EnsurePair_def same keeps dohSANs_def)
  qed
qed

definition exampleVIPNode :: Node where
  "exampleVIPNode = fst (nodeSetHA exampleNodeEnv sampleHA exampleNode 0)"

theorem vip_reaches_certificate_witness:
  "VirtualIP (fst (nd_ha exampleVIPNode)) = ''192.168.1.9''
   \<and> (\<exists>p. servedPair exampleVIPNode = Some p \<and> usablePair exampleCertEnv [''192.168.1.9''] 0 p)"
proof -
  let ?set = "nodeSetHA exampleNodeEnv sampleHA exampleNode 0"
  let ?ens = "EnsureFiles exampleCertEnv (dohCertPath (nd_cfg exampleNode)) (dohKeyPath (nd_cfg exampleNode)) [''192.168.1.9''] (nd_files exampleNode) 0"
  have run: "snd (snd ?set) = None" by code_simp
  have vip: "VirtualIP (fst (nd_ha exampleVIPNode)) = ''192.168.1.9''" by code_simp
  have node: "m_certRefresher (fst (nd_ha exampleNode))" "nc_DoHSANs (nd_cfg exampleNode) = []" by code_simp+
  have stored: "Option.is_none (snd (snd (snd (snd ?ens))))" by code_simp
  have ok: "certIndexOK exampleNode" by code_simp
  have env: "ne_cert exampleNodeEnv = exampleCertEnv" "acceptsUsable exampleCertEnv"
    by (simp add: exampleNodeEnv_def) (simp add: acceptsUsable_def, simp add: exampleCertEnv_def)
  obtain w1 where set: "?set = (exampleVIPNode, w1, None)" using run by (metis exampleVIPNode_def prod.collapse)
  obtain fs w2 r per where ens: "?ens = (fs, w2, r, per, None)" using stored by (metis Option.is_none_def prod.collapse)
  show ?thesis
    using vip_reaches_certificate [of exampleNodeEnv exampleNode sampleHA 0 exampleVIPNode w1 fs w2 r per None] vip node ok env set ens exampleCertEnv_signs
    by simp
qed

lemma LoadFromURLs_inv:
  assumes "Blocklist_inv b"
  shows "Blocklist_inv (fst (Blocklist_LoadFromURLs v f sl ce urls b))"
  using assms by (auto simp: Blocklist_LoadFromURLs_def Let_def FromDomainsMap_inv split: option.splits prod.splits sum.splits)

lemma restoreBlocklist_inv: "Blocklist_inv (restoreBlocklist cfg snaps)"
  by (auto simp: restoreBlocklist_def LoadCache_def Blocklist_FromDomains_def blip_inv split: option.splits sum.splits cacheContent.splits)

lemma loadSources_keeps: "loadSources env cfg b snaps w = (b1, snaps1, Some e) \<Longrightarrow> b1 = b \<and> snaps1 = snaps"
  by (auto simp: loadSources_def Blocklist_LoadFromURLs_def Let_def split: option.splits prod.splits sum.splits if_splits)

lemma restore_saved:
  assumes keys: "\<forall>S. finite S \<longrightarrow> enumerates (ne_keys env S) S" and path: "nc_BlocklistCacheFile cfg \<noteq> []" "ne_saves env (nc_BlocklistCacheFile cfg)"
    and b: "Blocklist_inv b" "Blocklist_canonical b" "0 < Blocklist_Count b"
  shows "restoreBlocklist cfg (saveBlocklist env cfg b snaps) = b"
proof -
  have "finite (bl_exact b)" "finite (bl_wild b)" "finite (bl_allowExact b)" "finite (bl_allowWild b)" using b(1) by (simp_all add: Blocklist_inv_def)
  then show ?thesis using relist_same [OF b(1,2)] keys path b(3) by (simp add: restoreBlocklist_def saveBlocklist_def Let_def LoadCache_def SaveCache_def)
qed

text \<open>
  A node that restarts while its sources cannot be reached blocks what it blocked before. If one start loaded its sources and stored the
  snapshot, then a later start on that disk whose load fails, for whatever reason, has the same list in memory as the first one had, so it blocks
  exactly the same names, and leaves the snapshot as it is. That start, however, never sets up the periodic refresh, whatever the configured interval.
\<close>

theorem offline_restart_blocks:
  assumes keys: "\<forall>S. finite S \<longrightarrow> enumerates (ne_keys env S) S" and path: "nc_BlocklistCacheFile cfg \<noteq> []" "ne_saves env (nc_BlocklistCacheFile cfg)"
    and first: "blocklistSources cfg \<noteq> []" "loadSources env cfg (restoreBlocklist cfg snaps) snaps w = (b, snaps1, None)"
    and list: "Blocklist_canonical b" "0 < Blocklist_Count b"
    and fails: "loadSources env cfg (restoreBlocklist cfg snaps1) snaps1 w' = (b2, snaps2, Some e)"
  shows "startBlocklist env cfg snaps w = (b, snaps1, 0 < nc_BlocklistUpdateHours cfg) \<and> startBlocklist env cfg snaps1 w' = (b, snaps1, False)"
proof -
  have "snaps1 = saveBlocklist env cfg b snaps" "Blocklist_inv b"
    using first(2) LoadFromURLs_inv [OF restoreBlocklist_inv, of "ne_validURI env" "ne_fetch env w" "ne_slot env w" "ne_ctxErr env w"
        "blocklistSources cfg" cfg snaps]
    by (auto simp: loadSources_def split: prod.splits option.splits)
  then have "restoreBlocklist cfg snaps1 = b" using restore_saved [OF keys path _ list] by simp
  then show ?thesis using first fails loadSources_keeps [OF fails] by (simp add: startBlocklist_def)
qed

definition feedNodeEnv :: "(nat, nat) node_env" where
  "feedNodeEnv = exampleNodeEnv\<lparr>ne_fetch := (\<lambda>w _ _. if w = 0
     then Inr \<lparr>fr_Domains = [''ads.example.com''], fr_Validators = \<lparr>v_ETag = [], v_LastModified = []\<rparr>, fr_NotModified = False\<rparr> else Inl NoDomains)\<rparr>"

definition feedConfig :: NodeConfig where
  "feedConfig = defaultNodeConfig\<lparr>nc_BlocklistURL := ''https://lists.example/ads'', nc_BlocklistUpdateHours := 24\<rparr>"

definition feedList :: Blocklist where
  "feedList = Blocklist_FromDomainsMap [''ads.example.com''] New"

theorem offline_restart_blocks_witness:
  "startBlocklist feedNodeEnv feedConfig (saveBlocklist feedNodeEnv feedConfig feedList Map.empty) 1
     = (feedList, saveBlocklist feedNodeEnv feedConfig feedList Map.empty, False)
   \<and> Blocklist_IsBlocked feedList ''ads.example.com''"
proof -
  have keys: "\<forall>S. finite S \<longrightarrow> enumerates (ne_keys feedNodeEnv S) S" by (simp add: feedNodeEnv_def exampleNodeEnv_def enumerates_def)
  have path: "nc_BlocklistCacheFile feedConfig \<noteq> []" "ne_saves feedNodeEnv (nc_BlocklistCacheFile feedConfig)" "blocklistSources feedConfig \<noteq> []"
    by (simp_all add: feedConfig_def defaultNodeConfig_def feedNodeEnv_def exampleNodeEnv_def blocklistSources_def)
  have first: "loadSources feedNodeEnv feedConfig (restoreBlocklist feedConfig Map.empty) Map.empty 0
      = (feedList, saveBlocklist feedNodeEnv feedConfig feedList Map.empty, None)"
    by (simp add: loadSources_def Blocklist_LoadFromURLs_def blocklistSources_def feedConfig_def defaultNodeConfig_def feedNodeEnv_def exampleNodeEnv_def
        restoreBlocklist_def LoadCache_def Let_def fetchSlot_def mergeOne_def feedList_def)
  have list: "Blocklist_canonical feedList" "0 < Blocklist_Count feedList" "Blocklist_IsBlocked feedList ''ads.example.com''"
    unfolding Blocklist_canonical_def canonical_def by code_simp+
  have fails: "snd (snd (loadSources feedNodeEnv feedConfig b snaps 1)) = Some NoDomains" for b snaps
    by (simp add: loadSources_def Blocklist_LoadFromURLs_def blocklistSources_def feedConfig_def defaultNodeConfig_def feedNodeEnv_def exampleNodeEnv_def
        Let_def fetchSlot_def mergeOne_def)
  obtain b2 snaps2 where "loadSources feedNodeEnv feedConfig (restoreBlocklist feedConfig (saveBlocklist feedNodeEnv feedConfig feedList Map.empty))
      (saveBlocklist feedNodeEnv feedConfig feedList Map.empty) 1 = (b2, snaps2, Some NoDomains)" using fails by (metis prod.collapse)
  from offline_restart_blocks [OF keys path first list(1,2) this] list(3) show ?thesis by simp
qed

end
