(* ===== verification/Blip_Profile.thy ===== *)
theory Blip_Profile
  imports Blip_HA
begin

text \<open>
  The configuration profile for Apple devices that the controller hands out (\<open>src/internal/controller/mobileconfig.go\<close>): the values a
  request may ask for, the address built from them, and the property list they are put into. \<open>encoding/xml\<close>'s \<open>EscapeText\<close> is
  modelled on bytes, with the decoding of UTF-8 it does; the random bytes of the identifiers are a parameter.
\<close>

subsection \<open>Escaping\<close>

abbreviation byte :: "char \<Rightarrow> nat" where "byte \<equiv> of_char"

definition contBytes :: "nat \<Rightarrow> nat \<Rightarrow> nat \<Rightarrow> string \<Rightarrow> bool" where
  "contBytes n lo hi s \<longleftrightarrow>
     n \<le> length s \<and> lo \<le> byte (hd s) \<and> byte (hd s) \<le> hi \<and> list_all (\<lambda>c. 128 \<le> byte c \<and> byte c \<le> 191) (take (n - 1) (tl s))"

definition runeOf :: "nat \<Rightarrow> string \<Rightarrow> nat" where
  "runeOf lead s = fold (\<lambda>c r. r * 64 + byte c mod 64) s lead"

text \<open>\<open>utf8.DecodeRune\<close>: the rune and its width; what is not UTF-8 is the replacement character of width 1.\<close>

definition DecodeRune :: "string \<Rightarrow> nat \<times> nat" where
  "DecodeRune s =
     (case s of
        [] \<Rightarrow> (65533, 0)
      | c # cs \<Rightarrow>
          let b = byte c in
          if b < 128 then (b, 1)
          else if 194 \<le> b \<and> b \<le> 223 \<and> contBytes 1 128 191 cs then (runeOf (b mod 32) (take 1 cs), 2)
          else if b = 224 \<and> contBytes 2 160 191 cs then (runeOf (b mod 16) (take 2 cs), 3)
          else if b = 237 \<and> contBytes 2 128 159 cs then (runeOf (b mod 16) (take 2 cs), 3)
          else if 225 \<le> b \<and> b \<le> 239 \<and> b \<noteq> 237 \<and> contBytes 2 128 191 cs then (runeOf (b mod 16) (take 2 cs), 3)
          else if b = 240 \<and> contBytes 3 144 191 cs then (runeOf (b mod 8) (take 3 cs), 4)
          else if b = 244 \<and> contBytes 3 128 143 cs then (runeOf (b mod 8) (take 3 cs), 4)
          else if 241 \<le> b \<and> b \<le> 243 \<and> contBytes 3 128 191 cs then (runeOf (b mod 8) (take 3 cs), 4)
          else (65533, 1))"

definition isInCharacterRange :: "nat \<Rightarrow> bool" where
  "isInCharacterRange r \<longleftrightarrow>
     r = 9 \<or> r = 10 \<or> r = 13 \<or> (32 \<le> r \<and> r \<le> 55295) \<or> (57344 \<le> r \<and> r \<le> 65533) \<or> (65536 \<le> r \<and> r \<le> 1114111)"

definition replacement :: string where
  "replacement = [CHR 0xEF, CHR 0xBF, CHR 0xBD]"

text \<open>What stands for one rune: an entity, the replacement character, or its own bytes.\<close>

definition escapeRune :: "nat \<Rightarrow> nat \<Rightarrow> string \<Rightarrow> string" where
  "escapeRune r width own =
     (if r = 34 then ''&#34;'' else if r = 39 then ''&#39;'' else if r = 38 then ''&amp;'' else if r = 60 then ''&lt;''
      else if r = 62 then ''&gt;'' else if r = 9 then ''&#x9;'' else if r = 10 then ''&#xA;'' else if r = 13 then ''&#xD;''
      else if \<not> isInCharacterRange r \<or> (r = 65533 \<and> width = 1) then replacement
      else own)"

lemma DecodeRune_width: "s \<noteq> [] \<Longrightarrow> 1 \<le> snd (DecodeRune s)"
  by (cases s) (simp_all add: DecodeRune_def Let_def)

function EscapeText :: "string \<Rightarrow> string" where
  "EscapeText s =
     (if s = [] then []
      else case DecodeRune s of (r, width) \<Rightarrow> escapeRune r width (take width s) @ EscapeText (drop width s))"
  by pat_completeness auto

lemma DecodeRune_drop: "s \<noteq> [] \<Longrightarrow> (r, width) = DecodeRune s \<Longrightarrow> length (drop width s) < length s"
  using DecodeRune_width [of s] by (metis diff_less length_drop length_greater_0_conv less_le_trans less_numeral_extra(1) snd_conv)

termination EscapeText
  by (relation "measure length") (use DecodeRune_drop in auto)

declare EscapeText.simps [simp del]

definition profileEsc :: "string \<Rightarrow> string" where
  "profileEsc s = EscapeText s"

subsection \<open>Values of a request\<close>

datatype ProfileError = HostRequired | InvalidHost | HostTooLong | BadHostname | InvalidPort | InvalidClientID | MethodNotAllowed

definition labelChar :: "char \<Rightarrow> bool" where
  "labelChar c \<longleftrightarrow> (97 \<le> byte c \<and> byte c \<le> 122) \<or> (65 \<le> byte c \<and> byte c \<le> 90) \<or> (48 \<le> byte c \<and> byte c \<le> 57) \<or> c = CHR ''-''"

definition goodLabel :: "string \<Rightarrow> bool" where
  "goodLabel l \<longleftrightarrow> \<not> (l = [] \<or> 63 < length l \<or> hd l = CHR ''-'' \<or> List.last l = CHR ''-'') \<and> list_all labelChar l"

definition normalizeProfileHost :: "string \<Rightarrow> (ProfileError, string) result" where
  "normalizeProfileHost host =
     (if host = [] then Inl HostRequired
      else if ContainsAny host ''/?#@ '' \<or> Contains host ''://'' then Inl InvalidHost
      else let ip = ParseIP (Trim host ''[]'') in
           if ip \<noteq> [] then Inr (if To4 ip = [] then ''['' @ IP_String ip @ '']'' else IP_String ip)
           else if 253 < length host then Inl HostTooLong
           else if \<not> list_all goodLabel (Split host (CHR ''.'')) then Inl BadHostname
           else Inr host)"

definition profilePort :: "string \<Rightarrow> (ProfileError, int) result" where
  "profilePort p =
     (if p = [] then Inr 443 else case Atoi p of None \<Rightarrow> Inl InvalidPort | Some n \<Rightarrow> if n < 1 \<or> 65535 < n then Inl InvalidPort else Inr n)"

definition profileURL :: "string \<Rightarrow> int \<Rightarrow> string \<Rightarrow> string" where
  "profileURL host port clientID =
     ''https://'' @ host @ (if port \<noteq> 443 then '':'' @ Itoa port else []) @ ''/dns-query'' @ (if clientID \<noteq> [] then ''/'' @ clientID else [])"

subsection \<open>The property list\<close>

abbreviation tab :: char where "tab \<equiv> CHR 0x09"

definition pline :: "nat \<Rightarrow> string \<Rightarrow> string" where
  "pline n s = replicate n tab @ s @ [newline]"

text \<open>The literal parts between the values that are filled in.\<close>

definition profilePart1 :: string where
  "profilePart1 =
     pline 0 ''<?xml version=\"1.0\" encoding=\"UTF-8\"?>'' @
     pline 0 ''<!DOCTYPE plist PUBLIC \"-//Apple//DTD PLIST 1.0//EN\" \"http://www.apple.com/DTDs/PropertyList-1.0.dtd\">'' @
     pline 0 ''<plist version=\"1.0\">'' @
     pline 0 ''<dict>'' @
     pline 1 ''<key>PayloadDescription</key>'' @
     pline 1 ''<string>Adds BlipDNS DoH to iOS 14 / macOS Big Sur and newer</string>'' @
     pline 1 ''<key>PayloadDisplayName</key>'' @
     replicate 1 tab @
     ''<string>''"

definition profilePart2 :: string where
  "profilePart2 =
     pline 0 ''</string>'' @
     pline 1 ''<key>PayloadType</key>'' @
     pline 1 ''<string>Configuration</string>'' @
     pline 1 ''<key>PayloadScope</key>'' @
     pline 1 ''<string>System</string>'' @
     pline 1 ''<key>PayloadContent</key>'' @
     pline 1 ''<array>'' @
     pline 2 ''<dict>'' @
     pline 3 ''<key>DNSSettings</key>'' @
     pline 3 ''<dict>'' @
     pline 4 ''<key>DNSProtocol</key>'' @
     pline 4 ''<string>HTTPS</string>'' @
     pline 4 ''<key>ServerURL</key>'' @
     replicate 4 tab @
     ''<string>''"

definition profilePart3 :: string where
  "profilePart3 =
     pline 0 ''</string>'' @
     pline 3 ''</dict>'' @
     pline 3 ''<key>OnDemandEnabled</key>'' @
     pline 3 ''<integer>1</integer>'' @
     pline 3 ''<key>OnDemandRules</key>'' @
     pline 3 ''<array>'' @
     pline 4 ''<dict>'' @
     pline 5 ''<key>Action</key>'' @
     pline 5 ''<string>Connect</string>'' @
     pline 4 ''</dict>'' @
     pline 3 ''</array>'' @
     pline 3 ''<key>PayloadType</key>'' @
     pline 3 ''<string>com.apple.dnsSettings.managed</string>'' @
     pline 3 ''<key>PayloadIdentifier</key>'' @
     replicate 3 tab @
     ''<string>com.apple.dnsSettings.managed.''"

definition profilePart4 :: string where
  "profilePart4 =
     pline 0 ''</string>'' @
     pline 3 ''<key>PayloadDisplayName</key>'' @
     replicate 3 tab @
     ''<string>''"

definition profilePart5 :: string where
  "profilePart5 =
     pline 0 ''</string>'' @
     pline 3 ''<key>PayloadDescription</key>'' @
     pline 3 ''<string>Configures device to use BlipDNS over HTTPS</string>'' @
     pline 3 ''<key>PayloadUUID</key>'' @
     replicate 3 tab @
     ''<string>''"

definition profilePart6 :: string where
  "profilePart6 =
     pline 0 ''</string>'' @
     pline 3 ''<key>PayloadVersion</key>'' @
     pline 3 ''<integer>1</integer>'' @
     pline 2 ''</dict>'' @
     pline 1 ''</array>'' @
     pline 1 ''<key>PayloadIdentifier</key>'' @
     replicate 1 tab @
     ''<string>''"

definition profilePart7 :: string where
  "profilePart7 =
     pline 0 ''</string>'' @
     pline 1 ''<key>PayloadUUID</key>'' @
     replicate 1 tab @
     ''<string>''"

definition profilePart8 :: string where
  "profilePart8 =
     pline 0 ''</string>'' @
     pline 1 ''<key>PayloadVersion</key>'' @
     pline 1 ''<integer>1</integer>'' @
     pline 1 ''<key>PayloadRemovalDisallowed</key>'' @
     pline 1 ''<false/>'' @
     pline 0 ''</dict>'' @
     pline 0 ''</plist>''"

definition profileUUID :: "u8 list \<Rightarrow> string" where
  "profileUUID b0 =
     (let b = b0[6 := ((b0 ! 6) AND 15) OR 64, 8 := ((b0 ! 8) AND 63) OR 128]; hex = (\<lambda>l. ToUpper (genToken l)) in
      hex (take 4 b) @ ''-'' @ hex (take 2 (drop 4 b)) @ ''-'' @ hex (take 2 (drop 6 b)) @ ''-'' @ hex (take 2 (drop 8 b)) @ ''-'' @ hex (take 6 (drop 10 b)))"

definition buildDoHMobileConfig :: "string \<Rightarrow> string \<Rightarrow> u8 list \<Rightarrow> u8 list \<Rightarrow> u8 list \<Rightarrow> u8 list \<Rightarrow> string" where
  "buildDoHMobileConfig host serverURL b1 b2 b3 b4 =
     (let display = host @ '' DoH'' in
      profilePart1 @ profileEsc display @ profilePart2 @ profileEsc serverURL @ profilePart3 @ profileUUID b1 @ profilePart4 @ profileEsc display @
      profilePart5 @ profileUUID b2 @ profilePart6 @ profileUUID b3 @ profilePart7 @ profileUUID b4 @ profilePart8)"

definition handleDoHMobileConfig :: "('w \<Rightarrow> 'w \<times> u8 list) \<Rightarrow> HTTPRequest \<Rightarrow> 'w \<Rightarrow> 'w \<times> (ProfileError, string) result" where
  "handleDoHMobileConfig rand16 r w =
     (if hr_Method r \<noteq> ''GET'' then (w, Inl MethodNotAllowed)
      else case normalizeProfileHost (TrimSpace (getOr (hr_Query r) ''host'')) of
             Inl e \<Rightarrow> (w, Inl e)
           | Inr host \<Rightarrow>
          (case profilePort (TrimSpace (getOr (hr_Query r) ''port'')) of
             Inl e \<Rightarrow> (w, Inl e)
           | Inr port \<Rightarrow>
               let clientID = TrimSpace (getOr (hr_Query r) ''client_id'') in
               if 64 < length clientID \<or> ContainsAny clientID (tab # ''/?# '') then (w, Inl InvalidClientID)
               else (case rand16 w of (w1, b1) \<Rightarrow> case rand16 w1 of (w2, b2) \<Rightarrow> case rand16 w2 of (w3, b3) \<Rightarrow> case rand16 w3 of (w4, b4) \<Rightarrow>
                 (w4, Inr (buildDoHMobileConfig host (profileURL host port clientID) b1 b2 b3 b4)))))"

subsection \<open>Escaped text is only text\<close>

lemma contBytes_high: "contBytes n lo hi s \<Longrightarrow> 128 \<le> lo \<Longrightarrow> x \<in> set (take n s) \<Longrightarrow> 128 \<le> byte x"
  by (cases s; cases n) (auto simp: contBytes_def list_all_iff)

lemma DecodeRune_own:
  assumes "DecodeRune (c # cs) = (r, width)"
  shows "(byte c < 128 \<and> r = byte c \<and> width = 1) \<or> (128 \<le> byte c \<and> (\<forall>x \<in> set (take width (c # cs)). 128 \<le> byte x))"
proof (cases "byte c < 128")
  case True
  then show ?thesis using assms by (simp add: DecodeRune_def Let_def)
next
  case False
  have "\<forall>x \<in> set (take (width - 1) cs). 128 \<le> byte x"
    using assms False by (auto simp: DecodeRune_def Let_def dest: contBytes_high split: if_splits)
  then show ?thesis using False by (cases width) auto
qed

definition markupByte :: "char \<Rightarrow> bool" where
  "markupByte c \<longleftrightarrow> c \<in> set [CHR ''<'', CHR ''>'', CHR 0x22, CHR 0x27]"

lemma markupByte_low: "markupByte x \<Longrightarrow> byte x \<in> {60, 62, 34, 39}"
  by (auto simp: markupByte_def)

lemma byte_special:
  "byte c = 34 \<longleftrightarrow> c = CHR 0x22" "byte c = 39 \<longleftrightarrow> c = CHR 0x27" "byte c = 38 \<longleftrightarrow> c = CHR ''&''" "byte c = 60 \<longleftrightarrow> c = CHR ''<''"
  "byte c = 62 \<longleftrightarrow> c = CHR ''>''"
  using of_char_eq_iff [of c "CHR 0x22", where 'a = nat] of_char_eq_iff [of c "CHR 0x27", where 'a = nat] of_char_eq_iff [of c "CHR ''&''", where 'a = nat]
    of_char_eq_iff [of c "CHR ''<''", where 'a = nat] of_char_eq_iff [of c "CHR ''>''", where 'a = nat]
  by simp_all

lemma escapeRune_text:
  assumes "DecodeRune (c # cs) = (r, width)" "x \<in> set (escapeRune r width (take width (c # cs)))"
  shows "\<not> markupByte x"
  using DecodeRune_own [OF assms(1)]
proof (elim disjE conjE)
  assume "byte c < 128" "r = byte c" "width = 1"
  then show ?thesis using assms(2) markupByte_low [of x]
    by (auto simp: escapeRune_def replacement_def markupByte_def split: if_splits)
next
  assume "128 \<le> byte c" "\<forall>x \<in> set (take width (c # cs)). 128 \<le> byte x"
  then show ?thesis using assms(2) markupByte_low [of x]
    by (auto simp: escapeRune_def replacement_def markupByte_def split: if_splits)
qed

lemma EscapeText_text: "x \<in> set (EscapeText s) \<Longrightarrow> \<not> markupByte x"
proof (induction s rule: EscapeText.induct)
  case (1 s)
  show ?case
  proof (cases s)
    case Nil
    then show ?thesis using "1.prems" by (simp add: EscapeText.simps)
  next
    case (Cons c cs)
    obtain r width where d: "DecodeRune s = (r, width)" by force
    have "EscapeText s = escapeRune r width (take width s) @ EscapeText (drop width s)" using Cons d by (subst EscapeText.simps) simp
    with "1.prems" consider "x \<in> set (escapeRune r width (take width s))" | "x \<in> set (EscapeText (drop width s))" by auto
    then show ?thesis using escapeRune_text [of c cs r width x] d Cons "1.IH" [OF _ d [symmetric]] by cases auto
  qed
qed

text \<open>What an XML reader makes of the text: the entities decoded.\<close>

definition entities :: "(string \<times> char) list" where
  "entities = [(''&#34;'', CHR 0x22), (''&#39;'', CHR 0x27), (''&amp;'', CHR ''&''), (''&lt;'', CHR ''<''), (''&gt;'', CHR ''>''),
     (''&#x9;'', CHR 0x09), (''&#xA;'', CHR 0x0A), (''&#xD;'', CHR 0x0D)]"

fun xmlText :: "string \<Rightarrow> string" where
  "xmlText [] = []"
| "xmlText (c # cs) =
     (case find (\<lambda>e. HasPrefix (c # cs) (fst e)) entities of
        Some e \<Rightarrow> snd e # xmlText (drop (length (fst e) - 1) cs)
      | None \<Rightarrow> c # xmlText cs)"

lemma xmlText_plain: "c \<noteq> CHR ''&'' \<Longrightarrow> xmlText (c # cs) = c # xmlText cs"
  by (simp add: entities_def HasPrefix_def)

lemma HasPrefix_Cons: "HasPrefix (c # cs) (d # ds) \<longleftrightarrow> c = d \<and> HasPrefix cs ds"
  by (auto simp: HasPrefix_def)

lemma HasPrefix_Nil: "HasPrefix s []"
  by (simp add: HasPrefix_def)

lemma xmlText_entities:
  "xmlText (''&#34;'' @ t) = CHR 0x22 # xmlText t" "xmlText (''&#39;'' @ t) = CHR 0x27 # xmlText t" "xmlText (''&amp;'' @ t) = CHR ''&'' # xmlText t"
  "xmlText (''&lt;'' @ t) = CHR ''<'' # xmlText t" "xmlText (''&gt;'' @ t) = CHR ''>'' # xmlText t"
  by (simp_all add: entities_def HasPrefix_Cons HasPrefix_Nil)

definition printable :: "char \<Rightarrow> bool" where
  "printable c \<longleftrightarrow> 32 \<le> byte c \<and> byte c < 127"

lemma EscapeText_Cons: "printable c \<Longrightarrow> EscapeText (c # cs) = escapeRune (byte c) 1 [c] @ EscapeText cs"
  by (subst EscapeText.simps) (simp add: DecodeRune_def printable_def)

lemma xmlText_rune: "printable c \<Longrightarrow> xmlText (escapeRune (byte c) 1 [c] @ t) = c # xmlText t"
proof (cases "byte c \<in> {34, 39, 38, 60, 62}")
  case True
  then have "c \<in> {CHR 0x22, CHR 0x27, CHR ''&'', CHR ''<'', CHR ''>''}" by (simp add: byte_special)
  then show ?thesis using xmlText_entities [of t]
    by (elim insertE emptyE) (simp_all only: escapeRune_def, simp_all del: xmlText.simps)
next
  case False
  assume p: "printable c"
  have "c \<noteq> CHR ''&''" using False by auto
  moreover have "escapeRune (byte c) 1 [c] = [c]" using False p by (auto simp: escapeRune_def printable_def isInCharacterRange_def)
  ultimately show ?thesis using xmlText_plain by simp
qed

lemma xmlText_EscapeText: "list_all printable s \<Longrightarrow> xmlText (EscapeText s) = s"
proof (induction s)
  case (Cons c s)
  then show ?case using xmlText_rune [of c "EscapeText s"] by (simp add: EscapeText_Cons)
qed (simp add: EscapeText.simps)

subsection \<open>The address\<close>

definition hostChar :: "char \<Rightarrow> bool" where
  "hostChar c \<longleftrightarrow> labelChar c \<or> c \<in> set ''.:[]''"

lemma set_Join: "set (Join ps s) \<subseteq> \<Union> (set (map set ps)) \<union> set s"
  by (induction ps s rule: Join.induct) auto

lemma hexDigit_host: "n < 16 \<Longrightarrow> hostChar (hexDigit n)"
  by (auto simp: hexDigit_def hostChar_def labelChar_def)

lemma hexString_host: "c \<in> set (hexString n) \<Longrightarrow> hostChar c"
proof (induction n rule: hexString.induct)
  case (1 n)
  then show ?case using hexDigit_host by (subst (asm) hexString.simps) (auto split: if_splits)
qed

lemma ItoaNat_host: "c \<in> set (ItoaNat n) \<Longrightarrow> hostChar c"
  using ItoaNat_digits [of n] by (auto simp: list_all_iff isDigit_def hostChar_def labelChar_def Let_def)

lemma IP_String_host: "ip \<noteq> [] \<Longrightarrow> length ip = 4 \<or> length ip = 16 \<Longrightarrow> c \<in> set (IP_String ip) \<Longrightarrow> hostChar c"
proof -
  have groups: "hostChar c" if "c \<in> set (Join (map hexString gs) '':'')" for gs
    using subsetD [OF set_Join that] hexString_host by (auto simp: hostChar_def)
  have bytes: "hostChar c" if "c \<in> set (joinBytes bs)" for bs
    using subsetD [OF set_Join that [unfolded joinBytes.simps]] ItoaNat_host by (auto simp: hostChar_def)
  assume "ip \<noteq> []" "length ip = 4 \<or> length ip = 16" "c \<in> set (IP_String ip)"
  then have "c \<in> set (joinBytes (To4 ip)) \<or> c \<in> set (ip6String ip)" by (auto simp: IP_String_def split: if_splits)
  then show ?thesis
  proof
    assume "c \<in> set (ip6String ip)"
    then have "(\<exists>gs. c \<in> set (Join (map hexString gs) '':'')) \<or> c = CHR '':''"
      by (auto simp: ip6String_def Let_def split: prod.splits if_splits)
    then show ?thesis using groups by (auto simp: hostChar_def)
  qed (rule bytes)
qed

lemma ParseIP_16: "ParseIP s \<noteq> [] \<Longrightarrow> length (ParseIP s) = 16"
  by (auto simp: ParseIP_def To16_def v4InV6Prefix_def split: option.splits if_splits)

lemma Split_chars: "c \<in> set s \<Longrightarrow> c = sep \<or> (\<exists>p \<in> set (Split s sep). c \<in> set p)"
proof -
  assume "c \<in> set s"
  then have "c \<in> set (Join (Split s sep) [sep])" by simp
  from subsetD [OF set_Join this] show ?thesis by auto
qed

lemma normalizeProfileHost_chars:
  assumes "normalizeProfileHost h = Inr host"
  shows "list_all hostChar host"
proof (cases "ParseIP (Trim h ''[]'') = []")
  case True
  then have h: "h \<noteq> []" "host = h" "list_all goodLabel (Split h (CHR ''.''))"
    using assms by (auto simp: normalizeProfileHost_def Let_def split: if_splits)
  then have "hostChar c" if "c \<in> set h" for c
    using Split_chars [OF that, of "CHR ''.''"] by (auto simp: goodLabel_def list_all_iff hostChar_def)
  then show ?thesis using h by (simp add: list_all_iff)
next
  case False
  let ?ip = "ParseIP (Trim h ''[]'')"
  have "list_all hostChar (IP_String ?ip)" using IP_String_host [OF False] ParseIP_16 [OF False] by (simp add: list_all_iff)
  moreover have "hostChar (CHR ''['')" "hostChar (CHR '']'')" by (simp_all add: hostChar_def)
  ultimately show ?thesis using assms False by (simp add: normalizeProfileHost_def Let_def split: if_splits) auto
qed

subsection \<open>The markup\<close>

text \<open>The tags of a document: everything from an opening bracket to the closing one.\<close>

fun markup :: "bool \<Rightarrow> string \<Rightarrow> string" where
  "markup inTag [] = []"
| "markup inTag (c # cs) =
     (if inTag then c # markup (c \<noteq> CHR ''>'') cs else if c = CHR ''<'' then c # markup True cs else markup False cs)"

fun endsInTag :: "bool \<Rightarrow> string \<Rightarrow> bool" where
  "endsInTag inTag [] = inTag"
| "endsInTag inTag (c # cs) = endsInTag (if inTag then c \<noteq> CHR ''>'' else c = CHR ''<'') cs"

lemma markup_append: "markup t (a @ b) = markup t a @ markup (endsInTag t a) b"
  by (induction t a rule: markup.induct) auto

lemma markup_text: "CHR ''<'' \<notin> set a \<Longrightarrow> markup False (a @ b) = markup False b"
  by (induction a) auto

lemma parts_closed:
  "\<not> endsInTag False profilePart1" "\<not> endsInTag False profilePart2" "\<not> endsInTag False profilePart3" "\<not> endsInTag False profilePart4"
  "\<not> endsInTag False profilePart5" "\<not> endsInTag False profilePart6" "\<not> endsInTag False profilePart7"
  by code_simp+

lemma esc_no_tag: "CHR ''<'' \<notin> set (profileEsc s)"
  using EscapeText_text by (auto simp: profileEsc_def markupByte_def)

lemma uuid_no_tag: "CHR ''<'' \<notin> set (profileUUID b)"
proof -
  have hexs: "upperChar (hexDigit n) \<noteq> CHR ''<''" if "n < 16" for n
  proof -
    have "byte (upperChar (hexDigit n)) \<noteq> 60" using that by (simp add: upperChar_def hexDigit_def Let_def)
    then show ?thesis by auto
  qed
  have tok: "CHR ''<'' \<notin> set (ToUpper (genToken l))" for l
  proof -
    have small: "unat x < 256" for x :: u8 using unsigned_less [of x] by simp
    have "upperChar (hexDigit (unat x div 16)) \<noteq> CHR ''<''" "upperChar (hexDigit (unat x mod 16)) \<noteq> CHR ''<''" for x :: u8
      using small [of x] by (auto intro!: hexs)
    then show ?thesis by (simp add: genToken_def ToUpper_def image_iff) (metis (full_types))
  qed
  show ?thesis using tok by (auto simp: profileUUID_def Let_def)
qed

definition profileMarkup :: string where
  "profileMarkup = concat (map (markup False)
     [profilePart1, profilePart2, profilePart3, profilePart4, profilePart5, profilePart6, profilePart7, profilePart8])"

lemma build_markup: "markup False (buildDoHMobileConfig host url b1 b2 b3 b4) = profileMarkup"
  by (simp add: buildDoHMobileConfig_def Let_def profileMarkup_def markup_append [of _ "profilePart1"] markup_append [of _ "profilePart2"]
      markup_append [of _ "profilePart3"] markup_append [of _ "profilePart4"] markup_append [of _ "profilePart5"] markup_append [of _ "profilePart6"]
      markup_append [of _ "profilePart7"] parts_closed markup_text esc_no_tag uuid_no_tag)


definition profileRequest :: HTTPRequest where
  "profileRequest = apiRequest ''GET'' ''/api/doh-mobileconfig'' []\<lparr>hr_Query := [(''host'', ''dns.example.com''), (''port'', ''8443''), (''client_id'', ''a<b'')]\<rparr>"


end
