(* ===== verification/Spec2Isabelle.thy ===== *)
theory Spec2Isabelle
  imports Blip_Startup Blip_Web Blip_QueryLog Blip_Release Blip_Node Blip_Profile
begin

text \<open>Verification of BlipDNS.\<close>

end
